(* ===== verification/HAL_Prelude.thy ===== *)
theory HAL_Prelude
  imports Complex_Main "HOL-Library.Word" "HOL-Library.Multiset"
begin

text \<open>
  Shared by every component: the machine integers of the C++ code as words, the errno
  values the HAL returns, tests of flag bits, and the lemmas on arrays (lists updated by
  index), first-match loops and flag masks that the component proofs use.

  A C++ \<open>int\<close> whose bits or wrap-around the code uses is a \<open>32 word\<close> read with
  \<open>sint\<close>; an \<open>int\<close> that is only compared or copied is an Isabelle \<open>int\<close>.  A \<open>size_t\<close>
  is a \<open>64 word\<close> (the HAL is built for LP64 targets).
\<close>

unbundle bit_operations_syntax

type_synonym u8 = "8 word"
type_synonym i32 = "32 word"
type_synonym u32 = "32 word"
type_synonym i64 = "64 word"
type_synonym u64 = "64 word"
type_synonym size_t = "64 word"

section \<open>Proof collections\<close>

named_theorems hal_simps \<open>rewrite rules for the operations of the components\<close>
named_theorems hal_inv \<open>invariant preservation, as introduction rules\<close>

section \<open>errno\<close>

definition EINVAL :: int where [simp]: "EINVAL = 22"
definition ENODEV :: int where [simp]: "ENODEV = 19"

section \<open>Flag bits\<close>

text \<open>The C++ condition \<open>if (flags & mask)\<close>.\<close>

definition has_flag :: "'a::len word \<Rightarrow> 'a word \<Rightarrow> bool" where
  "has_flag x m \<longleftrightarrow> x AND m \<noteq> 0"

lemma has_flag_iff_bit: "has_flag x m \<longleftrightarrow> (\<exists>n. bit x n \<and> bit m n)"
  by (auto simp: has_flag_def bit_eq_iff bit_and_iff dest: bit_imp_le_length)

lemma has_flag_0 [simp]: "\<not> has_flag 0 m" "\<not> has_flag x 0"
  by (simp_all add: has_flag_def)

lemma has_flag_or [simp]: "has_flag (x OR y) m \<longleftrightarrow> has_flag x m \<or> has_flag y m"
  by (auto simp: has_flag_iff_bit bit_or_iff)

lemma has_flag_mask_or: "has_flag x (m OR n) \<longleftrightarrow> has_flag x m \<or> has_flag x n"
  by (auto simp: has_flag_iff_bit bit_or_iff)

lemma has_flag_set: "m \<noteq> 0 \<Longrightarrow> has_flag (x OR m) m"
  by (auto simp: has_flag_def)

lemma has_flag_clear: "\<not> has_flag (x AND NOT m) m"
  by (simp add: has_flag_def and.assoc)

lemma has_flag_clear_other: "m AND n = 0 \<Longrightarrow> has_flag (x AND NOT m) n \<longleftrightarrow> has_flag x n"
  by (auto simp: has_flag_iff_bit bit_and_iff bit_not_iff bit_eq_iff intro: bit_imp_le_length)

lemma has_flag_pow: "has_flag x (2 ^ n) \<longleftrightarrow> bit x n"
  by (simp add: has_flag_def and_exp_eq_0_iff_not_bit)

section \<open>First match in an array\<close>

text \<open>
  The loop \<open>for (i = 0; i < n; i++) if (P(i)) { ... break; }\<close>: the first index at which
  the condition holds.
\<close>

definition first_index :: "('a \<Rightarrow> bool) \<Rightarrow> 'a list \<Rightarrow> nat option" where
  "first_index P xs = find (\<lambda>i. P (xs ! i)) [0..<length xs]"

lemma first_index_SomeD:
  assumes "first_index P xs = Some i"
  shows "i < length xs" "P (xs ! i)" "\<And>j. j < i \<Longrightarrow> \<not> P (xs ! j)"
proof -
  from assms obtain k where k: "k < length xs" "P (xs ! ([0..<length xs] ! k))"
      "i = [0..<length xs] ! k" "\<forall>j<k. \<not> P (xs ! ([0..<length xs] ! j))"
    by (auto simp: first_index_def find_Some_iff)
  then have [simp]: "i = k" by simp
  show "i < length xs" "P (xs ! i)" using k by auto
  show "\<not> P (xs ! j)" if "j < i" for j using k that by auto
qed

lemma first_index_None: "first_index P xs = None \<longleftrightarrow> (\<forall>x\<in>set xs. \<not> P x)"
  by (force simp: first_index_def find_None_iff in_set_conv_nth)

lemma first_index_SomeI:
  "i < length xs \<Longrightarrow> P (xs ! i) \<Longrightarrow> \<exists>j\<le>i. first_index P xs = Some j"
proof (cases "first_index P xs")
  case None
  assume "i < length xs" "P (xs ! i)"
  with None show ?thesis by (auto simp: first_index_None)
next
  case (Some j)
  assume "i < length xs" "P (xs ! i)"
  then have "j \<le> i" using first_index_SomeD(3)[OF Some, of i] by (meson not_le)
  with Some show ?thesis by blast
qed

section \<open>Arrays and multisets\<close>

lemma mset_remove1_eq: "x \<in> set xs \<Longrightarrow> add_mset x (mset (remove1 x xs)) = mset xs"
  by simp

lemma map_list_update_same: "f x = f (xs ! i) \<Longrightarrow> map f (xs[i := x]) = map f xs"
  by (metis list_update_id map_update)

lemma set_list_update_subset: "y \<in> set (xs[i := x]) \<Longrightarrow> y = x \<or> y \<in> set xs"
  using set_update_subset_insert by fastforce

lemma nth_update_if: "j < length xs \<Longrightarrow> xs[i := x] ! j = (if i = j then x else xs ! j)"
  by (cases "i = j") auto

text \<open>The loop \<open>for (i = 0; i < n; i++)\<close> keeps an invariant.\<close>

lemma fold_upt_inv:
  assumes "P 0 s" "\<And>k s. k < n \<Longrightarrow> P k s \<Longrightarrow> P (Suc k) (f k s)"
  shows "P n (fold f [0..<n] s)"
  using assms by (induction n) (simp_all add: less_Suc_eq)

section \<open>Machine arithmetic against exact arithmetic\<close>

lemma sint_small:
  assumes "unat (x :: i32) < 2^31"
  shows "sint x = int (unat x)"
proof -
  have "int (unat x) < 2^31" using assms by (metis of_nat_less_iff of_nat_numeral of_nat_power)
  then have "uint x < 2^31" by (simp only: uint_nat)
  moreover have "0 \<le> uint x" by simp
  ultimately show ?thesis
    by (simp only: sint_uint uint_nat[symmetric])
       (rule signed_take_bit_int_eq_self, auto intro: order_trans[of _ 0])
qed

lemma unat_and_not_mask: "unat (x AND NOT (mask k) :: 'a::len word) = unat x div 2^k * 2^k"
proof -
  have "x AND NOT (mask k) = push_bit k (drop_bit k x)"
    by (rule bit_word_eqI) (auto simp: bit_simps)
  moreover have "unat x div 2^k * 2^k < 2 ^ LENGTH('a)"
    by (rule le_less_trans[OF div_times_less_eq_dividend unsigned_less])
  then have "unat (push_bit k (drop_bit k x)) = unat x div 2^k * 2^k"
    by (simp only: unsigned_push_bit_eq[where 'a=nat] unsigned_drop_bit_eq[where 'a=nat]
        push_bit_eq_mult[where 'a=nat] drop_bit_eq_div[where 'a=nat] take_bit_nat_eq_self unsigned_less)
  ultimately show ?thesis by simp
qed

lemma scast32_nat: "unat (x :: i32) < 2^31 \<Longrightarrow> scast x = (word_of_nat (unat x) :: size_t)"
  by (simp only: scast_eq sint_small of_int_of_nat_eq)

lemma unat64: "n < 2^64 \<Longrightarrow> unat (word_of_nat n :: size_t) = n"
  by (simp add: unat_of_nat)

lemma unat32: "n < 2^32 \<Longrightarrow> unat (word_of_nat n :: i32) = n"
  by (simp add: unat_of_nat)

lemma div64:
  "m < 2^64 \<Longrightarrow> n < 2^64 \<Longrightarrow> (word_of_nat m :: size_t) div word_of_nat n = word_of_nat (m div n)"
  by (metis unat64 word_arith_nat_div)

lemma ucast64: "(ucast (word_of_nat n :: size_t) :: i32) = word_of_nat n"
  by (rule bit_word_eqI) (auto simp: bit_simps)

text \<open>Rounding up to a multiple, and its implementation by adding and masking.\<close>

definition align_up :: "nat \<Rightarrow> nat \<Rightarrow> nat" where
  "align_up n x = (x + (n - 1)) div n * n"

lemma align_up_ge: "0 < n \<Longrightarrow> x \<le> align_up n x"
proof -
  assume n: "0 < n"
  have "(x + (n - 1)) div n * n + (x + (n - 1)) mod n = x + (n - 1)"
    by (rule div_mult_mod_eq)
  moreover have "(x + (n - 1)) mod n < n" using n by (rule mod_less_divisor)
  ultimately show ?thesis unfolding align_up_def using n by linarith
qed

lemma align_up_le: "align_up n x \<le> x + (n - 1)"
  by (simp add: align_up_def)

lemma align_up_dvd: "n dvd align_up n x"
  by (simp add: align_up_def)

lemma align_word:
  assumes "unat (x :: i32) + 255 < 2^31" "n = 2^k - 1" "k \<le> 8"
  shows "unat ((x + word_of_nat n) AND NOT (mask k)) = align_up (2^k) (unat x)"
proof -
  have "(2::nat)^k \<le> 2^8" using assms(3) by (rule power_increasing) simp
  then have n: "n \<le> 255" using assms(2) by simp
  have "x + word_of_nat n = word_of_nat (unat x + n)" by simp
  moreover have "unat x + n < 2^32" using assms(1) n by simp
  ultimately have "unat (x + word_of_nat n) = unat x + n" by (simp only: unat32)
  then show ?thesis unfolding unat_and_not_mask align_up_def using assms(2) by simp
qed

end
