(* ===== verification/Display_Config.thy ===== *)
theory Display_Config
  imports HAL_Prelude "HOL-Library.Log_Nat"
begin

text \<open>
  The display configurations: \<open>DisplayConfig\<close> and the configuration part of \<open>Display\<close>
  (\<open>display/display/Display.h\<close>, \<open>Display.cpp\<close>) and of \<open>KmsDisplay\<close>
  (\<open>display/display/KmsDisplay.cpp\<close>).  \<open>mConfigs\<close>, an \<open>unordered_map\<close>, is an association list
  with distinct keys: its \<open>size\<close> is the length, \<open>emplace\<close> keeps an existing entry, and
  \<open>operator[]\<close> inserts a zero entry for a missing key.  Refresh rates are real numbers, and a
  quotient of floats is rounded to a float.
\<close>

section \<open>The map of configurations\<close>

record display_config =
  mXres :: int
  mYres :: int
  cFormat :: int
  mBytespixel :: int
  cStride :: int
  mFps :: real
  mVsyncPeriod :: int
  mXdpi :: int
  mYdpi :: int
  cfgGroupId :: int
  modeIdx :: int

definition config0 :: display_config where
  "config0 = \<lparr>mXres = 0, mYres = 0, cFormat = 0, mBytespixel = 0, cStride = 0, mFps = 0,
     mVsyncPeriod = 0, mXdpi = 0, mYdpi = 0, cfgGroupId = 0, modeIdx = 0\<rparr>"

record config_state =
  mActiveConfig :: int
  mConfigs :: "(int \<times> display_config) list"
  mFirstConfigId :: int

definition emplace :: "'k \<Rightarrow> 'v \<Rightarrow> ('k \<times> 'v) list \<Rightarrow> ('k \<times> 'v) list" where
  "emplace k v m = (if map_of m k = None then m @ [(k, v)] else m)"

definition index_op :: "int \<Rightarrow> (int \<times> display_config) list \<Rightarrow>
    display_config \<times> (int \<times> display_config) list" where
  "index_op k m = (let m' = emplace k config0 m in (the (map_of m' k), m'))"

definition FLOAT_TOLERANCE :: real where "FLOAT_TOLERANCE = 1/100"
definition DEFAULT_REFRESH_RATE :: int where "DEFAULT_REFRESH_RATE = 60"
definition RESERVED_DISPLAY_GROUP_ID :: int where "RESERVED_DISPLAY_GROUP_ID = 100"

section \<open>Display\<close>

text \<open>\<open>Display::Display\<close> and \<open>clearConfigs\<close>.\<close>

definition configs_init :: config_state where
  "configs_init = \<lparr>mActiveConfig = -1, mConfigs = [], mFirstConfigId = 0\<rparr>"

definition clearConfigs :: "config_state \<Rightarrow> config_state" where
  "clearConfigs s = s\<lparr>mConfigs := [], mActiveConfig := -1\<rparr>"

definition config_matches :: "int \<Rightarrow> int \<Rightarrow> real \<Rightarrow> int \<Rightarrow> display_config \<Rightarrow> bool" where
  "config_matches width height fps format c \<longleftrightarrow>
     ((format \<noteq> -1 \<and> cFormat c = format) \<or> format = -1) \<and> mXres c = width \<and> mYres c = height \<and>
     \<bar>mFps c - fps\<bar> < FLOAT_TOLERANCE"

text \<open>The loop over the ids from \<open>mFirstConfigId\<close> on, as many as there are entries.\<close>

definition findDisplayConfig :: "int \<Rightarrow> int \<Rightarrow> real \<Rightarrow> int \<Rightarrow> config_state \<Rightarrow> int" where
  "findDisplayConfig width height fps format s =
     (case find (\<lambda>i. case map_of (mConfigs s) (mFirstConfigId s + int i) of
                       None \<Rightarrow> False
                     | Some c \<Rightarrow> config_matches width height fps format c) [0..<length (mConfigs s)] of
        None \<Rightarrow> -1
      | Some i \<Rightarrow> mFirstConfigId s + int i)"

definition createDisplayConfig :: "int \<Rightarrow> int \<Rightarrow> real \<Rightarrow> int \<Rightarrow> config_state \<Rightarrow> int \<times> config_state" where
  "createDisplayConfig width height fps format s =
     (let id = findDisplayConfig width height fps format s
      in if id < 0 then
           (let config = config0\<lparr>mXres := width, mYres := height,
                  cFormat := (if format \<noteq> -1 then format else 0),
                  mFps := (if \<bar>fps\<bar> \<ge> FLOAT_TOLERANCE then fps else real_of_int DEFAULT_REFRESH_RATE)\<rparr>
            in (mFirstConfigId s,
                s\<lparr>mConfigs := emplace (mFirstConfigId s) config (mConfigs s),
                  mActiveConfig := mFirstConfigId s\<rparr>))
         else (id, s\<lparr>mActiveConfig := id\<rparr>))"

definition getConfigNum :: "config_state \<Rightarrow> nat" where
  "getConfigNum s = length (mConfigs s)"

definition getConfig :: "int \<Rightarrow> config_state \<Rightarrow> display_config \<times> config_state" where
  "getConfig k s = (case index_op k (mConfigs s) of (c, m) \<Rightarrow> (c, s\<lparr>mConfigs := m\<rparr>))"

definition getActiveConfig :: "config_state \<Rightarrow> display_config \<times> config_state" where
  "getActiveConfig s = getConfig (mActiveConfig s) s"

definition setActiveConfig :: "int \<Rightarrow> config_state \<Rightarrow> int \<times> config_state" where
  "setActiveConfig config s = (0, s\<lparr>mActiveConfig := config\<rparr>)"

definition getDisplayVsyncPeroid :: "config_state \<Rightarrow> int \<times> config_state" where
  "getDisplayVsyncPeroid s = (case getConfig (mActiveConfig s) s of (c, s') \<Rightarrow> (mVsyncPeriod c, s'))"

definition getConfigGroup :: "int \<Rightarrow> config_state \<Rightarrow> int \<times> config_state" where
  "getConfigGroup config s = (case getConfig config s of (c, s') \<Rightarrow> (cfgGroupId c, s'))"

text \<open>
  \<open>Display::changeDisplayConfig\<close> takes the lock and calls \<open>setActiveConfig\<close>, which takes it
  again.  The lock is the flag \<open>held\<close>; a thread that locks a mutex it holds never returns, the
  result \<open>None\<close>.
\<close>

definition locked :: "bool \<Rightarrow> (bool \<Rightarrow> ('r \<times> 's) option) \<Rightarrow> ('r \<times> 's) option" where
  "locked held body = (if held then None else body True)"

definition setActiveConfig_locked :: "int \<Rightarrow> config_state \<Rightarrow> bool \<Rightarrow> (int \<times> config_state) option" where
  "setActiveConfig_locked config s held = locked held (\<lambda>_. Some (setActiveConfig config s))"

definition changeDisplayConfig_base :: "int \<Rightarrow> config_state \<Rightarrow> bool \<Rightarrow> (int \<times> config_state) option" where
  "changeDisplayConfig_base config s held =
     locked held (\<lambda>h. map_option (\<lambda>(_, s'). (0, s')) (setActiveConfig_locked config s h))"

text \<open>\<open>getFormatSize\<close>: bytes per pixel.\<close>

definition getFormatSize :: "int \<Rightarrow> int" where
  "getFormatSize format =
     (if format \<in> {1, 2, 5, 0x2B} then 4 else if format = 3 then 3 else if format = 4 then 2
      else if format = 0x16 then 8 else 4)"

section \<open>KmsDisplay\<close>

record drm_mode =
  hdisplay :: int
  vdisplay :: int
  vrefresh :: int
  mode_type :: int

record kms_config = config_state +
  mDrmModes :: "drm_mode list"
  mMode :: drm_mode
  mModePrefered :: int
  mModeset :: bool
  mmUseConfigThread :: bool
  mRefreshRequired :: bool

definition mode_config :: "int \<Rightarrow> int \<Rightarrow> int \<Rightarrow> int \<Rightarrow> drm_mode \<Rightarrow> display_config \<Rightarrow> display_config" where
  "mode_config mmWidth mmHeight format i mode c =
     c\<lparr>mXres := hdisplay mode, mYres := vdisplay mode, mFps := real_of_int (vrefresh mode),
       cfgGroupId := i, modeIdx := i,
       mXdpi := (if mmWidth \<noteq> 0 then hdisplay mode * 25400 div mmWidth else 160000),
       mYdpi := (if mmHeight \<noteq> 0 then vdisplay mode * 25400 div mmHeight else 160000),
       mVsyncPeriod := (if vrefresh mode > 0 then 1000000000 div vrefresh mode
                        else 1000000000 div DEFAULT_REFRESH_RATE),
       cFormat := format, mBytespixel := getFormatSize format\<rparr>"

fun build_configs ::
    "int \<Rightarrow> int \<Rightarrow> int \<Rightarrow> drm_mode \<Rightarrow> nat \<Rightarrow> drm_mode list \<Rightarrow> int \<Rightarrow>
     display_config \<Rightarrow> (int \<times> display_config) list \<Rightarrow> (int \<times> display_config) list" where
  "build_configs mmw mmh format cur i [] configId c m = m"
| "build_configs mmw mmh format cur i (mode # modes) configId c m =
     (let c' = mode_config mmw mmh format (int i) mode c
      in if \<bar>mFps c' - real_of_int (vrefresh cur)\<bar> < FLOAT_TOLERANCE
         then build_configs mmw mmh format cur (Suc i) modes (configId + 1) c' (emplace configId c' m)
         else build_configs mmw mmh format cur (Suc i) modes configId c' m)"

definition buildDisplayConfigs :: "int \<Rightarrow> int \<Rightarrow> int \<Rightarrow> kms_config \<Rightarrow> kms_config" where
  "buildDisplayConfigs mmWidth mmHeight format0 s =
     (let format = (if format0 = -1 then 1 else format0)
      in s\<lparr>mConfigs := build_configs mmWidth mmHeight format (mMode s) 0 (mDrmModes s)
              (mFirstConfigId s) config0 []\<rparr>)"

definition trunc :: "real \<Rightarrow> int" where
  "trunc x = (if 0 \<le> x then \<lfloor>x\<rfloor> else \<lceil>x\<rceil>)"

text \<open>
  A quotient of floats is rounded to the nearest number with a significand of 24 bits, to the even
  one of two.
\<close>

definition float_nearest :: "real \<Rightarrow> real" where
  "float_nearest x =
     (let u = 2 powr real_of_int (bitlen \<lfloor>\<bar>x\<bar>\<rfloor> - 24);
          y = \<bar>x\<bar> / u; f = \<lfloor>y\<rfloor>; d = y - real_of_int f;
          n = (if d < 1/2 \<or> d = 1/2 \<and> even f then f else f + 1)
      in sgn x * real_of_int n * u)"

text \<open>
  \<open>KmsDisplay::createDisplayConfig\<close>; \<open>mVsyncPeriod\<close> is the truncation of a quotient of floats.
\<close>

definition kms_new_config :: "int \<Rightarrow> int \<Rightarrow> real \<Rightarrow> int \<Rightarrow> int \<Rightarrow> display_config" where
  "kms_new_config width height fps0 format0 prefered =
     (let format = (if format0 = -1 then 1 else format0);
          fps = (if \<bar>fps0\<bar> < FLOAT_TOLERANCE then real_of_int DEFAULT_REFRESH_RATE else fps0)
      in config0\<lparr>modeIdx := prefered, mXdpi := 160000, mYdpi := 160000,
           mVsyncPeriod := trunc (float_nearest (1000000000 / fps)), mBytespixel := getFormatSize format,
           cfgGroupId := RESERVED_DISPLAY_GROUP_ID, mXres := width, mYres := height,
           cFormat := format, mFps := fps\<rparr>)"

definition kms_createDisplayConfig ::
    "int \<Rightarrow> int \<Rightarrow> real \<Rightarrow> int \<Rightarrow> kms_config \<Rightarrow> int \<times> kms_config" where
  "kms_createDisplayConfig width height fps format s =
     (let id = findDisplayConfig width height fps format
                 \<lparr>mActiveConfig = mActiveConfig s, mConfigs = mConfigs s, mFirstConfigId = mFirstConfigId s\<rparr>
      in if mFirstConfigId s \<le> id \<and> id < mFirstConfigId s + int (length (mConfigs s)) \<and>
            modeIdx (fst (index_op id (mConfigs s))) = mModePrefered s
         then (id, s)
         else
           (let id' = mFirstConfigId s + int (length (mConfigs s))
            in (id', s\<lparr>mConfigs := emplace id' (kms_new_config width height fps format (mModePrefered s))
                                     (mConfigs s)\<rparr>)))"

definition setNewDrmMode :: "int \<Rightarrow> kms_config \<Rightarrow> int \<times> kms_config" where
  "setNewDrmMode index s =
     (0, if 0 \<le> index \<and> index < int (length (mDrmModes s))
         then s\<lparr>mMode := mDrmModes s ! nat index, mModeset := True\<rparr> else s)"

text \<open>
  \<open>setActiveConfigLocked\<close>; the flag tells whether the frame buffers were reallocated.
\<close>

definition setActiveConfigLocked :: "int \<Rightarrow> kms_config \<Rightarrow> (int \<times> bool) \<times> kms_config" where
  "setActiveConfigLocked configId s =
     (if mActiveConfig s = configId then ((0, False), s)
      else if configId < mFirstConfigId s \<or>
              configId \<ge> mFirstConfigId s + int (length (mConfigs s)) then ((- EINVAL, False), s)
      else ((0, True), s\<lparr>mActiveConfig := configId\<rparr>))"

definition kms_setActiveConfig :: "int \<Rightarrow> kms_config \<Rightarrow> int \<times> kms_config" where
  "kms_setActiveConfig configId s = (0, snd (setActiveConfigLocked configId s))"

text \<open>
  \<open>KmsDisplay::changeDisplayConfig\<close>: status, and \<open>outAppliedTime\<close>, \<open>outRefresh\<close> and
  \<open>outRefreshTime\<close> when they are written.  A request that goes to the configuration thread is
  not applied here.
\<close>

definition kms_changeDisplayConfig ::
    "int \<Rightarrow> int \<Rightarrow> bool \<Rightarrow> kms_config \<Rightarrow> (int \<times> (int \<times> bool \<times> int) option) \<times> kms_config" where
  "kms_changeDisplayConfig config desired seamlessRequired s =
     (if seamlessRequired then ((-1, None), s)
      else
        (let m1 = snd (index_op config (mConfigs s));
             (c, m2) = index_op (mActiveConfig s) m1;
             applied = desired + 2 * mVsyncPeriod c;
             refresh = applied - mVsyncPeriod c;
             s1 = s\<lparr>mConfigs := m2\<rparr>;
             s2 = (if mmUseConfigThread s1 then s1 else snd (setActiveConfigLocked config s1))
         in ((0, Some (applied, True, refresh)), s2\<lparr>mRefreshRequired := True\<rparr>)))"

text \<open>
  What a request that is handed to \<open>ConfigThread\<close> is meant to amount to: the specification of the
  steps of the thread (\<open>config_step\<close> of \<open>Kms_Vsync\<close>, which models the code).
\<close>

definition config_thread_apply :: "int \<Rightarrow> kms_config \<Rightarrow> kms_config" where
  "config_thread_apply newConfig s =
     (let (c, m) = index_op newConfig (mConfigs s);
          s1 = snd (setNewDrmMode (modeIdx c) (s\<lparr>mConfigs := m\<rparr>))
      in (snd (kms_setActiveConfig newConfig s1))\<lparr>mRefreshRequired := False\<rparr>)"

section \<open>Consecutive ids\<close>

text \<open>The ids that the display hands out are consecutive, from \<open>mFirstConfigId\<close> on.\<close>

definition ids_from :: "int \<Rightarrow> (int \<times> 'v) list \<Rightarrow> bool" where
  "ids_from first m \<longleftrightarrow> map fst m = map (\<lambda>i. first + int i) [0..<length m]"

lemma map_of_ids_from:
  "ids_from first m \<Longrightarrow> i < length m \<Longrightarrow> map_of m (first + int i) = Some (snd (m ! i))"
  "ids_from first m \<Longrightarrow> map_of m (first + int (length m)) = None"
proof -
  assume a: "ids_from first m"
  then have d: "distinct (map fst m)" by (simp add: ids_from_def distinct_map inj_on_def)
  have k: "fst (m ! i) = first + int i" if "i < length m" for i
    using a that unfolding ids_from_def by (metis (no_types, lifting) add_0 diff_zero length_map length_upt nth_map nth_upt)
  show "map_of m (first + int i) = Some (snd (m ! i))" if "i < length m"
    using map_of_is_SomeI[OF d, of "first + int i" "snd (m ! i)"] k[OF that] that
    by (metis nth_mem prod.collapse)
  show "map_of m (first + int (length m)) = None"
  proof -
    have "fst ` set m = set (map (\<lambda>i. first + int i) [0..<length m])"
      using a unfolding ids_from_def by (metis list.set_map)
    then show ?thesis by (auto simp: map_of_eq_None_iff)
  qed
qed

lemma ids_from_dom:
  assumes "ids_from first m"
  shows "dom (map_of m) = {first..<first + int (length m)}"
proof -
  have "dom (map_of m) = set (map (\<lambda>i. first + int i) [0..<length m])"
    using assms unfolding ids_from_def dom_map_of_conv_image_fst by (metis list.set_map)
  also have "\<dots> = {first..<first + int (length m)}"
    by (auto simp: image_iff) (metis add.commute add_diff_cancel_left' atLeastLessThan_iff diff_add_cancel diff_ge_0_iff_ge nat_0_le nat_less_iff zero_le zless_iff_Suc_zadd le0 diff_less_eq)
  finally show ?thesis .
qed

lemma ids_from_emplace:
  assumes "ids_from first m"
  shows "emplace (first + int (length m)) v m = m @ [(first + int (length m), v)]"
    "ids_from first (m @ [(first + int (length m), v)])"
  using map_of_ids_from(2)[OF assms] assms by (simp_all add: emplace_def ids_from_def)

lemma findDisplayConfig_cases:
  assumes "ids_from (mFirstConfigId s) (mConfigs s)"
  obtains (none) "findDisplayConfig w h f fmt s = -1" "\<forall>(k, c)\<in>set (mConfigs s). \<not> config_matches w h f fmt c"
  | (found) i where "i < length (mConfigs s)" "findDisplayConfig w h f fmt s = mFirstConfigId s + int i"
      "config_matches w h f fmt (snd (mConfigs s ! i))"
      "\<forall>j<i. \<not> config_matches w h f fmt (snd (mConfigs s ! j))"
proof -
  let ?P = "\<lambda>i. case map_of (mConfigs s) (mFirstConfigId s + int i) of
                       None \<Rightarrow> False | Some c \<Rightarrow> config_matches w h f fmt c"
  let ?n = "length (mConfigs s)"
  have P: "?P i = config_matches w h f fmt (snd (mConfigs s ! i))" if "i < ?n" for i
    using map_of_ids_from(1)[OF assms that] by simp
  show thesis
  proof (cases "find ?P [0..<?n]")
    case None
    then have "\<forall>i<?n. \<not> config_matches w h f fmt (snd (mConfigs s ! i))"
      using P by (auto simp: find_None_iff)
    then have "\<forall>(k, c)\<in>set (mConfigs s). \<not> config_matches w h f fmt c"
      by (auto simp: in_set_conv_nth) (metis snd_conv)
    then show thesis using None none by (simp add: findDisplayConfig_def)
  next
    case (Some i)
    then have i: "i < ?n" "?P i" "\<forall>j<i. \<not> ?P j" by (auto simp: find_Some_iff)
    show thesis
      by (rule found[of i]) (use i P Some in \<open>auto simp: findDisplayConfig_def\<close>)
  qed
qed

lemma build_configs_spec:
  assumes "ids_from first m" "configId = first + int (length m)"
    "res = build_configs mmw mmh format cur i modes configId c m"
  shows "ids_from first res \<and>
    map (\<lambda>(k, c). (mXres c, mYres c, modeIdx c)) res =
      map (\<lambda>(k, c). (mXres c, mYres c, modeIdx c)) m @
      map (\<lambda>(j, mode). (hdisplay mode, vdisplay mode, int j))
        (filter (\<lambda>(j, mode). vrefresh mode = vrefresh cur) (enumerate i modes)) \<and>
    (\<forall>x\<in>set res. x \<in> set m \<or> mFps (snd x) = real_of_int (vrefresh cur))"
  using assms(1,2) unfolding assms(3)
proof (induction modes arbitrary: i configId c m)
  case (Cons mode modes)
  let ?c = "mode_config mmw mmh format (int i) mode c"
  have tol: "\<bar>real_of_int x - real_of_int y\<bar> < FLOAT_TOLERANCE \<longleftrightarrow> x = y" for x y
  proof
    assume "\<bar>real_of_int x - real_of_int y\<bar> < FLOAT_TOLERANCE"
    then have "real_of_int \<bar>x - y\<bar> < 1" by (simp add: FLOAT_TOLERANCE_def)
    then have "\<bar>x - y\<bar> < 1" by (simp only: of_int_less_1_iff)
    then show "x = y" by simp
  qed (simp add: FLOAT_TOLERANCE_def)
  have fps: "mFps ?c = real_of_int (vrefresh mode)" by (simp add: mode_config_def)
  have c: "mXres ?c = hdisplay mode" "mYres ?c = vdisplay mode" "modeIdx ?c = int i"
    by (simp_all add: mode_config_def)
  show ?case
  proof (cases "vrefresh mode = vrefresh cur")
    case True
    note e = ids_from_emplace[OF Cons.prems(1), of ?c, folded Cons.prems(2)]
    have "configId + 1 = first + int (length (m @ [(configId, ?c)]))" using Cons.prems(2) by simp
    note ih = Cons.IH[OF e(2) this, of "Suc i" ?c]
    have b: "build_configs mmw mmh format cur i (mode # modes) configId c m =
        build_configs mmw mmh format cur (Suc i) modes (configId + 1) ?c (m @ [(configId, ?c)])"
      using True by (simp add: Let_def fps FLOAT_TOLERANCE_def e)
    show ?thesis unfolding b using ih True fps c by (fastforce simp: case_prod_beta)
  next
    case False
    have b: "build_configs mmw mmh format cur i (mode # modes) configId c m =
        build_configs mmw mmh format cur (Suc i) modes configId ?c m"
      using False tol by (simp add: Let_def fps)
    show ?thesis unfolding b using Cons.IH[OF Cons.prems, of "Suc i" ?c] False by simp
  qed
qed simp

lemma build_configs_format:
  "x \<in> set (build_configs mmw mmh format cur i modes configId c m) \<Longrightarrow> x \<in> set m \<or> cFormat (snd x) = format"
proof (induction modes arbitrary: i configId c m)
  case (Cons mode modes)
  have e: "y \<in> set (emplace k v m) \<Longrightarrow> y \<in> set m \<or> y = (k, v)" for y k and v :: display_config
    by (auto simp: emplace_def split: if_splits)
  have f: "cFormat (mode_config mmw mmh format (int i) mode c) = format" by (simp add: mode_config_def)
  let ?c = "mode_config mmw mmh format (int i) mode c"
  show ?case
  proof (cases "\<bar>mFps ?c - real_of_int (vrefresh cur)\<bar> < FLOAT_TOLERANCE")
    case True
    then have "x \<in> set (emplace configId ?c m) \<or> cFormat (snd x) = format"
      using Cons.IH[of "Suc i" "configId + 1" ?c "emplace configId ?c m"] Cons.prems by (simp add: Let_def)
    then show ?thesis using e f by (metis snd_conv)
  next
    case False
    then show ?thesis using Cons.IH[of "Suc i" configId ?c m] Cons.prems by (simp add: Let_def)
  qed
qed simp

lemma kms_createDisplayConfig_ids:
  assumes "ids_from (mFirstConfigId s) (mConfigs s)" "kms_createDisplayConfig w h fps fmt s = (k, s')"
  shows "ids_from (mFirstConfigId s') (mConfigs s') \<and> mFirstConfigId s' = mFirstConfigId s \<and>
    mMode s' = mMode s \<and> mDrmModes s' = mDrmModes s \<and> mModePrefered s' = mModePrefered s \<and>
    mActiveConfig s' = mActiveConfig s \<and> mFirstConfigId s \<le> k \<and> k < mFirstConfigId s + int (length (mConfigs s'))"
  using assms ids_from_emplace[OF assms(1)]
  unfolding kms_createDisplayConfig_def Let_def by (auto split: if_splits)

section \<open>Properties\<close>

text \<open>
  \<open>findDisplayConfig\<close> finds the first configuration with the requested resolution, format
  and refresh rate, and returns -1 exactly when there is none.
\<close>

theorem findDisplayConfig_correct:
  assumes "ids_from (mFirstConfigId s) (mConfigs s)" "0 \<le> mFirstConfigId s"
    and "k0 = findDisplayConfig w h f fmt s"
  shows "if k0 = -1 then \<forall>(k, c)\<in>set (mConfigs s). \<not> config_matches w h f fmt c
    else \<exists>c. map_of (mConfigs s) k0 = Some c \<and> config_matches w h f fmt c \<and>
         (\<forall>(k, c')\<in>set (mConfigs s). k < k0 \<longrightarrow> \<not> config_matches w h f fmt c')"
  using assms(1)
proof (cases rule: findDisplayConfig_cases[where w = w and h = h and f = f and fmt = fmt])
  case none
  then show ?thesis by (simp add: assms(3))
next
  case (found i)
  have k: "fst (mConfigs s ! j) = mFirstConfigId s + int j" if "j < length (mConfigs s)" for j
    using assms(1) that unfolding ids_from_def
    by (metis (no_types, lifting) add_0 diff_zero length_map length_upt nth_map nth_upt)
  have "\<forall>(k, c')\<in>set (mConfigs s). k < k0 \<longrightarrow> \<not> config_matches w h f fmt c'"
    using found k by (auto simp: assms(3) in_set_conv_nth) (metis fst_conv snd_conv of_nat_less_iff add_less_cancel_left)
  then show ?thesis
    using found map_of_ids_from(1)[OF assms(1) found(1)] assms(2) by (auto simp: assms(3))
qed

lemma buildDisplayConfigs_spec:
  "ids_from (mFirstConfigId s) (mConfigs (buildDisplayConfigs mmw mmh fmt s)) \<and>
   map (\<lambda>(k, c). (mXres c, mYres c, modeIdx c)) (mConfigs (buildDisplayConfigs mmw mmh fmt s)) =
     map (\<lambda>(j, mode). (hdisplay mode, vdisplay mode, int j))
       (filter (\<lambda>(j, mode). vrefresh mode = vrefresh (mMode s)) (enumerate 0 (mDrmModes s)))"
  using build_configs_spec[of "mFirstConfigId s" "[]" "mFirstConfigId s" _ mmw mmh "if fmt = -1 then 1 else fmt" "mMode s" 0 "mDrmModes s" config0]
  by (simp add: buildDisplayConfigs_def ids_from_def Let_def)

lemma buildDisplayConfigs_entries:
  assumes "(k, c) \<in> set (mConfigs (buildDisplayConfigs mmw mmh fmt s))" "fmt \<noteq> -1"
  shows "cFormat c = fmt \<and> mFps c = real_of_int (vrefresh (mMode s))"
  using build_configs_format[of "(k, c)" mmw mmh fmt "mMode s" 0 "mDrmModes s" "mFirstConfigId s" config0 "[]"]
    build_configs_spec[of "mFirstConfigId s" "[]" "mFirstConfigId s" _ mmw mmh fmt "mMode s" 0 "mDrmModes s" config0]
    assms by (fastforce simp: buildDisplayConfigs_def ids_from_def Let_def)

text \<open>
  C35: \<open>buildDisplayConfigs\<close> gives consecutive ids to exactly the modes of the connector with the
  refresh rate of the current mode, in their order, each with its resolution and mode index.
\<close>

theorem buildDisplayConfigs_correct:
  "ids_from (mFirstConfigId s) (mConfigs (buildDisplayConfigs mmw mmh fmt s)) \<and>
   map (\<lambda>(k, c). (mXres c, mYres c, modeIdx c)) (mConfigs (buildDisplayConfigs mmw mmh fmt s)) =
     map (\<lambda>(j, mode). (hdisplay mode, vdisplay mode, int j))
       (filter (\<lambda>(j, mode). vrefresh mode = vrefresh (mMode s)) (enumerate 0 (mDrmModes s)))"
  by (rule buildDisplayConfigs_spec)

lemma kms_createDisplayConfig_spec:
  assumes "ids_from (mFirstConfigId s) (mConfigs s)" "0 \<le> mFirstConfigId s" "FLOAT_TOLERANCE \<le> \<bar>fps\<bar>"
    and "kms_createDisplayConfig w h fps fmt s = (k, s')"
  shows "ids_from (mFirstConfigId s') (mConfigs s') \<and> (\<exists>new. mConfigs s' = mConfigs s @ new) \<and>
    (\<exists>c. map_of (mConfigs s') k = Some c \<and> config_matches w h fps fmt c \<and> modeIdx c = mModePrefered s)"
proof -
  let ?s0 = "\<lparr>mActiveConfig = mActiveConfig s, mConfigs = mConfigs s, mFirstConfigId = mFirstConfigId s\<rparr>"
  let ?id = "findDisplayConfig w h fps fmt ?s0"
  show ?thesis
  proof (cases "mFirstConfigId s \<le> ?id \<and> ?id < mFirstConfigId s + int (length (mConfigs s)) \<and>
            modeIdx (fst (index_op ?id (mConfigs s))) = mModePrefered s")
    case True
    then have "kms_createDisplayConfig w h fps fmt s = (?id, s)"
      unfolding kms_createDisplayConfig_def Let_def by (rule if_P)
    then have ks: "k = ?id" "s' = s" using assms(4) by simp_all
    have "ids_from (mFirstConfigId ?s0) (mConfigs ?s0)" using assms(1) by simp
    then show ?thesis
    proof (cases rule: findDisplayConfig_cases[where w = w and h = h and f = fps and fmt = fmt])
      case none
      then show ?thesis using True assms(2) by simp
    next
      case (found i)
      then have i: "map_of (mConfigs s) ?id = Some (snd (mConfigs s ! i))"
        using map_of_ids_from(1)[OF assms(1), of i] by simp
      then show ?thesis using found True ks assms(1) by (simp add: index_op_def emplace_def Let_def)
    qed
  next
    case False
    let ?n = "mFirstConfigId s + int (length (mConfigs s))"
    let ?c = "kms_new_config w h fps fmt (mModePrefered s)"
    have "kms_createDisplayConfig w h fps fmt s = (?n, s\<lparr>mConfigs := emplace ?n ?c (mConfigs s)\<rparr>)"
      unfolding kms_createDisplayConfig_def Let_def using False by (rule if_not_P)
    then have c: "k = ?n" "mConfigs s' = emplace ?n ?c (mConfigs s)" "mFirstConfigId s' = mFirstConfigId s"
      using assms(4) by auto
    have m: "config_matches w h fps fmt ?c" "modeIdx ?c = mModePrefered s"
      using assms(3) by (auto simp: config_matches_def kms_new_config_def Let_def FLOAT_TOLERANCE_def)
    show ?thesis using c m ids_from_emplace[OF assms(1), of ?c] map_of_ids_from(2)[OF assms(1)]
      by (auto simp: map_add_def)
  qed
qed

text \<open>
  \<open>KmsDisplay::createDisplayConfig\<close> gives back a configuration with what was asked for: it keeps
  the ids consecutive and earlier configurations unchanged, and the id it returns names a
  configuration with the requested resolution, and format when one was given, whose refresh rate
  is the requested one, or 60 when none was.
\<close>

theorem kms_createDisplayConfig_correct:
  assumes "ids_from (mFirstConfigId s) (mConfigs s)" "0 \<le> mFirstConfigId s" "FLOAT_TOLERANCE \<le> \<bar>fps\<bar>"
    and "kms_createDisplayConfig w h fps fmt s = (k, s')"
  shows "ids_from (mFirstConfigId s') (mConfigs s') \<and> (\<exists>new. mConfigs s' = mConfigs s @ new) \<and>
    (\<exists>c. map_of (mConfigs s') k = Some c \<and> config_matches w h fps fmt c \<and> modeIdx c = mModePrefered s)"
  by (rule kms_createDisplayConfig_spec[OF assms])

text \<open>
  \<open>Display::createDisplayConfig\<close> does not: when there are configurations but none matches, the
  new one is not stored (\<open>emplace\<close> keeps the entry of \<open>mFirstConfigId\<close>), and the id returned, also
  made the active one, names a configuration that does not match the request.
\<close>

theorem createDisplayConfig_lost:
  assumes "ids_from (mFirstConfigId s) (mConfigs s)" "mConfigs s \<noteq> []"
    and "\<forall>(k, c)\<in>set (mConfigs s). \<not> config_matches w h fps fmt c"
    and "createDisplayConfig w h fps fmt s = (k, s')"
  shows "mActiveConfig s' = k \<and> mConfigs s' = mConfigs s \<and>
    (\<exists>c. map_of (mConfigs s') k = Some c \<and> \<not> config_matches w h fps fmt c)"
proof -
  have f: "findDisplayConfig w h fps fmt s = -1"
    using assms(1)
  proof (cases rule: findDisplayConfig_cases[where w = w and h = h and f = fps and fmt = fmt])
    case (found i)
    then show ?thesis using assms(3) nth_mem[of i "mConfigs s"] by (auto simp: case_prod_beta)
  qed
  have m: "map_of (mConfigs s) (mFirstConfigId s) = Some (snd (mConfigs s ! 0))"
    using map_of_ids_from(1)[OF assms(1), of 0] assms(2) by simp
  moreover have "\<not> config_matches w h fps fmt (snd (mConfigs s ! 0))"
    using assms(2,3) nth_mem[of 0 "mConfigs s"] by (auto simp: case_prod_beta)
  ultimately show ?thesis
    using assms(4) f by (auto simp: createDisplayConfig_def emplace_def Let_def)
qed

text \<open>
  \<open>Display::changeDisplayConfig\<close> never returns: it calls \<open>setActiveConfig\<close>, which waits for the
  lock that its caller holds.
\<close>

theorem changeDisplayConfig_base_deadlocks:
  "changeDisplayConfig_base config s False = None"
  by (simp add: changeDisplayConfig_base_def setActiveConfig_locked_def locked_def)

text \<open>
  C40: an id that is not in use is refused by \<open>setActiveConfigLocked\<close> but accepted by
  \<open>changeDisplayConfig\<close>.  Let the ids be consecutive, the active configuration be in the table, and
  take the first id that is not in use.  \<open>setActiveConfigLocked\<close> returns an error and
  \<open>setActiveConfig\<close>, which drops it, returns 0; neither changes anything.  \<open>changeDisplayConfig\<close>
  (not seamless) reports success and inserts a zero configuration for the id, because its log message
  reads \<open>mConfigs[config]\<close>: without a \<open>ConfigThread\<close> the display switches to that configuration of
  0 x 0 at once; with one the active configuration stays as it is for now, and the call of
  \<open>setActiveConfig\<close> that the thread makes later switches to it.
\<close>

theorem changeDisplayConfig_accepts_invalid:
  assumes "ids_from (mFirstConfigId s) (mConfigs s)" "map_of (mConfigs s) (mActiveConfig s) = Some c"
    and "bad = mFirstConfigId s + int (length (mConfigs s))"
  shows "setActiveConfigLocked bad s = ((- EINVAL, False), s) \<and> kms_setActiveConfig bad s = (0, s) \<and>
    (\<exists>out s'. kms_changeDisplayConfig bad t False s = ((0, Some out), s') \<and>
       map_of (mConfigs s') bad = Some config0 \<and>
       mActiveConfig s' = (if mmUseConfigThread s then mActiveConfig s else bad) \<and>
       mActiveConfig (snd (kms_setActiveConfig bad s')) = bad)"
proof -
  have n: "map_of (mConfigs s) bad = None" using map_of_ids_from(2)[OF assms(1)] assms(3) by simp
  then have a: "mActiveConfig s \<noteq> bad" using assms(2) by auto
  have m: "index_op bad (mConfigs s) = (config0, mConfigs s @ [(bad, config0)])"
    "index_op (mActiveConfig s) (mConfigs s @ [(bad, config0)]) = (c, mConfigs s @ [(bad, config0)])"
    using n assms(2) by (auto simp: index_op_def emplace_def Let_def map_add_def)
  have "map_of (mConfigs s @ [(bad, config0)]) bad = Some config0" using n by (simp add: map_add_def)
  moreover have "\<not> bad < mFirstConfigId s" "mFirstConfigId s + int (length (mConfigs s)) \<le> bad"
    "\<not> mFirstConfigId s + int (length (mConfigs s @ [(bad, config0)])) \<le> bad"
    using assms(3) by simp_all
  ultimately show ?thesis using a
    by (auto simp: setActiveConfigLocked_def kms_setActiveConfig_def kms_changeDisplayConfig_def m Let_def)
qed

section \<open>Witnesses\<close>

definition mode_1080 :: drm_mode where "mode_1080 = \<lparr>hdisplay = 1920, vdisplay = 1080, vrefresh = 60, mode_type = 0\<rparr>"
definition mode_720 :: drm_mode where "mode_720 = \<lparr>hdisplay = 1280, vdisplay = 720, vrefresh = 60, mode_type = 0\<rparr>"
definition mode_480 :: drm_mode where "mode_480 = \<lparr>hdisplay = 640, vdisplay = 480, vrefresh = 30, mode_type = 0\<rparr>"

definition kms_demo :: kms_config where
  "kms_demo = buildDisplayConfigs 0 0 1
     \<lparr>mActiveConfig = 0, mConfigs = [], mFirstConfigId = 0, mDrmModes = [mode_1080, mode_480, mode_720],
      mMode = mode_1080, mModePrefered = 2, mModeset = False, mmUseConfigThread = False,
      mRefreshRequired = False\<rparr>"

definition state_demo :: config_state where
  "state_demo = \<lparr>mActiveConfig = 0, mConfigs = mConfigs kms_demo, mFirstConfigId = 0\<rparr>"

lemma kms_demo_configs:
  "mConfigs kms_demo =
     [(0, mode_config 0 0 1 0 mode_1080 config0),
      (1, mode_config 0 0 1 2 mode_720 (mode_config 0 0 1 1 mode_480 (mode_config 0 0 1 0 mode_1080 config0)))]"
  by (simp add: kms_demo_def buildDisplayConfigs_def Let_def emplace_def mode_config_def FLOAT_TOLERANCE_def
      mode_1080_def mode_720_def mode_480_def)

lemma kms_demo_fields:
  "mFirstConfigId kms_demo = 0" "mModePrefered kms_demo = 2" "mActiveConfig kms_demo = 0" "\<not> mmUseConfigThread kms_demo"
  "mFirstConfigId state_demo = 0" "mConfigs state_demo = mConfigs kms_demo" "mActiveConfig state_demo = 0"
  by (simp_all add: kms_demo_def buildDisplayConfigs_def state_demo_def)

lemma kms_demo_ids: "ids_from 0 (mConfigs kms_demo)" "mConfigs kms_demo \<noteq> []" "length (mConfigs kms_demo) = 2"
  by (simp_all add: kms_demo_configs ids_from_def)

lemma demo_no_480: "\<forall>(k, c)\<in>set (mConfigs kms_demo). \<not> config_matches 640 480 60 (-1) c"
  by (simp add: kms_demo_configs config_matches_def mode_config_def mode_1080_def mode_720_def)

theorem findDisplayConfig_correct_witness:
  "\<exists>c. map_of (mConfigs state_demo) (findDisplayConfig 1280 720 60 (-1) state_demo) = Some c \<and> mXres c = 1280"
proof -
  have "findDisplayConfig 1280 720 60 (-1) state_demo = 1"
    by (simp add: findDisplayConfig_def kms_demo_fields kms_demo_configs config_matches_def mode_config_def
        mode_1080_def mode_720_def mode_480_def FLOAT_TOLERANCE_def upt_rec)
  then show ?thesis
    using findDisplayConfig_correct[of state_demo "findDisplayConfig 1280 720 60 (-1) state_demo" 1280 720 60 "-1"]
    by (auto simp: kms_demo_fields kms_demo_ids config_matches_def)
qed

theorem kms_createDisplayConfig_correct_witness:
  "\<exists>k s' c. kms_createDisplayConfig 640 480 60 (-1) kms_demo = (k, s') \<and> map_of (mConfigs s') k = Some c \<and>
     mXres c = 640 \<and> mYres c = 480"
proof -
  obtain k s' where ks: "kms_createDisplayConfig 640 480 60 (-1) kms_demo = (k, s')" by fastforce
  have "FLOAT_TOLERANCE \<le> \<bar>60\<bar>" by (simp add: FLOAT_TOLERANCE_def)
  from kms_createDisplayConfig_correct[OF _ _ this ks] show ?thesis
    using ks by (auto simp: kms_demo_fields kms_demo_ids config_matches_def)
qed

theorem createDisplayConfig_lost_witness:
  "\<exists>k s' c. createDisplayConfig 640 480 60 (-1) state_demo = (k, s') \<and> map_of (mConfigs s') k = Some c \<and>
     \<not> config_matches 640 480 60 (-1) c"
proof -
  obtain k s' where ks: "createDisplayConfig 640 480 60 (-1) state_demo = (k, s')" by fastforce
  from createDisplayConfig_lost[OF _ _ _ ks] show ?thesis
    using ks demo_no_480 by (auto simp: kms_demo_fields kms_demo_ids)
qed

theorem changeDisplayConfig_accepts_invalid_witness:
  "\<exists>out s'. kms_changeDisplayConfig 2 0 False kms_demo = ((0, Some out), s') \<and> mActiveConfig s' = 2 \<and>
     map_of (mConfigs s') 2 = Some config0"
proof -
  have "map_of (mConfigs kms_demo) (mActiveConfig kms_demo) = Some (mode_config 0 0 1 0 mode_1080 config0)"
    by (simp add: kms_demo_configs kms_demo_fields)
  from changeDisplayConfig_accepts_invalid[OF _ this, of 2 0] show ?thesis
    using kms_demo_ids by (auto simp: kms_demo_fields)
qed

end
