(* ===== verification/Kms_Mode.thy ===== *)
theory Kms_Mode
  imports Display_Config
begin

text \<open>
  How \<open>KmsDisplay\<close> chooses the mode of a display: \<open>parseDisplayMode\<close>, \<open>getDisplayMode\<close> and
  \<open>getGUIResolution\<close> of \<open>display/display/KmsDisplay.cpp\<close>.  The value of a system property is an
  argument, a string without its terminating zero.  \<open>atoi\<close> of a number outside of \<open>int\<close> is
  undefined behaviour, the result \<open>None\<close>.
\<close>

section \<open>Strings of the C library\<close>

definition starts_with :: "string \<Rightarrow> string \<Rightarrow> bool" where
  "starts_with s p \<longleftrightarrow> take (length p) s = p"

definition digit_char :: "char \<Rightarrow> bool" where
  "digit_char c \<longleftrightarrow> 48 \<le> (of_char c :: nat) \<and> (of_char c :: nat) \<le> 57"

definition space_char :: "char \<Rightarrow> bool" where
  "space_char c \<longleftrightarrow> (of_char c :: nat) = 32 \<or> 9 \<le> (of_char c :: nat) \<and> (of_char c :: nat) \<le> 13"

definition dec_value :: "string \<Rightarrow> int" where
  "dec_value ds = foldl (\<lambda>n c. n * 10 + (of_char c - 48)) 0 ds"

definition atoi :: "string \<Rightarrow> int option" where
  "atoi s =
     (let t = dropWhile space_char s;
          neg = (t \<noteq> [] \<and> hd t = CHR ''-'');
          u = (if t \<noteq> [] \<and> hd t \<in> {CHR ''-'', CHR ''+''} then tl t else t);
          n = dec_value (takeWhile digit_char u);
          v = (if neg then - n else n)
      in if - (2 ^ 31) \<le> v \<and> v < 2 ^ 31 then Some v else None)"

text \<open>The tokens that repeated calls of \<open>strsep\<close> deliver.\<close>

fun strsep_tokens :: "char set \<Rightarrow> string \<Rightarrow> string list" where
  "strsep_tokens delim [] = [[]]"
| "strsep_tokens delim (c # s) =
     (if c \<in> delim then [] # strsep_tokens delim s
      else (case strsep_tokens delim s of [] \<Rightarrow> [[c]] | t # ts \<Rightarrow> (c # t) # ts))"

section \<open>The requested mode\<close>

definition gDisplayModes :: "(string \<times> int \<times> int \<times> int) list" where
  "gDisplayModes =
     [(''4kp60'', 3840, 2160, 60), (''4kp50'', 3840, 2160, 50), (''4kp30'', 3840, 2160, 30),
      (''1080p60'', 1920, 1080, 60), (''1080p50'', 1920, 1080, 50), (''1080p30'', 1920, 1080, 30),
      (''720p60'', 1280, 720, 60), (''720p50'', 1280, 720, 50), (''720p30'', 1280, 720, 30),
      (''480p60'', 640, 480, 60), (''480p50'', 640, 480, 50), (''480p30'', 640, 480, 30),
      (''4k'', 3840, 2160, 60), (''1080p'', 1920, 1080, 60), (''720p'', 1280, 720, 60),
      (''480p'', 640, 480, 60)]"

text \<open>
  The loop over the tokens: it ends at the first one that is not positive, the result
  \<open>Some None\<close>.
\<close>

fun mode_tokens :: "string list \<Rightarrow> int list option option" where
  "mode_tokens [] = Some (Some [])"
| "mode_tokens (t # ts) =
     (case atoi t of
        None \<Rightarrow> None
      | Some v \<Rightarrow>
          if v \<le> 0 then Some None
          else (case mode_tokens ts of
                  None \<Rightarrow> None
                | Some None \<Rightarrow> Some None
                | Some (Some vs) \<Rightarrow> Some (Some (v # vs))))"

text \<open>Width, height, refresh rate and \<open>prefermode\<close>.\<close>

definition parseDisplayMode :: "string \<Rightarrow> (int \<times> int \<times> int \<times> int) option" where
  "parseDisplayMode value =
     (case find (\<lambda>(modestr, _). starts_with value modestr) gDisplayModes of
        Some (_, width, height, rate) \<Rightarrow> Some (width, height, rate, 0)
      | None \<Rightarrow>
          (case (if CHR ''x'' \<in> set value \<and> CHR ''p'' \<in> set value
                 then mode_tokens (take 3 (strsep_tokens {CHR ''x'', CHR ''p''} value))
                 else Some None) of
             None \<Rightarrow> None
           | Some None \<Rightarrow> Some (1920, 1080, 60, 1)
           | Some (Some vs) \<Rightarrow>
               (let modeResult = vs @ replicate (3 - length vs) 0
                in Some (modeResult ! 0, modeResult ! 1, modeResult ! 2, 0))))"

section \<open>The mode of the connector\<close>

definition DRM_MODE_TYPE_PREFERRED :: nat where "DRM_MODE_TYPE_PREFERRED = 3"

definition mode_preferred :: "drm_mode \<Rightarrow> bool" where
  "mode_preferred m \<longleftrightarrow> bit (mode_type m) DRM_MODE_TYPE_PREFERRED"

definition mode_dist :: "drm_mode \<Rightarrow> drm_mode \<Rightarrow> int" where
  "mode_dist req m = \<bar>vdisplay req - vdisplay m\<bar> + \<bar>hdisplay req - hdisplay m\<bar>"

text \<open>One round of the loop; \<open>index\<close>, \<open>prefer_index\<close> and \<open>delta\<close>.\<close>

definition best_step :: "drm_mode \<Rightarrow> drm_mode list \<Rightarrow> nat \<Rightarrow> nat \<times> nat \<times> int \<Rightarrow> nat \<times> nat \<times> int" where
  "best_step req modes i st =
     (let (index, prefer0, delta) = st;
          mode = modes ! i;
          prefer = (if mode_preferred mode then i else prefer0);
          rdelta = mode_dist req mode
      in if rdelta < delta then (i, prefer, rdelta)
         else if rdelta = delta then
           (if prefer < length modes \<and> index = prefer then
              (if vrefresh req \<noteq> vrefresh (modes ! prefer) \<and> vrefresh req = vrefresh mode
               then (i, prefer, delta) else (index, prefer, delta))
            else
              (if vrefresh req \<noteq> vrefresh (modes ! index) \<and> vrefresh req = vrefresh mode
               then (i, prefer, delta) else (index, prefer, delta)))
         else (index, prefer, delta))"

definition best_index :: "int \<Rightarrow> drm_mode \<Rightarrow> drm_mode list \<Rightarrow> nat" where
  "best_index prefermode req modes =
     (let n = length modes;
          (index0, prefer, _) = fold (best_step req modes) [0..<n] (n, n, 2 ^ 32 - 1);
          index = (if prefermode = 1 then prefer else index0)
      in if index \<ge> n then (if prefer \<ge> n then 0 else prefer) else index)"

definition requested_mode :: "int \<Rightarrow> int \<Rightarrow> int \<Rightarrow> drm_mode \<Rightarrow> drm_mode" where
  "requested_mode width height rate m =
     m\<lparr>vrefresh := rate mod 2 ^ 32, hdisplay := width mod 2 ^ 16, vdisplay := height mod 2 ^ 16\<rparr>"

definition getDisplayMode :: "string \<Rightarrow> drm_mode list \<Rightarrow> 'a kms_config_scheme \<Rightarrow> 'a kms_config_scheme option" where
  "getDisplayMode value modes s =
     (case parseDisplayMode value of
        None \<Rightarrow> None
      | Some (width, height, rate, prefermode) \<Rightarrow>
          (let s1 = s\<lparr>mMode := requested_mode width height rate (mMode s)\<rparr>;
               index = best_index prefermode (mMode s1) modes
           in Some (if modes = [] then s1
                    else s1\<lparr>mDrmModes := modes, mMode := modes ! index, mModePrefered := int index\<rparr>)))"

section \<open>The resolution of the user interface\<close>

datatype ui_scale = UI_SCALE_NONE | UI_SCALE_SOFTWARE | UI_SCALE_HARDWARE

text \<open>\<open>sscanf\<close> with the format \<open>%[0-9]x%[0-9]\<close>, after the three letters of the prefix.\<close>

definition scan_size :: "string \<Rightarrow> (string \<times> string) option" where
  "scan_size s =
     (let w = takeWhile digit_char s; r = dropWhile digit_char s; h = takeWhile digit_char (tl r)
      in if w \<noteq> [] \<and> r \<noteq> [] \<and> hd r = CHR ''x'' \<and> h \<noteq> [] then Some (w, h) else None)"

definition shrink :: "int \<Rightarrow> int \<Rightarrow> int \<Rightarrow> int \<Rightarrow> int \<times> int" where
  "shrink w h width height =
     (if w > 0 \<and> h > 0 then (if w < width then w else width, if h < height then h else height)
      else (width, height))"

text \<open>The returned flag, the new width and height, and \<open>mCustomizeUI\<close>.\<close>

definition getGUIResolution ::
    "string \<Rightarrow> int \<Rightarrow> int \<Rightarrow> ui_scale \<Rightarrow> (bool \<times> (int \<times> int) \<times> ui_scale) option" where
  "getGUIResolution value width height ui =
     (let scaled = (if starts_with value ''shw'' then map_option (\<lambda>p. (p, UI_SCALE_HARDWARE)) (scan_size (drop 3 value))
                    else if starts_with value ''ssw'' then map_option (\<lambda>p. (p, UI_SCALE_SOFTWARE)) (scan_size (drop 3 value))
                    else None)
      in case scaled of
           Some ((w_buf, h_buf), ui') \<Rightarrow>
             (case (atoi w_buf, atoi h_buf) of
                (Some w, Some h) \<Rightarrow> Some (True, shrink w h width height, ui')
              | _ \<Rightarrow> None)
         | None \<Rightarrow>
             (let (w, h, ret) = (if starts_with value ''4k'' then (3840, 2160, True)
                                 else if starts_with value ''1080p'' then (1920, 1080, True)
                                 else if starts_with value ''720p'' then (1280, 720, True)
                                 else if starts_with value ''480p'' then (640, 480, True)
                                 else (0, 0, False))
              in Some (ret, if width < height then shrink h w width height else shrink w h width height, ui)))"

section \<open>Decimal numbers\<close>

fun show_dec :: "nat \<Rightarrow> string" where
  "show_dec n = (if n < 10 then [char_of (48 + n)] else show_dec (n div 10) @ [char_of (48 + n mod 10)])"

lemmas [simp del] = show_dec.simps

lemma char_of_digit: "d < 10 \<Longrightarrow> (of_char (char_of (48 + d) :: char) :: nat) = 48 + d"
  by simp

lemma digit_char_of: "d < 10 \<Longrightarrow> digit_char (char_of (48 + d :: nat))"
  by (simp add: digit_char_def)

lemma show_dec_digits: "show_dec n \<noteq> [] \<and> (\<forall>c\<in>set (show_dec n). digit_char c)"
  by (induction n rule: show_dec.induct) (subst (1 2) show_dec.simps, simp add: digit_char_of)

lemma dec_value_append: "dec_value (s @ [c]) = dec_value s * 10 + (of_char c - 48)"
  by (simp add: dec_value_def)

lemma dec_value_show: "dec_value (show_dec n) = int n"
proof (induction n rule: show_dec.induct)
  case (1 n)
  have d: "(of_char (char_of (48 + d) :: char) :: int) = 48 + int d" if "d < 10" for d :: nat
    using that of_char_of[where 'a = int] by (metis char_of_digit of_nat_of_char of_nat_add of_nat_numeral)
  show ?case
  proof (cases "n < 10")
    case True
    then show ?thesis using d[OF True] by (simp add: show_dec.simps[of n] dec_value_def)
  next
    case False
    have "dec_value (show_dec n) = int (n div 10) * 10 + (of_char (char_of (48 + n mod 10) :: char) - 48)"
      by (simp only: show_dec.simps[of n] False if_False dec_value_append 1[OF False])
    also have "\<dots> = int (n div 10) * 10 + int (n mod 10)" by (subst d) simp_all
    also have "\<dots> = int n" by presburger
    finally show ?thesis .
  qed
qed

lemma digit_not_sep: "digit_char c \<Longrightarrow> \<not> space_char c \<and> c \<notin> {CHR ''x'', CHR ''p'', CHR ''-'', CHR ''+''}"
  by (auto simp: digit_char_def space_char_def)

lemma atoi_show:
  assumes "n < 2 ^ 31"
  shows "atoi (show_dec n) = Some (int n)"
proof -
  obtain c cs where s: "show_dec n = c # cs" "digit_char c" "\<forall>x\<in>set cs. digit_char x"
    using show_dec_digits[of n] by (cases "show_dec n") auto
  have "takeWhile digit_char (c # cs) = c # cs" using s by simp
  moreover have "int n < 2 ^ 31" using assms by simp
  ultimately show ?thesis
    using digit_not_sep[OF s(2)] dec_value_show[of n] unfolding atoi_def Let_def s(1) by auto
qed

lemma strsep_cons: "strsep_tokens D s \<noteq> []"
  by (induction D s rule: strsep_tokens.induct) (auto split: list.split)

lemma strsep_token:
  assumes "\<forall>c\<in>set s. c \<notin> D" "d \<in> D"
  shows "strsep_tokens D (s @ d # r) = s # strsep_tokens D r" "strsep_tokens D s = [s]"
  using assms by (induction s) auto

definition print_mode :: "nat \<Rightarrow> nat \<Rightarrow> nat \<Rightarrow> string" where
  "print_mode w h r = show_dec w @ CHR ''x'' # show_dec h @ CHR ''p'' # show_dec r"

lemma modestr_shape:
  assumes "(m, x) \<in> set gDisplayModes"
  shows "dropWhile digit_char m \<noteq> [] \<and> hd (dropWhile digit_char m) \<noteq> CHR ''x''"
  using assms unfolding gDisplayModes_def by (auto simp: digit_char_def)

lemma print_mode_no_prefix:
  assumes "(m, x) \<in> set gDisplayModes"
  shows "\<not> starts_with (print_mode w h r) m"
proof
  assume "starts_with (print_mode w h r) m"
  then obtain t where t: "print_mode w h r = m @ t"
    unfolding starts_with_def by (metis append_take_drop_id)
  have "dropWhile digit_char (print_mode w h r) = CHR ''x'' # show_dec h @ CHR ''p'' # show_dec r"
    using show_dec_digits[of w] by (simp add: print_mode_def dropWhile_append digit_char_def)
  moreover have "dropWhile digit_char (m @ t) = dropWhile digit_char m @ t"
    using modestr_shape[OF assms] by (auto simp: dropWhile_append)
  ultimately have "dropWhile digit_char m @ t = CHR ''x'' # show_dec h @ CHR ''p'' # show_dec r"
    using t by simp
  then show False using modestr_shape[OF assms] by (metis hd_append2 list.sel(1))
qed

text \<open>
  C36: \<open>parseDisplayMode\<close> reads back what it documents: a width, a height and a refresh rate
  printed as \<open>1920x1080p60\<close> give that mode, whatever the three numbers are, and the mode is not
  taken for one of the names of the table.
\<close>

theorem parseDisplayMode_roundtrip:
  assumes "0 < w" "w < 2 ^ 31" "0 < h" "h < 2 ^ 31" "0 < r" "r < 2 ^ 31"
  shows "parseDisplayMode (print_mode w h r) = Some (int w, int h, int r, 0)"
proof -
  have f: "find (\<lambda>(modestr, _). starts_with (print_mode w h r) modestr) gDisplayModes = None"
    using print_mode_no_prefix by (auto simp: find_None_iff)
  have d: "\<forall>c\<in>set (show_dec n). c \<notin> {CHR ''x'', CHR ''p''}" for n
    using show_dec_digits[of n] digit_not_sep by blast
  have t: "strsep_tokens {CHR ''x'', CHR ''p''} (print_mode w h r) = [show_dec w, show_dec h, show_dec r]"
    unfolding print_mode_def
    by (subst strsep_token(1)[OF d], simp, subst strsep_token(1)[OF d], simp, subst strsep_token(2)[OF d, of "CHR ''x''"], simp_all)
  have "CHR ''x'' \<in> set (print_mode w h r)" "CHR ''p'' \<in> set (print_mode w h r)" by (simp_all add: print_mode_def)
  then show ?thesis unfolding parseDisplayMode_def f t using assms by (simp add: atoi_show numeral_3_eq_3)
qed

section \<open>The best mode\<close>

definition wf_mode :: "drm_mode \<Rightarrow> bool" where
  "wf_mode m \<longleftrightarrow> 0 \<le> hdisplay m \<and> hdisplay m < 2 ^ 16 \<and> 0 \<le> vdisplay m \<and> vdisplay m < 2 ^ 16"

text \<open>The resolution counts first, the refresh rate second.\<close>

definition mode_cost :: "drm_mode \<Rightarrow> drm_mode \<Rightarrow> int" where
  "mode_cost req m = 2 * mode_dist req m + (if vrefresh m = vrefresh req then 0 else 1)"

definition first_best :: "drm_mode \<Rightarrow> drm_mode list \<Rightarrow> nat \<Rightarrow> nat \<Rightarrow> bool" where
  "first_best req modes n k \<longleftrightarrow> k < n \<and>
     (\<forall>j<n. mode_cost req (modes ! k) \<le> mode_cost req (modes ! j)) \<and>
     (\<forall>j<k. mode_cost req (modes ! k) < mode_cost req (modes ! j))"

definition last_preferred :: "drm_mode list \<Rightarrow> nat \<Rightarrow> nat \<Rightarrow> bool" where
  "last_preferred modes n k \<longleftrightarrow>
     (if \<exists>j<n. mode_preferred (modes ! j)
      then k < n \<and> mode_preferred (modes ! k) \<and> (\<forall>j<n. k < j \<longrightarrow> \<not> mode_preferred (modes ! j))
      else k = length modes)"

lemma first_best_0: "k < length modes \<Longrightarrow> first_best req modes (Suc 0) 0"
  by (simp add: first_best_def)

lemma first_best_Suc:
  assumes "first_best req modes n k"
  shows "mode_cost req (modes ! n) < mode_cost req (modes ! k) \<Longrightarrow> first_best req modes (Suc n) n"
    "\<not> mode_cost req (modes ! n) < mode_cost req (modes ! k) \<Longrightarrow> first_best req modes (Suc n) k"
  using assms unfolding first_best_def by (force simp: less_Suc_eq)+

lemma last_preferred_Suc:
  assumes "last_preferred modes n k"
  shows "last_preferred modes (Suc n) (if mode_preferred (modes ! n) then n else k)"
  using assms unfolding last_preferred_def by (auto simp: less_Suc_eq split: if_splits)

lemma best_step_effect:
  assumes "index < n" "delta = mode_dist req (modes ! index)" "n < length modes"
  defines "better \<equiv> mode_cost req (modes ! n) < mode_cost req (modes ! index)"
  shows "best_step req modes n (index, prefer, delta) =
    (if better then n else index, if mode_preferred (modes ! n) then n else prefer,
     mode_dist req (modes ! (if better then n else index)))"
proof -
  have *: "better \<longleftrightarrow> mode_dist req (modes ! n) < delta \<or> mode_dist req (modes ! n) = delta \<and>
     vrefresh req \<noteq> vrefresh (modes ! index) \<and> vrefresh req = vrefresh (modes ! n)"
    unfolding better_def mode_cost_def assms(2) by auto
  show ?thesis unfolding * by (auto simp: best_step_def Let_def assms(2))
qed

lemma best_fold:
  assumes "wf_mode req" "\<forall>m\<in>set modes. wf_mode m" "0 < n" "n \<le> length modes"
  shows "\<exists>index pref. fold (best_step req modes) [0..<n] (length modes, length modes, 2 ^ 32 - 1) =
      (index, pref, mode_dist req (modes ! index)) \<and>
    first_best req modes n index \<and> last_preferred modes n pref"
  using assms(3,4)
proof (induction n)
  case (Suc n)
  show ?case
  proof (cases "n = 0")
    case True
    have "0 < length modes" using Suc.prems by linarith
    then have "wf_mode (modes ! 0)" using assms(2) nth_mem by blast
    then have "mode_dist req (modes ! 0) < 2 ^ 32 - 1" using assms(1) by (auto simp: mode_dist_def wf_mode_def)
    then show ?thesis using True by (auto simp: best_step_def Let_def first_best_def last_preferred_def)
  next
    case False
    then obtain index pref where
      ih: "fold (best_step req modes) [0..<n] (length modes, length modes, 2 ^ 32 - 1) =
        (index, pref, mode_dist req (modes ! index))" "first_best req modes n index" "last_preferred modes n pref"
      using Suc by auto
    have i: "index < n" using ih(2) by (simp add: first_best_def)
    show ?thesis
      using best_step_effect[OF i refl, of modes req pref] Suc.prems ih first_best_Suc[OF ih(2)] last_preferred_Suc[OF ih(3)]
      by (auto split: if_splits)
  qed
qed simp

lemma best_index_spec:
  assumes "wf_mode req" "\<forall>m\<in>set modes. wf_mode m" "modes \<noteq> []"
  shows "if p = 1 \<and> (\<exists>m\<in>set modes. mode_preferred m) then last_preferred modes (length modes) (best_index p req modes)
    else if p = 1 then best_index p req modes = 0 else first_best req modes (length modes) (best_index p req modes)"
proof -
  let ?n = "length modes"
  have "0 < ?n" using assms(3) by simp
  from best_fold[OF assms(1,2) this order_refl] obtain idx pref where
    f: "fold (best_step req modes) [0..<?n] (?n, ?n, 2 ^ 32 - 1) = (idx, pref, mode_dist req (modes ! idx))"
    "first_best req modes ?n idx" "last_preferred modes ?n pref" by auto
  have i: "idx < ?n" using f(2) by (simp add: first_best_def)
  have e: "(\<exists>m\<in>set modes. mode_preferred m) \<longleftrightarrow> (\<exists>j<?n. mode_preferred (modes ! j))"
    by (metis in_set_conv_nth)
  have "pref < ?n \<longleftrightarrow> (\<exists>m\<in>set modes. mode_preferred m)"
    using f(3) unfolding e last_preferred_def by (auto split: if_splits)
  moreover have "best_index p req modes = (if p = 1 then (if pref < ?n then pref else 0) else idx)"
    using f(1) i by (simp add: best_index_def Let_def)
  ultimately show ?thesis using f(2,3) by auto
qed

lemma getDisplayMode_spec:
  assumes "parseDisplayMode value = Some (w, h, r, p)" "modes \<noteq> []" "\<forall>m\<in>set modes. wf_mode m"
  shows "\<exists>k s'. getDisplayMode value modes s = Some s' \<and> k < length modes \<and> mDrmModes s' = modes \<and>
    mMode s' = modes ! k \<and> mModePrefered s' = int k \<and>
    (if p = 1 then (if \<exists>m\<in>set modes. mode_preferred m then last_preferred modes (length modes) k else k = 0)
     else first_best (requested_mode w h r (mMode s)) modes (length modes) k)"
proof -
  let ?req = "requested_mode w h r (mMode s)"
  have "wf_mode ?req" by (simp add: wf_mode_def requested_mode_def)
  note b = best_index_spec[OF this assms(3,2), of p]
  have "last_preferred modes (length modes) k \<Longrightarrow> \<exists>m\<in>set modes. mode_preferred m \<Longrightarrow> k < length modes" for k
    by (auto simp: last_preferred_def in_set_conv_nth split: if_splits)
  with b have "best_index p ?req modes < length modes"
    using assms(2) by (auto simp: first_best_def split: if_splits)
  with b show ?thesis using assms(1,2) by (auto simp: getDisplayMode_def Let_def split: if_splits)
qed

lemma getDisplayMode_frame:
  assumes "getDisplayMode value modes s = Some s'"
  shows "mFirstConfigId s' = mFirstConfigId s \<and> mConfigs s' = mConfigs s \<and> mActiveConfig s' = mActiveConfig s"
  using assms by (auto simp: getDisplayMode_def Let_def split: option.split_asm if_split_asm)

lemma first_best_distance:
  assumes "first_best req modes n k" "n = length modes"
  shows "(\<forall>m\<in>set modes. mode_dist req (modes ! k) \<le> mode_dist req m) \<and>
    ((\<exists>m\<in>set modes. mode_dist req m = mode_dist req (modes ! k) \<and> vrefresh m = vrefresh req) \<longrightarrow>
     vrefresh (modes ! k) = vrefresh req)"
proof -
  have c: "mode_cost req (modes ! k) \<le> mode_cost req m" if "m \<in> set modes" for m
    using assms that by (auto simp: first_best_def in_set_conv_nth)
  have "mode_dist req (modes ! k) \<le> mode_dist req m" if "m \<in> set modes" for m
    using c[OF that] by (auto simp: mode_cost_def split: if_split_asm)
  moreover have "vrefresh (modes ! k) = vrefresh req"
    if "m \<in> set modes" "mode_dist req m = mode_dist req (modes ! k)" "vrefresh m = vrefresh req" for m
    using c[OF that(1)] that(2,3) by (auto simp: mode_cost_def split: if_split_asm)
  ultimately show ?thesis by blast
qed

text \<open>
  C27: \<open>getDisplayMode\<close> chooses among the modes of a connector that has some: no mode is closer to the
  requested resolution than the chosen one (the sum of the differences of width and height), and the
  chosen one has the requested refresh rate whenever a mode of that distance has it.  When the
  preferred mode is asked for, the last mode marked as preferred is chosen, or the first mode when
  none is marked.  The chosen mode becomes the current one, and its index is a valid index of the
  list of modes.  (Which of several modes of the same distance and refresh rate is chosen is left
  open here.)
\<close>

theorem getDisplayMode_best:
  assumes "parseDisplayMode value = Some (w, h, r, p)" "modes \<noteq> []" "\<forall>m\<in>set modes. wf_mode m"
    and "req = requested_mode w h r (mMode s)"
  shows "\<exists>k s'. getDisplayMode value modes s = Some s' \<and> k < length modes \<and> mDrmModes s' = modes \<and>
    mMode s' = modes ! k \<and> mModePrefered s' = int k \<and>
    (if p = 1 then
       (if \<exists>m\<in>set modes. mode_preferred m
        then mode_preferred (modes ! k) \<and> (\<forall>j. k < j \<and> j < length modes \<longrightarrow> \<not> mode_preferred (modes ! j))
        else k = 0)
     else (\<forall>m\<in>set modes. mode_dist req (modes ! k) \<le> mode_dist req m) \<and>
       ((\<exists>m\<in>set modes. mode_dist req m = mode_dist req (modes ! k) \<and> vrefresh m = vrefresh req) \<longrightarrow>
        vrefresh (modes ! k) = vrefresh req))"
proof -
  obtain k s' where k: "getDisplayMode value modes s = Some s'" "k < length modes" "mDrmModes s' = modes"
    "mMode s' = modes ! k" "mModePrefered s' = int k" and
    c: "if p = 1 then (if \<exists>m\<in>set modes. mode_preferred m then last_preferred modes (length modes) k else k = 0)
        else first_best req modes (length modes) k"
    using getDisplayMode_spec[OF assms(1-3), of s] assms(4) by blast
  have "mode_preferred (modes ! k) \<and> (\<forall>j. k < j \<and> j < length modes \<longrightarrow> \<not> mode_preferred (modes ! j))"
    if "p = 1" "\<exists>m\<in>set modes. mode_preferred m"
    using c that by (auto simp: last_preferred_def in_set_conv_nth split: if_split_asm)
  moreover have "k = 0" if "p = 1" "\<not> (\<exists>m\<in>set modes. mode_preferred m)" using c that by simp
  ultimately show ?thesis
    using k c first_best_distance[of req modes "length modes" k] by (intro exI[of _ k] exI[of _ s']) simp
qed

text \<open>
  The branch of the preferred mode is without effect: the loop is the same with both branches
  alike.  A preferred mode wins over another one of the same resolution only when it comes first.
\<close>

definition mode_a :: drm_mode where "mode_a = \<lparr>hdisplay = 1920, vdisplay = 1080, vrefresh = 50, mode_type = 0\<rparr>"
definition mode_b :: drm_mode where "mode_b = \<lparr>hdisplay = 1920, vdisplay = 1080, vrefresh = 24, mode_type = 8\<rparr>"

lemma preferred_mode_loses: "best_index 0 mode_1080 [mode_a, mode_b] = 0 \<and> mode_preferred mode_b"
  by code_simp

text \<open>What \<open>getGUIResolution\<close> returns never exceeds the mode.\<close>

lemma shrink_le: "fst (shrink w h a b) \<le> a \<and> snd (shrink w h a b) \<le> b"
  by (simp add: shrink_def)

lemma shrink_pos: "0 < a \<Longrightarrow> 0 < b \<Longrightarrow> 0 < fst (shrink w h a b) \<and> 0 < snd (shrink w h a b)"
  by (simp add: shrink_def)

section \<open>Witnesses\<close>

theorem parseDisplayMode_roundtrip_witness: "parseDisplayMode (print_mode 1024 600 75) = Some (1024, 600, 75, 0)"
  using parseDisplayMode_roundtrip[of 1024 600 75] by simp

theorem getDisplayMode_best_witness:
  "\<exists>s'. getDisplayMode ''720p60'' [mode_480, mode_b, mode_720] kms_demo = Some s' \<and> mMode s' = mode_720"
proof -
  have p: "parseDisplayMode ''720p60'' = Some (1280, 720, 60, 0)" by code_simp
  have w: "\<forall>m\<in>set [mode_480, mode_b, mode_720]. wf_mode m"
    by (simp add: mode_480_def mode_b_def mode_720_def wf_mode_def)
  let ?ms = "[mode_480, mode_b, mode_720]" and ?req = "requested_mode 1280 720 60 (mMode kms_demo)"
  obtain k s' where s: "getDisplayMode ''720p60'' ?ms kms_demo = Some s'" "k < length ?ms"
    "mMode s' = ?ms ! k" "\<forall>m\<in>set ?ms. mode_dist ?req (?ms ! k) \<le> mode_dist ?req m"
    using getDisplayMode_best[OF p list.distinct(2) w refl, of kms_demo]
    unfolding if_not_P[OF zero_neq_one] by blast
  have c: "mode_dist (requested_mode 1280 720 60 m) mode_720 = 0" for m
    by (simp add: mode_dist_def requested_mode_def mode_720_def)
  have le: "mode_dist ?req (?ms ! k) \<le> 0" using s(4) c by simp
  have "k = 0 \<or> k = 1 \<or> k = 2" using s(2) by auto
  then have "k = 2"
    using le by (auto simp: mode_dist_def requested_mode_def mode_480_def mode_b_def)
  then show ?thesis using s by simp
qed

end
