(* ===== verification/Buffer_Slot.thy ===== *)
theory Buffer_Slot
  imports HAL_Prelude
begin

text \<open>
  \<open>BufferSlot\<close> (\<open>display/display/Display.h\<close>, \<open>Display.cpp\<close>): the queue of frame buffers
  between a producer of hardware-layer frames (the EVS display) and the composition thread.
  The operations are modelled one by one; the mutex makes each of them atomic, and the
  condition variable of \<open>getFreeSlot\<close> is modelled by a step relation over the producers'
  threads.  A buffer handle is a value of the type variable \<open>'m\<close>, and
  \<open>native_handle_clone\<close> (libcutils) is the parameter \<open>clone\<close>, which may fail.
\<close>

section \<open>State\<close>

definition MAX_COUNT :: nat where [simp]: "MAX_COUNT = 32"

record 'm buffer_slot =
  mFreeSlot :: "int list"
  mPresentSlot :: "int list"
  mLastPresent :: int
  mPresentTotal :: i32
  mBuffers :: "'m option list"

definition BufferSlot_init :: "u32 \<Rightarrow> 'm buffer_slot" where
  "BufferSlot_init n =
     (let n' = (if n > word_of_nat MAX_COUNT then word_of_nat MAX_COUNT else n)
      in \<lparr>mFreeSlot = map int [0..<unat n'], mPresentSlot = [], mLastPresent = -1,
          mPresentTotal = 0, mBuffers = replicate MAX_COUNT None\<rparr>)"

text \<open>The destructor: the handles it closes and deletes.\<close>

definition BufferSlot_delete :: "'m buffer_slot \<Rightarrow> 'm list" where
  "BufferSlot_delete q = map the (filter (\<lambda>b. b \<noteq> None) (mBuffers q))"

section \<open>Operations\<close>

text \<open>
  \<open>getFreeSlot\<close> in two parts: the test that makes the caller wait, and the code after it.
  The code after the test dereferences \<open>mFreeSlot.begin()\<close>; on an empty vector that is
  undefined behaviour, the result \<open>None\<close>.
\<close>

definition getFreeSlot_waits :: "'m buffer_slot \<Rightarrow> bool" where
  "getFreeSlot_waits q \<longleftrightarrow> mFreeSlot q = []"

definition getFreeSlot_take :: "'m buffer_slot \<Rightarrow> (int \<times> 'm buffer_slot) option" where
  "getFreeSlot_take q =
     (case mFreeSlot q of
        [] \<Rightarrow> None
      | slot # rest \<Rightarrow> Some (slot, q\<lparr>mFreeSlot := rest\<rparr>))"

definition presentSlotCount :: "'m buffer_slot \<Rightarrow> int" where
  "presentSlotCount q = sint (word_of_nat (length (mPresentSlot q)) :: i32)"

definition presentTotal :: "'m buffer_slot \<Rightarrow> int" where
  "presentTotal q = sint (mPresentTotal q)"

text \<open>
  \<open>getPresentSlot\<close>: the slot, whether the condition variable is signalled, the new state.
\<close>

definition getPresentSlot :: "'m buffer_slot \<Rightarrow> int \<times> bool \<times> 'm buffer_slot" where
  "getPresentSlot q =
     (case mPresentSlot q of
        [] \<Rightarrow> (mLastPresent q, False, q)
      | slot # rest \<Rightarrow>
          if mLastPresent q \<noteq> -1
          then (slot, True, q\<lparr>mPresentSlot := rest, mFreeSlot := mFreeSlot q @ [mLastPresent q],
                              mLastPresent := slot\<rparr>)
          else (slot, False, q\<lparr>mPresentSlot := rest, mLastPresent := slot\<rparr>))"

definition getPresentBuffer :: "int \<Rightarrow> 'm buffer_slot \<Rightarrow> 'm option" where
  "getPresentBuffer slot q =
     (if slot < 0 \<or> slot \<ge> int MAX_COUNT then None else mBuffers q ! nat slot)"

definition addPresentSlot ::
    "('m \<Rightarrow> 'm option) \<Rightarrow> int \<Rightarrow> 'm option \<Rightarrow> 'm buffer_slot \<Rightarrow> 'm buffer_slot" where
  "addPresentSlot clone slot buffer q =
     (case buffer of
        None \<Rightarrow> q
      | Some b \<Rightarrow>
          if slot < 0 \<or> slot \<ge> int MAX_COUNT then q
          else q\<lparr>mPresentSlot := mPresentSlot q @ [slot],
                 mPresentTotal := mPresentTotal q + 1,
                 mBuffers := (if mBuffers q ! nat slot = None
                              then (mBuffers q)[nat slot := clone b] else mBuffers q)\<rparr>)"

section \<open>The queue as the composer sees it\<close>

text \<open>
  What the composition code relies on: frames come out in the order they went in, and with
  nothing pending the last frame is shown again.
\<close>

text \<open>The calls in their order; \<open>never_dry n\<close> says that no frame is asked for when none is pending.\<close>

datatype 'a frame_op = Submit 'a | Present_Next

fun never_dry :: "nat \<Rightarrow> 'a frame_op list \<Rightarrow> bool" where
  "never_dry n [] = True"
| "never_dry n (Submit x # ops) = never_dry (Suc n) ops"
| "never_dry n (Present_Next # ops) = (0 < n \<and> never_dry (n - 1) ops)"

fun submitted :: "'a frame_op list \<Rightarrow> 'a list" where
  "submitted [] = []"
| "submitted (Submit x # ops) = x # submitted ops"
| "submitted (Present_Next # ops) = submitted ops"

locale frame_queue =
  fixes pending :: "'s \<Rightarrow> 'a list"
    and current :: "'s \<Rightarrow> 'a"
    and push :: "'a \<Rightarrow> 's \<Rightarrow> 's"
    and pop :: "'s \<Rightarrow> 'a \<times> 's"
    and valid :: "'a \<Rightarrow> bool"
  assumes pending_push: "valid x \<Longrightarrow> pending (push x s) = pending s @ [x]"
    and current_push: "current (push x s) = current s"
    and pop_pending: "pending s = x # xs \<Longrightarrow>
          fst (pop s) = x \<and> pending (snd (pop s)) = xs \<and> current (snd (pop s)) = x"
    and pop_empty: "pending s = [] \<Longrightarrow> pop s = (current s, s)"
begin

primrec push_all :: "'a list \<Rightarrow> 's \<Rightarrow> 's" where
  "push_all [] s = s"
| "push_all (x # xs) s = push_all xs (push x s)"

primrec pops :: "nat \<Rightarrow> 's \<Rightarrow> 'a list" where
  "pops 0 s = []"
| "pops (Suc n) s = fst (pop s) # pops n (snd (pop s))"

fun run :: "'a frame_op list \<Rightarrow> 's \<Rightarrow> 'a list \<times> 's" where
  "run [] s = ([], s)"
| "run (Submit x # ops) s = run ops (push x s)"
| "run (Present_Next # ops) s = (case run ops (snd (pop s)) of (xs, s') \<Rightarrow> (fst (pop s) # xs, s'))"

lemma run_fifo:
  assumes "never_dry (length (pending s)) ops" "\<forall>x\<in>set (submitted ops). valid x" "run ops s = (shown, s')"
  shows "shown @ pending s' = pending s @ submitted ops \<and> (shown \<noteq> [] \<longrightarrow> current s' = last shown) \<and>
    (shown = [] \<longrightarrow> current s' = current s) \<and> length shown = count_list ops Present_Next"
  using assms
proof (induction ops s arbitrary: shown rule: run.induct)
  case (2 x ops s)
  then show ?case by (simp add: pending_push current_push)
next
  case (3 ops s)
  obtain x xs where p: "pending s = x # xs" using "3.prems"(1) by (cases "pending s") auto
  note q = pop_pending[OF p]
  obtain ys where ys: "run ops (snd (pop s)) = (ys, s')" "shown = x # ys"
    using "3.prems"(3) q by (auto split: prod.split_asm)
  have "never_dry (length (pending (snd (pop s)))) ops" using "3.prems"(1) p q by simp
  from "3.IH"[OF this _ ys(1)] "3.prems"(2) show ?case using p q ys(2) by auto
qed simp

lemma pending_push_all: "\<forall>x\<in>set xs. valid x \<Longrightarrow> pending (push_all xs s) = pending s @ xs"
  by (induction xs arbitrary: s) (auto simp: pending_push)

lemma pops_repeat: "pending s = [] \<Longrightarrow> pops n s = replicate n (current s)"
  by (induction n) (auto simp: pop_empty)

text \<open>
  Frames submitted to an idle queue are shown in order, and then the last one is repeated.
\<close>

lemma pops_fifo:
  "pops (length (pending s) + k) s =
     pending s @ replicate k (if pending s = [] then current s else last (pending s))"
proof (induction "pending s" arbitrary: s)
  case Nil
  then show ?case by (simp add: pops_repeat)
next
  case (Cons x xs)
  let ?s = "snd (pop s)"
  from Cons.hyps(2) have p: "fst (pop s) = x" "pending ?s = xs" "current ?s = x"
    using pop_pending[of s x xs] by auto
  with Cons.hyps(1)[of ?s]
  have "pops (length xs + k) ?s = xs @ replicate k (if xs = [] then x else last xs)" by simp
  with p show ?case by (simp flip: Cons.hyps(2))
qed

lemma fifo:
  assumes "pending s = []" and "\<forall>x\<in>set xs. valid x"
  shows "pops (length xs + k) (push_all xs s) =
           xs @ replicate k (if xs = [] then current s else last xs)"
proof -
  have "current (push_all ys t) = current t" for ys t
    by (induction ys arbitrary: t) (auto simp: current_push)
  with assms pops_fifo[of "push_all xs s" k] show ?thesis by (simp add: pending_push_all)
qed

end


definition pop_slot :: "'m buffer_slot \<Rightarrow> int \<times> 'm buffer_slot" where
  "pop_slot q = (case getPresentSlot q of (slot, _, q') \<Rightarrow> (slot, q'))"

definition valid_slot :: "int \<Rightarrow> bool" where
  "valid_slot slot \<longleftrightarrow> 0 \<le> slot \<and> slot < int MAX_COUNT"

lemmas slot_op_defs =
  getFreeSlot_take_def getPresentSlot_def addPresentSlot_def pop_slot_def valid_slot_def

interpretation slots: frame_queue
  "mPresentSlot :: 'm buffer_slot \<Rightarrow> int list" mLastPresent
  "\<lambda>slot. addPresentSlot clone slot (Some (hnd slot))" pop_slot valid_slot
  for clone :: "'m \<Rightarrow> 'm option" and hnd :: "int \<Rightarrow> 'm"
  by unfold_locales (auto simp: slot_op_defs split: list.splits)

section \<open>Producers, the condition variable and the consumer\<close>

text \<open>
  \<open>producers\<close> threads call \<open>getFreeSlot\<close>, fill the slot and call \<open>addPresentSlot\<close>; the
  composition thread calls \<open>getPresentSlot\<close>.  A producer inside \<open>getFreeSlot\<close> is blocked
  (\<open>waiting\<close>) or has been woken and has not yet got the mutex back (\<open>woken\<close>); \<open>held\<close> lists
  the slots the producers own, which are the only ones they submit (\<open>addPresentSlot\<close> itself tests the
  range only).  \<open>mCondition.signal()\<close> wakes one blocked thread.  A woken
  thread runs the code after the \<open>if\<close> without testing again, so it may find the vector
  empty: \<open>undef\<close>.  \<open>spurious\<close> says whether the condition variable may wake a thread
  unasked.
\<close>

record 'm slot_sys =
  queue :: "'m buffer_slot"
  waiting :: nat
  woken :: nat
  held :: "int list"
  undef :: bool

definition sys_init :: "u32 \<Rightarrow> 'm slot_sys" where
  "sys_init n = \<lparr>queue = BufferSlot_init n, waiting = 0, woken = 0, held = [], undef = False\<rparr>"

definition sys_present :: "'m slot_sys \<Rightarrow> 'm slot_sys" where
  "sys_present s =
     (case getPresentSlot (queue s) of
        (_, signalled, q') \<Rightarrow>
          if signalled \<and> 0 < waiting s
          then s\<lparr>queue := q', waiting := waiting s - 1, woken := Suc (woken s)\<rparr>
          else s\<lparr>queue := q'\<rparr>)"

inductive slot_step ::
    "('m \<Rightarrow> 'm option) \<Rightarrow> bool \<Rightarrow> nat \<Rightarrow> 'm slot_sys \<Rightarrow> 'm slot_sys \<Rightarrow> bool"
  for clone :: "'m \<Rightarrow> 'm option" and spurious :: bool and producers :: nat where
  get: "\<not> undef s \<Longrightarrow> waiting s + woken s < producers \<Longrightarrow> \<not> getFreeSlot_waits (queue s) \<Longrightarrow>
        getFreeSlot_take (queue s) = Some (slot, q') \<Longrightarrow>
        slot_step clone spurious producers s (s\<lparr>queue := q', held := slot # held s\<rparr>)"
| block: "\<not> undef s \<Longrightarrow> waiting s + woken s < producers \<Longrightarrow> getFreeSlot_waits (queue s) \<Longrightarrow>
        slot_step clone spurious producers s (s\<lparr>waiting := Suc (waiting s)\<rparr>)"
| wake: "\<not> undef s \<Longrightarrow> spurious \<Longrightarrow> 0 < waiting s \<Longrightarrow>
        slot_step clone spurious producers s
          (s\<lparr>waiting := waiting s - 1, woken := Suc (woken s)\<rparr>)"
| resume: "\<not> undef s \<Longrightarrow> 0 < woken s \<Longrightarrow> getFreeSlot_take (queue s) = Some (slot, q') \<Longrightarrow>
        slot_step clone spurious producers s
          (s\<lparr>queue := q', woken := woken s - 1, held := slot # held s\<rparr>)"
| resume_empty: "\<not> undef s \<Longrightarrow> 0 < woken s \<Longrightarrow> getFreeSlot_take (queue s) = None \<Longrightarrow>
        slot_step clone spurious producers s (s\<lparr>undef := True\<rparr>)"
| add: "\<not> undef s \<Longrightarrow> slot \<in> set (held s) \<Longrightarrow>
        slot_step clone spurious producers s
          (s\<lparr>queue := addPresentSlot clone slot (Some b) (queue s), held := remove1 slot (held s)\<rparr>)"
| present: "\<not> undef s \<Longrightarrow> slot_step clone spurious producers s (sys_present s)"

inductive slot_reach ::
    "('m \<Rightarrow> 'm option) \<Rightarrow> bool \<Rightarrow> nat \<Rightarrow> u32 \<Rightarrow> 'm slot_sys \<Rightarrow> bool"
  for clone :: "'m \<Rightarrow> 'm option" and spurious :: bool and producers :: nat and n :: u32 where
  init: "slot_reach clone spurious producers n (sys_init n)"
| step: "slot_reach clone spurious producers n s \<Longrightarrow> slot_step clone spurious producers s t \<Longrightarrow>
         slot_reach clone spurious producers n t"

section \<open>Invariants\<close>

text \<open>Every slot is in exactly one place: free, pending, on the screen, or with a producer.\<close>

definition displayed :: "'m buffer_slot \<Rightarrow> int list" where
  "displayed q = (if mLastPresent q = -1 then [] else [mLastPresent q])"

definition slot_places :: "'m slot_sys \<Rightarrow> int multiset" where
  "slot_places s = mset (mFreeSlot (queue s)) + mset (mPresentSlot (queue s)) +
                   mset (displayed (queue s)) + mset (held s)"

definition slot_count :: "u32 \<Rightarrow> nat" where
  "slot_count n = min MAX_COUNT (unat n)"

definition slot_inv :: "u32 \<Rightarrow> 'm slot_sys \<Rightarrow> bool" where
  "slot_inv n s \<longleftrightarrow> slot_places s = mset (map int [0..<slot_count n])"

lemma slot_inv_init: "slot_inv n (sys_init n :: 'm slot_sys)"
proof -
  have "n > 32 \<longleftrightarrow> unat n > 32" by (simp add: word_less_nat_alt)
  then show ?thesis
    by (auto simp: slot_inv_def slot_places_def sys_init_def BufferSlot_init_def Let_def
        displayed_def slot_count_def min_def)
qed

lemma slot_invD:
  assumes "slot_inv n s" "x \<in># slot_places s"
  shows "0 \<le> x" "x < int (slot_count n)"
  using assms by (auto simp: slot_inv_def)

lemma held_in_places: "x \<in> set (held s) \<Longrightarrow> x \<in># slot_places s"
  by (simp add: slot_places_def)

lemma pending_in_places: "x \<in> set (mPresentSlot (queue s)) \<Longrightarrow> x \<in># slot_places s"
  by (simp add: slot_places_def)

lemma take_places:
  assumes "getFreeSlot_take (queue s) = Some (slot, q')"
  shows "slot_places (s\<lparr>queue := q', held := slot # held s\<rparr>) = slot_places s"
  using assms by (auto simp: slot_places_def getFreeSlot_take_def displayed_def split: list.splits)

lemma slot_places_threads [simp]:
  "slot_places (s\<lparr>waiting := w\<rparr>) = slot_places s"
  "slot_places (s\<lparr>woken := w\<rparr>) = slot_places s"
  "slot_places (s\<lparr>undef := u\<rparr>) = slot_places s"
  by (simp_all add: slot_places_def)

lemma add_places:
  assumes "slot_inv n s" "slot \<in> set (held s)"
  shows "slot_places (s\<lparr>queue := addPresentSlot clone slot (Some b) (queue s),
                        held := remove1 slot (held s)\<rparr>) = slot_places s"
proof -
  have "0 \<le> slot" "slot < 32"
    using slot_invD[OF assms(1) held_in_places[OF assms(2)]] by (auto simp: slot_count_def)
  with assms(2) show ?thesis
    by (simp add: slot_places_def addPresentSlot_def displayed_def)
qed

lemma present_places:
  assumes "slot_inv n s"
  shows "slot_places (sys_present s) = slot_places s"
proof (cases "mPresentSlot (queue s)")
  case Nil
  then show ?thesis by (simp add: sys_present_def getPresentSlot_def slot_places_def)
next
  case (Cons x xs)
  then have "x \<noteq> -1" using slot_invD[OF assms pending_in_places, of x] by auto
  with Cons show ?thesis
    by (auto simp: sys_present_def getPresentSlot_def slot_places_def displayed_def)
qed

lemma slot_step_inv:
  assumes "slot_step clone spurious producers s t" "slot_inv n s"
  shows "slot_inv n t"
  using assms
proof (cases rule: slot_step.cases)
  case (get slot q')
  then show ?thesis using take_places[of s] assms(2) by (simp add: slot_inv_def)
next
  case (resume slot q')
  then have "slot_places t = slot_places (s\<lparr>queue := q', held := slot # held s\<rparr>)"
    by (simp add: slot_places_def)
  with resume show ?thesis using take_places[of s] assms(2) by (simp add: slot_inv_def)
next
  case (add slot b)
  then show ?thesis using add_places[OF assms(2)] assms(2) by (simp add: slot_inv_def)
next
  case present
  then show ?thesis using present_places[OF assms(2)] assms(2) by (simp add: slot_inv_def)
qed (use assms(2) in \<open>simp_all add: slot_inv_def\<close>)

lemma slot_reach_inv: "slot_reach clone spurious producers n s \<Longrightarrow> slot_inv n s"
  by (induction rule: slot_reach.induct) (auto intro: slot_inv_init slot_step_inv)


lemma slot_places_list:
  "slot_places s =
     mset (mFreeSlot (queue s) @ mPresentSlot (queue s) @ displayed (queue s) @ held s)"
  by (simp add: slot_places_def ac_simps)

lemma slot_inv_distinct:
  assumes "slot_inv n s"
  shows "distinct (mFreeSlot (queue s) @ mPresentSlot (queue s) @ displayed (queue s) @ held s)"
proof -
  have "distinct (map int [0..<slot_count n])" by (simp add: distinct_map)
  with assms show ?thesis
    unfolding slot_inv_def slot_places_list by (metis mset_eq_imp_distinct_iff)
qed

lemma slot_inv_set:
  assumes "slot_inv n s"
  shows "set (mFreeSlot (queue s) @ mPresentSlot (queue s) @ displayed (queue s) @ held s) =
           int ` {..<slot_count n}"
  using mset_eq_setD[OF assms[unfolded slot_inv_def slot_places_list]]
  by (simp add: atLeast0LessThan)

text \<open>
  A slot that is pending or on the screen has a buffer, provided the clone of a handle never
  fails.
\<close>

definition buffers_inv :: "'m buffer_slot \<Rightarrow> bool" where
  "buffers_inv q \<longleftrightarrow> length (mBuffers q) = MAX_COUNT \<and>
     (\<forall>x \<in> set (mPresentSlot q) \<union> set (displayed q). 0 \<le> x \<and> x < 32 \<and> mBuffers q ! nat x \<noteq> None)"

lemma buffers_inv_init: "buffers_inv (BufferSlot_init n)"
  by (simp add: buffers_inv_def BufferSlot_init_def Let_def displayed_def)

lemma buffers_inv_take:
  "getFreeSlot_take q = Some (slot, q') \<Longrightarrow> buffers_inv q \<Longrightarrow> buffers_inv q'"
  by (auto simp: buffers_inv_def getFreeSlot_take_def displayed_def split: list.splits)

lemma buffers_inv_add:
  assumes "\<forall>b. clone b \<noteq> None" "buffers_inv q"
  shows "buffers_inv (addPresentSlot clone slot b q)"
proof -
  have "nat x = nat slot \<Longrightarrow> 0 \<le> x \<Longrightarrow> 0 \<le> slot \<Longrightarrow> x = slot" for x by simp
  with assms show ?thesis
    by (auto simp: buffers_inv_def addPresentSlot_def displayed_def nth_list_update
        split: option.splits)
qed

lemma buffers_inv_present:
  "getPresentSlot q = (slot, sig, q') \<Longrightarrow> buffers_inv q \<Longrightarrow> buffers_inv q'"
  by (auto simp: buffers_inv_def getPresentSlot_def displayed_def split: list.splits if_splits)

lemma sys_present_queue: "queue (sys_present s) = snd (snd (getPresentSlot (queue s)))"
  by (simp add: sys_present_def split: prod.splits)

lemma buffers_inv_sys_present: "buffers_inv (queue s) \<Longrightarrow> buffers_inv (queue (sys_present s))"
  using buffers_inv_present[of "queue s"]
  by (cases "getPresentSlot (queue s)") (simp add: sys_present_queue)

lemma slot_step_buffers:
  assumes "slot_step clone spurious producers s t" "\<forall>b. clone b \<noteq> None" "buffers_inv (queue s)"
  shows "buffers_inv (queue t)"
  using assms
  by (cases rule: slot_step.cases)
     (auto intro: buffers_inv_take buffers_inv_add buffers_inv_sys_present)

lemma slot_reach_buffers:
  "slot_reach clone spurious producers n s \<Longrightarrow> \<forall>b. clone b \<noteq> None \<Longrightarrow> buffers_inv (queue s)"
  by (induction rule: slot_reach.induct)
     (auto simp: sys_init_def intro: buffers_inv_init slot_step_buffers)

text \<open>With one producer and no spurious wake-ups, a woken producer finds a free slot.\<close>

definition single_inv :: "'m slot_sys \<Rightarrow> bool" where
  "single_inv s \<longleftrightarrow> waiting s + woken s \<le> 1 \<and> (woken s = 1 \<longrightarrow> mFreeSlot (queue s) \<noteq> []) \<and> \<not> undef s"

lemma single_inv_init: "single_inv (sys_init n)"
  by (simp add: single_inv_def sys_init_def)

lemma slot_step_single:
  assumes "slot_step clone False 1 s t" "single_inv s"
  shows "single_inv t"
  using assms
proof (cases rule: slot_step.cases)
  case (add slot b)
  then show ?thesis using assms(2)
    by (auto simp: single_inv_def addPresentSlot_def split: option.splits)
next
  case present
  then show ?thesis using assms(2)
    by (auto simp: single_inv_def sys_present_def getPresentSlot_def split: list.splits)
qed (use assms(2) in \<open>auto simp: single_inv_def getFreeSlot_take_def split: list.splits\<close>)

lemma slot_reach_single: "slot_reach clone False 1 n s \<Longrightarrow> single_inv s"
  by (induction rule: slot_reach.induct) (auto intro: single_inv_init slot_step_single)

section \<open>Running the system\<close>

text \<open>An executable step, to build concrete runs.\<close>

datatype 'm slot_op = Get | Block | Wake | Resume | Resume_empty | Add int 'm | Present

fun slot_exec :: "('m \<Rightarrow> 'm option) \<Rightarrow> bool \<Rightarrow> nat \<Rightarrow> 'm slot_op \<Rightarrow> 'm slot_sys \<Rightarrow> 'm slot_sys option" where
  "slot_exec clone spurious producers op s =
     (if undef s then None
      else case op of
        Get \<Rightarrow> (if waiting s + woken s < producers
                then map_option (\<lambda>(slot, q'). s\<lparr>queue := q', held := slot # held s\<rparr>)
                       (getFreeSlot_take (queue s))
                else None)
      | Block \<Rightarrow> (if waiting s + woken s < producers \<and> getFreeSlot_waits (queue s)
                  then Some (s\<lparr>waiting := Suc (waiting s)\<rparr>) else None)
      | Wake \<Rightarrow> (if spurious \<and> 0 < waiting s
                 then Some (s\<lparr>waiting := waiting s - 1, woken := Suc (woken s)\<rparr>) else None)
      | Resume \<Rightarrow> (if 0 < woken s
                then map_option (\<lambda>(slot, q'). s\<lparr>queue := q', woken := woken s - 1, held := slot # held s\<rparr>)
                       (getFreeSlot_take (queue s))
                else None)
      | Resume_empty \<Rightarrow> (if 0 < woken s \<and> getFreeSlot_take (queue s) = None
                then Some (s\<lparr>undef := True\<rparr>) else None)
      | Add slot b \<Rightarrow> (if slot \<in> set (held s)
                then Some (s\<lparr>queue := addPresentSlot clone slot (Some b) (queue s),
                             held := remove1 slot (held s)\<rparr>)
                else None)
      | Present \<Rightarrow> Some (sys_present s))"

lemma slot_exec_step:
  assumes "slot_exec clone spurious producers op s = Some t"
  shows "slot_step clone spurious producers s t"
proof (cases op)
  case Get
  with assms show ?thesis
    by (auto split: if_splits simp: getFreeSlot_waits_def getFreeSlot_take_def
        intro!: slot_step.get split: list.splits)
next
  case Block
  with assms show ?thesis by (auto split: if_splits intro: slot_step.block)
next
  case Wake
  with assms show ?thesis
    using slot_step.wake[of s spurious clone producers] by (auto split: if_splits)
next
  case Resume
  with assms obtain slot q' where "\<not> undef s" "0 < woken s"
      "getFreeSlot_take (queue s) = Some (slot, q')"
      "t = s\<lparr>queue := q', woken := woken s - 1, held := slot # held s\<rparr>"
    by (auto split: if_splits)
  then show ?thesis using slot_step.resume by blast
next
  case Resume_empty
  with assms show ?thesis by (auto split: if_splits intro: slot_step.resume_empty)
next
  case (Add slot b)
  with assms show ?thesis by (auto split: if_splits intro: slot_step.add)
next
  case Present
  with assms show ?thesis by (auto split: if_splits intro: slot_step.present)
qed

primrec slot_run :: "('m \<Rightarrow> 'm option) \<Rightarrow> bool \<Rightarrow> nat \<Rightarrow> 'm slot_op list \<Rightarrow> 'm slot_sys \<Rightarrow> 'm slot_sys option" where
  "slot_run clone spurious producers [] s = Some s"
| "slot_run clone spurious producers (op # ops) s =
     Option.bind (slot_exec clone spurious producers op s) (slot_run clone spurious producers ops)"

lemma slot_run_reach:
  "slot_run clone spurious producers ops s = Some t \<Longrightarrow> slot_reach clone spurious producers n s \<Longrightarrow>
   slot_reach clone spurious producers n t"
proof (induction ops arbitrary: s)
  case (Cons op ops)
  then obtain s' where "slot_exec clone spurious producers op s = Some s'"
      "slot_run clone spurious producers ops s' = Some t"
    by (auto simp del: slot_exec.simps simp: Option.bind_eq_Some_conv)
  with Cons show ?case by (blast intro: slot_reach.step slot_exec_step)
qed simp

text \<open>One frame through the queue, and two producers racing for a freed slot.\<close>

definition one_frame :: "nat slot_op list" where
  "one_frame = [Get, Add 0 7, Present]"

definition two_racing :: "nat slot_op list" where
  "two_racing = [Get, Add 0 7, Present, Get, Add 1 8, Block, Present, Get, Resume_empty]"

definition one_frame_sys :: "nat slot_sys" where
  "one_frame_sys =
     \<lparr>queue = \<lparr>mFreeSlot = [1], mPresentSlot = [], mLastPresent = 0, mPresentTotal = 1,
               mBuffers = (replicate 32 None)[0 := Some 7]\<rparr>,
      waiting = 0, woken = 0, held = [], undef = False\<rparr>"

lemma one_frame_reach: "slot_reach Some False 1 2 one_frame_sys"
proof (rule slot_run_reach[OF _ slot_reach.init])
  show "slot_run Some False 1 one_frame (sys_init 2) = Some one_frame_sys"
    by (simp add: one_frame_def sys_init_def BufferSlot_init_def slot_op_defs sys_present_def
        Let_def upt_rec one_frame_sys_def)
qed

lemma two_racing_run: "\<exists>s. slot_run Some False 2 two_racing (sys_init 2) = Some s \<and> undef s"
  by (simp add: two_racing_def sys_init_def BufferSlot_init_def slot_op_defs sys_present_def
      getFreeSlot_waits_def Let_def upt_rec)


section \<open>Properties\<close>

text \<open>
  C1: in every reachable state, for any number of producer threads that submit only slots that
  \<open>getFreeSlot\<close> gave them, each slot of the queue is in exactly one place: free, waiting to be shown, on
  the screen, or owned by one producer.
\<close>

theorem slot_exclusive:
  assumes "slot_reach clone spurious producers n s"
  shows "distinct (mFreeSlot (queue s) @ mPresentSlot (queue s) @ displayed (queue s) @ held s) \<and>
         set (mFreeSlot (queue s) @ mPresentSlot (queue s) @ displayed (queue s) @ held s) =
           int ` {..<slot_count n}"
  using slot_inv_distinct[OF slot_reach_inv[OF assms]] slot_inv_set[OF slot_reach_inv[OF assms]]
  by blast

theorem slot_exclusive_witness:
  "\<exists>s. slot_reach (Some :: nat \<Rightarrow> nat option) False 1 2 s \<and> displayed (queue s) = [0] \<and>
       distinct (mFreeSlot (queue s) @ mPresentSlot (queue s) @ displayed (queue s) @ held s)"
  using slot_exclusive[OF one_frame_reach] one_frame_reach
  by (intro exI[of _ one_frame_sys]) (simp add: one_frame_sys_def displayed_def)

text \<open>
  C38: the slot that the composition thread gets for display is never owned by a producer or
  free at that moment, and its buffer is present, when cloning a handle does not fail and producers
  submit only slots that \<open>getFreeSlot\<close> gave them.
\<close>

theorem present_slot_safe:
  assumes "slot_reach clone spurious producers n s" and "\<forall>b. clone b \<noteq> None"
    and "getPresentSlot (queue s) = (slot, signalled, q')" and "slot \<noteq> -1"
  shows "getPresentBuffer slot q' \<noteq> None \<and> slot \<notin> set (held s) \<and> slot \<notin> set (mFreeSlot q')"
proof -
  have q': "q' = queue (sys_present s)" using assms(3) by (simp add: sys_present_queue)
  have l: "mLastPresent q' = slot"
    using assms(3) by (auto simp: getPresentSlot_def split: list.splits if_splits)
  have inv: "slot_inv n (sys_present s)"
    using slot_reach_inv[OF assms(1)] present_places[of n s] by (simp add: slot_inv_def)
  have h: "held (sys_present s) = held s" by (simp add: sys_present_def split: prod.splits)
  from slot_inv_distinct[OF inv] have "slot \<notin> set (held s)" "slot \<notin> set (mFreeSlot q')"
    using l h assms(4) by (auto simp: displayed_def q'[symmetric])
  moreover have "buffers_inv q'"
    using buffers_inv_present[OF assms(3) slot_reach_buffers[OF assms(1,2)]] .
  then have "getPresentBuffer slot q' \<noteq> None"
    using l assms(4) by (auto simp: buffers_inv_def displayed_def getPresentBuffer_def)
  ultimately show ?thesis by blast
qed

theorem present_slot_safe_witness:
  "\<exists>s slot signalled q'. slot_reach (Some :: nat \<Rightarrow> nat option) False 1 2 s \<and>
     getPresentSlot (queue s) = (slot, signalled, q') \<and> slot = 0 \<and> getPresentBuffer slot q' \<noteq> None"
proof -
  have "getPresentSlot (queue one_frame_sys) = (0, False, queue one_frame_sys)"
    by (simp add: one_frame_sys_def getPresentSlot_def)
  with present_slot_safe[OF one_frame_reach _ this] one_frame_reach show ?thesis by auto
qed

text \<open>
  With a single producer and no spurious wake-up, \<open>getFreeSlot\<close> never takes a slot from an
  empty vector, whatever the interleaving with the composition thread.
\<close>

theorem single_producer_defined:
  assumes "slot_reach clone False 1 n s"
  shows "\<not> undef s"
  using slot_reach_single[OF assms] by (simp add: single_inv_def)

theorem single_producer_defined_witness:
  "\<exists>s. slot_reach (Some :: nat \<Rightarrow> nat option) False 1 2 s \<and> displayed (queue s) = [0] \<and> \<not> undef s"
  using single_producer_defined[OF one_frame_reach] one_frame_reach
  by (intro exI[of _ one_frame_sys]) (simp add: one_frame_sys_def displayed_def)

text \<open>
  With two producers, even without spurious wake-ups, a woken producer can find the vector
  empty, since \<open>getFreeSlot\<close> tests with \<open>if\<close> and not with \<open>while\<close>: undefined behaviour is
  reachable with two slots.
\<close>

theorem two_producers_underflow:
  "\<exists>s. slot_reach (Some :: nat \<Rightarrow> nat option) False 2 2 s \<and> undef s"
  using two_racing_run slot_run_reach[OF _ slot_reach.init] by blast

text \<open>
  Frames submitted to an idle queue are displayed in the order of submission, one per composition, and
  afterwards the last one is shown again.
\<close>

primrec show_frames :: "nat \<Rightarrow> 'm buffer_slot \<Rightarrow> int list" where
  "show_frames 0 q = []"
| "show_frames (Suc n) q =
     (case getPresentSlot q of (slot, _, q') \<Rightarrow> slot # show_frames n q')"

lemma show_frames_pops: "show_frames n q = slots.pops n q"
  by (induction n arbitrary: q) (auto simp: pop_slot_def split: prod.splits)

lemma fold_push_all:
  "fold (\<lambda>slot. addPresentSlot clone slot (Some (hnd slot))) xs q = slots.push_all clone hnd xs q"
  by (induction xs arbitrary: q) auto

lemma frames_then_last:
  assumes "mPresentSlot q = []" and "\<forall>slot\<in>set xs. valid_slot slot"
  shows "show_frames (length xs + k) (fold (\<lambda>slot. addPresentSlot clone slot (Some (hnd slot))) xs q) =
           xs @ replicate k (if xs = [] then mLastPresent q else last xs)"
  unfolding show_frames_pops fold_push_all by (rule slots.fifo[OF assms])

text \<open>Submissions and compositions in any order: the slots that were shown, and the state after.\<close>

fun run_queue :: "('m \<Rightarrow> 'm option) \<Rightarrow> (int \<Rightarrow> 'm) \<Rightarrow> int frame_op list \<Rightarrow> 'm buffer_slot \<Rightarrow> int list \<times> 'm buffer_slot" where
  "run_queue clone hnd [] q = ([], q)"
| "run_queue clone hnd (Submit slot # ops) q = run_queue clone hnd ops (addPresentSlot clone slot (Some (hnd slot)) q)"
| "run_queue clone hnd (Present_Next # ops) q =
     (case getPresentSlot q of (slot, _, q1) \<Rightarrow>
        (case run_queue clone hnd ops q1 of (slots, q') \<Rightarrow> (slot # slots, q')))"

lemma run_queue_run: "run_queue clone hnd ops q = slots.run clone hnd ops q"
proof (induction clone hnd ops q rule: run_queue.induct)
  case (3 clone hnd ops q)
  obtain slot b q1 where g: "getPresentSlot q = (slot, b, q1)" by (cases "getPresentSlot q") auto
  then have "pop_slot q = (slot, q1)" by (simp add: pop_slot_def)
  then show ?case using 3[OF g[symmetric] refl] g by (simp add: slots.run.simps)
qed (simp_all add: slots.run.simps)

text \<open>
  C39: frames are displayed in the order of submission, none twice and none left out: however
  submissions of valid slots (with a buffer) and compositions are interleaved, as long as a frame is
  pending at each composition, the slots shown so far followed by the pending ones are the slots that
  were pending at the start followed by those submitted; each composition shows one, and the last one
  shown is the one on the screen.
\<close>

theorem frames_in_order:
  assumes "run_queue clone hnd ops q = (shown, q')" "never_dry (length (mPresentSlot q)) ops"
    and "\<forall>slot\<in>set (submitted ops). valid_slot slot"
  shows "shown @ mPresentSlot q' = mPresentSlot q @ submitted ops \<and>
    length shown = count_list ops Present_Next \<and> (shown \<noteq> [] \<longrightarrow> mLastPresent q' = last shown)"
  using slots.run_fifo[OF assms(2,3) assms(1)[unfolded run_queue_run]] by blast

theorem frames_in_order_witness:
  "\<exists>q'. run_queue Some (\<lambda>slot. slot) [Submit 1, Submit 0, Present_Next, Submit 2, Present_Next] (BufferSlot_init 3) =
     ([1, 0], q') \<and> mPresentSlot q' = [2]"
proof -
  let ?ops = "[Submit 1, Submit 0, Present_Next, Submit 2, Present_Next]"
  obtain shown q' where r: "run_queue Some (\<lambda>slot. slot) ?ops (BufferSlot_init 3) = (shown, q')" by fastforce
  have "mPresentSlot (BufferSlot_init 3 :: int buffer_slot) = []" by (simp add: BufferSlot_init_def)
  with frames_in_order[OF r] have "shown @ mPresentSlot q' = [1, 0, 2]" "length shown = 2"
    by (simp_all add: valid_slot_def MAX_COUNT_def)
  then have "shown = [1, 0]" "mPresentSlot q' = [2]" by (auto simp: length_Suc_conv numeral_2_eq_2)
  then show ?thesis using r by simp
qed

end
