(* ===== verification/Layers.thy ===== *)
theory Layers
  imports HAL_Prelude
begin

text \<open>
  \<open>Layer\<close> and \<open>LayerVector\<close> (\<open>display/display/Layer.h\<close>, \<open>Layer.cpp\<close>).  A layer is a record;
  the display owns \<open>MAX_LAYERS\<close> of them for the life of the process, and refers to layers that
  other processes registered by address: a pointer to a layer is a \<open>layer_ref\<close>.  The Android
  classes \<open>Rect\<close>, \<open>Region\<close> and \<open>SortedVector\<close> are not part of the repository: a rectangle is
  its four coordinates, a region the list of rectangles that \<open>getArray\<close> returns, and their
  operations are the fields of \<open>ui_ops\<close> and \<open>sv_ops\<close>.
\<close>

section \<open>Rectangles and regions\<close>

record rect =
  r_left :: int
  r_top :: int
  r_right :: int
  r_bottom :: int

definition rect0 :: rect where
  "rect0 = \<lparr>r_left = 0, r_top = 0, r_right = 0, r_bottom = 0\<rparr>"

type_synonym region = "rect list"

record ui_ops =
  ui_isEmpty :: "rect \<Rightarrow> bool"
  ui_intersect :: "rect \<Rightarrow> rect \<Rightarrow> rect"
  ui_screen :: "int \<Rightarrow> int \<Rightarrow> region"
  ui_or :: "region \<Rightarrow> region \<Rightarrow> region"
  ui_subtract :: "region \<Rightarrow> region \<Rightarrow> region"

section \<open>Layers\<close>

definition MAX_LAYERS :: nat where "MAX_LAYERS = 64"

definition LAYER_TYPE_INVALID :: int where [simp]: "LAYER_TYPE_INVALID = 0"
definition LAYER_TYPE_CLIENT :: int where [simp]: "LAYER_TYPE_CLIENT = 1"
definition LAYER_TYPE_DEVICE :: int where [simp]: "LAYER_TYPE_DEVICE = 2"
definition LAYER_TYPE_SOLID_COLOR :: int where [simp]: "LAYER_TYPE_SOLID_COLOR = 3"
definition LAYER_TYPE_CURSOR :: int where [simp]: "LAYER_TYPE_CURSOR = 4"
definition LAYER_TYPE_SIDEBAND :: int where [simp]: "LAYER_TYPE_SIDEBAND = 5"

definition TRANSFORM_FLIPH :: int where [simp]: "TRANSFORM_FLIPH = 1"
definition TRANSFORM_FLIPV :: int where [simp]: "TRANSFORM_FLIPV = 2"
definition TRANSFORM_ROT90 :: int where [simp]: "TRANSFORM_ROT90 = 4"

definition BLENDING_NONE :: int where [simp]: "BLENDING_NONE = 0x0100"
definition BLENDING_PREMULT :: int where [simp]: "BLENDING_PREMULT = 0x0105"
definition BLENDING_COVERAGE :: int where [simp]: "BLENDING_COVERAGE = 0x0405"
definition BLENDING_DIM :: int where [simp]: "BLENDING_DIM = 0x0805"

definition SKIP_LAYER :: i32 where "SKIP_LAYER = 0x00000001"
definition BUFFER_SLOT :: i32 where "BUFFER_SLOT = 0x40000000"

text \<open>
  The handle and \<open>priv\<close> are addresses, \<open>None\<close> for null; the HDR metadata is a list of bytes
  that the display only clears and copies.
\<close>

record layer =
  busy :: bool
  zorder :: i32
  origType :: int
  type :: int
  handle :: "nat option"
  lastHandle :: "nat option"
  transform :: int
  blendMode :: int
  planeAlpha :: int
  color :: u32
  flags :: i32
  sourceCrop :: rect
  displayFrame :: rect
  visibleRegion :: region
  lastSourceCrop :: rect
  lastDisplayFrame :: rect
  acquireFence :: int
  releaseFence :: int
  lindex :: int
  isHdrMode :: bool
  isOverlay :: bool
  priv :: "nat option"
  hdrMetadata :: "u8 list"
  dataspace :: u32

text \<open>
  The constructor, which leaves \<open>lastSourceCrop\<close> and \<open>lastDisplayFrame\<close> to \<open>Rect\<close>'s own
  constructor.
\<close>

definition Layer_init :: layer where
  "Layer_init =
     \<lparr>busy = False, zorder = 0, origType = LAYER_TYPE_INVALID, type = LAYER_TYPE_INVALID,
      handle = None, lastHandle = None, transform = 0, blendMode = BLENDING_NONE, planeAlpha = 0,
      color = 0, flags = 0, sourceCrop = rect0, displayFrame = rect0, visibleRegion = [],
      lastSourceCrop = rect0, lastDisplayFrame = rect0, acquireFence = -1, releaseFence = -1,
      lindex = -1, isHdrMode = False, isOverlay = False, priv = None, hdrMetadata = [],
      dataspace = 0\<rparr>"

definition isSolidColor :: "layer \<Rightarrow> bool" where
  "isSolidColor l \<longleftrightarrow> type l = LAYER_TYPE_SOLID_COLOR"

section \<open>The vector of layers to compose\<close>

datatype layer_ref = Own nat | Hw nat

text \<open>
  \<open>do_compare\<close>: the difference of the z-orders as a 32-bit integer.  \<open>SortedVector\<close> keeps its
  elements in the order of \<open>do_compare\<close>; \<open>add\<close> replaces an element that compares equal, and
  \<open>remove\<close> removes the element that compares equal to its argument.
\<close>

definition do_compare :: "i32 \<Rightarrow> i32 \<Rightarrow> int" where
  "do_compare ls rs = sint (ls - rs)"

record sv_ops =
  sv_add :: "(layer_ref \<Rightarrow> i32) \<Rightarrow> layer_ref \<Rightarrow> layer_ref list \<Rightarrow> layer_ref list"
  sv_remove :: "(layer_ref \<Rightarrow> i32) \<Rightarrow> layer_ref \<Rightarrow> layer_ref list \<Rightarrow> layer_ref list"

text \<open>The z-orders for which 32-bit subtraction orders as the integers do.\<close>

definition z_ok :: "(layer_ref \<Rightarrow> i32) \<Rightarrow> layer_ref set \<Rightarrow> bool" where
  "z_ok z rs \<longleftrightarrow> (\<forall>r\<in>rs. 0 \<le> sint (z r))"

definition z_sorted :: "(layer_ref \<Rightarrow> i32) \<Rightarrow> layer_ref list \<Rightarrow> bool" where
  "z_sorted z rs \<longleftrightarrow> sorted_wrt (\<lambda>a b. do_compare (z a) (z b) < 0) rs"

text \<open>What \<open>SortedVector\<close> documents, for a vector that is in order.\<close>

definition sv_ok :: "sv_ops \<Rightarrow> bool" where
  "sv_ok ops \<longleftrightarrow>
     (\<forall>z r rs. z_sorted z rs \<longrightarrow> z_ok z (insert r (set rs)) \<longrightarrow>
        z_sorted z (sv_add ops z r rs) \<and>
        set (sv_add ops z r rs) = insert r {x \<in> set rs. do_compare (z x) (z r) \<noteq> 0} \<and>
        sv_remove ops z r rs = filter (\<lambda>x. do_compare (z x) (z r) \<noteq> 0) rs)"

text \<open>An implementation with these properties.\<close>

definition sv_ref :: sv_ops where
  "sv_ref = \<lparr>sv_add = \<lambda>z r rs. filter (\<lambda>x. do_compare (z x) (z r) < 0) rs @ [r] @
                              filter (\<lambda>x. do_compare (z x) (z r) > 0) rs,
             sv_remove = \<lambda>z r rs. filter (\<lambda>x. do_compare (z x) (z r) \<noteq> 0) rs\<rparr>"

lemma do_compare_refl [simp]: "do_compare a a = 0"
  by (simp add: do_compare_def)

lemma do_compare_nonneg:
  assumes "0 \<le> sint a" "0 \<le> sint b"
  shows "do_compare a b = sint a - sint b"
proof -
  have "sint a < 2^31" "sint b < 2^31" using sint_lt[of a] sint_lt[of b] by simp_all
  then have "- (2^31) \<le> sint a - sint b" "sint a - sint b < 2^31" using assms by linarith+
  then show ?thesis
    unfolding do_compare_def sint_word_ariths
    by (intro signed_take_bit_int_eq_self) simp_all
qed

lemma z_sorted_filter: "z_sorted z rs \<Longrightarrow> z_sorted z (filter P rs)"
  by (simp add: z_sorted_def sorted_wrt_filter)

lemma sv_ref_ok: "sv_ok sv_ref"
proof -
  have "z_sorted z (filter (\<lambda>x. do_compare (z x) (z r) < 0) rs @ [r] @
                    filter (\<lambda>x. do_compare (z x) (z r) > 0) rs)"
    if s: "z_sorted z rs" and ok: "z_ok z (insert r (set rs))" for z r rs
  proof -
    have z: "do_compare (z x) (z y) = sint (z x) - sint (z y)"
      if "x \<in> insert r (set rs)" "y \<in> insert r (set rs)" for x y
      using ok that by (auto simp: z_ok_def intro!: do_compare_nonneg)
    show ?thesis
      using z_sorted_filter[OF s, of "\<lambda>x. do_compare (z x) (z r) < 0"]
        z_sorted_filter[OF s, of "\<lambda>x. do_compare (z x) (z r) > 0"]
      unfolding z_sorted_def by (auto simp: sorted_wrt_append z)
  qed
  then show ?thesis by (auto simp: sv_ok_def sv_ref_def not_less)
qed

end
