(* ===== verification/Memory_Desc.thy ===== *)
theory Memory_Desc
  imports HAL_Prelude "HOL-Library.Signed_Division"
begin

text \<open>
  \<open>MemoryDesc\<close> and \<open>Memory\<close> (\<open>display/display/MemoryDesc.h\<close>, \<open>MemoryDesc.cpp\<close>,
  \<open>Memory.h\<close>, \<open>Memory.cpp\<close>): the description of a graphics buffer, the computation of its
  stride and size from format, dimensions and usage (\<open>checkFormat\<close>), and the buffer handle.
  Preprocessor choices are fields of \<open>build_cfg\<close>.  Widths, heights and sizes are 32-bit
  words and the intermediate products 64-bit words, as in the code; the reference layout is
  over \<open>nat\<close>.
\<close>

section \<open>Build configuration\<close>

text \<open>The macros of \<open>display/display/display.go\<close> that the modelled files test.\<close>

record build_cfg =
  IMX8 :: bool
  USE_SW_OPENGL :: bool
  WORKAROUND_DISPLAY_UNDERRUN :: bool
  FRAMEBUFFER_COMPRESSION :: bool
  WORKAROUND_VIRTUAL_DISPLAY_FLICKER :: bool
  WORKAROUND_DPU_ALPHA_BLENDING :: bool
  ENABLE_8QM_WIDEVINE :: bool
  HAVE_UNMAPPED_HEAP :: bool
  CFG_SECURE_DATA_PATH :: bool
  USE_DPU_HWC :: bool

section \<open>Formats, usages and flags\<close>

definition FORMAT_RGBA8888 :: int where [simp]: "FORMAT_RGBA8888 = 1"
definition FORMAT_RGBX8888 :: int where [simp]: "FORMAT_RGBX8888 = 2"
definition FORMAT_RGB888 :: int where [simp]: "FORMAT_RGB888 = 3"
definition FORMAT_RGB565 :: int where [simp]: "FORMAT_RGB565 = 4"
definition FORMAT_BGRA8888 :: int where [simp]: "FORMAT_BGRA8888 = 5"
definition FORMAT_RGBA1010102 :: int where [simp]: "FORMAT_RGBA1010102 = 0x2B"
definition FORMAT_RGBAFP16 :: int where [simp]: "FORMAT_RGBAFP16 = 0x16"
definition FORMAT_BLOB :: int where [simp]: "FORMAT_BLOB = 0x21"
definition FORMAT_YCBCR_P010 :: int where [simp]: "FORMAT_YCBCR_P010 = 0x36"
definition FORMAT_YV12 :: int where [simp]: "FORMAT_YV12 = 0x32315659"
definition FORMAT_NV16 :: int where [simp]: "FORMAT_NV16 = 0x10"
definition FORMAT_NV21 :: int where [simp]: "FORMAT_NV21 = 0x11"
definition FORMAT_YUYV :: int where [simp]: "FORMAT_YUYV = 0x14"
definition FORMAT_I420 :: int where [simp]: "FORMAT_I420 = 0x101"
definition FORMAT_NV12 :: int where [simp]: "FORMAT_NV12 = 0x103"
definition FORMAT_NV12_TILED :: int where [simp]: "FORMAT_NV12_TILED = 0x104"
definition FORMAT_NV12_G1_TILED :: int where [simp]: "FORMAT_NV12_G1_TILED = 0x105"
definition FORMAT_NV12_G2_TILED :: int where [simp]: "FORMAT_NV12_G2_TILED = 0x106"
definition FORMAT_NV12_G2_TILED_COMPRESSED :: int where [simp]:
  "FORMAT_NV12_G2_TILED_COMPRESSED = 0x107"
definition FORMAT_P010 :: int where [simp]: "FORMAT_P010 = 0x108"
definition FORMAT_P010_TILED :: int where [simp]: "FORMAT_P010_TILED = 0x109"
definition FORMAT_P010_TILED_COMPRESSED :: int where [simp]: "FORMAT_P010_TILED_COMPRESSED = 0x110"
definition FORMAT_RAW16 :: int where [simp]: "FORMAT_RAW16 = 0x203"

text \<open>Usage bits: the enumerators fit an \<open>int\<close> and are widened to the 64-bit usage.\<close>

definition USAGE_SW_READ_OFTEN :: "'a::len word" where "USAGE_SW_READ_OFTEN = 0x00000003"
definition USAGE_SW_WRITE_OFTEN :: "'a::len word" where "USAGE_SW_WRITE_OFTEN = 0x00000030"
definition USAGE_HW_TEXTURE :: "'a::len word" where "USAGE_HW_TEXTURE = 0x00000100"
definition USAGE_HW_RENDER :: "'a::len word" where "USAGE_HW_RENDER = 0x00000200"
definition USAGE_HW_2D :: "'a::len word" where "USAGE_HW_2D = 0x00000400"
definition USAGE_HW_COMPOSER :: "'a::len word" where "USAGE_HW_COMPOSER = 0x00000800"
definition USAGE_PROTECTED :: "'a::len word" where "USAGE_PROTECTED = 0x00004000"
definition USAGE_HW_VIDEO_ENCODER :: "'a::len word" where "USAGE_HW_VIDEO_ENCODER = 0x00010000"
definition USAGE_GPU_TILED_VIV :: "'a::len word" where "USAGE_GPU_TILED_VIV = 0x10000000"
definition USAGE_GPU_TS_VIV :: "'a::len word" where "USAGE_GPU_TS_VIV = 0x20000000"
definition USAGE_PADDING_BUFFER :: "'a::len word" where "USAGE_PADDING_BUFFER = 0x40000000"

lemmas usage_defs =
  USAGE_SW_READ_OFTEN_def USAGE_SW_WRITE_OFTEN_def USAGE_HW_TEXTURE_def USAGE_HW_RENDER_def
  USAGE_HW_2D_def USAGE_HW_COMPOSER_def USAGE_PROTECTED_def USAGE_HW_VIDEO_ENCODER_def
  USAGE_GPU_TILED_VIV_def USAGE_GPU_TS_VIV_def USAGE_PADDING_BUFFER_def

definition FLAGS_FRAMEBUFFER :: i32 where "FLAGS_FRAMEBUFFER = 0x00000001"
definition FLAGS_DIMBUFFER :: i32 where "FLAGS_DIMBUFFER = 0x00000002"
definition FLAGS_ALLOCATION_ION :: i32 where "FLAGS_ALLOCATION_ION = 0x00000010"
definition FLAGS_CPU :: i32 where "FLAGS_CPU = 0x00800000"
definition FLAGS_SECURE :: i32 where "FLAGS_SECURE = 0x10000000"

lemmas flags_defs =
  FLAGS_FRAMEBUFFER_def FLAGS_DIMBUFFER_def FLAGS_ALLOCATION_ION_def FLAGS_CPU_def FLAGS_SECURE_def

definition ALIGN_PIXEL_4 :: "i32 \<Rightarrow> i32" where "ALIGN_PIXEL_4 x = (x + 3) AND NOT 3"
definition ALIGN_PIXEL_16 :: "i32 \<Rightarrow> i32" where "ALIGN_PIXEL_16 x = (x + 15) AND NOT 15"
definition ALIGN_PIXEL_32 :: "i32 \<Rightarrow> i32" where "ALIGN_PIXEL_32 x = (x + 31) AND NOT 31"
definition ALIGN_PIXEL_64 :: "i32 \<Rightarrow> i32" where "ALIGN_PIXEL_64 x = (x + 63) AND NOT 63"
definition ALIGN_PIXEL_256 :: "i32 \<Rightarrow> i32" where "ALIGN_PIXEL_256 x = (x + 255) AND NOT 255"

lemmas align_defs =
  ALIGN_PIXEL_4_def ALIGN_PIXEL_16_def ALIGN_PIXEL_32_def ALIGN_PIXEL_64_def ALIGN_PIXEL_256_def

section \<open>MemoryDesc\<close>

definition DESC_MAGIC :: int where "DESC_MAGIC = 0x31415920"

record mem_desc =
  mMagic :: int
  mFlag :: i32
  mWidth :: i32
  mHeight :: i32
  mFormat :: int
  mFslFormat :: int
  mStride :: i32
  mBpp :: i32
  mSize :: i32
  mProduceUsage :: i64
  mConsumeUsage :: i64

definition MemoryDesc_init :: mem_desc where
  "MemoryDesc_init =
     \<lparr>mMagic = DESC_MAGIC, mFlag = 0, mWidth = 0, mHeight = 0, mFormat = 0, mFslFormat = 0,
      mStride = 0, mBpp = 0, mSize = 0, mProduceUsage = 0, mConsumeUsage = 0\<rparr>"

definition MemoryDesc_isValid :: "mem_desc \<Rightarrow> bool" where
  "MemoryDesc_isValid d \<longleftrightarrow> mMagic d = DESC_MAGIC"

text \<open>
  \<open>Composer::alignTile\<close> calls \<open>hwc_align_tile\<close> of the GPU helper library, when that library is
  there.  \<open>checkFormat\<close> passes it pointers to the low halves of two \<open>size_t\<close> variables.
\<close>

type_synonym align_tile = "(i32 \<Rightarrow> i32 \<Rightarrow> int \<Rightarrow> i32 \<Rightarrow> i32 \<times> i32) option"

definition alignTile :: "align_tile \<Rightarrow> i32 \<Rightarrow> i32 \<Rightarrow> int \<Rightarrow> i32 \<Rightarrow> i32 \<times> i32" where
  "alignTile lib width height format usage =
     (case lib of None \<Rightarrow> (width, height) | Some f \<Rightarrow> f width height format usage)"

definition set_low32 :: "size_t \<Rightarrow> i32 \<Rightarrow> size_t" where
  "set_low32 x v = (x AND NOT 0xFFFFFFFF) OR ucast v"

text \<open>The body of the RGB cases: aligned width and size, for \<open>bpp\<close> bytes per pixel.\<close>

definition rgb_layout :: "build_cfg \<Rightarrow> align_tile \<Rightarrow> mem_desc \<Rightarrow> size_t \<Rightarrow> size_t \<times> size_t" where
  "rgb_layout cfg lib d bpp =
     (let linear = (let alignedw = scast (ALIGN_PIXEL_16 (mWidth d));
                        alignedh = scast (ALIGN_PIXEL_16 (mHeight d))
                    in (alignedw, alignedw * alignedh * bpp))
      in if IMX8 cfg then
           if has_flag (mProduceUsage d) USAGE_GPU_TILED_VIV then
             (let (alignedw, alignedh) =
                (if WORKAROUND_DISPLAY_UNDERRUN cfg \<and> has_flag (mFlag d) FLAGS_FRAMEBUFFER
                 then (scast (ALIGN_PIXEL_16 (mWidth d)), scast (ALIGN_PIXEL_16 (mHeight d)))
                 else (scast (ALIGN_PIXEL_64 (mWidth d)), scast (ALIGN_PIXEL_64 (mHeight d))))
              in (alignedw, alignedw * alignedh * bpp + 128))
           else linear
         else if \<not> USE_SW_OPENGL cfg then
           (let (w, h) = alignTile lib (mWidth d) (mHeight d) (mFslFormat d)
                           (ucast (mProduceUsage d));
                alignedw = set_low32 (scast (mWidth d)) w;
                alignedh = set_low32 (scast (mHeight d)) h
            in (alignedw, alignedw * alignedh * bpp + 128))
         else linear)"

text \<open>
  The \<open>switch\<close>: \<open>(alignedw, size, bpp)\<close> of the format, or \<open>None\<close> in the default case.
\<close>

definition format_layout ::
    "build_cfg \<Rightarrow> align_tile \<Rightarrow> mem_desc \<Rightarrow> (size_t \<times> size_t \<times> size_t) option" where
  "format_layout cfg lib d =
     (let f = mFslFormat d; w = mWidth d; h = mHeight d;
          padding = has_flag (mProduceUsage d) USAGE_PADDING_BUFFER;
          plain = (\<lambda>alignedw alignedh. alignedw * alignedh * 3 div 2);
          padded = (\<lambda>alignedw alignedh. alignedw * alignedh * 3 div 2 + alignedw * alignedh div 4 + 32);
          p010w = word_of_int (sint (w * 5) sdiv 4)
      in
      if f \<in> {FORMAT_RGBA8888, FORMAT_RGBX8888, FORMAT_BGRA8888, FORMAT_RGBA1010102,
              FORMAT_RGB888, FORMAT_RGB565, FORMAT_RGBAFP16} then
        (let bpp = (if f = FORMAT_RGB565 then 2 else if f = FORMAT_RGB888 then 3
                    else if f = FORMAT_RGBAFP16 then 8 else 4);
             (alignedw, bytes) = rgb_layout cfg lib d bpp
         in Some (alignedw, bytes, bpp))
      else if f = FORMAT_BLOB then
        Some (scast w, scast w * scast h, 0)
      else if f \<in> {FORMAT_NV12, FORMAT_NV21, FORMAT_NV12_G1_TILED, FORMAT_NV12_G2_TILED,
                   FORMAT_NV12_G2_TILED_COMPRESSED} then
        (let alignedw = scast (ALIGN_PIXEL_16 w)
         in Some (alignedw, if padding then padded alignedw (scast (ALIGN_PIXEL_16 h))
                            else plain alignedw (scast (ALIGN_PIXEL_4 h)), 0))
      else if f = FORMAT_YCBCR_P010 then
        (let alignedw = scast (ALIGN_PIXEL_16 w); alignedh4 = scast (ALIGN_PIXEL_4 h);
             alignedh16 = scast (ALIGN_PIXEL_16 h)
         in Some (alignedw,
                  if padding then alignedw * alignedh16 * 3 div 2 * 2 + alignedw * alignedh16 div 4 * 2 + 32
                  else alignedw * alignedh4 * 3 div 2 * 2, 0))
      else if f \<in> {FORMAT_P010, FORMAT_P010_TILED_COMPRESSED} then
        (let alignedw = scast (ALIGN_PIXEL_16 p010w)
         in Some (alignedw, if padding then padded alignedw (scast (ALIGN_PIXEL_16 h))
                            else plain alignedw (scast (ALIGN_PIXEL_4 h)), 0))
      else if f \<in> {FORMAT_I420, FORMAT_YV12} then
        (let alignedw = scast (ALIGN_PIXEL_32 w); alignedh = scast (ALIGN_PIXEL_4 h);
             c_stride = ucast ((alignedw div 2 + 15) div 16 * 16) :: i32
         in Some (alignedw, alignedw * alignedh + scast c_stride * alignedh, 0))
      else if f \<in> {FORMAT_NV16, FORMAT_YUYV, FORMAT_RAW16} then
        (let alignedw = scast (ALIGN_PIXEL_16 w)
         in Some (alignedw, alignedw * scast (ALIGN_PIXEL_4 h) * 2, 0))
      else if f = FORMAT_NV12_TILED then
        (let alignedw = scast (ALIGN_PIXEL_256 w)
         in Some (alignedw, plain alignedw (scast (ALIGN_PIXEL_256 h)), 0))
      else if f = FORMAT_P010_TILED then
        (let alignedw = scast (ALIGN_PIXEL_256 p010w)
         in Some (alignedw, plain alignedw (scast (ALIGN_PIXEL_256 h)), 0))
      else None)"

definition encoder_usage :: "mem_desc \<Rightarrow> i64" where
  "encoder_usage d =
     (if mFslFormat d \<in> {FORMAT_RGBA8888, FORMAT_RGBX8888, FORMAT_BGRA8888, FORMAT_RGBA1010102,
                         FORMAT_RGB888, FORMAT_RGB565, FORMAT_RGBAFP16} \<and>
         has_flag (mProduceUsage d) USAGE_HW_VIDEO_ENCODER
      then mProduceUsage d OR (USAGE_HW_COMPOSER OR USAGE_HW_2D OR USAGE_HW_RENDER OR
             USAGE_SW_WRITE_OFTEN OR USAGE_SW_READ_OFTEN)
      else mProduceUsage d)"

definition checkFormat :: "build_cfg \<Rightarrow> align_tile \<Rightarrow> mem_desc \<Rightarrow> int \<times> mem_desc" where
  "checkFormat cfg lib d =
     (if mWidth d = 0 \<or> mHeight d = 0 then (- EINVAL, d)
      else case format_layout cfg lib d of
        None \<Rightarrow> (- EINVAL, d)
      | Some (alignedw, bytes, bpp) \<Rightarrow>
          (0, d\<lparr>mProduceUsage := encoder_usage d, mSize := ucast bytes, mBpp := ucast bpp,
                mStride := ucast alignedw\<rparr>))"


section \<open>The alignment macros\<close>

lemma mask_lits:
  "(mask 2 :: i32) = 3" "(mask 4 :: i32) = 15" "(mask 5 :: i32) = 31" "(mask 6 :: i32) = 63"
  "(mask 8 :: i32) = 255"
  by (simp_all add: mask_eq_exp_minus_1)

lemma unat_ALIGN_PIXEL:
  assumes "unat x + 255 < 2^31"
  shows "unat (ALIGN_PIXEL_4 x) = align_up 4 (unat x)"
    and "unat (ALIGN_PIXEL_16 x) = align_up 16 (unat x)"
    and "unat (ALIGN_PIXEL_32 x) = align_up 32 (unat x)"
    and "unat (ALIGN_PIXEL_64 x) = align_up 64 (unat x)"
    and "unat (ALIGN_PIXEL_256 x) = align_up 256 (unat x)"
proof -
  note a = align_word[OF assms refl]
  have p: "(2::nat)^2 = 4" "(2::nat)^4 = 16" "(2::nat)^5 = 32" "(2::nat)^6 = 64" "(2::nat)^8 = 256"
    by simp_all
  have "ALIGN_PIXEL_4 x = (x + word_of_nat (2^2 - 1)) AND NOT (mask 2)"
       "ALIGN_PIXEL_16 x = (x + word_of_nat (2^4 - 1)) AND NOT (mask 4)"
       "ALIGN_PIXEL_32 x = (x + word_of_nat (2^5 - 1)) AND NOT (mask 5)"
       "ALIGN_PIXEL_64 x = (x + word_of_nat (2^6 - 1)) AND NOT (mask 6)"
       "ALIGN_PIXEL_256 x = (x + word_of_nat (2^8 - 1)) AND NOT (mask 8)"
    by (simp_all add: align_defs mask_lits del: of_nat_diff)
  then show "unat (ALIGN_PIXEL_4 x) = align_up 4 (unat x)"
    and "unat (ALIGN_PIXEL_16 x) = align_up 16 (unat x)"
    and "unat (ALIGN_PIXEL_32 x) = align_up 32 (unat x)"
    and "unat (ALIGN_PIXEL_64 x) = align_up 64 (unat x)"
    and "unat (ALIGN_PIXEL_256 x) = align_up 256 (unat x)"
    using a[of 2] a[of 4] a[of 5] a[of 6] a[of 8] by (simp_all only: p)
qed

section \<open>The layout in exact arithmetic\<close>

definition ref_rgb :: "build_cfg \<Rightarrow> align_tile \<Rightarrow> mem_desc \<Rightarrow> nat \<Rightarrow> nat \<times> nat" where
  "ref_rgb cfg lib d bpp =
     (let w = unat (mWidth d); h = unat (mHeight d);
          linear = (align_up 16 w, align_up 16 w * align_up 16 h * bpp);
          tiled = (\<lambda>a b. (a, a * b * bpp + 128))
      in if IMX8 cfg \<and> has_flag (mProduceUsage d) USAGE_GPU_TILED_VIV then
           (if WORKAROUND_DISPLAY_UNDERRUN cfg \<and> has_flag (mFlag d) FLAGS_FRAMEBUFFER
            then tiled (align_up 16 w) (align_up 16 h)
            else tiled (align_up 64 w) (align_up 64 h))
         else if \<not> IMX8 cfg \<and> \<not> USE_SW_OPENGL cfg then
           (case alignTile lib (mWidth d) (mHeight d) (mFslFormat d) (ucast (mProduceUsage d)) of
              (a, b) \<Rightarrow> tiled (unat a) (unat b))
         else linear)"

definition ref_layout :: "build_cfg \<Rightarrow> align_tile \<Rightarrow> mem_desc \<Rightarrow> (nat \<times> nat \<times> nat) option" where
  "ref_layout cfg lib d =
     (let f = mFslFormat d; w = unat (mWidth d); h = unat (mHeight d);
          padding = has_flag (mProduceUsage d) USAGE_PADDING_BUFFER;
          yuv420 = (\<lambda>s. if padding then s * align_up 16 h * 3 div 2 + s * align_up 16 h div 4 + 32
                        else s * align_up 4 h * 3 div 2)
      in
      if f \<in> {FORMAT_RGBA8888, FORMAT_RGBX8888, FORMAT_BGRA8888, FORMAT_RGBA1010102,
              FORMAT_RGB888, FORMAT_RGB565, FORMAT_RGBAFP16} then
        (let bpp = (if f = FORMAT_RGB565 then 2 else if f = FORMAT_RGB888 then 3
                    else if f = FORMAT_RGBAFP16 then 8 else 4)
         in Some (fst (ref_rgb cfg lib d bpp), snd (ref_rgb cfg lib d bpp), bpp))
      else if f = FORMAT_BLOB then Some (w, w * h, 0)
      else if f \<in> {FORMAT_NV12, FORMAT_NV21, FORMAT_NV12_G1_TILED, FORMAT_NV12_G2_TILED,
                   FORMAT_NV12_G2_TILED_COMPRESSED} then
        Some (align_up 16 w, yuv420 (align_up 16 w), 0)
      else if f = FORMAT_YCBCR_P010 then
        Some (align_up 16 w,
              if padding then align_up 16 w * align_up 16 h * 3 div 2 * 2 +
                              align_up 16 w * align_up 16 h div 4 * 2 + 32
              else align_up 16 w * align_up 4 h * 3 div 2 * 2, 0)
      else if f \<in> {FORMAT_P010, FORMAT_P010_TILED_COMPRESSED} then
        Some (align_up 16 (w * 5 div 4), yuv420 (align_up 16 (w * 5 div 4)), 0)
      else if f \<in> {FORMAT_I420, FORMAT_YV12} then
        (let s = align_up 32 w; a = align_up 4 h
         in Some (s, s * a + align_up 16 (s div 2) * a, 0))
      else if f \<in> {FORMAT_NV16, FORMAT_YUYV, FORMAT_RAW16} then
        Some (align_up 16 w, align_up 16 w * align_up 4 h * 2, 0)
      else if f = FORMAT_NV12_TILED then
        Some (align_up 256 w, align_up 256 w * align_up 256 h * 3 div 2, 0)
      else if f = FORMAT_P010_TILED then
        Some (align_up 256 (w * 5 div 4), align_up 256 (w * 5 div 4) * align_up 256 h * 3 div 2, 0)
      else None)"

text \<open>
  The dimensions for which the 32-bit result is exact, and what the GPU helper's alignment
  must satisfy: it rounds up, and at most doubles the largest dimension.
\<close>

definition dims_ok :: "mem_desc \<Rightarrow> bool" where
  "dims_ok d \<longleftrightarrow> 0 < unat (mWidth d) \<and> unat (mWidth d) \<le> 8192 \<and>
                 0 < unat (mHeight d) \<and> unat (mHeight d) \<le> 8192"

definition tile_ok :: "align_tile \<Rightarrow> bool" where
  "tile_ok lib \<longleftrightarrow>
     (case lib of None \<Rightarrow> True
      | Some f \<Rightarrow> \<forall>w h fmt u. unat w \<le> 8192 \<longrightarrow> unat h \<le> 8192 \<longrightarrow>
          unat w \<le> unat (fst (f w h fmt u)) \<and> unat (fst (f w h fmt u)) \<le> 16000 \<and>
          unat h \<le> unat (snd (f w h fmt u)) \<and> unat (snd (f w h fmt u)) \<le> 16000)"

lemma scast_align:
  assumes "unat x \<le> 16384"
  shows "scast (ALIGN_PIXEL_4 x) = (word_of_nat (align_up 4 (unat x)) :: size_t)"
    and "scast (ALIGN_PIXEL_16 x) = (word_of_nat (align_up 16 (unat x)) :: size_t)"
    and "scast (ALIGN_PIXEL_32 x) = (word_of_nat (align_up 32 (unat x)) :: size_t)"
    and "scast (ALIGN_PIXEL_64 x) = (word_of_nat (align_up 64 (unat x)) :: size_t)"
    and "scast (ALIGN_PIXEL_256 x) = (word_of_nat (align_up 256 (unat x)) :: size_t)"
proof -
  have a: "unat x + 255 < 2^31" using assms by simp
  have b: "align_up n (unat x) < 2^31" if "n \<le> 256" for n
    using align_up_le[of n "unat x"] assms that by simp
  note u = unat_ALIGN_PIXEL[OF a]
  show "scast (ALIGN_PIXEL_4 x) = (word_of_nat (align_up 4 (unat x)) :: size_t)"
    and "scast (ALIGN_PIXEL_16 x) = (word_of_nat (align_up 16 (unat x)) :: size_t)"
    and "scast (ALIGN_PIXEL_32 x) = (word_of_nat (align_up 32 (unat x)) :: size_t)"
    and "scast (ALIGN_PIXEL_64 x) = (word_of_nat (align_up 64 (unat x)) :: size_t)"
    and "scast (ALIGN_PIXEL_256 x) = (word_of_nat (align_up 256 (unat x)) :: size_t)"
    using b by (simp_all only: scast32_nat u)
qed

lemma align_bound: "x \<le> 16384 \<Longrightarrow> n \<le> 256 \<Longrightarrow> align_up n x \<le> 20000"
  using align_up_le[of n x] by simp

lemma area_bound: "A \<le> 20000 \<Longrightarrow> B \<le> 20000 \<Longrightarrow> A * B \<le> (400000000::nat)"
  using mult_le_mono[of A 20000 B 20000] by simp

lemma word_half:
  assumes "A \<le> 20000" "B \<le> (20000::nat)"
  shows "(word_of_nat A * word_of_nat B * 3 :: size_t) div 2 = word_of_nat (A * B * 3 div 2)"
    "(word_of_nat A * word_of_nat B :: size_t) div 4 = word_of_nat (A * B div 4)"
proof -
  note b = area_bound[OF assms]
  have "(word_of_nat (A * B * 3) :: size_t) div word_of_nat 2 = word_of_nat (A * B * 3 div 2)"
    by (rule div64) (use b in simp_all)
  then show "(word_of_nat A * word_of_nat B * 3 :: size_t) div 2 = word_of_nat (A * B * 3 div 2)" by simp
  have "(word_of_nat (A * B) :: size_t) div word_of_nat 4 = word_of_nat (A * B div 4)"
    by (rule div64) (use b in simp_all)
  then show "(word_of_nat A * word_of_nat B :: size_t) div 4 = word_of_nat (A * B div 4)" by simp
qed

lemma p010_width:
  assumes "unat (w :: i32) \<le> 8192"
  shows "unat (word_of_int (sint (w * 5) sdiv 4) :: i32) = unat w * 5 div 4"
proof -
  have lt: "unat w * 5 < 2^32" "unat w * 5 < 2^31" using assms by simp_all
  have "w * 5 = word_of_nat (unat w * 5)" by simp
  then have u: "unat (w * 5) = unat w * 5" by (simp only: unat32[OF lt(1)])
  then have "unat (w * 5) < 2^31" using lt by simp
  then have "sint (w * 5) = int (unat w * 5)" by (simp only: sint_small u)
  then have "sint (w * 5) sdiv 4 = int (unat w * 5 div 4)"
    by (simp add: signed_divide_int_def  sgn_if nat_div_distrib zdiv_int)
  then have "word_of_int (sint (w * 5) sdiv 4) = (word_of_nat (unat w * 5 div 4) :: i32)"
    by (simp only: of_int_of_nat_eq)
  moreover have "unat w * 5 div 4 < 2^32" using assms by simp
  ultimately show ?thesis by (simp only: unat32)
qed

lemma set_low32_nat:
  assumes "unat (w :: i32) \<le> 16384"
  shows "set_low32 (scast w) v = word_of_nat (unat v)"
proof -
  have lt: "unat w < 2^64" using assms by simp
  have "unat w < 2^31" using assms by simp
  then have s: "scast w = (word_of_nat (unat w) :: size_t)" by (rule scast32_nat)
  have "unat ((word_of_nat (unat w) :: size_t) AND NOT (mask 32)) = 0"
    unfolding unat_and_not_mask unat64[OF lt] using assms by simp
  then have "(word_of_nat (unat w) :: size_t) AND NOT (mask 32) = 0"
    by (simp only: unsigned_eq_0_iff)
  moreover have "(mask 32 :: size_t) = 0xFFFFFFFF" by (simp add: mask_eq_exp_minus_1)
  ultimately have "(scast w :: size_t) AND NOT 0xFFFFFFFF = 0" by (simp only: s)
  moreover have "(ucast v :: size_t) = word_of_nat (unat v)" by simp
  ultimately show ?thesis by (simp only: set_low32_def or.left_neutral)
qed

lemma rgb_layout_nat:
  assumes "dims_ok d" "tile_ok lib"
  shows "rgb_layout cfg lib d (word_of_nat bpp) =
           map_prod word_of_nat word_of_nat (ref_rgb cfg lib d bpp)"
proof -
  have w: "unat (mWidth d) \<le> 16384" "unat (mHeight d) \<le> 16384" using assms(1) by (simp_all add: dims_ok_def)
  show ?thesis
    by (simp add: rgb_layout_def ref_rgb_def Let_def scast_align[OF w(1)] scast_align[OF w(2)]
          set_low32_nat[OF w(1)] set_low32_nat[OF w(2)] split: prod.splits)
qed

lemma c_stride_nat: assumes "A \<le> 20000" shows "scast (ucast (((word_of_nat A :: size_t) div 2 + 15) div 16 * 16) :: i32) = (word_of_nat (align_up 16 (A div 2)) :: size_t)"
proof -
  have 1: "(word_of_nat A :: size_t) div word_of_nat 2 = word_of_nat (A div 2)"
    by (rule div64) (use assms in simp_all)
  have 2: "(word_of_nat (A div 2 + 15) :: size_t) div word_of_nat 16 = word_of_nat ((A div 2 + 15) div 16)"
    by (rule div64) (use assms in simp_all)
  have 3: "((word_of_nat A :: size_t) div 2 + 15) div 16 * 16 = word_of_nat (align_up 16 (A div 2))"
    using 1 2 by (simp add: align_up_def)
  have b: "align_up 16 (A div 2) < 2^31" using align_up_le[of 16 "A div 2"] assms by simp
  then have c: "align_up 16 (A div 2) < 2^32" by simp
  show ?thesis unfolding 3 ucast64 
    by (subst scast32_nat) (simp_all only: unat32[OF c] b)
qed

lemma format_layout_nat:
  assumes "dims_ok d" "tile_ok lib"
  shows "format_layout cfg lib d =
           map_option (\<lambda>(a, b, c). (word_of_nat a, word_of_nat b, word_of_nat c)) (ref_layout cfg lib d)"
proof -
  have w: "unat (mWidth d) \<le> 8192" "unat (mHeight d) \<le> 8192"  using assms(1) by (simp_all add: dims_ok_def)
  have w': "unat (mWidth d) \<le> 16384" "unat (mHeight d) \<le> 16384"  using w by simp_all
  let ?p = "word_of_int (sint (mWidth d * 5) sdiv 4) :: i32"
  have p: "unat ?p = unat (mWidth d) * 5 div 4" by (rule p010_width[OF w(1)])
  have p': "unat ?p \<le> 16384"  unfolding p using w by simp
  note sc = scast_align[OF w'(1)] scast_align[OF w'(2)] scast_align[OF p', unfolded p]
  have sz: "unat (mWidth d) < 2^31" "unat (mHeight d) < 2^31" using w by simp_all
  note r = rgb_layout_nat[OF assms, of cfg 2] rgb_layout_nat[OF assms, of cfg 3] rgb_layout_nat[OF assms, of cfg 8]rgb_layout_nat[OF assms, of cfg 4]
  have ab: "n \<le> 256 \<Longrightarrow> align_up n (unat (mWidth d)) \<le> 20000" "n \<le> 256 \<Longrightarrow> align_up n (unat (mHeight d)) \<le> 20000" 
     "n \<le> 256 \<Longrightarrow> align_up n (unat (mWidth d) * 5 div 4) \<le> 20000" for n
    using w by (simp_all add: align_bound)
  show ?thesis
    using r by (simp add: format_layout_def ref_layout_def Let_def sc word_half ab c_stride_nat scast32_nat[OF sz(1)] scast32_nat[OF sz(2)] map_prod_def
        split: prod.splits)
qed


lemma align_bound': "x \<le> 10240 \<Longrightarrow> n \<le> 256 \<Longrightarrow> align_up n x \<le> 16000"
  using align_up_le[of n x] by simp

lemma area_bound': "A \<le> 16000 \<Longrightarrow> B \<le> 16000 \<Longrightarrow> A * B \<le> (256000000::nat)"
  using mult_le_mono[of A 16000 B 16000] by simp

lemma ref_rgb_bounds:
  assumes "dims_ok d" "tile_ok lib" "ref_rgb cfg lib d n = (a, b)"
  shows "a \<le> 16000" "b \<le> 256000000 * n + 128" "unat (mWidth d) \<le> a" "a * unat (mHeight d) * n \<le> b"
proof -
  let ?w = "unat (mWidth d)" and ?h = "unat (mHeight d)"
  from assms(1) have w: "?w \<le> 10240" "?h \<le> 10240" "?w \<le> 8192" "?h \<le> 8192" by (simp_all add: dims_ok_def)
  have "\<exists>A B. ?w \<le> A \<and> A \<le> 16000 \<and> ?h \<le> B \<and> B \<le> 16000 \<and> a = A \<and> (b = A * B * n \<or> b = A * B * n + 128)"
  proof (cases "\<not> IMX8 cfg \<and> \<not> USE_SW_OPENGL cfg")
    case True
    obtain x y where xy: "alignTile lib (mWidth d) (mHeight d) (mFslFormat d) (ucast (mProduceUsage d)) = (x, y)"
      by fastforce
    then have "?w \<le> unat x \<and> unat x \<le> 16000 \<and> ?h \<le> unat y \<and> unat y \<le> 16000"
      using assms(2) w by (auto simp: alignTile_def tile_ok_def split: option.splits) (metis fst_conv snd_conv)+
    then show ?thesis using assms(3) True xy by (auto simp: ref_rgb_def Let_def)
  next
    case False
    let ?P = "\<lambda>n. align_up n ?w \<le> 16000 \<and> align_up n ?h \<le> 16000 \<and> ?w \<le> align_up n ?w \<and> ?h \<le> align_up n ?h"
    have "?P 16" "?P 64" using w by (simp_all add: align_bound' align_up_ge)
    then show ?thesis using assms(3) False by (auto simp: ref_rgb_def Let_def split: if_splits)
  qed
  then obtain A B where AB: "?w \<le> A" "A \<le> 16000" "?h \<le> B" "B \<le> 16000" "a = A" "b = A * B * n \<or> b = A * B * n + 128"
    by blast
  then show "a \<le> 16000" "?w \<le> a" by simp_all
  have "A * B * n \<le> 256000000 * n" by (rule mult_le_mono1[OF area_bound']) (use AB in simp_all)
  then show "b \<le> 256000000 * n + 128" using AB by linarith
  have "A * ?h * n \<le> A * B * n" using AB by simp
  moreover have "A * B * n \<le> b" using AB(6) by auto
  ultimately show "a * ?h * n \<le> b" unfolding AB(5) by (rule le_trans)
qed


lemma ref_layout_shape:
  assumes "ref_layout cfg lib d = Some (a, b, c)"
  shows "(\<exists>n\<in>{2, 3, 4, 8}. ref_rgb cfg lib d n = (a, b) \<and> c = n) \<or>
     c = 0 \<and> a = unat (mWidth d) \<and> b = a * unat (mHeight d) \<or>
     c = 0 \<and> (\<exists>x\<in>{unat (mWidth d), unat (mWidth d) * 5 div 4}. \<exists>m\<in>{16, 256}. \<exists>k\<in>{4, 16, 256}.
        a = align_up m x \<and>
        b \<in> {a * align_up k (unat (mHeight d)) * 3 div 2, a * align_up k (unat (mHeight d)) * 3 div 2 * 2,
             a * align_up k (unat (mHeight d)) * 3 div 2 + a * align_up k (unat (mHeight d)) div 4 + 32,
             a * align_up k (unat (mHeight d)) * 3 div 2 * 2 + a * align_up k (unat (mHeight d)) div 4 * 2 + 32,
             a * align_up k (unat (mHeight d)) * 2}) \<or>
     c = 0 \<and> a = align_up 32 (unat (mWidth d)) \<and>
        b = a * align_up 4 (unat (mHeight d)) + align_up 16 (a div 2) * align_up 4 (unat (mHeight d))"
  using assms by (auto simp: ref_layout_def Let_def split: if_splits)

lemma ref_layout_bounds:
  assumes "dims_ok d" "tile_ok lib" "ref_layout cfg lib d = Some (a, b, c)"
  shows "a \<le> 16000 \<and> b < 2^31 \<and> c \<le> 8"
proof -
  let ?w = "unat (mWidth d)" and ?h = "unat (mHeight d)"
  from assms(1) have w: "?w \<le> 10240" "?h \<le> 10240" "?w \<le> 8192" "?h \<le> 8192" 
    by (simp_all add: dims_ok_def)
  then have w5: "?w * 5 div 4 \<le> 10240" using div_le_mono[of "?w * 5" 40960 4] by simp
  from ref_layout_shape[OF assms(3)] show ?thesis
  proof (elim disjE conjE bexE)
    fix n assume n: "n \<in> {2, 3, 4, 8}" "ref_rgb cfg lib d n = (a, b)" "c = n"
    show ?thesis using ref_rgb_bounds(1,2)[OF assms(1,2) n(2)] n by auto
  next
    assume "c = 0" "a = ?w" "b = a * ?h"
    then show ?thesis using area_bound'[of ?w ?h] w by simp
  next
    fix x m k
    assume c: "c = 0" and x: "x \<in> {?w, ?w * 5 div 4}" and m: "m \<in> {16, 256}" and k: "k \<in> {4, 16, 256}"
      and a: "a = align_up m x"
      and b: "b \<in> {a * align_up k ?h * 3 div 2, a * align_up k ?h * 3 div 2 * 2,
             a * align_up k ?h * 3 div 2 + a * align_up k ?h div 4 + 32,
             a * align_up k ?h * 3 div 2 * 2 + a * align_up k ?h div 4 * 2 + 32,
             a * align_up k ?h * 2}"
    have "x \<le> 10240" "m \<le> 256" "k \<le> 256" using x m k w w5 by auto
    then have a': "a \<le> 16000" and "align_up k ?h \<le> 16000" using a w by (auto intro: align_bound')
    then have p: "a * align_up k ?h \<le> 256000000" by (rule area_bound')
    define P where "P = a * align_up k ?h"
    from b have "b \<in> {P * 3 div 2, P * 3 div 2 * 2, P * 3 div 2 + P div 4 + 32,
                      P * 3 div 2 * 2 + P div 4 * 2 + 32, P * 2}" by (simp only: P_def)
    then have "b < 2^31" using p[folded P_def] by auto
    then show ?thesis using a' c by simp
  next
    assume c: "c = 0" and a: "a = align_up 32 ?w"
      and b: "b = a * align_up 4 ?h + align_up 16 (a div 2) * align_up 4 ?h"
    have h: "align_up 4 ?h \<le> 16000" and a': "a \<le> 16000" using a w by (auto intro: align_bound')
    then have a'': "align_up 16 (a div 2) \<le> 16000" by (auto intro: align_bound')
    have "b < 2^31" unfolding b
      by (rule le_less_trans[OF add_mono[OF area_bound'[OF a' h] area_bound'[OF a'' h]]]) simp
    then show ?thesis using a' c by simp
  qed
qed

definition image_bytes :: "mem_desc \<Rightarrow> nat" where
  "image_bytes d =
     (let f = mFslFormat d; s = unat (mStride d); h = unat (mHeight d); c = (h + 1) div 2
      in if f \<in> {FORMAT_RGBA8888, FORMAT_RGBX8888, FORMAT_BGRA8888, FORMAT_RGBA1010102,
                 FORMAT_RGB888, FORMAT_RGB565, FORMAT_RGBAFP16}
         then s * h * unat (mBpp d)
         else if f = FORMAT_BLOB then s * h
         else if f = FORMAT_YCBCR_P010 then 2 * (s * h + s * c)
         else if f \<in> {FORMAT_I420, FORMAT_YV12} then s * h + 2 * (s div 2 * c)
         else if f \<in> {FORMAT_NV16, FORMAT_YUYV, FORMAT_RAW16} then s * h * 2
         else s * h + s * c)"

lemma yuv_bytes:
  assumes "0 < n" "4 dvd n"
  shows "s * h + s * ((h + 1) div 2) \<le> s * align_up n h * 3 div 2"
    "s * h \<le> s * align_up n h"
    "s * ((h + 1) div 2) * 2 \<le> s * align_up n h"
proof -
  have a: "h \<le> align_up n h" "even (align_up n h)"
    using align_up_ge[OF assms(1)] dvd_trans[OF _ dvd_trans[OF assms(2) align_up_dvd], of 2] by auto
  then have "(h + 1) div 2 * 2 \<le> align_up n h" by presburger
  then show 3: "s * ((h + 1) div 2) * 2 \<le> s * align_up n h" by (simp add: mult.assoc)
  show 2: "s * h \<le> s * align_up n h" using a by simp
  show "s * h + s * ((h + 1) div 2) \<le> s * align_up n h * 3 div 2" using 2 3 by linarith
qed


lemma i420_bytes:
  "s * h + 2 * (s div 2 * ((h + 1) div 2)) \<le> s * align_up 4 h + align_up 16 (s div 2) * align_up 4 h"
proof -
  have "2 * (s div 2 * ((h + 1) div 2)) \<le> s div 2 * align_up 4 h"
    using yuv_bytes(3)[of 4 "s div 2" h] by (simp add: ac_simps)
  also have "\<dots> \<le> align_up 16 (s div 2) * align_up 4 h" using align_up_ge[of 16 "s div 2"] by simp
  finally show ?thesis by (intro add_mono yuv_bytes(2)) simp_all
qed

lemma yuv420_capacity:
  assumes "0 < k" "4 dvd k" "b = s * align_up k h * 3 div 2 + e"
  shows "s * h + s * ((h + 1) div 2) \<le> b"
  using yuv_bytes(1)[OF assms(1,2), of s h] assms(3) by linarith

lemma ref_layout_capacity:
  assumes "dims_ok d" "tile_ok lib" "ref_layout cfg lib d = Some (a, b, c)"
   "unat (mStride d') = a" "unat (mBpp d') = c" "mHeight d' = mHeight d" "mFslFormat d' = mFslFormat d"
  shows "unat (mWidth d) \<le> a \<and> image_bytes d' \<le> b"
proof -
  let ?w = "unat (mWidth d)" and ?h = "unat (mHeight d)" and ?f = "mFslFormat d"
  let ?pad = "has_flag (mProduceUsage d) USAGE_PADDING_BUFFER"
  note F = assms(3)[unfolded ref_layout_def Let_def]
  note I = image_bytes_def Let_def assms(4-7)
  have w: "?w \<le> align_up n ?w" "?w \<le> align_up n (?w * 5 div 4)" if "0 < n" for n
    using align_up_ge[OF that, of ?w] align_up_ge[OF that, of "?w * 5 div 4"] by simp_all
  have e: "\<exists>e. b = a * align_up 16 ?h * 3 div 2 + e \<or> b = a * align_up 4 ?h * 3 div 2 + e"
    if "b = (if ?pad then a * align_up 16 ?h * 3 div 2 + a * align_up 16 ?h div 4 + 32
             else a * align_up 4 ?h * 3 div 2)"
    using that by (auto split: if_splits)
  have s420: "image_bytes d' \<le> b" if "image_bytes d' = a * ?h + a * ((?h + 1) div 2)"
    "\<exists>e. b = a * align_up 16 ?h * 3 div 2 + e \<or> b = a * align_up 4 ?h * 3 div 2 + e"
    using that yuv420_capacity[of 16] yuv420_capacity[of 4] by auto
  consider (rgb) "?f \<in> {1, 2, 3, 4, 5, 0x2B, 0x16}" | (blob) "?f = 0x21"
    | (nv12) "?f \<in> {0x103, 0x11, 0x105, 0x106, 0x107}" | (ycbcr) "?f = 0x36"
    | (p010) "?f \<in> {0x108, 0x110}" | (i420) "?f \<in> {0x101, 0x32315659}"
    | (nv16) "?f \<in> {0x10, 0x14, 0x203}" | (tiled) "?f = 0x104" | (p010t) "?f = 0x109"
    using F by (auto split: if_splits)
  then show ?thesis
  proof cases
    case rgb
    then have "ref_rgb cfg lib d c = (a, b)" using F by auto
    moreover have "image_bytes d' = a * ?h * c" using rgb by (auto simp: I)
    ultimately show ?thesis using ref_rgb_bounds(3,4)[OF assms(1,2)] by simp
  next
    case blob
    then show ?thesis using F by (auto simp: I)
  next
    case nv12
    have "image_bytes d' = a * ?h + a * ((?h + 1) div 2)" using nv12 by (auto simp: I)
    moreover have "a = align_up 16 ?w" using F nv12 by auto
    moreover have "b = (if ?pad then a * align_up 16 ?h * 3 div 2 + a * align_up 16 ?h div 4 + 32
             else a * align_up 4 ?h * 3 div 2)" using F nv12 by auto
    ultimately show ?thesis using s420 e w[of 16] by simp
  next
    case p010
    have "image_bytes d' = a * ?h + a * ((?h + 1) div 2)" using p010 by (auto simp: I)
    moreover have "a = align_up 16 (?w * 5 div 4)" using F p010 by auto
    moreover have "b = (if ?pad then a * align_up 16 ?h * 3 div 2 + a * align_up 16 ?h div 4 + 32
             else a * align_up 4 ?h * 3 div 2)" using F p010 by auto
    ultimately show ?thesis using s420 e w[of 16] by simp
  next
    case ycbcr
    have a: "a = align_up 16 ?w" using F ycbcr by auto
    have "image_bytes d' = 2 * (a * ?h + a * ((?h + 1) div 2))" using ycbcr by (simp add: I)
    moreover have "2 * (a * align_up 16 ?h * 3 div 2) \<le> b \<or> 2 * (a * align_up 4 ?h * 3 div 2) \<le> b"
      using F ycbcr by (auto split: if_splits)
    ultimately show ?thesis using yuv_bytes(1)[of 16 a ?h] yuv_bytes(1)[of 4 a ?h] a w[of 16] by simp linarith
  next
    case i420
    then show ?thesis using F i420_bytes[of a ?h] w[of 32] by (auto simp: I)
  next
    case nv16
    then show ?thesis using F yuv_bytes(2)[of 4 a ?h] w[of 16] by (auto simp: I)
  next
    case tiled
    then show ?thesis using F yuv_bytes(1)[of 256 a ?h] w[of 256] by (auto simp: I)
  next
    case p010t
    then show ?thesis using F yuv_bytes(1)[of 256 a ?h] w[of 256] by (auto simp: I)
  qed
qed

section \<open>Properties\<close>

lemma checkFormat_nat:
  assumes "dims_ok d" "tile_ok lib"
  shows "checkFormat cfg lib d =
     (case ref_layout cfg lib d of
        None \<Rightarrow> (- EINVAL, d)
      | Some (a, b, c) \<Rightarrow>
          (0, d\<lparr>mProduceUsage := encoder_usage d, mSize := word_of_nat b, mBpp := word_of_nat c,
                mStride := word_of_nat a\<rparr>))"
proof -
  have "mWidth d \<noteq> 0" "mHeight d \<noteq> 0" using assms(1) by (auto simp: dims_ok_def)
  then show ?thesis
    by (simp add: checkFormat_def format_layout_nat[OF assms] ucast64 split: option.splits prod.splits)
qed

text \<open>
  C31: for dimensions up to 8192, and a helper library that aligns a dimension to one that is not
  smaller and at most 16000, the 32-bit and 64-bit arithmetic of \<open>checkFormat\<close> is exact: the stride,
  size and bytes per pixel it stores are those of the layout computed without overflow, and it fails
  exactly for a format it does not know.
\<close>

theorem checkFormat_exact:
  assumes "dims_ok d" and "tile_ok lib"
  shows "case ref_layout cfg lib d of
      None \<Rightarrow> checkFormat cfg lib d = (- EINVAL, d)
    | Some (stride, bytes, bpp) \<Rightarrow>
        (\<exists>d'. checkFormat cfg lib d = (0, d') \<and> unat (mStride d') = stride \<and>
              unat (mSize d') = bytes \<and> unat (mBpp d') = bpp)"
proof (cases "ref_layout cfg lib d")
  case None
  then show ?thesis by (simp add: checkFormat_nat[OF assms])
next
  case (Some x)
  obtain a b c where x: "x = (a, b, c)" by (cases x)
  have "a < 2^32" "b < 2^32" "c < 2^32"
    using ref_layout_bounds[OF assms, of cfg a b c] Some x by auto
  then show ?thesis using Some x by (simp add: checkFormat_nat[OF assms] unat32)
qed

text \<open>
  C8: the buffer that \<open>checkFormat\<close> describes, for an image with width and height from 1 to 8192 and
  alignments of the helper library that neither shrink an image nor exceed 16000, is large enough for
  it: the stride covers the width, and the size covers every plane of the format.
\<close>

theorem checkFormat_capacity:
  assumes "dims_ok d" and "tile_ok lib" and "checkFormat cfg lib d = (0, d')"
  shows "unat (mWidth d) \<le> unat (mStride d') \<and> image_bytes d' \<le> unat (mSize d')"
proof -
  obtain a b c where r: "ref_layout cfg lib d = Some (a, b, c)"
      and d': "d' = d\<lparr>mProduceUsage := encoder_usage d, mSize := word_of_nat b,
                      mBpp := word_of_nat c, mStride := word_of_nat a\<rparr>"
    using assms(3) by (auto simp: checkFormat_nat[OF assms(1,2)] split: option.splits prod.splits)
  have "a < 2^32" "b < 2^32" "c < 2^32" using ref_layout_bounds[OF assms(1,2) r] by auto
  then have "unat (mStride d') = a" "unat (mSize d') = b" "unat (mBpp d') = c"
    by (simp_all add: d' unat32)
  with ref_layout_capacity[OF assms(1,2) r, of d'] d' show ?thesis by simp
qed

text \<open>A 1080p decoder buffer, for the witnesses.\<close>

definition cfg_imx8m :: build_cfg where
  "cfg_imx8m = \<lparr>IMX8 = True, USE_SW_OPENGL = False, WORKAROUND_DISPLAY_UNDERRUN = False,
     FRAMEBUFFER_COMPRESSION = True, WORKAROUND_VIRTUAL_DISPLAY_FLICKER = False,
     WORKAROUND_DPU_ALPHA_BLENDING = False, ENABLE_8QM_WIDEVINE = False,
     HAVE_UNMAPPED_HEAP = False, CFG_SECURE_DATA_PATH = False, USE_DPU_HWC = False\<rparr>"

definition desc_1080p :: mem_desc where
  "desc_1080p = MemoryDesc_init\<lparr>mWidth := 1920, mHeight := 1080, mFslFormat := FORMAT_NV12\<rparr>"

lemma desc_1080p_checked:
  "checkFormat cfg_imx8m None desc_1080p =
     (0, desc_1080p\<lparr>mSize := 3110400, mBpp := 0, mStride := 1920\<rparr>)"
  by (simp add: checkFormat_def format_layout_def desc_1080p_def MemoryDesc_init_def align_defs
      encoder_usage_def scast_eq usage_defs)

theorem checkFormat_exact_witness:
  "\<exists>d'. checkFormat cfg_imx8m None desc_1080p = (0, d') \<and> unat (mSize d') = 3110400"
  using checkFormat_exact[of desc_1080p None cfg_imx8m]
  by (simp add: dims_ok_def tile_ok_def ref_layout_def align_up_def)
     (auto simp: desc_1080p_def MemoryDesc_init_def align_up_def)

theorem checkFormat_capacity_witness:
  "image_bytes (snd (checkFormat cfg_imx8m None desc_1080p)) \<le> 3110400"
proof -
  have "dims_ok desc_1080p" "tile_ok None"
    by (simp_all add: dims_ok_def tile_ok_def desc_1080p_def MemoryDesc_init_def)
  from checkFormat_capacity[OF this desc_1080p_checked] show ?thesis
    by (simp add: desc_1080p_checked)
qed

text \<open>
  For larger dimensions the size is silently truncated to 32 bits: a 65536 x 16385 RGBA
  description is accepted with a positive size that is smaller than the image.
\<close>

theorem checkFormat_truncates:
  "\<exists>d d'. checkFormat cfg_imx8m None d = (0, d') \<and> 0 < sint (mSize d') \<and>
          unat (mSize d') < image_bytes d'"
proof -
  let ?d = "MemoryDesc_init\<lparr>mWidth := 65536, mHeight := 16385, mFslFormat := FORMAT_RGBA8888\<rparr>"
  have "checkFormat cfg_imx8m None ?d =
          (0, ?d\<lparr>mSize := 4194304, mBpp := 4, mStride := 65536\<rparr>)"
    by (simp add: checkFormat_def format_layout_def rgb_layout_def MemoryDesc_init_def align_defs
        cfg_imx8m_def encoder_usage_def scast_eq usage_defs)
  then show ?thesis
    by (intro exI conjI, assumption)
       (simp_all add: image_bytes_def MemoryDesc_init_def)
qed

end
