(* ===== verification/Memory_Manager.thy ===== *)
theory Memory_Manager
  imports Memory_Desc
begin

text \<open>
  \<open>Memory\<close>, \<open>IonManager\<close> and \<open>MemoryManager\<close> (\<open>display/display/Memory.h\<close>, \<open>Memory.cpp\<close>,
  \<open>IonManager.cpp\<close>, \<open>MemoryManager.cpp\<close>): buffer handles on the heap and their life cycle.
  The heap maps addresses to live \<open>Memory\<close> objects; an access through a dangling pointer is
  undefined behaviour, the result \<open>None\<close> of an operation, and a null pointer is \<open>None\<close>.
  System calls, the GPU allocator (\<open>gralloc_viv\<close>), the ION allocator and the constants of
  gralloc and DRM are not part of the repository: they are the fields of \<open>mem_env\<close>.  What the
  code asks of the kernel and of the GPU module is recorded, in order, in \<open>events\<close>.  The build
  is the one with \<open>GRALLOC_VERSION == 4\<close>, the only one in which \<open>MemoryManager.cpp\<close> compiles.
\<close>

section \<open>Memory\<close>

definition MEMORY_MAGIC :: int where "MEMORY_MAGIC = 0x3141592"
definition MFLAGS_CONTIGUOUS :: i32 where "MFLAGS_CONTIGUOUS = 1"
definition MFLAGS_CACHEABLE :: i32 where "MFLAGS_CACHEABLE = 2"
definition MFLAGS_SECURE :: i32 where "MFLAGS_SECURE = 4"
definition DRV_MAX_PLANES :: nat where "DRV_MAX_PLANES = 4"
definition BUFFER_NAME_MAX_SIZE :: nat where "BUFFER_NAME_MAX_SIZE = 64"

record memory =
  h_fd :: int
  h_fd_meta :: int
  h_fd_region :: int
  h_fd_reserved :: "int list"
  h_magic :: int
  h_flags :: i32
  h_size :: i32
  h_offset :: i32
  h_base :: u64
  h_phys :: u64
  h_width :: i32
  h_height :: i32
  h_format :: int
  h_stride :: i32
  h_usage :: i32
  h_pid :: int
  h_id :: u32
  h_num_planes :: u32
  h_strides :: "u32 list"
  h_offsets :: "u32 list"
  h_sizes :: "u32 list"
  h_format_modifier :: u64
  h_reserved_region_size :: u64
  h_total_size :: u64
  h_name :: "u8 list"
  h_nxp_reserved :: "u64 list"
  h_fslFormat :: int
  h_kmsFd :: int
  h_fbHandle :: u32
  h_fbId :: u32
  h_fsl_reserved :: u64
  h_surface :: u64
  h_viv_reserved :: "u64 list"

text \<open>
  The constructor.  \<open>fd'\<close> is the result of \<open>dup(fd)\<close> and \<open>pid\<close> that of \<open>getpid()\<close>; the one
  field it leaves uninitialised, \<open>fsl_reserved\<close>, is the argument \<open>junk\<close>.
\<close>

definition Memory_new :: "mem_desc \<Rightarrow> int \<Rightarrow> int \<Rightarrow> int \<Rightarrow> u64 \<Rightarrow> memory" where
  "Memory_new desc fd' fd2 pid junk =
     \<lparr>h_fd = fd', h_fd_meta = fd2, h_fd_region = -1, h_fd_reserved = replicate 8 0,
      h_magic = MEMORY_MAGIC, h_flags = mFlag desc, h_size = mSize desc, h_offset = 0,
      h_base = 0, h_phys = 0, h_width = mWidth desc, h_height = mHeight desc,
      h_format = mFormat desc, h_stride = mStride desc, h_usage = ucast (mProduceUsage desc),
      h_pid = pid, h_id = 0, h_num_planes = 0, h_strides = replicate DRV_MAX_PLANES 0,
      h_offsets = replicate DRV_MAX_PLANES 0, h_sizes = replicate DRV_MAX_PLANES 0,
      h_format_modifier = 0, h_reserved_region_size = 0, h_total_size = 0,
      h_name = replicate BUFFER_NAME_MAX_SIZE 0, h_nxp_reserved = replicate 32 0,
      h_fslFormat = mFslFormat desc, h_kmsFd = -1, h_fbHandle = 0, h_fbId = 0,
      h_fsl_reserved = junk, h_surface = 0, h_viv_reserved = replicate 4 0\<rparr>"

datatype sys_event =
    Close int
  | Munmap u64 i32
  | DrmModeRmFB int u32
  | DrmGemClose int u32
  | GpuFree nat
  | GpuRegister nat
  | FlushCache int

definition close_if :: "int \<Rightarrow> sys_event list" where
  "close_if fd = (if fd > 0 then [Close fd] else [])"

definition Memory_delete :: "memory \<Rightarrow> sys_event list" where
  "Memory_delete m = close_if (h_fd_meta m) @ close_if (h_fd m) @ close_if (h_fd_region m)"

definition Memory_isValid :: "memory \<Rightarrow> bool" where
  "Memory_isValid m \<longleftrightarrow> h_magic m = MEMORY_MAGIC"

section \<open>The state and its environment\<close>

record mem_world =
  heap :: "nat \<Rightarrow> memory option"
  mMetaMap :: "nat \<Rightarrow> u64 option"
  events :: "sys_event list"

text \<open>
  \<open>e_gpu\<close> is the GPU allocator device, absent when the pointer is null: its \<open>alloc\<close> returns a
  status, perhaps a handle (address and contents) and a stride; \<open>free\<close> and \<open>registerBuffer\<close>
  return a status.
\<close>

record gpu_dev =
  gpu_alloc :: "i32 \<Rightarrow> i32 \<Rightarrow> int \<Rightarrow> i32 \<Rightarrow> mem_world \<Rightarrow> int \<times> (nat \<times> memory) option \<times> i32"
  gpu_free :: "nat \<Rightarrow> int"
  gpu_register :: "nat \<Rightarrow> int"
  gpu_lock :: "nat \<Rightarrow> int \<times> u64"
  gpu_unlock :: "nat \<Rightarrow> int"
  gpu_validate :: "nat \<Rightarrow> mem_desc \<Rightarrow> int"

record mem_env =
  e_cfg :: build_cfg
  e_tile :: align_tile
  e_gpu :: "gpu_dev option"
  e_new :: "mem_world \<Rightarrow> nat"
  e_junk :: "mem_world \<Rightarrow> u64"
  e_getpid :: int
  e_dup :: "int \<Rightarrow> int"
  e_ashmem :: "mem_world \<Rightarrow> int"
  e_mmap :: "int \<Rightarrow> u64 option"
  e_ion_alloc :: "mem_world \<Rightarrow> i32 \<Rightarrow> int \<Rightarrow> i32 \<Rightarrow> int"
  e_ion_phys :: "int \<Rightarrow> i32 \<Rightarrow> int \<times> u64"
  e_ion_vaddr :: "int \<Rightarrow> i32 \<Rightarrow> int \<times> u64"
  e_ion_flush :: "int \<Rightarrow> int"
  e_GRALLOC1_CPU_RW :: i32
  e_GRALLOC_USAGE_HW_COMPOSER :: i64
  e_MOD_SUPER_TILED_FC :: u64
  e_MOD_SUPER_TILED :: u64
  e_MOD_TILED :: u64
  e_sizeof_MetaData :: i32

definition emit :: "sys_event list \<Rightarrow> mem_world \<Rightarrow> mem_world" where
  "emit es w = w\<lparr>events := events w @ es\<rparr>"

definition store :: "nat \<Rightarrow> memory \<Rightarrow> mem_world \<Rightarrow> mem_world" where
  "store a m w = w\<lparr>heap := (heap w)(a \<mapsto> m)\<rparr>"

text \<open>
  The guard that most operations start with: \<open>handle == NULL || !handle->isValid()\<close> returns
  the error; a dangling handle is undefined behaviour.
\<close>

definition with_handle ::
    "nat option \<Rightarrow> mem_world \<Rightarrow> 'r \<Rightarrow> (nat \<Rightarrow> memory \<Rightarrow> ('r \<times> mem_world) option) \<Rightarrow>
     ('r \<times> mem_world) option" where
  "with_handle h w err f =
     (case h of
        None \<Rightarrow> Some (err, w)
      | Some a \<Rightarrow>
          (case heap w a of
             None \<Rightarrow> None
           | Some m \<Rightarrow> if Memory_isValid m then f a m else Some (err, w)))"

section \<open>IonManager\<close>

definition ion_getPhys :: "mem_env \<Rightarrow> memory \<Rightarrow> int \<times> memory" where
  "ion_getPhys env m =
     (if h_fd m < 0 then (- EINVAL, m)
      else case e_ion_phys env (h_fd m) (h_size m) of
        (ret, addr) \<Rightarrow> if ret \<noteq> 0 then (- EINVAL, m) else (0, m\<lparr>h_phys := addr\<rparr>))"

definition ion_getVaddrs :: "mem_env \<Rightarrow> memory \<Rightarrow> int \<times> memory" where
  "ion_getVaddrs env m =
     (if h_fd m < 0 then (- EINVAL, m)
      else case e_ion_vaddr env (h_fd m) (h_size m) of
        (ret, addr) \<Rightarrow> if ret \<noteq> 0 then (- EINVAL, m) else (0, m\<lparr>h_base := addr\<rparr>))"

definition ION_DECODED_BUFFER_VPU_ALIGN :: int where "ION_DECODED_BUFFER_VPU_ALIGN = 8"
definition MEM_ALIGN :: int where "MEM_ALIGN = 8"

definition ion_flags :: "mem_env \<Rightarrow> mem_desc \<Rightarrow> int \<times> i32" where
  "ion_flags env desc =
     (let (align, flags) =
            (if CFG_SECURE_DATA_PATH (e_cfg env) \<and> has_flag (mFlag desc) FLAGS_SECURE
             then (ION_DECODED_BUFFER_VPU_ALIGN, MFLAGS_SECURE) else (MEM_ALIGN, MFLAGS_CONTIGUOUS));
          flags = (if has_flag (mProduceUsage desc) (USAGE_SW_READ_OFTEN OR USAGE_SW_WRITE_OFTEN)
                   then flags OR MFLAGS_CACHEABLE else flags);
          flags = (if has_flag (mProduceUsage desc) USAGE_PROTECTED then MFLAGS_SECURE else flags)
      in (align, flags))"

text \<open>\<open>IonManager::allocMemory\<close>: status, description, and the new handle on success.\<close>

definition ion_allocMemory ::
    "mem_env \<Rightarrow> mem_desc \<Rightarrow> mem_world \<Rightarrow> int \<times> mem_desc \<times> nat option \<times> mem_world" where
  "ion_allocMemory env desc w =
     (let desc1 = desc\<lparr>mFlag := mFlag desc OR FLAGS_ALLOCATION_ION\<rparr>;
          (ret, desc2) = checkFormat (e_cfg env) (e_tile env) desc1
      in if ret \<noteq> 0 \<or> mSize desc2 = 0 then (- EINVAL, desc2, None, w)
         else
           (let (align, flags) = ion_flags env desc2;
                sharedFd = e_ion_alloc env w (mSize desc2) align flags
            in if sharedFd < 0 then (- EINVAL, desc2, None, w)
               else
                 (let a = e_new env w;
                      m = snd (ion_getPhys env
                                (Memory_new desc2 (e_dup env sharedFd) (-1) (e_getpid env) (e_junk env w)))
                  in (0, desc2, Some a, emit [Close sharedFd] (store a m w)))))"

definition ion_lock :: "mem_env \<Rightarrow> memory \<Rightarrow> u64 \<times> memory" where
  "ion_lock env m =
     (let m' = (if h_base m = 0 then snd (ion_getVaddrs env m) else m) in (h_base m', m'))"

definition ion_flushCache :: "mem_env \<Rightarrow> memory \<Rightarrow> int \<times> sys_event list" where
  "ion_flushCache env m =
     (if h_fd m < 0 then (- EINVAL, []) else (e_ion_flush env (h_fd m), [FlushCache (h_fd m)]))"

definition ion_unlock :: "mem_env \<Rightarrow> memory \<Rightarrow> int \<times> sys_event list" where
  "ion_unlock env m =
     (0, if has_flag (h_flags m) FLAGS_CPU then snd (ion_flushCache env m) else [])"

section \<open>MemoryManager\<close>

definition isDrmAlloc :: "mem_env \<Rightarrow> i32 \<Rightarrow> int \<Rightarrow> i32 \<Rightarrow> bool" where
  "isDrmAlloc env flags format usage =
     (if has_flag flags (if FRAMEBUFFER_COMPRESSION (e_cfg env) then FLAGS_SECURE OR FLAGS_DIMBUFFER
                         else FLAGS_FRAMEBUFFER OR FLAGS_SECURE OR FLAGS_DIMBUFFER) then False
      else if e_gpu env = None then False
      else if format = FORMAT_RGB565 \<and> has_flag usage USAGE_PADDING_BUFFER then False
      else if format \<in> {FORMAT_NV12, FORMAT_NV21, FORMAT_NV16, FORMAT_YUYV, FORMAT_YV12, FORMAT_I420,
                        FORMAT_NV12_TILED, FORMAT_NV12_G1_TILED, FORMAT_NV12_G2_TILED,
                        FORMAT_NV12_G2_TILED_COMPRESSED, FORMAT_P010, FORMAT_P010_TILED,
                        FORMAT_P010_TILED_COMPRESSED, FORMAT_YCBCR_P010, FORMAT_BLOB} then False
      else if has_flag usage USAGE_HW_VIDEO_ENCODER \<or> has_flag usage USAGE_PROTECTED then False
      else if usage = (USAGE_SW_READ_OFTEN OR USAGE_SW_WRITE_OFTEN OR USAGE_HW_RENDER OR
                       USAGE_HW_TEXTURE) \<or>
              usage = (e_GRALLOC1_CPU_RW env OR USAGE_HW_RENDER OR USAGE_HW_TEXTURE) then False
      else if WORKAROUND_VIRTUAL_DISPLAY_FLICKER (e_cfg env) \<and>
              usage = (USAGE_HW_TEXTURE OR USAGE_HW_RENDER) then False
      else True)"

definition getDrmModifier :: "mem_env \<Rightarrow> memory \<Rightarrow> u64" where
  "getDrmModifier env m =
     (if has_flag (h_usage m) (USAGE_GPU_TILED_VIV OR USAGE_GPU_TS_VIV) then
        (if FRAMEBUFFER_COMPRESSION (e_cfg env) \<and> has_flag (h_usage m) USAGE_GPU_TS_VIV
         then e_MOD_SUPER_TILED_FC env
         else if WORKAROUND_DISPLAY_UNDERRUN (e_cfg env) then e_MOD_TILED env
         else e_MOD_SUPER_TILED env)
      else 0)"

definition allocMetaData :: "mem_env \<Rightarrow> nat option \<Rightarrow> mem_world \<Rightarrow> (int \<times> mem_world) option" where
  "allocMetaData env h w =
     with_handle h w (- EINVAL)
       (\<lambda>a m. let fd = e_ashmem env w
              in Some (of_bool (fd > 0), store a (m\<lparr>h_fd_meta := fd\<rparr>) w))"

definition retainMemory :: "mem_env \<Rightarrow> nat option \<Rightarrow> mem_world \<Rightarrow> (int \<times> mem_world) option" where
  "retainMemory env h w =
     with_handle h w (- EINVAL)
       (\<lambda>a m. if isDrmAlloc env (h_flags m) (h_fslFormat m) (h_usage m)
              then Some (gpu_register (the (e_gpu env)) a, emit [GpuRegister a] w)
              else Some (0, store a (m\<lparr>h_fbId := 0, h_fbHandle := 0\<rparr>) w))"

definition DRM_VIV_GEM_TILING_TILED :: u64 where "DRM_VIV_GEM_TILING_TILED = 2"

definition mark_tiled :: "mem_env \<Rightarrow> mem_desc \<Rightarrow> memory \<Rightarrow> memory" where
  "mark_tiled env d m =
     (if WORKAROUND_DISPLAY_UNDERRUN (e_cfg env) \<and> has_flag (mFlag d) FLAGS_FRAMEBUFFER \<and>
         has_flag (mProduceUsage d) USAGE_GPU_TILED_VIV
      then m\<lparr>h_fsl_reserved := DRM_VIV_GEM_TILING_TILED\<rparr> else m)"

definition protect_desc :: "mem_desc \<Rightarrow> mem_desc" where
  "protect_desc d =
     (if has_flag (mProduceUsage d) USAGE_PROTECTED
      then d\<lparr>mFlag := mFlag d OR FLAGS_SECURE\<rparr> else d)"

text \<open>
  \<open>allocMemory\<close>: status, description, what is assigned to \<open>*out\<close> (\<open>None\<close> when \<open>out\<close> is not
  written), and the new state.
\<close>

definition allocMemory ::
    "mem_env \<Rightarrow> mem_desc \<Rightarrow> mem_world \<Rightarrow> (int \<times> mem_desc \<times> nat option option \<times> mem_world) option" where
  "allocMemory env desc0 w =
     (let desc = protect_desc desc0
      in if isDrmAlloc env (mFlag desc) (mFslFormat desc) (ucast (mProduceUsage desc)) then
           (case gpu_alloc (the (e_gpu env)) (mWidth desc) (mHeight desc) (mFormat desc)
                   (ucast (mProduceUsage desc)) w of
              (ret, handle, stride) \<Rightarrow>
                (let desc' = desc\<lparr>mStride := stride\<rparr>;
                     fill = (\<lambda>m. let m1 = m\<lparr>h_fslFormat := mFslFormat desc\<rparr>;
                                     m2 = (if has_flag (mFlag desc) FLAGS_FRAMEBUFFER \<or>
                                              has_flag (mProduceUsage desc) (e_GRALLOC_USAGE_HW_COMPOSER env)
                                           then (snd (ion_getPhys env m1))\<lparr>h_flags := mFlag desc\<rparr> else m1)
                                 in m2\<lparr>h_format_modifier := getDrmModifier env m2\<rparr>);
                     w1 = (case handle of None \<Rightarrow> w
                           | Some (a, m) \<Rightarrow> store a (if ret = 0 then fill m else m) w)
                 in map_option (\<lambda>(_, w2). (ret, desc', Some (map_option fst handle), w2))
                      (allocMetaData env (map_option fst handle) w1)))
         else
           (case ion_allocMemory env desc w of
              (ret, desc', handle, w1) \<Rightarrow>
                (if ret \<noteq> 0 \<or> handle = None then Some (- EINVAL, desc', None, w1)
                 else
                   (let a = the handle; m = the (heap w1 a);
                        m1 = mark_tiled env desc' m;
                        m2 = m1\<lparr>h_format_modifier := getDrmModifier env m1\<rparr>
                    in (case allocMetaData env handle (store a m2 w1) of
                          None \<Rightarrow> None
                        | Some (_, w2) \<Rightarrow>
                            map_option (\<lambda>(_, w3). (0, desc', Some handle, w3))
                              (retainMemory env handle w2))))))"

definition releaseMemory :: "mem_env \<Rightarrow> nat option \<Rightarrow> mem_world \<Rightarrow> (int \<times> mem_world) option" where
  "releaseMemory env h w =
     with_handle h w (- EINVAL)
       (\<lambda>a m.
          let kms = (if h_kmsFd m > 0
                     then (if h_fbId m \<noteq> 0 then [DrmModeRmFB (h_kmsFd m) (h_fbId m)] else []) @
                          (if h_fbHandle m \<noteq> 0 then [DrmGemClose (h_kmsFd m) (h_fbHandle m)] else [])
                     else []);
              m1 = m\<lparr>h_fbId := 0, h_fbHandle := 0\<rparr>;
              region = close_if (h_fd_region m1);
              m2 = (if h_fd_region m1 > 0 then m1\<lparr>h_fd_region := 0\<rparr> else m1)
          in if isDrmAlloc env (h_flags m2) (h_fslFormat m2) (h_usage m2) then
               Some (gpu_free (the (e_gpu env)) a,
                     (emit (kms @ region @ close_if (h_fd_meta m2) @ [GpuFree a]) w)
                       \<lparr>heap := (heap w)(a := None)\<rparr>)
             else
               (let unmap = (if h_base m2 \<noteq> 0 then [Munmap (h_base m2) (h_size m2)] else []);
                    m3 = (if h_fd m2 > 0 then m2\<lparr>h_fd := 0\<rparr> else m2);
                    meta = (case mMetaMap w a of None \<Rightarrow> []
                            | Some addr \<Rightarrow> [Munmap addr (e_sizeof_MetaData env)]);
                    m4 = (if h_fd_meta m3 > 0 then m3\<lparr>h_fd_meta := 0\<rparr> else m3)
                in Some (0, (emit (kms @ region @ unmap @ close_if (h_fd m2) @ meta @
                                   close_if (h_fd_meta m3) @ Memory_delete m4) w)
                              \<lparr>heap := (heap w)(a := None), mMetaMap := (mMetaMap w)(a := None)\<rparr>)))"

definition mm_lock :: "mem_env \<Rightarrow> nat option \<Rightarrow> mem_world \<Rightarrow> ((int \<times> u64 option) \<times> mem_world) option" where
  "mm_lock env h w =
     with_handle h w (- EINVAL, None)
       (\<lambda>a m. if isDrmAlloc env (h_flags m) (h_fslFormat m) (h_usage m)
              then (case gpu_lock (the (e_gpu env)) a of (ret, v) \<Rightarrow> Some ((ret, Some v), w))
              else (case ion_lock env m of (v, m') \<Rightarrow> Some ((0, Some v), store a m' w)))"

definition mm_unlock :: "mem_env \<Rightarrow> nat option \<Rightarrow> mem_world \<Rightarrow> (int \<times> mem_world) option" where
  "mm_unlock env h w =
     with_handle h w (- EINVAL)
       (\<lambda>a m. if isDrmAlloc env (h_flags m) (h_fslFormat m) (h_usage m)
              then Some (gpu_unlock (the (e_gpu env)) a, w)
              else (case ion_unlock env m of (ret, es) \<Rightarrow> Some (ret, emit es w)))"

definition validateMemory ::
    "mem_env \<Rightarrow> mem_desc \<Rightarrow> nat option \<Rightarrow> mem_world \<Rightarrow> (int \<times> mem_world) option" where
  "validateMemory env desc h w =
     with_handle h w (- EINVAL)
       (\<lambda>a m. if isDrmAlloc env (mFlag desc) (mFslFormat desc) (ucast (mProduceUsage desc))
              then Some (gpu_validate (the (e_gpu env)) a desc, w)
              else Some (of_bool (mSize desc \<noteq> h_size m), w))"

text \<open>\<open>getMetaData\<close>: the address of the mapping, or null.\<close>

definition getMetaData :: "mem_env \<Rightarrow> nat option \<Rightarrow> mem_world \<Rightarrow> (u64 option \<times> mem_world) option" where
  "getMetaData env h w =
     with_handle h w None
       (\<lambda>a m. if h_fd_meta m \<le> 0 then Some (None, w)
              else case mMetaMap w a of
                Some addr \<Rightarrow> Some (Some addr, w)
              | None \<Rightarrow>
                  (case e_mmap env (h_fd_meta m) of
                     None \<Rightarrow> Some (None, w)
                   | Some addr \<Rightarrow> Some (Some addr, w\<lparr>mMetaMap := (mMetaMap w)(a \<mapsto> addr)\<rparr>)))"

definition mm_flush :: "mem_env \<Rightarrow> nat option \<Rightarrow> mem_world \<Rightarrow> (int \<times> mem_world) option" where
  "mm_flush env h w =
     with_handle h w (- EINVAL)
       (\<lambda>a m. if isDrmAlloc env (h_flags m) (h_fslFormat m) (h_usage m) then Some (0, w)
              else Some (0, if has_flag (h_flags m) FLAGS_CPU
                            then emit (snd (ion_flushCache env m)) w else w))"

text \<open>The planes of a locked YUV buffer.\<close>

record ycbcr =
  yc_y :: u64
  yc_cb :: u64
  yc_cr :: u64
  yc_ystride :: size_t
  yc_cstride :: size_t
  yc_chroma_step :: nat

definition ycbcr_planes :: "memory \<Rightarrow> ycbcr option" where
  "ycbcr_planes m =
     (let f = h_fslFormat m; base = h_base m; stride = scast (h_stride m);
          ysize = scast (h_stride m * ALIGN_PIXEL_4 (h_height m));
          csize = (stride div 2) * scast (ALIGN_PIXEL_4 (h_height m)) div 2
      in if f = FORMAT_NV12 then
           Some \<lparr>yc_y = base, yc_cb = base + ysize, yc_cr = base + ysize + 1, yc_ystride = stride,
                 yc_cstride = stride, yc_chroma_step = 2\<rparr>
         else if f = FORMAT_NV21 then
           Some \<lparr>yc_y = base, yc_cb = base + ysize + 1, yc_cr = base + ysize, yc_ystride = stride,
                 yc_cstride = stride, yc_chroma_step = 2\<rparr>
         else if f = FORMAT_I420 then
           Some \<lparr>yc_y = base, yc_cb = base + ysize, yc_cr = base + ysize + csize, yc_ystride = stride,
                 yc_cstride = stride div 2, yc_chroma_step = 1\<rparr>
         else if f = FORMAT_YV12 then
           Some \<lparr>yc_y = base, yc_cb = base + ysize + csize, yc_cr = base + ysize, yc_ystride = stride,
                 yc_cstride = stride div 2, yc_chroma_step = 1\<rparr>
         else if f = FORMAT_YUYV then
           Some \<lparr>yc_y = base, yc_cb = 0, yc_cr = 0, yc_ystride = scast (h_stride m * 2),
                 yc_cstride = stride, yc_chroma_step = 1\<rparr>
         else None)"

definition mm_lockYCbCr ::
    "mem_env \<Rightarrow> (nat \<Rightarrow> int \<times> ycbcr option) \<Rightarrow> bool \<Rightarrow> nat option \<Rightarrow> mem_world \<Rightarrow>
     ((int \<times> ycbcr option) \<times> mem_world) option" where
  "mm_lockYCbCr env gpu_lock_ycbcr out_null h w =
     with_handle h w (- EINVAL, None)
       (\<lambda>a m. if out_null then Some ((- EINVAL, None), w)
              else if isDrmAlloc env (h_flags m) (h_fslFormat m) (h_usage m)
              then Some (gpu_lock_ycbcr a, w)
              else (let m' = snd (ion_lock env m)
                    in case ycbcr_planes m' of
                         None \<Rightarrow> Some ((- EINVAL, None), store a m' w)
                       | Some yc \<Rightarrow> Some ((0, Some yc), store a m' w)))"

section \<open>The choice of the allocator\<close>

lemma encoder_usage_cases:
  "encoder_usage d = mProduceUsage d \<or>
   has_flag (ucast (encoder_usage d) :: i32) USAGE_HW_VIDEO_ENCODER"
proof -
  have enc: "(USAGE_HW_VIDEO_ENCODER :: 'a::len word) = 2 ^ 16" by (simp add: USAGE_HW_VIDEO_ENCODER_def)
  have "has_flag (ucast (encoder_usage d) :: i32) USAGE_HW_VIDEO_ENCODER"
    if "has_flag (mProduceUsage d) USAGE_HW_VIDEO_ENCODER"
  proof -
    from that have "has_flag (encoder_usage d) USAGE_HW_VIDEO_ENCODER"
      by (simp add: encoder_usage_def)
    then have "bit (encoder_usage d) 16" by (simp only: enc has_flag_pow)
    then show ?thesis by (simp only: enc has_flag_pow) (simp add: bit_simps)
  qed
  then show ?thesis by (auto simp: encoder_usage_def)
qed

lemma has_flag_ion [simp]:
  "has_flag FLAGS_ALLOCATION_ION (FLAGS_SECURE OR FLAGS_DIMBUFFER) = False"
  "has_flag FLAGS_ALLOCATION_ION (FLAGS_FRAMEBUFFER OR FLAGS_SECURE OR FLAGS_DIMBUFFER) = False"
  by (simp_all add: has_flag_def flags_defs)

lemma isDrmAlloc_encoder:
  assumes "has_flag u USAGE_HW_VIDEO_ENCODER"
  shows "\<not> isDrmAlloc env f fmt u"
  unfolding isDrmAlloc_def using assms by (simp only: simp_thms if_True if_cancel)

lemma isDrmAlloc_ion [simp]:
  "isDrmAlloc env (f OR FLAGS_ALLOCATION_ION) fmt u = isDrmAlloc env f fmt u"
proof -
  have "has_flag (f OR FLAGS_ALLOCATION_ION) (if c then FLAGS_SECURE OR FLAGS_DIMBUFFER
           else FLAGS_FRAMEBUFFER OR FLAGS_SECURE OR FLAGS_DIMBUFFER) =
        has_flag f (if c then FLAGS_SECURE OR FLAGS_DIMBUFFER
           else FLAGS_FRAMEBUFFER OR FLAGS_SECURE OR FLAGS_DIMBUFFER)" for c
    by simp
  then show ?thesis unfolding isDrmAlloc_def by (simp only:)
qed

lemma isDrmAlloc_gpu: "isDrmAlloc env f fmt u \<Longrightarrow> e_gpu env \<noteq> None"
  unfolding isDrmAlloc_def by presburger

lemma isDrmAlloc_encoder_usage:
  assumes "\<not> isDrmAlloc env f fmt (ucast (mProduceUsage d))"
  shows "\<not> isDrmAlloc env f fmt (ucast (encoder_usage d))"
  using assms encoder_usage_cases[of d] isDrmAlloc_encoder by metis

lemma checkFormat_fields:
  assumes "checkFormat cfg lib d = (0, d')"
  shows "mFlag d' = mFlag d" "mFslFormat d' = mFslFormat d" "mFormat d' = mFormat d"
    "mWidth d' = mWidth d" "mHeight d' = mHeight d" "mProduceUsage d' = encoder_usage d"
  using assms by (auto simp: checkFormat_def split: if_splits option.splits prod.splits)

text \<open>The buffers that \<open>allocMemory\<close> gets from the ION allocator.\<close>

definition ion_desc :: "mem_env \<Rightarrow> mem_desc \<Rightarrow> bool" where
  "ion_desc env d \<longleftrightarrow>
     \<not> isDrmAlloc env (mFlag (protect_desc d)) (mFslFormat (protect_desc d))
         (ucast (mProduceUsage (protect_desc d)))"

lemma ion_getPhys_fields:
  "\<exists>p. snd (ion_getPhys env m) = m\<lparr>h_phys := p\<rparr>"
  by (auto simp: ion_getPhys_def split: prod.splits intro: exI[of _ "h_phys m"])

text \<open>What the allocator returns for a description that \<open>checkFormat\<close> has filled in.\<close>

definition shared_fd :: "mem_env \<Rightarrow> mem_world \<Rightarrow> mem_desc \<Rightarrow> int" where
  "shared_fd env w d = e_ion_alloc env w (mSize d) (fst (ion_flags env d)) (snd (ion_flags env d))"

lemma ion_alloc_cases:
  assumes "ion_allocMemory env d w = (ret, d', out, w')"
  shows "(ret = - EINVAL \<and> out = None \<and> w' = w) \<or>
    (ret = 0 \<and> out = Some (e_new env w) \<and>
     (\<exists>sh p. 0 \<le> sh \<and> sh = shared_fd env w d' \<and> checkFormat (e_cfg env) (e_tile env) (d\<lparr>mFlag := mFlag d OR FLAGS_ALLOCATION_ION\<rparr>) = (0, d') \<and>
        w' = emit [Close sh] (store (e_new env w)
           ((Memory_new d' (e_dup env sh) (-1) (e_getpid env) (e_junk env w))\<lparr>h_phys := p\<rparr>) w)))"
proof -
  let ?d = "d\<lparr>mFlag := mFlag d OR FLAGS_ALLOCATION_ION\<rparr>"
  obtain r d2 where c: "checkFormat (e_cfg env) (e_tile env) ?d = (r, d2)" by (cases "checkFormat (e_cfg env) (e_tile env) ?d")
  obtain al fl where f: "ion_flags env d2 = (al, fl)" by (cases "ion_flags env d2")
  let ?sh = "e_ion_alloc env w (mSize d2) al fl"
  obtain p where p: "snd (ion_getPhys env (Memory_new d2 (e_dup env ?sh) (-1) (e_getpid env) (e_junk env w)))
      = (Memory_new d2 (e_dup env ?sh) (-1) (e_getpid env) (e_junk env w))\<lparr>h_phys := p\<rparr>"
    using ion_getPhys_fields by blast
  show ?thesis
  proof (cases "r \<noteq> 0 \<or> mSize d2 = 0 \<or> ?sh < 0")
    case True
    then show ?thesis using assms by (auto simp: ion_allocMemory_def c f Let_def split: if_splits)
  next
    case False
    then show ?thesis using assms
      by (simp add: ion_allocMemory_def c f Let_def p shared_fd_def) (metis c f fst_conv snd_conv linorder_not_le)
  qed
qed

text \<open>The handle that the ION branch returns.\<close>

definition ion_memory :: "mem_env \<Rightarrow> mem_desc \<Rightarrow> mem_desc \<Rightarrow> memory \<Rightarrow> bool" where
  "ion_memory env d d' m \<longleftrightarrow>
     (\<exists>sh \<ge> 0. h_fd m = e_dup env sh) \<and> (\<exists>w0. h_fd_meta m = e_ashmem env w0) \<and> h_fd_region m = -1 \<and>
     h_magic m = MEMORY_MAGIC \<and> h_base m = 0 \<and> h_kmsFd m = -1 \<and>
     h_flags m = mFlag (protect_desc d) OR FLAGS_ALLOCATION_ION \<and> h_size m = mSize d' \<and>
     h_width m = mWidth d \<and> h_height m = mHeight d \<and> h_stride m = mStride d' \<and>
     h_fslFormat m = mFslFormat d \<and> h_usage m = ucast (encoder_usage d)"

lemma protect_desc_fields [simp]:
  "mWidth (protect_desc d) = mWidth d" "mHeight (protect_desc d) = mHeight d"
  "mFslFormat (protect_desc d) = mFslFormat d" "mProduceUsage (protect_desc d) = mProduceUsage d"
  "mFormat (protect_desc d) = mFormat d"
  by (simp_all add: protect_desc_def)

lemma encoder_usage_flag [simp]: "encoder_usage (d\<lparr>mFlag := f\<rparr>) = encoder_usage d"
  "encoder_usage (protect_desc d) = encoder_usage d"
  by (simp_all add: encoder_usage_def)

lemma ion_memory_not_drm:
  assumes "ion_desc env d" "ion_memory env d d' m"
  shows "\<not> isDrmAlloc env (h_flags m) (h_fslFormat m) (h_usage m)"
  using assms isDrmAlloc_encoder_usage[of env _ _ "protect_desc d"]
  by (simp add: ion_desc_def ion_memory_def)

lemma world_simps [simp]:
  "heap (emit es w) = heap w" "mMetaMap (emit es w) = mMetaMap w"
  "events (emit es w) = events w @ es"
  "heap (store a m w) = (heap w)(a \<mapsto> m)" "mMetaMap (store a m w) = mMetaMap w"
  "events (store a m w) = events w"
  "store a m (emit es w) = emit es (store a m w)" "store a m (store a m' w) = store a m w"
  by (simp_all add: emit_def store_def)

lemma with_handle_simps [simp]:
  "with_handle None w e f = Some (e, w)"
  "heap w a = Some m \<Longrightarrow> with_handle (Some a) w e f = (if Memory_isValid m then f a m else Some (e, w))"
  "heap w a = None \<Longrightarrow> with_handle (Some a) w e f = None"
  by (simp_all add: with_handle_def)

lemma allocMetaData_store:
  "Memory_isValid m \<Longrightarrow> \<exists>b w0. allocMetaData env (Some a) (emit es (store a m w)) =
     Some (b, emit es (store a (m\<lparr>h_fd_meta := e_ashmem env w0\<rparr>) w))"
  by (auto simp: allocMetaData_def Let_def)

lemma retainMemory_store:
  "Memory_isValid m \<Longrightarrow> \<not> isDrmAlloc env (h_flags m) (h_fslFormat m) (h_usage m) \<Longrightarrow>
   retainMemory env (Some a) (emit es (store a m w)) =
     Some (0, emit es (store a (m\<lparr>h_fbId := 0, h_fbHandle := 0\<rparr>) w))"
  by (simp add: retainMemory_def)

lemma Memory_new_fields [simp]:
  "h_magic (Memory_new d fd fd2 pid j) = MEMORY_MAGIC" "h_fd (Memory_new d fd fd2 pid j) = fd"
  "h_flags (Memory_new d fd fd2 pid j) = mFlag d" "h_size (Memory_new d fd fd2 pid j) = mSize d"
  "h_fslFormat (Memory_new d fd fd2 pid j) = mFslFormat d" "h_base (Memory_new d fd fd2 pid j) = 0"
  "h_usage (Memory_new d fd fd2 pid j) = ucast (mProduceUsage d)"
  "h_width (Memory_new d fd fd2 pid j) = mWidth d" "h_height (Memory_new d fd fd2 pid j) = mHeight d"
  "h_stride (Memory_new d fd fd2 pid j) = mStride d" "h_kmsFd (Memory_new d fd fd2 pid j) = -1"
  "h_fd_region (Memory_new d fd fd2 pid j) = -1"
  by (simp_all add: Memory_new_def)

lemma allocMemory_ion:
  assumes "ion_desc env d" and "allocMemory env d w = Some (ret, d', out, w')"
  shows "(ret = - EINVAL \<and> out = None \<and> w' = w) \<or>
    (ret = 0 \<and> out = Some (Some (e_new env w)) \<and>
     checkFormat (e_cfg env) (e_tile env)
        ((protect_desc d)\<lparr>mFlag := mFlag (protect_desc d) OR FLAGS_ALLOCATION_ION\<rparr>) = (0, d') \<and>
     (\<exists>m sh. ion_memory env d d' m \<and> sh = shared_fd env w d' \<and> h_fd m = e_dup env sh \<and> w' = emit [Close sh] (store (e_new env w) m w)))"
proof -
  let ?d = "protect_desc d"
  obtain r d2 h w1 where i: "ion_allocMemory env ?d w = (r, d2, h, w1)"
    by (cases "ion_allocMemory env ?d w") auto
  have nd: "\<not> isDrmAlloc env (mFlag ?d) (mFslFormat ?d) (ucast (mProduceUsage ?d))"
    using assms(1) by (simp add: ion_desc_def)
  from ion_alloc_cases[OF i] show ?thesis
  proof (elim disjE conjE exE)
    assume "r = - EINVAL" "h = None" "w1 = w"
    then show ?thesis using assms(2) nd
      by (simp add: allocMemory_def i Let_def)
  next
    fix sh p
    let ?a = "e_new env w"
    let ?m0 = "(Memory_new d2 (e_dup env sh) (-1) (e_getpid env) (e_junk env w))\<lparr>h_phys := p\<rparr>"
    assume *: "r = 0" "h = Some ?a" "0 \<le> sh" "sh = shared_fd env w d2"
      "checkFormat (e_cfg env) (e_tile env) (?d\<lparr>mFlag := mFlag ?d OR FLAGS_ALLOCATION_ION\<rparr>) = (0, d2)"
      "w1 = emit [Close sh] (store ?a ?m0 w)"
    note fields = checkFormat_fields[OF *(5), simplified]
    have drm: "\<not> isDrmAlloc env (mFlag d2) (mFslFormat d2) (ucast (mProduceUsage d2))"
      using isDrmAlloc_encoder_usage[OF nd] by (simp add: fields)
    define m1 where "m1 = mark_tiled env d2 ?m0"
    define m2 where "m2 = m1\<lparr>h_format_modifier := getDrmModifier env m1\<rparr>"
    have m2: "Memory_isValid m2" "\<not> isDrmAlloc env (h_flags m2) (h_fslFormat m2) (h_usage m2)"
      using drm by (simp_all add: m2_def m1_def mark_tiled_def Memory_isValid_def)
    obtain b w0 where meta: "allocMetaData env (Some ?a) (emit [Close sh] (store ?a m2 w)) =
        Some (b, emit [Close sh] (store ?a (m2\<lparr>h_fd_meta := e_ashmem env w0\<rparr>) w))"
      using allocMetaData_store[OF m2(1)] by blast
    let ?m = "m2\<lparr>h_fd_meta := e_ashmem env w0, h_fbId := 0, h_fbHandle := 0\<rparr>"
    have retain: "retainMemory env (Some ?a) (emit [Close sh] (store ?a (m2\<lparr>h_fd_meta := e_ashmem env w0\<rparr>) w)) =
        Some (0, emit [Close sh] (store ?a ?m w))"
      using m2 by (simp add: retainMemory_store Memory_isValid_def)
    have "allocMemory env d w = Some (0, d2, Some (Some ?a), emit [Close sh] (store ?a ?m w))"
      using nd meta retain by (simp add: allocMemory_def i * Let_def m1_def m2_def)
    moreover have "ion_memory env d d2 ?m" "h_fd ?m = e_dup env sh"
      using *(3) by (auto simp: ion_memory_def m2_def m1_def mark_tiled_def fields)
    ultimately have "ret = 0 \<and> d' = d2 \<and> out = Some (Some ?a) \<and> (\<exists>m. ion_memory env d d2 m \<and> h_fd m = e_dup env sh \<and>
            w' = emit [Close sh] (store ?a m w))"
      using assms(2) by auto
    then show ?thesis using *(4,5) by blast
  qed
qed


section \<open>Releasing\<close>

text \<open>The number of times an event happens between two worlds.\<close>

definition new_events :: "mem_world \<Rightarrow> mem_world \<Rightarrow> sys_event list" where
  "new_events w w' = drop (length (events w)) (events w')"

lemma new_events_emit [simp]:
  "new_events w (w1\<lparr>heap := x, mMetaMap := y\<rparr>) = new_events w w1"
  "new_events w (w1\<lparr>heap := x\<rparr>) = new_events w w1"
  "new_events w (emit es w) = es"
  by (simp_all add: new_events_def)

definition owned_fds :: "memory \<Rightarrow> int list" where
  "owned_fds m = filter (\<lambda>fd. 0 < fd) [h_fd m, h_fd_meta m, h_fd_region m]"

text \<open>What \<open>KmsDisplay\<close> made of the buffer: a frame buffer and a handle of the graphics device.\<close>

definition kms_close :: "memory \<Rightarrow> sys_event list" where
  "kms_close m =
     (if h_kmsFd m > 0
      then (if h_fbId m \<noteq> 0 then [DrmModeRmFB (h_kmsFd m) (h_fbId m)] else []) @
           (if h_fbHandle m \<noteq> 0 then [DrmGemClose (h_kmsFd m) (h_fbHandle m)] else [])
      else [])"

lemma releaseMemory_ion:
  assumes "heap w a = Some m" "Memory_isValid m"
    "\<not> isDrmAlloc env (h_flags m) (h_fslFormat m) (h_usage m)"
  shows "releaseMemory env (Some a) w =
    Some (0, (emit (kms_close m @ close_if (h_fd_region m) @
        (if h_base m \<noteq> 0 then [Munmap (h_base m) (h_size m)] else []) @ close_if (h_fd m) @
        (case mMetaMap w a of None \<Rightarrow> [] | Some addr \<Rightarrow> [Munmap addr (e_sizeof_MetaData env)]) @
        close_if (h_fd_meta m)) w)
      \<lparr>heap := (heap w)(a := None), mMetaMap := (mMetaMap w)(a := None)\<rparr>)"
  using assms by (simp add: releaseMemory_def Let_def Memory_delete_def close_if_def kms_close_def)

text \<open>
  A buffer that the ION allocator provided is treated as such for its whole life: the flags,
  format and usage stored in the handle make every later test choose the ION paths, the handle
  is valid, and its size is that of the description.
\<close>

theorem ion_buffer_stays_ion:
  assumes "ion_desc env d" and "allocMemory env d w = Some (0, d', out, w')"
  shows "\<exists>a m. out = Some (Some a) \<and> heap w' a = Some m \<and> Memory_isValid m \<and>
    \<not> isDrmAlloc env (h_flags m) (h_fslFormat m) (h_usage m) \<and> h_size m = mSize d' \<and>
    validateMemory env d' (Some a) w' = Some (0, w')"
proof -
  from allocMemory_ion[OF assms] obtain m sh where *: "out = Some (Some (e_new env w))"
    "ion_memory env d d' m" "w' = emit [Close sh] (store (e_new env w) m w)"
    "checkFormat (e_cfg env) (e_tile env)
        ((protect_desc d)\<lparr>mFlag := mFlag (protect_desc d) OR FLAGS_ALLOCATION_ION\<rparr>) = (0, d')"
    by auto
  have nd: "\<not> isDrmAlloc env (h_flags m) (h_fslFormat m) (h_usage m)"
    by (rule ion_memory_not_drm[OF assms(1) *(2)])
  with * checkFormat_fields[OF *(4)] show ?thesis
    by (simp add: ion_memory_def Memory_isValid_def validateMemory_def)
qed


text \<open>
  C5: the release of a valid buffer of the ION allocator, whatever was done to it before (locked, its
  metadata mapped, shown by a display) and provided that its descriptors differ, closes each
  positive descriptor it owns exactly once and no other, unmaps exactly its mappings, removes exactly
  the frame buffer and the handle that a graphics device has of it, and removes it from the heap, so
  that a later release is one of a dangling pointer.
\<close>

theorem release_closes_once:
  assumes "heap w a = Some m" "Memory_isValid m"
    "\<not> isDrmAlloc env (h_flags m) (h_fslFormat m) (h_usage m)" "distinct (owned_fds m)"
  shows "\<exists>w'. releaseMemory env (Some a) w = Some (0, w') \<and> heap w' a = None \<and> mMetaMap w' a = None \<and>
    (\<forall>fd. count_list (new_events w w') (Close fd) = of_bool (fd \<in> set (owned_fds m))) \<and>
    {(p, n). Munmap p n \<in> set (new_events w w')} =
      {(p, n). p = h_base m \<and> n = h_size m \<and> p \<noteq> 0} \<union>
      {(p, n). mMetaMap w a = Some p \<and> n = e_sizeof_MetaData env} \<and>
    (\<forall>kms fb. count_list (new_events w w') (DrmModeRmFB kms fb) = of_bool (kms = h_kmsFd m \<and> fb = h_fbId m \<and> 0 < kms \<and> fb \<noteq> 0) \<and>
       count_list (new_events w w') (DrmGemClose kms fb) = of_bool (kms = h_kmsFd m \<and> fb = h_fbHandle m \<and> 0 < kms \<and> fb \<noteq> 0)) \<and>
    releaseMemory env (Some a) w' = None"
proof -
  let ?es = "kms_close m @ close_if (h_fd_region m) @
        (if h_base m \<noteq> 0 then [Munmap (h_base m) (h_size m)] else []) @ close_if (h_fd m) @
        (case mMetaMap w a of None \<Rightarrow> [] | Some addr \<Rightarrow> [Munmap addr (e_sizeof_MetaData env)]) @
        close_if (h_fd_meta m)"
  let ?w = "(emit ?es w)\<lparr>heap := (heap w)(a := None), mMetaMap := (mMetaMap w)(a := None)\<rparr>"
  have "count_list ?es (Close fd) = of_bool (fd \<in> set (owned_fds m))" for fd
    using assms(4) by (auto simp: close_if_def owned_fds_def kms_close_def split: option.splits if_splits)
  moreover have "{(p, n). Munmap p n \<in> set ?es} = {(p, n). p = h_base m \<and> n = h_size m \<and> p \<noteq> 0} \<union>
      {(p, n). mMetaMap w a = Some p \<and> n = e_sizeof_MetaData env}"
    by (auto simp: close_if_def kms_close_def split: option.splits if_splits)
  moreover have "count_list ?es (DrmModeRmFB kms fb) = of_bool (kms = h_kmsFd m \<and> fb = h_fbId m \<and> 0 < kms \<and> fb \<noteq> 0)"
    "count_list ?es (DrmGemClose kms fb) = of_bool (kms = h_kmsFd m \<and> fb = h_fbHandle m \<and> 0 < kms \<and> fb \<noteq> 0)" for kms fb
    by (auto simp: close_if_def kms_close_def split: option.splits)
  moreover have "releaseMemory env (Some a) ?w = None" by (simp add: releaseMemory_def)
  ultimately show ?thesis
    by (intro exI[of _ ?w] conjI releaseMemory_ion[OF assms(1-3)]) simp_all
qed

text \<open>
  The GPU path of \<open>releaseMemory\<close> closes the metadata descriptor but forgets the mapping: a
  buffer that is later allocated at the same address is handed the metadata mapping of the
  released one.
\<close>

theorem drm_release_stale_metadata:
  assumes "heap w a = Some m" "Memory_isValid m"
    "isDrmAlloc env (h_flags m) (h_fslFormat m) (h_usage m)"
    and "getMetaData env (Some a) w = Some (Some addr, w1)"
    and "releaseMemory env (Some a) w1 = Some (r, w2)"
    and "Memory_isValid m'" "h_fd_meta m' > 0"
  shows "getMetaData env (Some a) (store a m' w2) = Some (Some addr, store a m' w2)"
proof -
  have w1: "mMetaMap w1 a = Some addr" "heap w1 a = Some m"
    using assms(1,2,4)
    by (auto simp: getMetaData_def split: if_splits option.splits)
  have "mMetaMap w2 a = Some addr"
    using assms(2,3,5) w1 by (cases "0 < h_fd_region m") (auto simp: releaseMemory_def Let_def)
  then show ?thesis using assms(6,7) by (simp add: getMetaData_def)
qed

section \<open>The planes of a locked YUV buffer\<close>

lemma yuv_offsets:
  assumes "h_stride m = word_of_nat s" "s \<le> 16000" "unat (h_height m) \<le> 8192"
  defines "H \<equiv> align_up 4 (unat (h_height m))"
  shows "(scast (h_stride m) :: size_t) = word_of_nat s"
    and "(scast (h_stride m * ALIGN_PIXEL_4 (h_height m)) :: size_t) = word_of_nat (s * H)"
    and "(scast (h_stride m) div 2 * scast (ALIGN_PIXEL_4 (h_height m)) div 2 :: size_t) =
           word_of_nat (s div 2 * H div 2)"
    and "(scast (h_stride m) div 2 :: size_t) = word_of_nat (s div 2)"
    and "s * H \<le> 256000000"
proof -
  have H: "H \<le> 16000" using align_bound'[of "unat (h_height m)" 4] assms(3) by (simp add: H_def)
  show sH: "s * H \<le> 256000000" using area_bound'[OF assms(2) H] .
  have su: "unat (h_stride m) = s" using assms(1,2) by (simp add: unat32)
  have hu: "unat (ALIGN_PIXEL_4 (h_height m)) = H"
    using unat_ALIGN_PIXEL(1)[of "h_height m"] assms(3) by (simp add: H_def)
  show s: "(scast (h_stride m) :: size_t) = word_of_nat s"
    using scast32_nat[of "h_stride m"] su assms(2) by simp
  have h: "(scast (ALIGN_PIXEL_4 (h_height m)) :: size_t) = word_of_nat H"
    using scast32_nat[of "ALIGN_PIXEL_4 (h_height m)"] hu H by simp
  have "word_of_nat (unat (ALIGN_PIXEL_4 (h_height m))) = ALIGN_PIXEL_4 (h_height m)" by simp
  then have "ALIGN_PIXEL_4 (h_height m) = word_of_nat H" unfolding hu by simp
  then have "h_stride m * ALIGN_PIXEL_4 (h_height m) = word_of_nat (s * H)" using assms(1) by simp
  moreover have "unat (word_of_nat (s * H) :: i32) = s * H" by (rule unat32) (use sH in simp)
  ultimately show "(scast (h_stride m * ALIGN_PIXEL_4 (h_height m)) :: size_t) = word_of_nat (s * H)"
    using scast32_nat[of "word_of_nat (s * H)"] sH by simp
  have two: "(2 :: size_t) = word_of_nat 2" by simp
  show half: "(scast (h_stride m) div 2 :: size_t) = word_of_nat (s div 2)"
    unfolding s two by (rule div64) (use assms(2) in simp_all)
  have "s div 2 * H \<le> s * H" by (simp add: div_le_dividend mult_le_mono1)
  also have "s * H < 2^64" using sH by simp
  finally have l: "s div 2 * H < 2^64" .
  have "(scast (h_stride m) div 2 * scast (ALIGN_PIXEL_4 (h_height m)) div 2 :: size_t) =
          word_of_nat (s div 2) * word_of_nat H div 2"
    by (simp only: half h)
  also have "\<dots> = word_of_nat (s div 2 * H) div word_of_nat 2" by simp
  also have "\<dots> = word_of_nat (s div 2 * H div 2)" by (rule div64[OF l]) simp
  finally show "(scast (h_stride m) div 2 * scast (ALIGN_PIXEL_4 (h_height m)) div 2 :: size_t) =
           word_of_nat (s div 2 * H div 2)" .
qed

text \<open>The planes as address ranges: luma, then chroma (one plane when the samples interleave).\<close>

definition yuv_planes :: "memory \<Rightarrow> ycbcr \<Rightarrow> (nat \<times> nat) list" where
  "yuv_planes m yc =
     (let H = align_up 4 (unat (h_height m))
      in (unat (yc_y yc), unat (yc_ystride yc) * H) #
         (if yc_chroma_step yc = 2
          then [(min (unat (yc_cb yc)) (unat (yc_cr yc)), unat (yc_cstride yc) * H div 2)]
          else map (\<lambda>p. (unat p, unat (yc_cstride yc) * H div 2)) [yc_cb yc, yc_cr yc]))"

definition disjoint_ranges :: "(nat \<times> nat) list \<Rightarrow> bool" where
  "disjoint_ranges rs \<longleftrightarrow>
     (\<forall>i<length rs. \<forall>j<i. fst (rs ! i) + snd (rs ! i) \<le> fst (rs ! j) \<or>
                         fst (rs ! j) + snd (rs ! j) \<le> fst (rs ! i))"

lemma unat_base_off:
  assumes "unat (b :: u64) + k < 2^64"
  shows "unat (b + word_of_nat k) = unat b + k"
proof -
  have "b + word_of_nat k = word_of_nat (unat b + k)" by simp
  then show ?thesis using unat64[OF assms] by simp
qed

lemma ref_layout_yuv:
  assumes "ref_layout cfg lib d = Some (s, b, c)"
    "mFslFormat d \<in> {FORMAT_NV12, FORMAT_NV21, FORMAT_I420, FORMAT_YV12}"
  shows "s * align_up 4 (unat (mHeight d)) + s * align_up 4 (unat (mHeight d)) div 2 \<le> b"
proof -
  let ?h = "unat (mHeight d)"
  have le: "align_up 4 ?h \<le> align_up 16 ?h"
  proof -
    have "align_up 16 ?h = align_up 4 (align_up 16 ?h)" unfolding align_up_def by presburger
    moreover have "align_up 4 ?h \<le> align_up 4 (align_up 16 ?h)"
      using align_up_ge[of 16 ?h] by (simp add: align_up_def div_le_mono)
    ultimately show ?thesis by simp
  qed
  then have m: "s * align_up 4 ?h \<le> s * align_up 16 ?h" by simp
  have half: "s * align_up 4 ?h div 2 \<le> align_up 16 (s div 2) * align_up 4 ?h" if "even s"
  proof -
    have "even (align_up 4 ?h)" using dvd_trans[OF _ align_up_dvd[of 4 ?h], of 2] by simp
    then obtain k where k: "align_up 4 ?h = 2 * k" by blast
    have "s \<le> align_up 16 (s div 2) * 2" using align_up_ge[of 16 "s div 2"] that by auto
    then have "s * k \<le> align_up 16 (s div 2) * 2 * k" by (rule mult_le_mono1)
    then show ?thesis unfolding k by (simp add: ac_simps)
  qed
  have "even (align_up 32 x)" for x using dvd_trans[OF _ align_up_dvd[of 32 x], of 2] by simp
  then have e: "even (align_up 32 (unat (mWidth d)))" .
  consider (nv) "mFslFormat d = FORMAT_NV12 \<or> mFslFormat d = FORMAT_NV21"
    | (planar) "mFslFormat d = FORMAT_I420 \<or> mFslFormat d = FORMAT_YV12"
    using assms(2) by auto
  then show ?thesis
  proof cases
    case nv
    then have "s * align_up 4 ?h * 3 div 2 \<le> b"
      using assms(1) m div_le_mono[of "s * align_up 4 ?h * 3" "s * align_up 16 ?h * 3" 2]
      by (auto simp: ref_layout_def Let_def split: if_splits)
    then show ?thesis by linarith
  next
    case planar
    then have "s = align_up 32 (unat (mWidth d))" "b = s * align_up 4 ?h + align_up 16 (s div 2) * align_up 4 ?h"
      using assms(1) by (auto simp: ref_layout_def Let_def)
    then show ?thesis using half e by simp
  qed
qed

text \<open>
  C33: the planes that \<open>lockYCbCr\<close> hands out for a buffer of format NV12, NV21, I420 or YV12 that
  \<open>checkFormat\<close> laid out, with width and height from 1 to 8192, alignments of the helper library that
  neither shrink an image nor exceed 16000, and a mapping that does not wrap around the address space,
  do not overlap and lie inside the buffer.
\<close>

theorem ycbcr_planes_fit:
  assumes "dims_ok d" and "tile_ok lib" and "checkFormat cfg lib d = (0, d')"
    and "mFslFormat d \<in> {FORMAT_NV12, FORMAT_NV21, FORMAT_I420, FORMAT_YV12}"
    and "h_fslFormat m = mFslFormat d'" "h_stride m = mStride d'" "h_height m = mHeight d'"
      "h_size m = mSize d'"
    and "unat (h_base m) + unat (h_size m) < 2^64"
  shows "case ycbcr_planes m of None \<Rightarrow> False
    | Some yc \<Rightarrow> disjoint_ranges (yuv_planes m yc) \<and>
        (\<forall>(p, n)\<in>set (yuv_planes m yc).
           unat (h_base m) \<le> p \<and> p + n \<le> unat (h_base m) + unat (h_size m))"
proof -
  obtain s b c where r: "ref_layout cfg lib d = Some (s, b, c)"
      and d': "d' = d\<lparr>mProduceUsage := encoder_usage d, mSize := word_of_nat b,
                      mBpp := word_of_nat c, mStride := word_of_nat s\<rparr>"
    using assms(3) by (auto simp: checkFormat_nat[OF assms(1,2)] split: option.splits prod.splits)
  let ?H = "align_up 4 (unat (h_height m))"
  have bd: "s \<le> 16000" "b < 2^32" using ref_layout_bounds[OF assms(1,2) r] by auto
  have h: "h_height m = mHeight d" "unat (h_height m) \<le> 8192"
    using assms(1,7) d' by (auto simp: dims_ok_def)
  have size: "unat (h_size m) = b" using assms(8) d' bd by (simp add: unat32)
  have fit: "s * ?H + s * ?H div 2 \<le> b" using ref_layout_yuv[OF r assms(4)] h by simp
  have "h_stride m = word_of_nat s" using assms(6) d' by simp
  note o = yuv_offsets[OF this bd(1) h(2)]
  note o' = o(3)[unfolded o(4)] o(4)[unfolded o(1)]
  have c2: "s div 2 * ?H div 2 * 2 \<le> s * ?H div 2"
  proof -
    have "s div 2 * ?H div 2 * 2 \<le> s div 2 * ?H" by simp
    moreover have "s div 2 * ?H * 2 \<le> s * ?H" by (metis div_times_less_eq_dividend mult.assoc mult.commute mult_le_mono1)
    ultimately show ?thesis by linarith
  qed
  have nowrap: "unat (h_base m) + k < 2^64" if "k \<le> b" for k using assms(9) size that by simp
  let ?B = "unat (h_base m)"
  have u: "unat (h_base m + word_of_nat (s * ?H)) = ?B + s * ?H"
    "unat (h_base m + word_of_nat (s * ?H) + word_of_nat (s div 2 * ?H div 2)) = ?B + s * ?H + s div 2 * ?H div 2"
    using unat_base_off[OF nowrap, of "s * ?H"] unat_base_off[OF nowrap, of "s * ?H + s div 2 * ?H div 2"] fit c2
    by (simp_all add: add.assoc)
  have us: "unat (word_of_nat s :: u64) = s" "unat (word_of_nat (s div 2) :: u64) = s div 2"
    by (rule unat64, use bd(1) in simp)+
  have fmt: "h_fslFormat m = mFslFormat d" using assms(5) d' by simp
  have sH2: "2 \<le> s * ?H"
  proof -
    have "unat (word_of_nat s :: i32) = s" "unat (word_of_nat c :: i32) = c"
      by (rule unat32, use bd(1) ref_layout_bounds[OF assms(1,2) r] in simp)+
    then have "unat (mWidth d) \<le> s" using ref_layout_capacity[OF assms(1,2) r, of d'] d' by simp
    then have "0 < s" using assms(1) by (auto simp: dims_ok_def)
    moreover have "2 \<le> ?H" using align_up_ge[of 4 "unat (h_height m)"] align_up_dvd[of 4 "unat (h_height m)"]
       assms(1) h by (auto simp: dims_ok_def elim!: dvdE)
    ultimately show ?thesis using mult_le_mono[of 1 s 2 ?H] by simp
  qed
  have u1: "unat (h_base m + word_of_nat (s * ?H) + 1) = ?B + s * ?H + 1"
    using unat_base_off[OF nowrap, of "s * ?H + 1"] fit sH2 by (simp add: ac_simps)
  consider "h_fslFormat m = FORMAT_NV12" | "h_fslFormat m = FORMAT_NV21"
    | "h_fslFormat m = FORMAT_I420" | "h_fslFormat m = FORMAT_YV12"
    using assms(4) fmt by auto
  then show ?thesis
  proof cases
    case 1
    then show ?thesis using fit
      by (simp add: ycbcr_planes_def yuv_planes_def o o' u u1 us size disjoint_ranges_def Let_def All_less_Suc del: of_nat_mult)
  next
    case 2
    then show ?thesis using fit
      by (simp add: ycbcr_planes_def yuv_planes_def o o' u u1 us size disjoint_ranges_def Let_def All_less_Suc del: of_nat_mult)
  next
    case 3
    then show ?thesis using fit c2
      by (simp add: ycbcr_planes_def yuv_planes_def o o' u u1 us size disjoint_ranges_def Let_def All_less_Suc del: of_nat_mult)
  next
    case 4
    then show ?thesis using fit c2
      by (simp add: ycbcr_planes_def yuv_planes_def o o' u u1 us size disjoint_ranges_def Let_def All_less_Suc del: of_nat_mult)
  qed
qed

section \<open>Witnesses\<close>

text \<open>A world with one GPU and a small environment, for the witnesses.\<close>

definition gpu_demo :: gpu_dev where
  "gpu_demo = \<lparr>gpu_alloc = \<lambda>w h f u s. (-1, None, 0), gpu_free = \<lambda>a. 0, gpu_register = \<lambda>a. 0,
     gpu_lock = \<lambda>a. (0, 0), gpu_unlock = \<lambda>a. 0, gpu_validate = \<lambda>a d. 0\<rparr>"

definition env_demo :: mem_env where
  "env_demo = \<lparr>e_cfg = cfg_imx8m, e_tile = None, e_gpu = Some gpu_demo, e_new = \<lambda>w. 1000,
     e_junk = \<lambda>w. 0, e_getpid = 77, e_dup = \<lambda>fd. fd + 10, e_ashmem = \<lambda>w. 30, e_mmap = \<lambda>fd. Some 4096,
     e_ion_alloc = \<lambda>w s a f. 5, e_ion_phys = \<lambda>fd s. (0, 0x40000000), e_ion_vaddr = \<lambda>fd s. (0, 0x1000),
     e_ion_flush = \<lambda>fd. 0, e_GRALLOC1_CPU_RW = 0x33, e_GRALLOC_USAGE_HW_COMPOSER = 0x800,
     e_MOD_SUPER_TILED_FC = 3, e_MOD_SUPER_TILED = 2, e_MOD_TILED = 1, e_sizeof_MetaData = 64\<rparr>"

definition world0 :: mem_world where
  "world0 = \<lparr>heap = \<lambda>a. None, mMetaMap = \<lambda>a. None, events = []\<rparr>"

definition desc_checked :: mem_desc where
  "desc_checked = desc_1080p\<lparr>mFlag := FLAGS_ALLOCATION_ION, mSize := 3110400, mBpp := 0, mStride := 1920\<rparr>"

definition mem_1080p :: memory where
  "mem_1080p = (Memory_new desc_checked 15 (-1) 77 0)\<lparr>h_phys := 0x40000000, h_fd_meta := 30\<rparr>"

definition world1 :: mem_world where
  "world1 = emit [Close 5] (store 1000 mem_1080p world0)"

lemma env_demo_simps [simp]:
  "e_cfg env_demo = cfg_imx8m" "e_tile env_demo = None" "e_gpu env_demo = Some gpu_demo"
  "e_new env_demo w = 1000" "e_junk env_demo w = 0" "e_getpid env_demo = 77" "e_dup env_demo fd = fd + 10"
  "e_ashmem env_demo w = 30" "e_mmap env_demo fd = Some 4096" "e_ion_alloc env_demo w s al fl = 5"
  "e_ion_phys env_demo fd s = (0, 0x40000000)" "e_sizeof_MetaData env_demo = 64"
  by (simp_all add: env_demo_def)

lemma demo_ion: "ion_desc env_demo desc_1080p"
  by (simp add: ion_desc_def isDrmAlloc_def desc_1080p_def MemoryDesc_init_def)

lemma demo_flags:
  "protect_desc desc_1080p = desc_1080p" "mFlag desc_1080p = 0"
  "\<not> isDrmAlloc env_demo f 259 u" "h_fslFormat mem_1080p = FORMAT_NV12"
  "mFslFormat desc_1080p = FORMAT_NV12"  "mProduceUsage desc_1080p = 0" "encoder_usage desc_1080p = 0"
  "h_usage mem_1080p = 0" "h_flags mem_1080p = FLAGS_ALLOCATION_ION" "h_base mem_1080p = 0" "h_kmsFd mem_1080p = -1"
  "h_fd mem_1080p = 15" "h_fd_meta mem_1080p = 30" "h_fd_region mem_1080p = -1" "h_magic mem_1080p = MEMORY_MAGIC"
  by (simp_all add: protect_desc_def desc_1080p_def MemoryDesc_init_def isDrmAlloc_def mem_1080p_def
      desc_checked_def Memory_new_def encoder_usage_def)

lemma demo_alloc:
  "allocMemory env_demo desc_1080p world0 = Some (0, desc_checked, Some (Some 1000), world1)"
proof -
  have c: "checkFormat cfg_imx8m None (desc_1080p\<lparr>mFlag := FLAGS_ALLOCATION_ION\<rparr>) = (0, desc_checked)"
    by (simp add: checkFormat_def format_layout_def desc_1080p_def desc_checked_def MemoryDesc_init_def align_defs
      encoder_usage_def scast_eq usage_defs)
  have "ion_allocMemory env_demo desc_1080p world0 =
      (0, desc_checked, Some 1000, emit [Close 5] (store 1000 (mem_1080p\<lparr>h_fd_meta := -1\<rparr>) world0))"
    by (simp add: ion_allocMemory_def env_demo_def demo_flags(2) c ion_getPhys_def Memory_new_def mem_1080p_def desc_checked_def
      split: prod.splits)
  moreover have "allocMetaData env_demo (Some 1000) (emit [Close 5] (store 1000 (mem_1080p\<lparr>h_fd_meta := -1, h_format_modifier := 0\<rparr>) world0))
     = Some (1, emit [Close 5] (store 1000 (mem_1080p\<lparr>h_format_modifier := 0\<rparr>) world0))"
    by (simp add: allocMetaData_def Memory_isValid_def demo_flags) (simp add: mem_1080p_def Memory_new_def)
  moreover have "retainMemory env_demo (Some 1000) (emit [Close 5] (store 1000 (mem_1080p\<lparr>h_format_modifier := 0\<rparr>) world0)) = Some (0, world1)"
    by (simp add: retainMemory_def Memory_isValid_def demo_flags world1_def)
       (simp add: mem_1080p_def Memory_new_def)
  moreover have "getDrmModifier env_demo (mem_1080p\<lparr>h_fd_meta := -1\<rparr>) = 0"
    by (simp add: getDrmModifier_def demo_flags)
  ultimately show ?thesis
    by (simp add: allocMemory_def demo_flags mark_tiled_def Let_def cfg_imx8m_def[THEN arg_cong, of WORKAROUND_DISPLAY_UNDERRUN])
qed

theorem ion_buffer_stays_ion_witness:
  "\<exists>m. heap world1 1000 = Some m \<and> Memory_isValid m \<and> h_size m = 3110400 \<and>
       validateMemory env_demo desc_checked (Some 1000) world1 = Some (0, world1)"
  using ion_buffer_stays_ion[OF demo_ion demo_alloc] by (auto simp: desc_checked_def)



theorem release_closes_once_witness:
  "\<exists>w'. releaseMemory env_demo (Some 1000) world1 = Some (0, w') \<and>
     count_list (new_events world1 w') (Close 15) = 1 \<and>
     count_list (new_events world1 w') (Close 30) = 1 \<and> count_list (new_events world1 w') (Close 5) = 0"
proof -
  have "heap world1 1000 = Some mem_1080p" "Memory_isValid mem_1080p"
    "\<not> isDrmAlloc env_demo (h_flags mem_1080p) (h_fslFormat mem_1080p) (h_usage mem_1080p)"
    "distinct (owned_fds mem_1080p)"
    by (simp_all add: world1_def Memory_isValid_def demo_flags owned_fds_def)
  from release_closes_once[OF this] show ?thesis
    by (auto simp: owned_fds_def demo_flags)
qed

text \<open>A buffer of the GPU allocator: plain RGBA, no usage bits.\<close>

definition mem_rgba :: memory where
  "mem_rgba = mem_1080p\<lparr>h_fslFormat := FORMAT_RGBA8888, h_flags := 0\<rparr>"

theorem drm_release_stale_metadata_witness:
  "\<exists>w1 w2 r. getMetaData env_demo (Some 8) (store 8 mem_rgba world0) = Some (Some 4096, w1) \<and>
     releaseMemory env_demo (Some 8) w1 = Some (r, w2) \<and>
     getMetaData env_demo (Some 8) (store 8 mem_1080p w2) = Some (Some 4096, store 8 mem_1080p w2)"
proof -
  let ?w = "store 8 mem_rgba world0"
  let ?w1 = "?w\<lparr>mMetaMap := (mMetaMap ?w)(8 \<mapsto> 4096)\<rparr>"
  have m: "heap ?w 8 = Some mem_rgba" "Memory_isValid mem_rgba" "Memory_isValid mem_1080p" "0 < h_fd_meta mem_1080p"
    by (simp_all add: Memory_isValid_def mem_rgba_def demo_flags)
  have f: "h_flags mem_rgba = 0" "h_fslFormat mem_rgba = 1" "h_usage mem_rgba = 0"
    by (simp_all add: mem_rgba_def demo_flags)
  have drm: "isDrmAlloc env_demo (h_flags mem_rgba) (h_fslFormat mem_rgba) (h_usage mem_rgba)"
    by (simp add: f isDrmAlloc_def cfg_imx8m_def env_demo_def usage_defs)
  have g: "getMetaData env_demo (Some 8) ?w = Some (Some 4096, ?w1)"
    using m by (simp add: getMetaData_def world0_def) (simp add: mem_rgba_def demo_flags)
  have "heap ?w1 8 = Some mem_rgba" by simp
  then obtain r w2 where r: "releaseMemory env_demo (Some 8) ?w1 = Some (r, w2)"
    using m(2) drm by (cases "0 < h_fd_region mem_rgba") (auto simp: releaseMemory_def Let_def)
  from drm_release_stale_metadata[OF m(1,2) drm g r m(3,4)] g r show ?thesis by blast
qed

theorem ycbcr_planes_fit_witness:
  "\<exists>yc. ycbcr_planes mem_1080p = Some yc \<and> disjoint_ranges (yuv_planes mem_1080p yc)"
proof -
  have d: "dims_ok desc_1080p" "tile_ok None" "mFslFormat desc_1080p \<in> {FORMAT_NV12, FORMAT_NV21, FORMAT_I420, FORMAT_YV12}"
    by (simp_all add: dims_ok_def tile_ok_def desc_1080p_def MemoryDesc_init_def)
  have m: "h_fslFormat mem_1080p = mFslFormat (desc_1080p\<lparr>mSize := 3110400, mBpp := 0, mStride := 1920\<rparr>)"
     "h_stride mem_1080p = mStride (desc_1080p\<lparr>mSize := 3110400, mBpp := 0, mStride := 1920\<rparr>)"
     "h_height mem_1080p = mHeight (desc_1080p\<lparr>mSize := 3110400, mBpp := 0, mStride := 1920\<rparr>)"
     "h_size mem_1080p = mSize (desc_1080p\<lparr>mSize := 3110400, mBpp := 0, mStride := 1920\<rparr>)"
     "unat (h_base mem_1080p) + unat (h_size mem_1080p) < 2^64"
    by (simp_all add: mem_1080p_def desc_checked_def Memory_new_def desc_1080p_def)
  from ycbcr_planes_fit[OF d(1,2) desc_1080p_checked d(3) m] show ?thesis
    by (auto split: option.splits)
qed

end
