(* ===== verification/Compose2D.thy ===== *)
theory Compose2D
  imports Layers Memory_Manager "HOL-Library.Monad_Syntax"
begin

text \<open>
  \<open>Composer\<close> (\<open>display/display/Composer.cpp\<close>, \<open>Composer.h\<close>): composition of layers with the
  2D engine.  The GPU helper library and the G2D library are loaded at run time; a function
  pointer that \<open>dlsym\<close> did not find is \<open>None\<close> (or \<open>False\<close>) in \<open>g2d_lib\<close>, and the calls to the
  G2D engine are recorded in \<open>gcalls\<close>.  Buffers live in the heap of \<open>Memory_Manager\<close>; an access
  to a released buffer is undefined, the result \<open>None\<close>.
\<close>

section \<open>The G2D interface\<close>

datatype g2d_format =
    G2D_RGB565 | G2D_YUYV | G2D_RGBA8888 | G2D_BGRA8888 | G2D_RGBX8888 | G2D_BGRX8888
  | G2D_NV16 | G2D_NV12 | G2D_NV21 | G2D_I420 | G2D_YV12 | G2D_OTHER nat

datatype g2d_rotation =
    G2D_ROTATION_0 | G2D_ROTATION_90 | G2D_ROTATION_180 | G2D_ROTATION_270 | G2D_FLIP_H | G2D_FLIP_V

datatype g2d_cap = G2D_BLEND | G2D_DITHER | G2D_GLOBAL_ALPHA

datatype g2d_feature = G2D_ROTATION | G2D_FAST_CLEAR

datatype g2d_tiling = G2D_LINEAR | G2D_AMPHION_TILED | G2D_TILING nat

datatype g2d_blend = G2D_ONE | G2D_SRC_ALPHA | G2D_ONE_MINUS_SRC_ALPHA

text \<open>\<open>g2d_surfaceEx\<close>; an enumeration field that is still zero from \<open>memset\<close> is \<open>None\<close>.\<close>

record g2d_surface =
  s_format :: "g2d_format option"
  s_planes :: "i32 list"
  s_rect :: rect
  s_stride :: i32
  s_width :: i32
  s_height :: i32
  s_blendfunc :: "g2d_blend option"
  s_global_alpha :: int
  s_clrcolor :: u32
  s_rot :: "g2d_rotation option"
  s_tiling :: "g2d_tiling option"

definition surface0 :: g2d_surface where
  "surface0 = \<lparr>s_format = None, s_planes = [0, 0, 0], s_rect = rect0, s_stride = 0, s_width = 0,
     s_height = 0, s_blendfunc = None, s_global_alpha = 0, s_clrcolor = 0, s_rot = None,
     s_tiling = None\<rparr>"

datatype g2d_call =
    SetClipping rect
  | Blit g2d_surface g2d_surface
  | ClearSurface g2d_surface
  | EnableCap g2d_cap
  | DisableCap g2d_cap
  | FinishEngine
  | LockSurface nat
  | UnlockSurface nat
  | ResolveTileStatus memory

record g2d_lib =
  l_env :: mem_env
  l_ui :: ui_ops
  l_getAlignedSize :: "(memory \<Rightarrow> int \<times> i32) option"
  l_getFlipOffset :: "(memory \<Rightarrow> i32) option"
  l_getTiling :: "(memory \<Rightarrow> g2d_tiling) option"
  l_alterFormat :: "(memory \<Rightarrow> g2d_format \<Rightarrow> g2d_format) option"
  l_lockSurface :: "(memory \<Rightarrow> int \<times> memory) option"
  l_unlockSurface :: "(memory \<Rightarrow> int \<times> memory) option"
  l_getTileStatus :: "(memory \<Rightarrow> g2d_surface \<Rightarrow> g2d_surface) option"
  l_resolveTileStatus :: bool
  l_open :: "nat option option"
  l_setClipping :: bool
  l_blit :: bool
  l_clear :: bool
  l_enable :: bool
  l_disable :: bool
  l_finish :: bool
  l_query :: "(g2d_feature \<Rightarrow> bool) option"
  l_ret :: "g2d_call \<Rightarrow> int"

record composer =
  mTarget :: "nat option"
  mDimBuffer :: "nat option"
  sHandle :: "nat option"
  mDisableHWC :: int
  m2DComposition :: int
  mSecureMode :: bool
  mPreSecMode :: bool
  cw :: mem_world
  gcalls :: "g2d_call list"

definition gcall :: "g2d_call \<Rightarrow> composer \<Rightarrow> composer" where
  "gcall k c = c\<lparr>gcalls := gcalls c @ [k]\<rparr>"

text \<open>
  The constructor.  \<open>prefer2d\<close> is \<open>atoi\<close> of the property \<open>vendor.hwc.prefer.2d-composition\<close>; the
  libraries it loads are the \<open>g2d_lib\<close> argument of the other operations.
\<close>

definition Composer_init :: "int \<Rightarrow> mem_world \<Rightarrow> composer" where
  "Composer_init prefer2d w =
     \<lparr>mTarget = None, mDimBuffer = None, sHandle = None, mDisableHWC = 0,
      m2DComposition = prefer2d, mSecureMode = False, mPreSecMode = False, cw = w, gcalls = []\<rparr>"

section \<open>Calls into the libraries\<close>

definition getHandle :: "g2d_lib \<Rightarrow> composer \<Rightarrow> nat option \<times> composer" where
  "getHandle lib c =
     (case sHandle c of
        Some h \<Rightarrow> (Some h, c)
      | None \<Rightarrow> (case l_open lib of
                  None \<Rightarrow> (None, c)
                | Some h \<Rightarrow> (h, c\<lparr>sHandle := h\<rparr>)))"

definition open_handle :: "g2d_lib \<Rightarrow> composer \<Rightarrow> composer" where
  "open_handle lib c = snd (getHandle lib c)"

definition isValid :: "g2d_lib \<Rightarrow> composer \<Rightarrow> bool \<times> composer" where
  "isValid lib c = (case getHandle lib c of (h, c') \<Rightarrow> (h \<noteq> None \<and> l_blit lib, c'))"

definition isDisabled :: "composer \<Rightarrow> bool" where
  "isDisabled c \<longleftrightarrow> mDisableHWC c \<noteq> 0"

definition is2DComposition :: "composer \<Rightarrow> bool" where
  "is2DComposition c \<longleftrightarrow> m2DComposition c \<noteq> 0"

definition setSecureMode :: "bool \<Rightarrow> composer \<Rightarrow> composer" where
  "setSecureMode secure c = c\<lparr>mSecureMode := secure\<rparr>"

definition isFeatureSupported :: "g2d_lib \<Rightarrow> g2d_feature \<Rightarrow> composer \<Rightarrow> bool \<times> composer" where
  "isFeatureSupported lib feature c =
     (case l_query lib of
        None \<Rightarrow> (False, c)
      | Some q \<Rightarrow>
          (case getHandle lib c of
             (None, c') \<Rightarrow> (False, c')
           | (Some _, c') \<Rightarrow> (q feature, c')))"

text \<open>
  The wrappers: \<open>-EINVAL\<close> when the library does not have the function.  The engine handle is
  an argument of the call, so it is opened only when the function is there.
\<close>

definition engine_call :: "bool \<Rightarrow> g2d_lib \<Rightarrow> g2d_call \<Rightarrow> composer \<Rightarrow> int \<times> composer" where
  "engine_call present lib k c =
     (if \<not> present then (- EINVAL, c) else (l_ret lib k, gcall k (open_handle lib c)))"

definition setClipping :: "g2d_lib \<Rightarrow> rect \<Rightarrow> composer \<Rightarrow> int \<times> composer" where
  "setClipping lib clip = engine_call (l_setClipping lib) lib (SetClipping clip)"

definition blitSurface :: "g2d_lib \<Rightarrow> g2d_surface \<Rightarrow> g2d_surface \<Rightarrow> composer \<Rightarrow> int \<times> composer" where
  "blitSurface lib src dst = engine_call (l_blit lib) lib (Blit src dst)"

text \<open>
  \<open>clearFunction\<close>, \<open>enableFunction\<close> and \<open>finishEngine\<close> receive the handle as an argument that
  the caller evaluates first, so the engine is opened in any case.
\<close>

definition clearFunction :: "g2d_lib \<Rightarrow> g2d_surface \<Rightarrow> composer \<Rightarrow> int \<times> composer" where
  "clearFunction lib area c = engine_call (l_clear lib) lib (ClearSurface area) (open_handle lib c)"

definition enableFunction :: "g2d_lib \<Rightarrow> g2d_cap \<Rightarrow> bool \<Rightarrow> composer \<Rightarrow> int \<times> composer" where
  "enableFunction lib cap enable c =
     (if \<not> l_enable lib \<or> \<not> l_disable lib then (- EINVAL, open_handle lib c)
      else engine_call True lib (if enable then EnableCap cap else DisableCap cap) (open_handle lib c))"

definition finishEngine :: "g2d_lib \<Rightarrow> composer \<Rightarrow> int \<times> composer" where
  "finishEngine lib c = engine_call (l_finish lib) lib FinishEngine (open_handle lib c)"

definition finishComposite :: "g2d_lib \<Rightarrow> composer \<Rightarrow> int \<times> composer" where
  "finishComposite lib c = (0, snd (finishEngine lib c))"

definition setRenderTarget_c :: "nat option \<Rightarrow> composer \<Rightarrow> int \<times> composer" where
  "setRenderTarget_c m c = (0, c\<lparr>mTarget := m\<rparr>)"

definition getAlignedSize :: "g2d_lib \<Rightarrow> memory \<Rightarrow> int \<times> i32" where
  "getAlignedSize lib m = (case l_getAlignedSize lib of None \<Rightarrow> (- EINVAL, 0) | Some f \<Rightarrow> f m)"

definition getFlipOffset :: "g2d_lib \<Rightarrow> memory \<Rightarrow> i32 \<Rightarrow> i32" where
  "getFlipOffset lib m offset = (case l_getFlipOffset lib of None \<Rightarrow> offset | Some f \<Rightarrow> f m)"

definition getTiling :: "g2d_lib \<Rightarrow> memory \<Rightarrow> g2d_tiling \<Rightarrow> g2d_tiling" where
  "getTiling lib m tile = (case l_getTiling lib of None \<Rightarrow> tile | Some f \<Rightarrow> f m)"

definition alterFormat :: "g2d_lib \<Rightarrow> memory \<Rightarrow> g2d_format \<Rightarrow> g2d_format" where
  "alterFormat lib m format = (case l_alterFormat lib of None \<Rightarrow> format | Some f \<Rightarrow> f m format)"

definition getTileStatus :: "g2d_lib \<Rightarrow> memory \<Rightarrow> g2d_surface \<Rightarrow> g2d_surface" where
  "getTileStatus lib m s = (case l_getTileStatus lib of None \<Rightarrow> s | Some f \<Rightarrow> f m s)"

definition resolveTileStatus :: "g2d_lib \<Rightarrow> memory \<Rightarrow> composer \<Rightarrow> composer" where
  "resolveTileStatus lib m c = (if l_resolveTileStatus lib then gcall (ResolveTileStatus m) c else c)"

text \<open>Dereferencing a buffer; \<open>None\<close> when it is not (or no longer) allocated.\<close>

definition deref :: "composer \<Rightarrow> nat option \<Rightarrow> memory option" where
  "deref c p = (case p of None \<Rightarrow> None | Some a \<Rightarrow> heap (cw c) a)"

text \<open>
  \<open>lockSurface\<close> and \<open>unlockSurface\<close>: the helper library may change the handle, and the DPU
  build restores the physical address.
\<close>

definition lockSurface :: "g2d_lib \<Rightarrow> nat option \<Rightarrow> composer \<Rightarrow> (int \<times> composer) option" where
  "lockSurface lib p c =
     (case l_lockSurface lib of
        None \<Rightarrow> Some (- EINVAL, c)
      | Some f \<Rightarrow>
          do { m \<leftarrow> deref c p;
               let (ret, m1) = f m;
                   m2 = (if USE_DPU_HWC (e_cfg (l_env lib)) then m1\<lparr>h_phys := h_phys m\<rparr> else m1)
               in Some (ret, gcall (LockSurface (the p)) (c\<lparr>cw := store (the p) m2 (cw c)\<rparr>)) })"

definition unlockSurface :: "g2d_lib \<Rightarrow> nat option \<Rightarrow> composer \<Rightarrow> (int \<times> composer) option" where
  "unlockSurface lib p c =
     (case l_unlockSurface lib of
        None \<Rightarrow> Some (- EINVAL, c)
      | Some f \<Rightarrow>
          do { m \<leftarrow> deref c p;
               let (ret, m1) = f m
               in Some (ret, gcall (UnlockSurface (the p)) (c\<lparr>cw := store (the p) m1 (cw c)\<rparr>)) })"

section \<open>Surfaces\<close>

definition convertFormat :: "g2d_lib \<Rightarrow> int \<Rightarrow> memory \<Rightarrow> g2d_format" where
  "convertFormat lib format m =
     (let halFormat =
        (if format = FORMAT_RGBA8888 then G2D_RGBA8888
         else if format = FORMAT_RGBX8888 then G2D_RGBX8888
         else if format = FORMAT_RGB565 then G2D_RGB565
         else if format = FORMAT_BGRA8888 then G2D_BGRA8888
         else if format = FORMAT_NV21 then G2D_NV21
         else if format \<in> {FORMAT_NV12, FORMAT_NV12_TILED} then G2D_NV12
         else if format = FORMAT_I420 then G2D_I420
         else if format = FORMAT_YV12 then G2D_YV12
         else if format = FORMAT_NV16 then G2D_NV16
         else if format = FORMAT_YUYV then G2D_YUYV
         else G2D_RGBA8888)
      in alterFormat lib m halFormat)"

text \<open>The rotation of the destination, and that of the source when it is set.\<close>

definition convertRotation :: "int \<Rightarrow> g2d_surface \<Rightarrow> g2d_surface \<Rightarrow> g2d_surface \<times> g2d_surface" where
  "convertRotation tr src dst =
     (if tr = 0 then (src, dst\<lparr>s_rot := Some G2D_ROTATION_0\<rparr>)
      else if tr = TRANSFORM_ROT90 then (src, dst\<lparr>s_rot := Some G2D_ROTATION_90\<rparr>)
      else if tr = 3 then (src, dst\<lparr>s_rot := Some G2D_ROTATION_180\<rparr>)
      else if tr = 7 then (src, dst\<lparr>s_rot := Some G2D_ROTATION_270\<rparr>)
      else if tr = TRANSFORM_FLIPH then (src, dst\<lparr>s_rot := Some G2D_FLIP_H\<rparr>)
      else if tr = TRANSFORM_FLIPV then (src, dst\<lparr>s_rot := Some G2D_FLIP_V\<rparr>)
      else if tr = 5 then (src\<lparr>s_rot := Some G2D_FLIP_H\<rparr>, dst\<lparr>s_rot := Some G2D_ROTATION_90\<rparr>)
      else if tr = 6 then (src\<lparr>s_rot := Some G2D_FLIP_V\<rparr>, dst\<lparr>s_rot := Some G2D_ROTATION_90\<rparr>)
      else (src, dst\<lparr>s_rot := Some G2D_ROTATION_0\<rparr>))"

definition convertBlending :: "int \<Rightarrow> g2d_surface \<Rightarrow> g2d_surface \<Rightarrow> g2d_surface \<times> g2d_surface" where
  "convertBlending blending src dst =
     (if blending = BLENDING_COVERAGE
      then (src\<lparr>s_blendfunc := Some G2D_SRC_ALPHA\<rparr>, dst\<lparr>s_blendfunc := Some G2D_ONE_MINUS_SRC_ALPHA\<rparr>)
      else (src\<lparr>s_blendfunc := Some G2D_ONE\<rparr>, dst\<lparr>s_blendfunc := Some G2D_ONE_MINUS_SRC_ALPHA\<rparr>))"

text \<open>C++ division of an \<open>int\<close>, which rounds towards zero.\<close>

definition idiv :: "i32 \<Rightarrow> int \<Rightarrow> i32" where
  "idiv x n = word_of_int (sint x sdiv n)"

text \<open>The addresses of the planes, from \<open>planes[0]\<close>, the stride and the aligned height.\<close>

definition g2d_planes :: "g2d_format \<Rightarrow> i32 \<Rightarrow> i32 \<Rightarrow> i32 list \<Rightarrow> i32 list" where
  "g2d_planes format stride alignHeight planes =
     (if format \<in> {G2D_NV16, G2D_NV12, G2D_NV21} then
        planes[1 := planes ! 0 + stride * alignHeight]
      else if format \<in> {G2D_I420, G2D_YV12} then
        (let c_stride = idiv (idiv stride 2 + 15) 16 * 16;
             p1 = planes ! 0 + stride * alignHeight
         in planes[1 := p1, 2 := p1 + idiv (c_stride * alignHeight) 2])
      else planes)"

definition setG2dSurface ::
    "g2d_lib \<Rightarrow> g2d_surface \<Rightarrow> memory \<Rightarrow> rect \<Rightarrow> composer \<Rightarrow> g2d_surface \<times> composer" where
  "setG2dSurface lib s m rc c =
     (let (ret, h) = getAlignedSize lib m;
          alignHeight = (if ret \<noteq> 0 then h_height m else h);
          alignWidth = h_stride m;
          format = convertFormat lib (h_fslFormat m) m;
          s1 = s\<lparr>s_format := Some format, s_stride := alignWidth\<rparr>;
          tile = getTiling lib m G2D_LINEAR;
          s2 = s1\<lparr>s_tiling := Some (if h_fslFormat m = FORMAT_NV12_TILED then G2D_AMPHION_TILED else tile)\<rparr>;
          (fast, c1) = isFeatureSupported lib G2D_FAST_CLEAR c;
          s3 = (if fast then getTileStatus lib m s2 else s2);
          c2 = (if fast then c1 else resolveTileStatus lib m c1);
          offset = getFlipOffset lib m 0;
          planes = g2d_planes format alignWidth alignHeight ((s_planes s3)[0 := ucast (h_phys m) + offset])
      in (s3\<lparr>s_planes := planes, s_rect := rc, s_width := h_width m, s_height := h_height m\<rparr>, c2))"

definition OPAQUE_BLACK :: u32 where "OPAQUE_BLACK = 0xFF000000"

definition clearRect :: "g2d_lib \<Rightarrow> nat option \<Rightarrow> rect \<Rightarrow> composer \<Rightarrow> (int \<times> composer) option" where
  "clearRect lib target rc c =
     (if target = None \<or> ui_isEmpty (l_ui lib) rc then Some (0, c)
      else do { m \<leftarrow> deref c target;
                let (s, c1) = setG2dSurface lib surface0 m rc c
                in Some (0, snd (clearFunction lib (s\<lparr>s_clrcolor := OPAQUE_BLACK\<rparr>) c1)) })"

section \<open>The dim buffer\<close>

definition dim_desc :: "g2d_lib \<Rightarrow> composer \<Rightarrow> memory \<Rightarrow> mem_desc" where
  "dim_desc lib c t =
     (let usage = USAGE_HW_COMPOSER OR USAGE_HW_2D OR USAGE_HW_RENDER OR USAGE_SW_WRITE_OFTEN OR
                  USAGE_SW_READ_OFTEN;
          usage = (if HAVE_UNMAPPED_HEAP (e_cfg (l_env lib)) \<and> mSecureMode c
                   then usage OR USAGE_PROTECTED else usage);
          desc = MemoryDesc_init\<lparr>mWidth := h_width t, mHeight := h_height t, mFormat := h_format t,
                   mFslFormat := h_fslFormat t, mProduceUsage := usage, mFlag := FLAGS_DIMBUFFER\<rparr>
      in snd (checkFormat (e_cfg (l_env lib)) (e_tile (l_env lib)) desc))"

definition dim_matches :: "composer \<Rightarrow> memory \<Rightarrow> memory \<Rightarrow> bool" where
  "dim_matches c t d \<longleftrightarrow>
     h_width t = h_width d \<and> h_height t = h_height d \<and> h_fslFormat t = h_fslFormat d \<and>
     mSecureMode c = mPreSecMode c"

definition release_dim :: "g2d_lib \<Rightarrow> composer \<Rightarrow> composer option" where
  "release_dim lib c =
     (if mDimBuffer c = None then Some c
      else do { (r, c1) \<leftarrow> unlockSurface lib (mDimBuffer c) c;
                (r, w1) \<leftarrow> releaseMemory (l_env lib) (mDimBuffer c) (cw c1);
                Some (c1\<lparr>cw := w1\<rparr>) })"

definition alloc_dim :: "g2d_lib \<Rightarrow> memory \<Rightarrow> composer \<Rightarrow> (int \<times> composer) option" where
  "alloc_dim lib t c =
     do { (ret, desc, out, w) \<leftarrow> allocMemory (l_env lib) (dim_desc lib c t) (cw c);
          let c1 = c\<lparr>cw := w, mDimBuffer := (case out of None \<Rightarrow> mDimBuffer c | Some p \<Rightarrow> p)\<rparr>
          in if ret = 0 then
               do { (r, c2) \<leftarrow> lockSurface lib (mDimBuffer c1) c1;
                    (r, c3) \<leftarrow> clearRect lib (mDimBuffer c2)
                        \<lparr>r_left = 0, r_top = 0, r_right = sint (h_width t), r_bottom = sint (h_height t)\<rparr> c2;
                    Some (ret, c3) }
             else Some (ret, c1) }"

definition checkDimBuffer :: "g2d_lib \<Rightarrow> composer \<Rightarrow> (int \<times> composer) option" where
  "checkDimBuffer lib c =
     (if mTarget c = None then Some (0, c)
      else do { t \<leftarrow> deref c (mTarget c);
                keep \<leftarrow> (if mDimBuffer c = None then Some False
                        else map_option (dim_matches c t) (deref c (mDimBuffer c)));
                if keep then Some (0, c)
                else do { c1 \<leftarrow> release_dim lib (c\<lparr>mPreSecMode := mSecureMode c\<rparr>);
                          alloc_dim lib t c1 } })"

section \<open>Composition\<close>

text \<open>\<open>clearWormHole\<close>; the argument is the contents of the layer vector, in order.\<close>

definition opaque_layer :: "nat \<Rightarrow> layer \<Rightarrow> bool" where
  "opaque_layer i l \<longleftrightarrow>
     blendMode l = BLENDING_NONE \<or> (i = 0 \<and> blendMode l = BLENDING_PREMULT) \<or>
     (i \<noteq> 0 \<and> blendMode l = BLENDING_DIM \<and> drop_bit 24 (color l) AND 0xff = 0xff)"

definition opaque_region :: "ui_ops \<Rightarrow> layer list \<Rightarrow> region" where
  "opaque_region ui ls =
     fold (\<lambda>(i, l) r. if busy l \<and> opaque_layer i l then ui_or ui r (visibleRegion l) else r)
       (enumerate 0 ls) []"

fun clear_holes ::
    "g2d_lib \<Rightarrow> memory \<Rightarrow> rect list \<Rightarrow> g2d_surface \<Rightarrow> composer \<Rightarrow> composer" where
  "clear_holes lib t [] s c = c"
| "clear_holes lib t (rc # rcs) s c =
     (if ui_isEmpty (l_ui lib) rc then clear_holes lib t rcs s c
      else (let (s1, c1) = setG2dSurface lib s t rc c;
                s2 = s1\<lparr>s_clrcolor := OPAQUE_BLACK\<rparr>
            in clear_holes lib t rcs s2 (snd (clearFunction lib s2 c1))))"

definition clearWormHole :: "g2d_lib \<Rightarrow> layer list \<Rightarrow> composer \<Rightarrow> (int \<times> composer) option" where
  "clearWormHole lib ls c =
     (if mTarget c = None then Some (- EINVAL, c)
      else do { t \<leftarrow> deref c (mTarget c);
                let ui = l_ui lib;
                    holes = ui_subtract ui (ui_screen ui (sint (h_width t)) (sint (h_height t)))
                              (opaque_region ui ls)
                in Some (0, clear_holes lib t holes surface0 c) })"

text \<open>
  One blit of \<open>composeLayer\<close>: blending and dithering are enabled around it.
\<close>

definition do_blit ::
    "g2d_lib \<Rightarrow> layer \<Rightarrow> bool \<Rightarrow> bool \<Rightarrow> g2d_surface \<Rightarrow> g2d_surface \<Rightarrow> composer \<Rightarrow> composer" where
  "do_blit lib l bypass dither src dst c =
     (let blend = (blendMode l \<noteq> BLENDING_NONE \<and> \<not> bypass);
          cap = (\<lambda>k on c. snd (enableFunction lib k on c));
          c1 = (if blend then cap G2D_BLEND True (cap G2D_GLOBAL_ALPHA True c) else c);
          c2 = (if dither then cap G2D_DITHER True c1 else c1);
          c3 = snd (blitSurface lib src dst c2);
          c4 = (if dither then cap G2D_DITHER False c3 else c3)
      in if blend then cap G2D_GLOBAL_ALPHA False (cap G2D_BLEND False c4) else c4)"

text \<open>
  The source of a blit: the buffer of the layer, or the dim buffer for a solid color; \<open>Inl\<close> is
  the early return when there is neither.  The flag tells whether dithering is needed.
\<close>

definition blit_source ::
    "g2d_lib \<Rightarrow> layer \<Rightarrow> memory \<Rightarrow> composer \<Rightarrow> (int + g2d_surface \<times> bool \<times> composer) option" where
  "blit_source lib l t c =
     (if \<not> isSolidColor l \<and> handle l \<noteq> None then
        do { m \<leftarrow> deref c (handle l);
             let (s, c1) = setG2dSurface lib surface0 m (sourceCrop l) c
             in Some (Inr (s, h_fslFormat t = FORMAT_RGB565 \<and>
                    h_fslFormat m \<in> {FORMAT_RGBA8888, FORMAT_RGBX8888, FORMAT_BGRA8888}, c1)) }
      else if mDimBuffer c \<noteq> None then
        do { m \<leftarrow> deref c (mDimBuffer c);
             let (s, c1) = setG2dSurface lib surface0 m (displayFrame l) c
             in Some (Inr (s, False, c1)) }
      else Some (Inl (- EINVAL)))"

definition clip_of :: "ui_ops \<Rightarrow> rect \<Rightarrow> rect \<Rightarrow> rect option" where
  "clip_of ui drect v =
     (if ui_isEmpty ui v then None
      else (let clip = ui_intersect ui v drect in if ui_isEmpty ui clip then None else Some clip))"

fun compose_rects ::
    "g2d_lib \<Rightarrow> layer \<Rightarrow> bool \<Rightarrow> rect list \<Rightarrow> g2d_surface \<Rightarrow> bool \<Rightarrow> composer \<Rightarrow> (int \<times> composer) option" where
  "compose_rects lib l bypass [] dst dither c = Some (0, c)"
| "compose_rects lib l bypass (v # vs) dst dither c =
     (case clip_of (l_ui lib) (displayFrame l) v of
        None \<Rightarrow> compose_rects lib l bypass vs dst dither c
      | Some clip \<Rightarrow>
          (let c1 = snd (setClipping lib clip c)
           in case deref c1 (mTarget c1) of
                None \<Rightarrow> None
              | Some t \<Rightarrow>
                  (let (dst1, c2) = setG2dSurface lib dst t (displayFrame l) c1
                   in case blit_source lib l t c2 of
                        None \<Rightarrow> None
                      | Some (Inl err) \<Rightarrow> Some (err, c2)
                      | Some (Inr (src, d, c3)) \<Rightarrow>
                          (let dither' = (dither \<or> d);
                               (src1, dst2) = convertRotation (transform l) src dst1;
                               (src2, dst3) = (if bypass then (src1, dst2)
                                               else convertBlending (blendMode l) src1 dst2);
                               src3 = src2\<lparr>s_global_alpha := planeAlpha l\<rparr>
                           in compose_rects lib l bypass vs dst3 dither'
                                (do_blit lib l bypass dither' src3 dst3 c3)))))"

definition composeLayer ::
    "g2d_lib \<Rightarrow> layer option \<Rightarrow> bool \<Rightarrow> composer \<Rightarrow> (int \<times> composer) option" where
  "composeLayer lib p bypass c =
     (case p of
        None \<Rightarrow> Some (- EINVAL, c)
      | Some l \<Rightarrow>
          if mTarget c = None then Some (- EINVAL, c)
          else if bypass \<and> isSolidColor l then Some (0, c)
          else if (ui_isEmpty (l_ui lib) (sourceCrop l) \<and> \<not> isSolidColor l) \<or>
                  ui_isEmpty (l_ui lib) (displayFrame l) then Some (0, c)
          else
            do { c1 \<leftarrow> (if isSolidColor l then map_option snd (checkDimBuffer lib c) else Some c);
                 compose_rects lib l bypass (visibleRegion l) surface0 False c1 })"

section \<open>The calls an operation makes\<close>

text \<open>
  \<open>calls P c c'\<close>: between \<open>c\<close> and \<open>c'\<close> only engine calls that satisfy \<open>P\<close> were made.
\<close>

definition calls :: "(g2d_call \<Rightarrow> bool) \<Rightarrow> composer \<Rightarrow> composer \<Rightarrow> bool" where
  "calls P c c' \<longleftrightarrow> (\<exists>ks. gcalls c' = gcalls c @ ks \<and> list_all P ks)"

lemma calls_refl [simp]: "calls P c c"
  by (auto simp: calls_def)

lemma calls_trans: "calls P a b \<Longrightarrow> calls P b c \<Longrightarrow> calls P a c"
  by (fastforce simp: calls_def)

lemma calls_mono: "calls P a b \<Longrightarrow> (\<And>k. P k \<Longrightarrow> Q k) \<Longrightarrow> calls Q a b"
  by (fastforce simp: calls_def list_all_iff)

lemma calls_same: "gcalls c' = gcalls c \<Longrightarrow> calls P c c'"
  by (auto simp: calls_def)

lemma calls_gcall: "P k \<Longrightarrow> gcalls c' = gcalls c \<Longrightarrow> calls P c (gcall k c')"
  by (auto simp: calls_def gcall_def)

lemma gcalls_open_handle [simp]: "gcalls (open_handle lib c) = gcalls c"
  by (auto simp: open_handle_def getHandle_def split: option.splits)

lemma mTarget_open_handle [simp]: "mTarget (open_handle lib c) = mTarget c"
    "mDimBuffer (open_handle lib c) = mDimBuffer c" "cw (open_handle lib c) = cw c"
  by (auto simp: open_handle_def getHandle_def split: option.splits)

lemma engine_call_gcalls:
  "gcalls (snd (engine_call b lib k c)) = gcalls c @ (if b then [k] else [])"
  by (simp add: engine_call_def gcall_def)

lemma engine_call_state [simp]:
  "mTarget (snd (engine_call b lib k c)) = mTarget c"
  "mDimBuffer (snd (engine_call b lib k c)) = mDimBuffer c"
  "cw (snd (engine_call b lib k c)) = cw c"
  by (simp_all add: engine_call_def gcall_def)

lemma isFeatureSupported_state [simp]:
  "gcalls (snd (isFeatureSupported lib f c)) = gcalls c"
  "mTarget (snd (isFeatureSupported lib f c)) = mTarget c"
  "mDimBuffer (snd (isFeatureSupported lib f c)) = mDimBuffer c"
  "cw (snd (isFeatureSupported lib f c)) = cw c"
  by (auto simp: isFeatureSupported_def getHandle_def split: option.splits)

lemma resolveTileStatus_state [simp]:
  "mTarget (resolveTileStatus lib m c) = mTarget c" "mDimBuffer (resolveTileStatus lib m c) = mDimBuffer c"
  "cw (resolveTileStatus lib m c) = cw c"
  by (simp_all add: resolveTileStatus_def gcall_def)

lemma setG2dSurface_state [simp]:
  "mTarget (snd (setG2dSurface lib s m rc c)) = mTarget c"
  "mDimBuffer (snd (setG2dSurface lib s m rc c)) = mDimBuffer c"
  "cw (snd (setG2dSurface lib s m rc c)) = cw c"
  "s_rect (fst (setG2dSurface lib s m rc c)) = rc"
  by (auto simp: setG2dSurface_def Let_def split: prod.splits)
     (metis isFeatureSupported_state snd_conv)+

lemma setG2dSurface_gcalls:
  "\<exists>ks. gcalls (snd (setG2dSurface lib s m rc c)) = gcalls c @ ks \<and> set ks \<subseteq> {ResolveTileStatus m}"
proof -
  obtain b c1 where f: "isFeatureSupported lib G2D_FAST_CLEAR c = (b, c1)" by fastforce
  have "gcalls c1 = gcalls c" using isFeatureSupported_state(1)[of lib G2D_FAST_CLEAR c] f by simp
  then show ?thesis
    by (cases "getAlignedSize lib m") (auto simp: setG2dSurface_def Let_def f resolveTileStatus_def gcall_def)
qed

text \<open>The capabilities of the engine that are enabled after a sequence of calls.\<close>

fun caps :: "g2d_call list \<Rightarrow> g2d_cap set \<Rightarrow> g2d_cap set" where
  "caps [] S = S"
| "caps (EnableCap k # ks) S = caps ks (insert k S)"
| "caps (DisableCap k # ks) S = caps ks (S - {k})"
| "caps (_ # ks) S = caps ks S"

definition cap_call :: "g2d_call \<Rightarrow> bool" where
  "cap_call k \<longleftrightarrow> (\<exists>x. k = EnableCap x \<or> k = DisableCap x)"

text \<open>The calls that draw nothing and touch no capability.\<close>

fun quiet :: "g2d_call \<Rightarrow> bool" where
  "quiet (ClearSurface s) = True"
| "quiet (LockSurface a) = True"
| "quiet (UnlockSurface a) = True"
| "quiet (ResolveTileStatus m) = True"
| "quiet k = False"

lemma quiet_cap: "quiet k \<Longrightarrow> \<not> cap_call k"
  by (auto simp: cap_call_def)

lemma caps_append [simp]: "caps (ks @ ks') S = caps ks' (caps ks S)"
  by (induction ks S rule: caps.induct) simp_all

lemma caps_none: "list_all (\<lambda>k. \<not> cap_call k) ks \<Longrightarrow> caps ks S = S"
  by (induction ks S rule: caps.induct) (auto simp: cap_call_def)

lemma calls_caps: "calls quiet c c' \<Longrightarrow> caps (gcalls c') S = caps (gcalls c) S"
  unfolding calls_def by (metis caps_append caps_none list.pred_mono_strong quiet_cap)

lemma calls_setG2dSurface: "calls quiet c (snd (setG2dSurface lib s m rc c))"
  using setG2dSurface_gcalls[of lib s m rc c]
  by (fastforce simp: calls_def list_all_iff)

lemma calls_engine: "quiet k \<Longrightarrow> calls quiet c (snd (engine_call b lib k c))"
  by (auto simp: calls_def engine_call_gcalls)

lemma calls_clearFunction: "calls quiet c (snd (clearFunction lib s c))"
  unfolding clearFunction_def
  by (rule calls_trans[OF calls_same calls_engine]) simp_all

lemma clear_holes_calls: "calls quiet c (clear_holes lib t rcs s c)"
proof (induction lib t rcs s c rule: clear_holes.induct)
  case (2 lib t rc rcs s c)
  obtain s1 c1 where s: "setG2dSurface lib s t rc c = (s1, c1)" by fastforce
  let ?s2 = "s1\<lparr>s_clrcolor := OPAQUE_BLACK\<rparr>"
  have "calls quiet c (snd (clearFunction lib ?s2 c1))"
    using calls_trans[OF calls_setG2dSurface[of c lib s t rc] calls_clearFunction] s by simp
  then show ?case using 2 s by (auto simp: Let_def intro: calls_trans)
qed simp

lemma clearRect_cases:
  assumes "clearRect lib tgt rc c = Some (r, c')"
  obtains "c' = c"
  | m where "c' = snd (clearFunction lib ((fst (setG2dSurface lib surface0 m rc c))\<lparr>s_clrcolor := OPAQUE_BLACK\<rparr>)
              (snd (setG2dSurface lib surface0 m rc c)))"
  using assms by (auto simp: clearRect_def bind_eq_Some_conv split: if_split_asm prod.split_asm) force

lemma clearRect_calls:
  assumes "clearRect lib tgt rc c = Some (r, c')"
  shows "calls quiet c c' \<and> mTarget c' = mTarget c \<and> mDimBuffer c' = mDimBuffer c"
  using assms
proof (cases rule: clearRect_cases)
  case (2 m)
  have "calls quiet c c'"
    unfolding 2 by (rule calls_trans[OF calls_setG2dSurface calls_clearFunction])
  then show ?thesis by (simp add: 2 clearFunction_def)
qed simp

lemma lockSurface_calls:
  assumes "lockSurface lib p c = Some (r, c')"
  shows "calls quiet c c' \<and> mTarget c' = mTarget c \<and> mDimBuffer c' = mDimBuffer c"
  using assms by (auto simp: lockSurface_def case_prod_beta Let_def bind_eq_Some_conv gcall_def calls_def
      split: option.split_asm)

lemma unlockSurface_calls:
  assumes "unlockSurface lib p c = Some (r, c')"
  shows "calls quiet c c' \<and> mTarget c' = mTarget c \<and> mDimBuffer c' = mDimBuffer c"
  using assms by (auto simp: unlockSurface_def case_prod_beta Let_def bind_eq_Some_conv gcall_def calls_def
      split: option.split_asm)

lemma release_dim_calls:
  assumes "release_dim lib c = Some c'"
  shows "calls quiet c c' \<and> mTarget c' = mTarget c \<and> mDimBuffer c' = mDimBuffer c"
proof (cases "mDimBuffer c")
    case None
    then show ?thesis using assms by (simp add: release_dim_def)
  next
    case (Some d)
    then obtain r c1 r' w where "unlockSurface lib (mDimBuffer c) c = Some (r, c1)" "c' = c1\<lparr>cw := w\<rparr>"
      using assms by (auto simp: release_dim_def bind_eq_Some_conv)
    then show ?thesis using unlockSurface_calls[of lib "mDimBuffer c" c r c1] by (auto simp: calls_def)
qed

lemma alloc_dim_calls:
  assumes "alloc_dim lib t c = Some (r, c')"
  shows "calls quiet c c' \<and> mTarget c' = mTarget c"
proof -
  obtain ret desc out w where a: "allocMemory (l_env lib) (dim_desc lib c t) (cw c) = Some (ret, desc, out, w)"
    using assms by (auto simp: alloc_dim_def bind_eq_Some_conv)
  let ?c1 = "c\<lparr>cw := w, mDimBuffer := (case out of None \<Rightarrow> mDimBuffer c | Some p \<Rightarrow> p)\<rparr>"
  show ?thesis
  proof (cases "ret = 0")
    case False
    then have "c' = ?c1" using assms a by (simp add: alloc_dim_def)
    then show ?thesis by (simp add: calls_def)
  next
    case True
    then obtain r2 c2 r3 where l: "lockSurface lib (mDimBuffer ?c1) ?c1 = Some (r2, c2)"
      "clearRect lib (mDimBuffer c2)
         \<lparr>r_left = 0, r_top = 0, r_right = sint (h_width t), r_bottom = sint (h_height t)\<rparr> c2 = Some (r3, c')"
      using assms a by (auto simp: alloc_dim_def bind_eq_Some_conv)
    have "calls quiet c ?c1" by (simp add: calls_def)
    then show ?thesis
      using lockSurface_calls[OF l(1)] clearRect_calls[OF l(2)] by (auto intro: calls_trans)
  qed
qed

lemma checkDimBuffer_calls:
  assumes "checkDimBuffer lib c = Some (r, c')"
  shows "calls quiet c c' \<and> mTarget c' = mTarget c"
proof -
  from assms consider "c' = c"
    | t c1 where "release_dim lib (c\<lparr>mPreSecMode := mSecureMode c\<rparr>) = Some c1" "alloc_dim lib t c1 = Some (r, c')"
    by (auto simp: checkDimBuffer_def bind_eq_Some_conv split: if_split_asm)
  then show ?thesis
  proof cases
    case 2
    have "calls quiet c (c\<lparr>mPreSecMode := mSecureMode c\<rparr>)" by (simp add: calls_def)
    then show ?thesis
      using release_dim_calls[OF 2(1)] alloc_dim_calls[OF 2(2)] by (auto intro: calls_trans)
  qed simp
qed

section \<open>The calls of one blit\<close>

definition blit_calls :: "g2d_lib \<Rightarrow> bool \<Rightarrow> bool \<Rightarrow> g2d_surface \<Rightarrow> g2d_surface \<Rightarrow> g2d_call list" where
  "blit_calls lib blend dither src dst =
     (let en = (l_enable lib \<and> l_disable lib)
      in (if en \<and> blend then [EnableCap G2D_GLOBAL_ALPHA, EnableCap G2D_BLEND] else []) @
         (if en \<and> dither then [EnableCap G2D_DITHER] else []) @
         (if l_blit lib then [Blit src dst] else []) @
         (if en \<and> dither then [DisableCap G2D_DITHER] else []) @
         (if en \<and> blend then [DisableCap G2D_BLEND, DisableCap G2D_GLOBAL_ALPHA] else []))"

lemma enableFunction_state [simp]:
  "gcalls (snd (enableFunction lib k on c)) =
     gcalls c @ (if l_enable lib \<and> l_disable lib then [if on then EnableCap k else DisableCap k] else [])"
  "mTarget (snd (enableFunction lib k on c)) = mTarget c"
  "mDimBuffer (snd (enableFunction lib k on c)) = mDimBuffer c"
  "cw (snd (enableFunction lib k on c)) = cw c"
  by (simp_all add: enableFunction_def engine_call_gcalls)

lemma blitSurface_state [simp]:
  "gcalls (snd (blitSurface lib s d c)) = gcalls c @ (if l_blit lib then [Blit s d] else [])"
  "mTarget (snd (blitSurface lib s d c)) = mTarget c"
  "mDimBuffer (snd (blitSurface lib s d c)) = mDimBuffer c"
  "cw (snd (blitSurface lib s d c)) = cw c"
  by (simp_all add: blitSurface_def engine_call_gcalls)

lemma setClipping_state [simp]:
  "gcalls (snd (setClipping lib r c)) = gcalls c @ (if l_setClipping lib then [SetClipping r] else [])"
  "mTarget (snd (setClipping lib r c)) = mTarget c"
  "mDimBuffer (snd (setClipping lib r c)) = mDimBuffer c"
  "cw (snd (setClipping lib r c)) = cw c"
  by (simp_all add: setClipping_def engine_call_gcalls)

lemma do_blit_state [simp]:
  "gcalls (do_blit lib l bypass dither src dst c) =
     gcalls c @ blit_calls lib (blendMode l \<noteq> BLENDING_NONE \<and> \<not> bypass) dither src dst"
  "mTarget (do_blit lib l bypass dither src dst c) = mTarget c"
  "mDimBuffer (do_blit lib l bypass dither src dst c) = mDimBuffer c"
  "cw (do_blit lib l bypass dither src dst c) = cw c"
  by (simp_all add: do_blit_def blit_calls_def Let_def)

lemma caps_blit_calls: "caps (blit_calls lib blend dither src dst) {} = {}"
  by (simp add: blit_calls_def Let_def)

lemma blit_source_state:
  assumes "blit_source lib l t c = Some (Inr (src, d, c'))"
  shows "calls quiet c c' \<and> mTarget c' = mTarget c \<and> mDimBuffer c' = mDimBuffer c \<and>
    (\<exists>ks m. gcalls c' = gcalls c @ ks \<and> set ks \<subseteq> {ResolveTileStatus m}) \<and>
    s_rect src = (if \<not> isSolidColor l \<and> handle l \<noteq> None then sourceCrop l else displayFrame l)"
proof -
  from assms obtain m rc where *: "c' = snd (setG2dSurface lib surface0 m rc c)"
      "src = fst (setG2dSurface lib surface0 m rc c)"
      "rc = (if \<not> isSolidColor l \<and> handle l \<noteq> None then sourceCrop l else displayFrame l)"
    by (auto simp: blit_source_def bind_eq_Some_conv case_prod_beta Let_def split: if_split_asm)
  show ?thesis
    using calls_setG2dSurface[of c lib surface0 m rc] setG2dSurface_gcalls[of lib surface0 m rc c]
    by (auto simp: *(1,2)) (simp_all add: *(3))
qed

text \<open>
  Dithering is needed when a layer buffer of eight bits per channel is drawn to an RGB565 target.
\<close>

definition needs_dither :: "composer \<Rightarrow> layer \<Rightarrow> bool" where
  "needs_dither c l \<longleftrightarrow> \<not> isSolidColor l \<and> handle l \<noteq> None \<and>
     (case (deref c (mTarget c), deref c (handle l)) of
        (Some t, Some m) \<Rightarrow> h_fslFormat t = FORMAT_RGB565 \<and>
          h_fslFormat m \<in> {FORMAT_RGBA8888, FORMAT_RGBX8888, FORMAT_BGRA8888}
      | _ \<Rightarrow> False)"

lemma deref_cong: "cw c' = cw c \<Longrightarrow> deref c' p = deref c p"
  by (simp add: deref_def split: option.split)

lemma needs_dither_cong: "cw c' = cw c \<Longrightarrow> mTarget c' = mTarget c \<Longrightarrow> needs_dither c' l = needs_dither c l"
  using deref_cong[of c' c] by (simp add: needs_dither_def)

lemma blit_source_dither:
  assumes "blit_source lib l t c2 = Some (Inr (src, d, c'))" "deref c (mTarget c) = Some t" "cw c2 = cw c"
  shows "d = needs_dither c l \<and> cw c' = cw c"
  using assms by (auto simp: blit_source_def needs_dither_def bind_eq_Some_conv case_prod_beta Let_def
      deref_cong[OF assms(3)] split: if_split_asm)

text \<open>The steps of the loop over the visible region, one per rectangle that is drawn.\<close>

lemma compose_rects_step:
  assumes "clip_of (l_ui lib) (displayFrame l) v = Some clip"
    and "compose_rects lib l bypass (v # vs) dst dither c = Some (r, c')"
  obtains (fail) ks where "r = - EINVAL"
      "gcalls c' = gcalls c @ (if l_setClipping lib then [SetClipping clip] else []) @ ks"
      "\<forall>k\<in>set ks. \<exists>m. k = ResolveTileStatus m"
  | (draw) ks src dst3 dither' c4 where
      "compose_rects lib l bypass vs dst3 dither' c4 = Some (r, c')"
      "gcalls c4 = gcalls c @ (if l_setClipping lib then [SetClipping clip] else []) @ ks @
         blit_calls lib (blendMode l \<noteq> BLENDING_NONE \<and> \<not> bypass) dither' src dst3"
      "\<forall>k\<in>set ks. \<exists>m. k = ResolveTileStatus m"
      "s_rect src = (if \<not> isSolidColor l \<and> handle l \<noteq> None then sourceCrop l else displayFrame l)"
      "s_rect dst3 = displayFrame l"
      "dither' = (dither \<or> needs_dither c l)" "cw c4 = cw c" "mTarget c4 = mTarget c"
proof -
  let ?c1 = "snd (setClipping lib clip c)"
  obtain t where t: "deref ?c1 (mTarget ?c1) = Some t"
    using assms by (auto simp: Let_def split: option.split_asm)
  have tc: "deref c (mTarget c) = Some t" using t by (simp add: deref_cong[of ?c1 c])
  obtain dst1 c2 where g: "setG2dSurface lib dst t (displayFrame l) ?c1 = (dst1, c2)" by fastforce
  have g2: "s_rect dst1 = displayFrame l"
      "\<exists>ks. gcalls c2 = gcalls ?c1 @ ks \<and> set ks \<subseteq> {ResolveTileStatus t}"
    using setG2dSurface_state(4)[of lib dst t "displayFrame l" ?c1]
      setG2dSurface_gcalls[of lib dst t "displayFrame l" ?c1] g by auto
  have g3: "cw c2 = cw c" "mTarget c2 = mTarget c"
    using setG2dSurface_state(1,3)[of lib dst t "displayFrame l" ?c1] g by auto
  from assms(2) show thesis
  proof (cases "blit_source lib l t c2")
    case None
    then show ?thesis using assms t g by (simp add: Let_def)
  next
    case (Some x)
    show ?thesis
    proof (cases x)
      case (Inl err)
      then have "err = - EINVAL"
        using Some by (auto simp: blit_source_def bind_eq_Some_conv case_prod_beta Let_def split: if_split_asm)
      moreover from g2(2) obtain ks where "gcalls c2 = gcalls ?c1 @ ks" "\<forall>k\<in>set ks. \<exists>m. k = ResolveTileStatus m"
        by auto
      ultimately show ?thesis using assms t g Some Inl by (intro fail[of ks]) (auto simp: Let_def)
    next
      case (Inr y)
      obtain src d c3 where y: "y = (src, d, c3)" by (cases y)
      obtain src1 dst2 where rot: "convertRotation (transform l) src dst1 = (src1, dst2)" by fastforce
      obtain src2 dst3 where bl: "(if bypass then (src1, dst2) else convertBlending (blendMode l) src1 dst2)
         = (src2, dst3)" by fastforce
      have rects: "s_rect src2 = s_rect src" "s_rect dst3 = s_rect dst1"
        using rot bl by (auto simp: convertRotation_def convertBlending_def split: if_split_asm)
      note bs = blit_source_state[OF Some[unfolded Inr y]] and bd = blit_source_dither[OF Some[unfolded Inr y] tc g3(1)]
      obtain ks1 where "gcalls c2 = gcalls ?c1 @ ks1" "\<forall>k\<in>set ks1. \<exists>m. k = ResolveTileStatus m"
        using g2(2) by auto
      moreover obtain ks2 where "gcalls c3 = gcalls c2 @ ks2" "\<forall>k\<in>set ks2. \<exists>m. k = ResolveTileStatus m"
        using bs by auto
      ultimately show ?thesis
        using assms t g Some bs bd g2 g3 rects
        by (intro draw[of dst3 "dither \<or> d"
              "do_blit lib l bypass (dither \<or> d) (src2\<lparr>s_global_alpha := planeAlpha l\<rparr>) dst3 c3" "ks1 @ ks2"
              "src2\<lparr>s_global_alpha := planeAlpha l\<rparr>"])
           (auto simp: Let_def Inr y rot bl)
    qed
  qed
qed

section \<open>Properties\<close>

text \<open>
  The capabilities that are enabled at each call of a sequence that starts with \<open>S\<close>, the calls
  that enable or disable one left out.
\<close>

fun cap_trace :: "g2d_cap set \<Rightarrow> g2d_call list \<Rightarrow> (g2d_call \<times> g2d_cap set) list" where
  "cap_trace S [] = []"
| "cap_trace S (EnableCap k # ks) = cap_trace (insert k S) ks"
| "cap_trace S (DisableCap k # ks) = cap_trace (S - {k}) ks"
| "cap_trace S (k # ks) = (k, S) # cap_trace S ks"

lemma cap_trace_append: "cap_trace S (ks @ ks') = cap_trace S ks @ cap_trace (caps ks S) ks'"
  by (induction S ks rule: cap_trace.induct) simp_all

lemma cap_trace_none: "list_all (\<lambda>k. \<not> cap_call k) ks \<Longrightarrow> cap_trace S ks = map (\<lambda>k. (k, S)) ks"
  by (induction S ks rule: cap_trace.induct) (auto simp: cap_call_def)

text \<open>What a layer wants enabled while it is drawn.\<close>

definition blit_caps :: "g2d_lib \<Rightarrow> layer \<Rightarrow> bool \<Rightarrow> composer \<Rightarrow> g2d_cap set" where
  "blit_caps lib l bypass c =
     (if l_enable lib \<and> l_disable lib
      then (if blendMode l \<noteq> BLENDING_NONE \<and> \<not> bypass then {G2D_GLOBAL_ALPHA, G2D_BLEND} else {}) \<union>
           (if needs_dither c l then {G2D_DITHER} else {})
      else {})"

text \<open>A run of calls that enables exactly \<open>B\<close> around its blits and nothing elsewhere.\<close>

definition caps_around :: "g2d_cap set \<Rightarrow> g2d_call list \<Rightarrow> bool" where
  "caps_around B ks \<longleftrightarrow> caps ks {} = {} \<and>
     (\<forall>(k, S) \<in> set (cap_trace {} ks). S = (case k of Blit s d \<Rightarrow> B | _ \<Rightarrow> {}))"

lemma caps_around_append: "caps_around B ks \<Longrightarrow> caps_around B ks' \<Longrightarrow> caps_around B (ks @ ks')"
  by (auto simp: caps_around_def cap_trace_append)

lemma caps_around_none:
  "\<forall>k \<in> set ks. \<not> cap_call k \<and> (\<forall>s d. k \<noteq> Blit s d) \<Longrightarrow> caps_around B ks"
  by (auto simp: caps_around_def list_all_iff caps_none cap_trace_none split: g2d_call.split)

lemma caps_around_blit:
  assumes "dither = needs_dither c l"
  shows "caps_around (blit_caps lib l bypass c)
     (blit_calls lib (blendMode l \<noteq> BLENDING_NONE \<and> \<not> bypass) dither src dst)"
  by (auto simp: caps_around_def caps_blit_calls blit_caps_def blit_calls_def Let_def assms)

lemma compose_rects_caps:
  assumes "compose_rects lib l bypass vs dst dither c = Some (r, c')" "dither \<longrightarrow> needs_dither c l"
  shows "\<exists>ks. gcalls c' = gcalls c @ ks \<and> caps_around (blit_caps lib l bypass c) ks"
  using assms
proof (induction vs arbitrary: dst dither c)
  case Nil
  then show ?case by (auto intro: caps_around_none)
next
  case (Cons v vs)
  show ?case
  proof (cases "clip_of (l_ui lib) (displayFrame l) v")
    case None
    then show ?thesis using Cons by simp
  next
    case (Some clip)
    let ?B = "blit_caps lib l bypass c"
    have clip: "caps_around ?B (if l_setClipping lib then [SetClipping clip] else [])"
      by (auto intro!: caps_around_none simp: cap_call_def)
    from Some Cons.prems(1) show ?thesis
    proof (cases rule: compose_rects_step)
      case (fail ks)
      have "caps_around ?B ks" using fail(3) by (intro caps_around_none) (auto simp: cap_call_def)
      then show ?thesis using fail(2) caps_around_append[OF clip] by blast
    next
      case (draw ks src dst3 dither' c4)
      have d: "dither' = needs_dither c l" using draw(6) Cons.prems(2) by blast
      have same: "needs_dither c4 l = needs_dither c l" by (rule needs_dither_cong) (use draw in simp_all)
      then have "blit_caps lib l bypass c4 = ?B" by (simp only: blit_caps_def)
      then obtain ks' where k: "gcalls c' = gcalls c4 @ ks'" "caps_around ?B ks'"
        using Cons.IH[OF draw(1)] d same by auto
      have "caps_around ?B ks" using draw(3) by (intro caps_around_none) (auto simp: cap_call_def)
      note run = caps_around_append[OF caps_around_append[OF caps_around_append[OF clip this]
        caps_around_blit[OF d, of lib bypass src dst3]] k(2)]
      have "gcalls c' = gcalls c @ (((if l_setClipping lib then [SetClipping clip] else []) @ ks) @
          blit_calls lib (blendMode l \<noteq> BLENDING_NONE \<and> \<not> bypass) dither' src dst3) @ ks'"
        using k(1) draw(2) by simp
      then show ?thesis using run by blast
    qed
  qed
qed

lemma composeLayer_caps_spec:
  assumes "composeLayer lib (Some l) bypass c = Some (r, c')"
  shows "\<exists>ks. gcalls c' = gcalls c @ ks \<and> caps_around (blit_caps lib l bypass c) ks"
proof -
  from assms consider (none) "c' = c"
    | (buf) "\<not> isSolidColor l" "compose_rects lib l bypass (visibleRegion l) surface0 False c = Some (r, c')"
    | (solid) r1 c1 where "isSolidColor l" "checkDimBuffer lib c = Some (r1, c1)"
        "compose_rects lib l bypass (visibleRegion l) surface0 False c1 = Some (r, c')"
    by (auto simp: composeLayer_def bind_eq_Some_conv split: option.split_asm if_split_asm)
  then show ?thesis
  proof cases
    case none
    then show ?thesis by (auto intro: caps_around_none)
  next
    case buf
    then show ?thesis using compose_rects_caps by blast
  next
    case solid
    from checkDimBuffer_calls[OF solid(2)] obtain ks where
      ks: "gcalls c1 = gcalls c @ ks" "list_all quiet ks" by (auto simp: calls_def)
    have "\<not> cap_call k \<and> (\<forall>s d. k \<noteq> Blit s d)" if "quiet k" for k
      using that by (cases k) (auto simp: cap_call_def)
    then have "caps_around (blit_caps lib l bypass c) ks"
      using ks(2) by (intro caps_around_none) (auto simp: list_all_iff)
    moreover have "blit_caps lib l bypass c1 = blit_caps lib l bypass c"
      using solid(1) by (simp add: blit_caps_def needs_dither_def)
    moreover obtain ks' where "gcalls c' = gcalls c1 @ ks'" "caps_around (blit_caps lib l bypass c1) ks'"
      using compose_rects_caps[OF solid(3)] by blast
    ultimately show ?thesis using ks(1) by (auto intro: caps_around_append)
  qed
qed

text \<open>
  C32: \<open>composeLayer\<close> enables the capabilities of the 2D engine around each blit only, whichever
  way it returns.  Of the calls it makes, starting with no capability enabled: every blit is made
  with exactly global alpha and blending enabled when the layer is blended (and blending is not
  bypassed), and dithering when a 32-bit layer buffer is drawn to an RGB565 target; every other
  call is made with nothing enabled, and nothing is enabled at the end.  (Where the library cannot
  enable or disable, nothing is ever enabled.)
\<close>

theorem composeLayer_caps_balanced:
  assumes "composeLayer lib (Some l) bypass c = Some (r, c')"
  shows "\<exists>ks. gcalls c' = gcalls c @ ks \<and> caps ks {} = {} \<and>
    (\<forall>(k, S) \<in> set (cap_trace {} ks).
       S = (case k of
              Blit src dst \<Rightarrow>
                (if l_enable lib \<and> l_disable lib
                 then (if blendMode l \<noteq> BLENDING_NONE \<and> \<not> bypass then {G2D_GLOBAL_ALPHA, G2D_BLEND} else {}) \<union>
                      (if needs_dither c l then {G2D_DITHER} else {})
                 else {})
            | _ \<Rightarrow> {}))"
  using composeLayer_caps_spec[OF assms] unfolding caps_around_def blit_caps_def .

text \<open>What a sequence of calls draws: clip, source and destination rectangle of each blit.\<close>

fun drawn :: "rect option \<Rightarrow> g2d_call list \<Rightarrow> (rect option \<times> rect \<times> rect) list" where
  "drawn clip [] = []"
| "drawn clip (SetClipping r # ks) = drawn (Some r) ks"
| "drawn clip (Blit s d # ks) = (clip, s_rect s, s_rect d) # drawn clip ks"
| "drawn clip (_ # ks) = drawn clip ks"

lemma drawn_skip:
  "list_all (\<lambda>k. (\<forall>r. k \<noteq> SetClipping r) \<and> (\<forall>s d. k \<noteq> Blit s d)) ks \<Longrightarrow> drawn clip (ks @ ks') = drawn clip ks'"
  by (induction clip ks rule: drawn.induct) auto

lemma drawn_blit_calls:
  "l_blit lib \<Longrightarrow> drawn clip (blit_calls lib b d src dst @ ks) = (clip, s_rect src, s_rect dst) # drawn clip ks"
  by (simp add: blit_calls_def Let_def)

lemma compose_rects_drawn:
  assumes "compose_rects lib l bypass vs dst dither c = Some (0, c')" "l_blit lib" "l_setClipping lib"
  shows "\<exists>ks. gcalls c' = gcalls c @ ks \<and>
    (\<forall>cl. drawn cl ks = map (\<lambda>clip. (Some clip,
        if \<not> isSolidColor l \<and> handle l \<noteq> None then sourceCrop l else displayFrame l, displayFrame l))
      (List.map_filter (clip_of (l_ui lib) (displayFrame l)) vs))"
  using assms(1)
proof (induction vs arbitrary: dst dither c)
  case Nil
  then show ?case by (auto simp: map_filter_simps)
next
  case (Cons v vs)
  show ?case
  proof (cases "clip_of (l_ui lib) (displayFrame l) v")
    case None
    then show ?thesis using Cons by (simp add: map_filter_simps)
  next
    case (Some clip)
    from Some Cons.prems(1) show ?thesis
    proof (cases rule: compose_rects_step)
      case fail
      then show ?thesis by simp
    next
      case (draw ks src dst3 dither' c4)
      obtain ks' where k: "gcalls c' = gcalls c4 @ ks'"
        "\<forall>cl. drawn cl ks' = map (\<lambda>clip. (Some clip,
           if \<not> isSolidColor l \<and> handle l \<noteq> None then sourceCrop l else displayFrame l, displayFrame l))
         (List.map_filter (clip_of (l_ui lib) (displayFrame l)) vs)"
        using Cons.IH[OF draw(1)] by blast
      have "list_all (\<lambda>k. (\<forall>r. k \<noteq> SetClipping r) \<and> (\<forall>s d. k \<noteq> Blit s d)) ks"
        using draw(3) by (auto simp: list_all_iff)
      then show ?thesis
        using k draw(2,4,5) Some assms(2,3)
        by (intro exI[of _ "[SetClipping clip] @ ks @ blit_calls lib (blendMode l \<noteq> BLENDING_NONE \<and> \<not> bypass) dither' src dst3 @ ks'"])
           (simp add: drawn_skip drawn_blit_calls map_filter_simps)
    qed
  qed
qed

text \<open>
  C2: a layer with a buffer is drawn exactly once per rectangle of its visible region that
  intersects its frame, in order: each blit reads the source crop, writes the display frame, and
  is clipped to that intersection.  Nothing else is drawn.  This is for a composition that succeeds,
  with a render target, a crop and a frame that are not empty, and a library that blits and clips.
\<close>

theorem composeLayer_draws_visible:
  assumes "composeLayer lib (Some l) bypass c = Some (0, c')"
    and "mTarget c \<noteq> None" "\<not> isSolidColor l" "handle l \<noteq> None"
    and "\<not> ui_isEmpty (l_ui lib) (sourceCrop l)" "\<not> ui_isEmpty (l_ui lib) (displayFrame l)"
    and "l_blit lib" "l_setClipping lib"
  shows "\<exists>ks. gcalls c' = gcalls c @ ks \<and>
    drawn None ks = map (\<lambda>clip. (Some clip, sourceCrop l, displayFrame l))
      (List.map_filter (clip_of (l_ui lib) (displayFrame l)) (visibleRegion l))"
proof -
  have "compose_rects lib l bypass (visibleRegion l) surface0 False c = Some (0, c')"
    using assms by (auto simp: composeLayer_def)
  from compose_rects_drawn[OF this assms(7,8)] assms(3,4) show ?thesis by auto
qed

lemma releaseMemory_frees:
  assumes "heap w a = Some m" "Memory_isValid m" "releaseMemory env (Some a) w = Some (r, w')"
  shows "heap w' = (heap w)(a := None)"
  using assms by (auto simp: releaseMemory_def Let_def split: if_split_asm)

lemma alloc_dim_fails:
  assumes "\<And>w s a f. e_ion_alloc (l_env lib) w s a f < 0"
  shows "\<exists>w. alloc_dim lib t c = Some (- EINVAL, c\<lparr>cw := cw c\<rparr>)"
proof -
  let ?d = "dim_desc lib c t" and ?env = "l_env lib"
  have flag: "mFlag ?d = FLAGS_DIMBUFFER"
    using checkFormat_def by (auto simp: dim_desc_def Let_def checkFormat_def split: option.split prod.split)
  have nd: "\<not> isDrmAlloc ?env (mFlag (protect_desc ?d)) (mFslFormat (protect_desc ?d))
         (ucast (mProduceUsage (protect_desc ?d)))"
  proof -
    have "has_flag (mFlag (protect_desc ?d)) (FLAGS_SECURE OR FLAGS_DIMBUFFER)"
      "has_flag (mFlag (protect_desc ?d)) (FLAGS_FRAMEBUFFER OR FLAGS_SECURE OR FLAGS_DIMBUFFER)"
      using flag by (auto simp: protect_desc_def has_flag_def flags_defs)
    then show ?thesis by (simp add: isDrmAlloc_def)
  qed
  have "\<exists>d'. ion_allocMemory ?env (protect_desc ?d) (cw c) = (- EINVAL, d', None, cw c)"
    using assms by (auto simp: ion_allocMemory_def Let_def split: prod.split)
  then show ?thesis using nd by (auto simp: alloc_dim_def allocMemory_def Let_def)
qed

text \<open>
  When the dim buffer has to be replaced and the new allocation fails, \<open>mDimBuffer\<close> keeps the
  address of the buffer that was just released, so that the next blit of a solid colour reads
  through a dangling pointer.
\<close>

theorem dim_buffer_dangles:
  assumes "\<And>w s a f. e_ion_alloc (l_env lib) w s a f < 0"
    and "mTarget c = Some tg" "deref c (mTarget c) = Some t"
    and "mDimBuffer c = Some d" "heap (cw c) d = Some m" "Memory_isValid m" "\<not> dim_matches c t m"
    and "l_unlockSurface lib = None"
  shows "\<exists>c'. checkDimBuffer lib c = Some (- EINVAL, c') \<and> mDimBuffer c' = Some d \<and>
    deref c' (mDimBuffer c') = None"
proof -
  obtain r w where r: "releaseMemory (l_env lib) (Some d) (cw c) = Some (r, w)"
    using assms(5,6) by (fastforce simp: releaseMemory_def Let_def)
  have h: "heap w = (heap (cw c))(d := None)" using releaseMemory_frees[OF assms(5,6) r] .
  let ?c1 = "c\<lparr>mPreSecMode := mSecureMode c, cw := w\<rparr>"
  have rel: "release_dim lib (c\<lparr>mPreSecMode := mSecureMode c\<rparr>) = Some ?c1"
    using assms(4,8) r by (simp add: release_dim_def unlockSurface_def)
  have "alloc_dim lib t ?c1 = Some (- EINVAL, ?c1)"
    using alloc_dim_fails[of lib t ?c1] assms(1) by auto
  then have "checkDimBuffer lib c = Some (- EINVAL, ?c1)"
    using assms rel by (simp add: checkDimBuffer_def deref_def)
  then show ?thesis using assms(4) h by (simp add: deref_def)
qed

lemma ucast64_add:
  "(ucast (word_of_nat x + word_of_nat y :: size_t) :: i32) = word_of_nat x + word_of_nat y"
  using ucast64[of "x + y"] by simp

lemma idiv_nat:
  assumes "unat (x :: i32) < 2^31"
  shows "idiv x (int n) = word_of_nat (unat x div n)"
proof -
  have "int (unat x) sdiv int n = int (unat x div n)"
    by (auto simp: signed_divide_int_def sgn_if zdiv_int)
  then show ?thesis by (simp add: idiv_def sint_small[OF assms])
qed

lemma chroma_plane_words:
  assumes "s = 32 * k" "s \<le> 16000" "H \<le> 16000"
  shows "idiv (idiv (idiv (word_of_nat s) 2 + 15) 16 * 16 * word_of_nat H) 2 = (word_of_nat (s div 2 * H div 2) :: i32)"
proof -
  have k: "k \<le> 500" using assms by simp
  have w: "unat (word_of_nat n :: i32) = n" if "n \<le> 256000000" for n
    by (rule unat32) (use that in simp)
  have kH: "16 * k * H \<le> 128000000" using mult_le_mono[of "16 * k" 8000 H 16000] k assms(3) by simp
  have "idiv (word_of_nat s) 2 = (word_of_nat (16 * k) :: i32)"
    using idiv_nat[of "word_of_nat s" 2] w[of s] assms k by simp
  then have "idiv (word_of_nat s) 2 + 15 = (word_of_nat (16 * k + 15) :: i32)" by simp
  moreover have "idiv (word_of_nat (16 * k + 15)) 16 = (word_of_nat k :: i32)"
    using idiv_nat[of "word_of_nat (16 * k + 15)" 16] w[of "16 * k + 15"] k by simp
  ultimately have "idiv (idiv (word_of_nat s) 2 + 15) 16 * 16 * word_of_nat H = (word_of_nat (16 * k * H) :: i32)"
    by (simp add: ac_simps)
  moreover have "idiv (word_of_nat (16 * k * H)) 2 = (word_of_nat (16 * k * H div 2) :: i32)"
    using idiv_nat[of "word_of_nat (16 * k * H)" 2] w[of "16 * k * H"] kH by simp
  ultimately show ?thesis using assms(1) by simp
qed

text \<open>
  The 2D engine and the CPU agree on a buffer of format NV12, NV21, I420 or YV12 that \<open>checkFormat\<close>
  laid out, for width and height from 1 to 8192, a height that is a multiple of four, alignments of the
  allocator's library that neither shrink an image nor exceed 16000, and a GPU helper library that
  offers neither its own alignment nor another format nor a tile status: the chroma planes that
  \<open>setG2dSurface\<close> programs are at the offsets that \<open>lockYCbCr\<close> reports.
\<close>

theorem g2d_planes_match_lock:
  assumes "dims_ok d" and "tile_ok tile" and "checkFormat cfg tile d = (0, d')"
    and "mFslFormat d \<in> {FORMAT_NV12, FORMAT_NV21, FORMAT_I420, FORMAT_YV12}"
    and "h_fslFormat m = mFslFormat d'" "h_stride m = mStride d'" "h_height m = mHeight d'"
    and "l_getAlignedSize lib = None" "l_alterFormat lib = None" "l_getTileStatus lib = None"
    and "4 dvd unat (mHeight d)"
  shows "case ycbcr_planes m of None \<Rightarrow> False
    | Some yc \<Rightarrow>
       (let p = s_planes (fst (setG2dSurface lib surface0 m rc c))
        in p ! 1 - p ! 0 = ucast ((if h_fslFormat m \<in> {FORMAT_NV21, FORMAT_YV12} then yc_cr yc else yc_cb yc) - yc_y yc) \<and>
          (h_fslFormat m \<in> {FORMAT_I420, FORMAT_YV12} \<longrightarrow>
             p ! 2 - p ! 0 = ucast ((if h_fslFormat m = FORMAT_YV12 then yc_cb yc else yc_cr yc) - yc_y yc)))"
proof -
  obtain s b bpp where r: "ref_layout cfg tile d = Some (s, b, bpp)"
      and d': "d' = d\<lparr>mProduceUsage := encoder_usage d, mSize := word_of_nat b,
                      mBpp := word_of_nat bpp, mStride := word_of_nat s\<rparr>"
    using assms(3) by (auto simp: checkFormat_nat[OF assms(1,2)] split: option.splits prod.splits)
  let ?H = "align_up 4 (unat (h_height m))"
  have bd: "s \<le> 16000" using ref_layout_bounds[OF assms(1,2) r] by auto
  have h: "h_height m = mHeight d" "unat (h_height m) \<le> 8192"
    using assms(1,7) d' by (auto simp: dims_ok_def)
  have sw: "h_stride m = word_of_nat s" using assms(6) d' by simp
  note o = yuv_offsets[OF sw bd h(2)]
  note o' = o(3)[unfolded o(4)] o(4)[unfolded o(1)]
  have H: "?H = unat (h_height m)" using assms(11) h(1) by (auto simp: align_up_def elim!: dvdE)
  then have hw: "h_height m = word_of_nat ?H" by simp
  have Hb: "?H \<le> 16000" using H h(2) by simp
  have fmt: "h_fslFormat m = mFslFormat d" using assms(5) d' by simp
  have ysize: "h_stride m * h_height m = word_of_nat (s * ?H)" using hw sw by simp
  have p: "s_planes (fst (setG2dSurface lib surface0 m rc c)) =
      g2d_planes (convertFormat lib (h_fslFormat m) m) (h_stride m) (h_height m)
        [ucast (h_phys m) + getFlipOffset lib m 0, 0, 0]"
    using assms(8,10) by (simp add: setG2dSurface_def getAlignedSize_def getTileStatus_def surface0_def Let_def
        case_prod_beta)
  consider (nv) "h_fslFormat m = FORMAT_NV12 \<or> h_fslFormat m = FORMAT_NV21"
    | (planar) "h_fslFormat m = FORMAT_I420 \<or> h_fslFormat m = FORMAT_YV12"
    using assms(4) fmt by auto
  then show ?thesis
  proof cases
    case nv
    then show ?thesis
      by (auto simp: p ycbcr_planes_def g2d_planes_def convertFormat_def alterFormat_def assms(9) o o' ysize ucast64
          Let_def simp del: of_nat_mult)
  next
    case planar
    have "s = align_up 32 (unat (mWidth d))" using r planar fmt by (auto simp: ref_layout_def Let_def)
    then obtain k where k: "s = 32 * k" using align_up_dvd[of 32] by (metis dvdE)
    note c = chroma_plane_words[OF k bd Hb]
    have c': "idiv (idiv (idiv (h_stride m) 2 + 15) 16 * 16 * h_height m) 2 = word_of_nat (s div 2 * ?H div 2)"
      using c unfolding sw hw[symmetric] .
    from planar show ?thesis
      by (auto simp: p ycbcr_planes_def g2d_planes_def convertFormat_def alterFormat_def assms(9) o o' ysize ucast64 c'
          Let_def ucast64_add simp del: of_nat_mult)
  qed
qed

section \<open>Witnesses\<close>

definition ui_demo :: ui_ops where
  "ui_demo = \<lparr>ui_isEmpty = \<lambda>r. r_right r \<le> r_left r \<or> r_bottom r \<le> r_top r,
     ui_intersect = \<lambda>a b. \<lparr>r_left = max (r_left a) (r_left b), r_top = max (r_top a) (r_top b),
                          r_right = min (r_right a) (r_right b), r_bottom = min (r_bottom a) (r_bottom b)\<rparr>,
     ui_screen = \<lambda>w h. [\<lparr>r_left = 0, r_top = 0, r_right = w, r_bottom = h\<rparr>],
     ui_or = (@), ui_subtract = \<lambda>a b. if b = [] then a else []\<rparr>"

definition lib_demo :: g2d_lib where
  "lib_demo = \<lparr>l_env = env_demo, l_ui = ui_demo, l_getAlignedSize = None, l_getFlipOffset = None,
     l_getTiling = None, l_alterFormat = None, l_lockSurface = None, l_unlockSurface = None,
     l_getTileStatus = None, l_resolveTileStatus = False, l_open = Some (Some 1),
     l_setClipping = True, l_blit = True, l_clear = True, l_enable = True, l_disable = True,
     l_finish = True, l_query = None, l_ret = \<lambda>k. 0\<rparr>"

definition rect_hd :: rect where
  "rect_hd = \<lparr>r_left = 0, r_top = 0, r_right = 1920, r_bottom = 1080\<rparr>"

definition layer_demo :: layer where
  "layer_demo = Layer_init\<lparr>busy := True, type := LAYER_TYPE_DEVICE, handle := Some 1000,
     blendMode := BLENDING_PREMULT, planeAlpha := 255, sourceCrop := rect_hd, displayFrame := rect_hd,
     visibleRegion := [rect_hd, rect0]\<rparr>"

definition comp_demo :: composer where
  "comp_demo = (Composer_init 1 world1)\<lparr>mTarget := Some 1000\<rparr>"

lemma lib_demo_simps [simp]:
  "l_env lib_demo = env_demo" "l_ui lib_demo = ui_demo" "l_getAlignedSize lib_demo = None"
  "l_alterFormat lib_demo = None" "l_getTileStatus lib_demo = None" "l_blit lib_demo" "l_setClipping lib_demo"
  "l_enable lib_demo" "l_disable lib_demo" "l_unlockSurface lib_demo = None" "l_query lib_demo = None"
  by (simp_all add: lib_demo_def)

lemma demo_layer:
  "\<not> isSolidColor layer_demo" "handle layer_demo = Some 1000" "sourceCrop layer_demo = rect_hd"
  "displayFrame layer_demo = rect_hd" "visibleRegion layer_demo = [rect_hd, rect0]"
  "\<not> ui_isEmpty ui_demo rect_hd" "ui_isEmpty ui_demo rect0" "ui_intersect ui_demo rect_hd rect_hd = rect_hd"
  "transform layer_demo = 0"
  by (simp_all add: layer_demo_def isSolidColor_def Layer_init_def ui_demo_def rect_hd_def rect0_def)

lemma demo_clip: "clip_of ui_demo rect_hd rect_hd = Some rect_hd" "clip_of ui_demo rect_hd rect0 = None"
  by (simp_all add: clip_of_def demo_layer)

lemma demo_deref: "mTarget comp_demo = Some 1000" "heap (cw comp_demo) 1000 = Some mem_1080p" "gcalls comp_demo = []"
  by (simp_all add: comp_demo_def Composer_init_def world1_def)

lemma demo_compose: "\<exists>c'. composeLayer lib_demo (Some layer_demo) False comp_demo = Some (0, c')"
  by (simp add: composeLayer_def demo_layer demo_deref demo_clip deref_def blit_source_def Let_def case_prod_beta
      option.case_eq_if)

theorem composeLayer_caps_balanced_witness:
  "\<exists>c'. composeLayer lib_demo (Some layer_demo) False comp_demo = Some (0, c') \<and> caps (gcalls c') {} = {} \<and>
     (\<forall>(k, S) \<in> set (cap_trace {} (gcalls c')). S = (case k of Blit s d \<Rightarrow> {G2D_GLOBAL_ALPHA, G2D_BLEND} | _ \<Rightarrow> {}))"
proof -
  obtain c' where c: "composeLayer lib_demo (Some layer_demo) False comp_demo = Some (0, c')"
    using demo_compose by blast
  have b: "blendMode layer_demo \<noteq> BLENDING_NONE" by (simp add: layer_demo_def)
  have n: "\<not> needs_dither comp_demo layer_demo"
    by (simp add: needs_dither_def demo_deref demo_layer deref_def demo_flags)
  have B: "blit_caps lib_demo layer_demo False comp_demo = {G2D_GLOBAL_ALPHA, G2D_BLEND}"
    using b n by (simp add: blit_caps_def)
  obtain ks where ks: "gcalls c' = gcalls comp_demo @ ks" "caps ks {} = {}"
    "\<forall>(k, S) \<in> set (cap_trace {} ks). S = (case k of Blit s d \<Rightarrow> {G2D_GLOBAL_ALPHA, G2D_BLEND} | _ \<Rightarrow> {})"
    using composeLayer_caps_balanced[OF c] unfolding B[unfolded blit_caps_def] by blast
  then show ?thesis using c by (simp add: demo_deref)
qed

theorem composeLayer_draws_visible_witness:
  "\<exists>c'. composeLayer lib_demo (Some layer_demo) False comp_demo = Some (0, c') \<and>
     drawn None (gcalls c') = [(Some rect_hd, rect_hd, rect_hd)]"
proof -
  obtain c' where c: "composeLayer lib_demo (Some layer_demo) False comp_demo = Some (0, c')"
    using demo_compose by blast
  from composeLayer_draws_visible[OF c] show ?thesis
    using c by (simp add: demo_layer demo_deref demo_clip map_filter_simps)
qed

text \<open>An ION allocator that has run out of memory, and a target that outgrew the dim buffer.\<close>

definition lib_oom :: g2d_lib where
  "lib_oom = lib_demo\<lparr>l_env := env_demo\<lparr>e_ion_alloc := \<lambda>w s a f. -1\<rparr>\<rparr>"

definition comp_dim :: composer where
  "comp_dim = (Composer_init 1 (store 2000 (mem_1080p\<lparr>h_width := 800\<rparr>) world1))
     \<lparr>mTarget := Some 1000, mDimBuffer := Some 2000\<rparr>"

theorem dim_buffer_dangles_witness:
  "\<exists>c'. checkDimBuffer lib_oom comp_dim = Some (- EINVAL, c') \<and> mDimBuffer c' = Some 2000 \<and>
     deref c' (mDimBuffer c') = None"
proof (rule dim_buffer_dangles[of lib_oom comp_dim 1000 mem_1080p 2000 "mem_1080p\<lparr>h_width := 800\<rparr>"])
  show "e_ion_alloc (l_env lib_oom) w s a f < 0" for w s a f by (simp add: lib_oom_def)
  show "mTarget comp_dim = Some 1000" "deref comp_dim (mTarget comp_dim) = Some mem_1080p"
    "mDimBuffer comp_dim = Some 2000" "heap (cw comp_dim) 2000 = Some (mem_1080p\<lparr>h_width := 800\<rparr>)"
    by (simp_all add: comp_dim_def Composer_init_def deref_def world1_def)
  show "Memory_isValid (mem_1080p\<lparr>h_width := 800\<rparr>)" by (simp add: Memory_isValid_def demo_flags)
  show "\<not> dim_matches comp_dim mem_1080p (mem_1080p\<lparr>h_width := 800\<rparr>)"
    by (simp add: dim_matches_def) (simp add: mem_1080p_def desc_checked_def desc_1080p_def)
  show "l_unlockSurface lib_oom = None" by (simp add: lib_oom_def)
qed

theorem g2d_planes_match_lock_witness:
  "\<exists>yc. ycbcr_planes mem_1080p = Some yc \<and>
     (let p = s_planes (fst (setG2dSurface lib_demo surface0 mem_1080p rect_hd comp_demo))
      in p ! 1 - p ! 0 = ucast (yc_cb yc - yc_y yc))"
proof -
  let ?d' = "desc_1080p\<lparr>mSize := 3110400, mBpp := 0, mStride := 1920\<rparr>"
  have d: "dims_ok desc_1080p" "tile_ok None" "mFslFormat desc_1080p \<in> {FORMAT_NV12, FORMAT_NV21, FORMAT_I420, FORMAT_YV12}"
     "4 dvd unat (mHeight desc_1080p)"
    by (simp_all add: dims_ok_def tile_ok_def desc_1080p_def MemoryDesc_init_def)
  have m: "h_fslFormat mem_1080p = mFslFormat ?d'" "h_stride mem_1080p = mStride ?d'" "h_height mem_1080p = mHeight ?d'"
    by (simp_all add: mem_1080p_def desc_checked_def Memory_new_def desc_1080p_def)
  from g2d_planes_match_lock[OF d(1,2) desc_1080p_checked d(3) m, where lib = lib_demo and rc = rect_hd and c = comp_demo] d(4) show ?thesis
    by (auto simp: demo_flags Let_def split: option.splits)
qed

text \<open>
  Without the helper library the engine uses the height as it is, while \<open>checkFormat\<close> and
  \<open>lockYCbCr\<close> round it up to a multiple of four: for a 1920 x 1082 NV12 buffer the engine reads
  the chroma plane at the wrong offset.
\<close>

theorem g2d_planes_mismatch:
  "\<exists>m yc. h_fslFormat m = FORMAT_NV12 \<and> h_height m = 1082 \<and> ycbcr_planes m = Some yc \<and>
     (let p = s_planes (fst (setG2dSurface lib_demo surface0 m rect_hd comp_demo))
      in p ! 1 - p ! 0 \<noteq> ucast (yc_cb yc - yc_y yc))"
proof -
  let ?m = "mem_1080p\<lparr>h_height := 1082\<rparr>"
  have m: "h_stride mem_1080p = 1920" "h_base mem_1080p = 0"
    by (simp_all add: mem_1080p_def desc_checked_def)
  have "ycbcr_planes ?m = Some \<lparr>yc_y = 0, yc_cb = 2081280, yc_cr = 2081281, yc_ystride = 1920,
      yc_cstride = 1920, yc_chroma_step = 2\<rparr>"
    by (simp add: ycbcr_planes_def demo_flags m ALIGN_PIXEL_4_def scast_eq Let_def)
  moreover have "(let p = s_planes (fst (setG2dSurface lib_demo surface0 ?m rect_hd comp_demo)) in p ! 1 - p ! 0) = 2077440"
    by (simp add: setG2dSurface_def getAlignedSize_def surface0_def getTileStatus_def case_prod_beta g2d_planes_def
        convertFormat_def alterFormat_def demo_flags m Let_def)
  ultimately show ?thesis
    by (intro exI[of _ ?m]) (simp add: demo_flags Let_def)
qed

end
