(* ===== verification/Display_Layers.thy ===== *)
theory Display_Layers
  imports Buffer_Slot Compose2D
begin

text \<open>
  \<open>Display\<close> (\<open>display/display/Display.h\<close>, \<open>Display.cpp\<close>): the layers of a display.  The
  \<open>MAX_LAYERS\<close> layers a display owns are a list; layers that other processes registered, and the
  queues their \<open>priv\<close> points to, live at addresses in \<open>hw_layers\<close> and \<open>hw_queues\<close>.  The virtual
  methods \<open>checkOverlay\<close> and \<open>performOverlay\<close> are arguments.  A method runs under \<open>mLock\<close>, so
  it is one step.
\<close>

section \<open>State\<close>

datatype disp_event = CloseFence int | SyncWait int | OnRefresh

record display =
  mIndex :: int
  mConnected :: bool
  mType :: int
  mLayerVector :: "layer_ref list"
  mLayers :: "layer list"
  mHwLayers :: "nat option list"
  mOverlay :: "nat option"
  mRenderTarget :: "nat option"
  mAcquireFence :: int
  mComposeFlag :: i32
  mResetHdrMode :: bool
  mUiUpdate :: bool
  mListener :: bool
  mTotalLayerNum :: int
  mTileHwLimit :: int
  mMaxBrightness :: int
  d_comp :: composer
  hw_layers :: "nat \<Rightarrow> layer"
  hw_queues :: "nat \<Rightarrow> nat buffer_slot"
  d_events :: "disp_event list"

definition DISPLAY_PRIMARY :: int where "DISPLAY_PRIMARY = 0"
definition DISPLAY_INVALID :: int where "DISPLAY_INVALID = 0"

definition OVERLAY_COMPOSE_MASK :: i32 where "OVERLAY_COMPOSE_MASK = 1"
definition LAST_OVERLAY_MASK :: i32 where "LAST_OVERLAY_MASK = 2"
definition CLIENT_COMPOSE_MASK :: i32 where "CLIENT_COMPOSE_MASK = 4"
definition ONLY_OVERLAY_MASK :: i32 where "ONLY_OVERLAY_MASK = 8"

lemmas compose_masks =
  OVERLAY_COMPOSE_MASK_def LAST_OVERLAY_MASK_def CLIENT_COMPOSE_MASK_def ONLY_OVERLAY_MASK_def

definition z_of :: "display \<Rightarrow> layer_ref \<Rightarrow> i32" where
  "z_of d r = (case r of Own i \<Rightarrow> zorder (mLayers d ! i) | Hw a \<Rightarrow> zorder (hw_layers d a))"

definition d_emit :: "disp_event list \<Rightarrow> display \<Rightarrow> display" where
  "d_emit es d = d\<lparr>d_events := d_events d @ es\<rparr>"

definition set_layer :: "nat \<Rightarrow> layer \<Rightarrow> display \<Rightarrow> display" where
  "set_layer i l d = d\<lparr>mLayers := (mLayers d)[i := l]\<rparr>"

section \<open>Layer slots\<close>

definition close_fence :: "int \<Rightarrow> disp_event list" where
  "close_fence fd = (if fd \<noteq> -1 then [CloseFence fd] else [])"

text \<open>\<open>resetLayerLocked\<close>: the reset layer and the fences that are closed.\<close>

definition resetLayer :: "layer \<Rightarrow> layer" where
  "resetLayer l =
     l\<lparr>busy := False, zorder := 0, origType := LAYER_TYPE_INVALID, type := LAYER_TYPE_INVALID,
       handle := None, transform := 0, blendMode := 0, color := 0, flags := 0,
       sourceCrop := rect0, displayFrame := rect0, visibleRegion := [], acquireFence := -1,
       releaseFence := -1, isHdrMode := False, priv := None, lastHandle := None,
       isOverlay := False, lastSourceCrop := rect0, lastDisplayFrame := rect0,
       hdrMetadata := []\<rparr>"

definition invalidLayers :: "display \<Rightarrow> int \<times> display" where
  "invalidLayers d =
     (0, (d_emit (concat (map (\<lambda>l. close_fence (acquireFence l)) (mLayers d))) d)
           \<lparr>mLayers := map resetLayer (mLayers d), mLayerVector := []\<rparr>)"

text \<open>The constructor: the layers get their index and are then invalidated.\<close>

definition Display_init :: "composer \<Rightarrow> (nat \<Rightarrow> layer) \<Rightarrow> (nat \<Rightarrow> nat buffer_slot) \<Rightarrow> display" where
  "Display_init c hw qs =
     \<lparr>mIndex = -1, mConnected = False, mType = DISPLAY_INVALID, mLayerVector = [],
      mLayers = map (\<lambda>i. resetLayer (Layer_init\<lparr>lindex := int i\<rparr>)) [0..<MAX_LAYERS],
      mHwLayers = replicate MAX_LAYERS None, mOverlay = None, mRenderTarget = None,
      mAcquireFence = -1, mComposeFlag = 0, mResetHdrMode = False, mUiUpdate = False,
      mListener = False, mTotalLayerNum = 0, mTileHwLimit = 0, mMaxBrightness = -1,
      d_comp = c, hw_layers = hw, hw_queues = qs, d_events = []\<rparr>"

definition in_range :: "int \<Rightarrow> bool" where
  "in_range index \<longleftrightarrow> 0 \<le> index \<and> index < int MAX_LAYERS"

definition releaseLayer :: "sv_ops \<Rightarrow> int \<Rightarrow> display \<Rightarrow> display" where
  "releaseLayer sv index d =
     (if \<not> in_range index then d
      else
        (let i = nat index; l = mLayers d ! i;
             d1 = (if isHdrMode l then d\<lparr>mResetHdrMode := True\<rparr> else d);
             d2 = set_layer i (resetLayer l) (d_emit (close_fence (acquireFence l)) d1)
         in d2\<lparr>mLayerVector := sv_remove sv (z_of d2) (Own i) (mLayerVector d2)\<rparr>))"

definition getLayer :: "int \<Rightarrow> display \<Rightarrow> nat option" where
  "getLayer index d =
     (if \<not> in_range index then None
      else if busy (mLayers d ! nat index) then Some (nat index) else None)"

definition getLayerByPriv :: "nat option \<Rightarrow> display \<Rightarrow> nat option" where
  "getLayerByPriv p d = first_index (\<lambda>l. busy l \<and> priv l = p) (mLayers d)"

definition getFreeLayer :: "display \<Rightarrow> nat option \<times> display" where
  "getFreeLayer d =
     (case first_index (\<lambda>l. \<not> busy l) (mLayers d) of
        None \<Rightarrow> (None, d)
      | Some i \<Rightarrow> (Some i, set_layer i ((mLayers d ! i)\<lparr>busy := True\<rparr>) d))"

definition copyLayerInfo :: "layer \<Rightarrow> layer \<Rightarrow> layer" where
  "copyLayerInfo l old =
     old\<lparr>busy := busy l, zorder := zorder l, origType := origType l, type := type l,
         handle := handle l, lastHandle := None, transform := transform l, blendMode := blendMode l,
         planeAlpha := planeAlpha l, color := color l, flags := flags l,
         sourceCrop := sourceCrop l, displayFrame := displayFrame l,
         visibleRegion := visibleRegion l, lastSourceCrop := rect0, lastDisplayFrame := rect0,
         acquireFence := acquireFence l, releaseFence := releaseFence l, lindex := lindex l,
         isHdrMode := isHdrMode l, isOverlay := isOverlay l, priv := priv l\<rparr>"

definition setLayerInfo :: "int \<Rightarrow> layer \<Rightarrow> display \<Rightarrow> display" where
  "setLayerInfo index l d =
     (if \<not> in_range index then d
      else set_layer (nat index) (copyLayerInfo l (mLayers d ! nat index)) d)"

definition setSkipLayer :: "bool \<Rightarrow> display \<Rightarrow> int \<times> display" where
  "setSkipLayer skip d =
     (0, d\<lparr>mLayers := map (\<lambda>l. l\<lparr>flags := (if skip then flags l OR SKIP_LAYER
                                            else flags l AND NOT SKIP_LAYER)\<rparr>) (mLayers d)\<rparr>)"

definition setRenderTarget :: "nat option \<Rightarrow> int \<Rightarrow> display \<Rightarrow> int \<times> display" where
  "setRenderTarget buffer fence d =
     (0, (d_emit (close_fence (mAcquireFence d)) d)\<lparr>mRenderTarget := buffer, mAcquireFence := fence\<rparr>)"

text \<open>
  \<open>getReleaseFences\<close>: \<open>live\<close> is what \<open>fcntl\<close> and \<open>fstat\<close> say of a descriptor.  The result is
  the list of (layer index, fence), and fences that are not live are forgotten.
\<close>

definition getReleaseFences :: "(int \<Rightarrow> bool) \<Rightarrow> display \<Rightarrow> (int \<times> int) list \<times> display" where
  "getReleaseFences live d =
     (map (\<lambda>l. (lindex l, releaseFence l))
        (filter (\<lambda>l. busy l \<and> releaseFence l \<ge> 0 \<and> live (releaseFence l)) (mLayers d)),
      d\<lparr>mLayers := map (\<lambda>l. if busy l \<and> releaseFence l \<ge> 0 \<and> \<not> live (releaseFence l)
                            then l\<lparr>releaseFence := -1\<rparr> else l) (mLayers d)\<rparr>)"

definition getChangedTypes :: "display \<Rightarrow> (int \<times> int) list" where
  "getChangedTypes d =
     map (\<lambda>l. (lindex l, type l)) (filter (\<lambda>l. busy l \<and> type l \<noteq> origType l) (mLayers d))"

section \<open>Layers of other processes\<close>

definition addHwLayer :: "nat \<Rightarrow> nat option \<Rightarrow> display \<Rightarrow> int \<times> display" where
  "addHwLayer index l d =
     (if l = None \<or> index \<ge> MAX_LAYERS then (- EINVAL, d)
      else (0, d\<lparr>mHwLayers := (mHwLayers d)[index := l]\<rparr>))"

definition removeHwLayer :: "sv_ops \<Rightarrow> nat \<Rightarrow> display \<Rightarrow> int \<times> display" where
  "removeHwLayer sv index d =
     (if index \<ge> MAX_LAYERS then (- EINVAL, d)
      else case mHwLayers d ! index of
        None \<Rightarrow> (0, d)
      | Some a \<Rightarrow>
          (0, d\<lparr>mLayerVector := sv_remove sv (z_of d) (Hw a) (mLayerVector d),
                mHwLayers := (mHwLayers d)[index := None]\<rparr>))"

text \<open>The queue of a registered layer, when the layer has one.\<close>

definition hw_queue :: "display \<Rightarrow> nat \<Rightarrow> nat option" where
  "hw_queue d a = (if has_flag (flags (hw_layers d a)) BUFFER_SLOT then priv (hw_layers d a) else None)"

definition hw_list :: "display \<Rightarrow> nat list" where
  "hw_list d = List.map_filter (\<lambda>x. x) (mHwLayers d)"

definition forceVync :: "display \<Rightarrow> bool" where
  "forceVync d \<longleftrightarrow> list_ex (\<lambda>a. hw_queue d a \<noteq> None) (hw_list d)"

definition triggerRefresh :: "display \<Rightarrow> display" where
  "triggerRefresh d =
     d_emit (concat (map (\<lambda>a. case hw_queue d a of
                            None \<Rightarrow> []
                          | Some q \<Rightarrow> if presentSlotCount (hw_queues d q) > 0 \<and> mListener d
                                     then [OnRefresh] else []) (hw_list d))) d"

definition directComposition :: "display \<Rightarrow> bool" where
  "directComposition d \<longleftrightarrow> \<not> list_ex busy (mLayers d) \<and> list_ex (\<lambda>h. h \<noteq> None) (mHwLayers d)"

section \<open>Device or client composition\<close>

text \<open>
  What the methods below take from outside: the libraries, \<open>SortedVector\<close>, the virtual methods of
  the subclass, and the test of a data space for full range (constants of Android).
\<close>

record disp_env =
  de_lib :: g2d_lib
  de_sv :: sv_ops
  de_checkOverlay :: "layer \<Rightarrow> bool"
  de_performOverlay :: "display \<Rightarrow> display"
  de_full_range :: "u32 \<Rightarrow> bool"

definition buffer_of :: "display \<Rightarrow> layer \<Rightarrow> memory option" where
  "buffer_of d l = (case handle l of None \<Rightarrow> None | Some a \<Rightarrow> heap (cw (d_comp d)) a)"

text \<open>A layer that only the device can compose, and one that the device must not compose.\<close>

definition device_only :: "disp_env \<Rightarrow> display \<Rightarrow> layer \<Rightarrow> bool" where
  "device_only env d l =
     (case buffer_of d l of
        None \<Rightarrow> False
      | Some m \<Rightarrow> h_fslFormat m = FORMAT_NV12_TILED \<or>
                  (ENABLE_8QM_WIDEVINE (e_cfg (l_env (de_lib env))) \<and> has_flag (h_usage m) USAGE_PROTECTED))"

definition client_only :: "disp_env \<Rightarrow> display \<Rightarrow> bool \<Rightarrow> layer \<Rightarrow> bool" where
  "client_only env d rotationCap l \<longleftrightarrow>
     (transform l \<noteq> 0 \<and> \<not> rotationCap) \<or>
     (case buffer_of d l of
        None \<Rightarrow> False
      | Some m \<Rightarrow>
          (h_fslFormat m = FORMAT_NV12 \<and> de_full_range env (dataspace l)) \<or>
          (WORKAROUND_DPU_ALPHA_BLENDING (e_cfg (l_env (de_lib env))) \<and> planeAlpha l \<noteq> 0xff \<and>
           blendMode l = BLENDING_PREMULT \<and>
           h_fslFormat m \<in> {FORMAT_RGBA8888, FORMAT_BGRA8888, FORMAT_RGBA1010102, FORMAT_RGBAFP16}))"

text \<open>The loop over the slots: each has its registered layer (if any) and its own layer.\<close>

fun check2D_loop ::
    "disp_env \<Rightarrow> display \<Rightarrow> bool \<Rightarrow> (nat option \<times> layer) list \<Rightarrow> bool \<Rightarrow> bool" where
  "check2D_loop env d cap [] use2D = use2D"
| "check2D_loop env d cap ((hw, l) # rest) use2D =
     (if hw \<noteq> None then True
      else if \<not> busy l then check2D_loop env d cap rest use2D
      else if device_only env d l then True
      else check2D_loop env d cap rest (if client_only env d cap l then False else use2D))"

definition with_comp :: "('r \<times> composer) \<Rightarrow> display \<Rightarrow> 'r \<times> display" where
  "with_comp rc d = (fst rc, d\<lparr>d_comp := snd rc\<rparr>)"

definition check2DComposition :: "disp_env \<Rightarrow> display \<Rightarrow> bool \<times> display" where
  "check2DComposition env d =
     (let lib = de_lib env;
          (cap, d1) = with_comp (isFeatureSupported lib G2D_ROTATION (d_comp d)) d;
          (valid, d2) = with_comp (isValid lib (d_comp d1)) d1
      in (if \<not> valid \<or> isDisabled (d_comp d2) then False
          else if forceVync d2 then True
          else check2D_loop env d2 cap (zip (mHwLayers d2) (mLayers d2)) (is2DComposition (d_comp d2)), d2))"

text \<open>
  The first loop of \<open>verifyLayers\<close>, for a busy layer: its composition type, and whether the device
  may still compose.
\<close>

definition classify :: "layer \<Rightarrow> layer \<times> bool" where
  "classify l =
     (let skip = has_flag (flags l) SKIP_LAYER;
          l1 = (if skip then l\<lparr>type := LAYER_TYPE_CLIENT\<rparr> else l);
          t = origType l
      in if t = LAYER_TYPE_CLIENT then (l1, False)
         else if t = LAYER_TYPE_SOLID_COLOR
           then (l1\<lparr>blendMode := BLENDING_DIM, type := LAYER_TYPE_SOLID_COLOR\<rparr>, \<not> skip)
         else if t = LAYER_TYPE_SIDEBAND then (l1\<lparr>type := LAYER_TYPE_SIDEBAND\<rparr>, \<not> skip)
         else if t = LAYER_TYPE_DEVICE then (l1\<lparr>type := LAYER_TYPE_DEVICE\<rparr>, \<not> skip)
         else if t = LAYER_TYPE_CURSOR then (l1\<lparr>type := LAYER_TYPE_DEVICE\<rparr>, \<not> skip)
         else (l1, False))"

definition classify_all :: "layer list \<Rightarrow> layer list" where
  "classify_all ls = map (\<lambda>l. if busy l then fst (classify l) else l) ls"

definition device_ok :: "layer list \<Rightarrow> bool" where
  "device_ok ls \<longleftrightarrow> list_all (\<lambda>l. busy l \<longrightarrow> snd (classify l)) ls"

text \<open>
  The second loop: \<open>v_z\<close> is the map \<open>layerZVector\<close>, an association list with the first entry of each
  z-order (\<open>emplace\<close>).
\<close>

record vstate =
  v_layers :: "layer list"
  v_ov :: "nat option"
  v_flag :: i32
  v_total :: int
  v_z :: "(i32 \<times> rect) list"
  v_ui :: bool
  v_vec :: "layer_ref list"

definition to_client :: "layer \<Rightarrow> layer" where
  "to_client l = l\<lparr>type := LAYER_TYPE_CLIENT, lastHandle := handle l, lastSourceCrop := sourceCrop l,
                   lastDisplayFrame := displayFrame l\<rparr>"

definition ui_changed :: "layer \<Rightarrow> bool" where
  "ui_changed l \<longleftrightarrow> handle l \<noteq> lastHandle l \<or> lastSourceCrop l \<noteq> sourceCrop l \<or>
                   lastDisplayFrame l \<noteq> displayFrame l"

definition z_emplace :: "i32 \<Rightarrow> rect \<Rightarrow> (i32 \<times> rect) list \<Rightarrow> (i32 \<times> rect) list" where
  "z_emplace z r zs = (if z \<in> fst ` set zs then zs else zs @ [(z, r)])"

definition assign_layer :: "disp_env \<Rightarrow> display \<Rightarrow> bool \<Rightarrow> nat \<Rightarrow> vstate \<Rightarrow> vstate" where
  "assign_layer env d dev idx v =
     (let l = v_layers v ! idx
      in if \<not> dev then
           v\<lparr>v_layers := (v_layers v)[idx := to_client l], v_flag := v_flag v OR CLIENT_COMPOSE_MASK,
             v_total := v_total v + 1, v_z := z_emplace (zorder l) (displayFrame l) (v_z v),
             v_ui := v_ui v \<or> ui_changed l\<rparr>
         else v\<lparr>v_vec := sv_add (de_sv env) (z_of (d\<lparr>mLayers := v_layers v\<rparr>)) (Own idx) (v_vec v),
                v_total := v_total v + 1\<rparr>)"

definition protected_buffer :: "display \<Rightarrow> layer \<Rightarrow> bool option" where
  "protected_buffer d l = map_option (\<lambda>m. has_flag (h_usage m) USAGE_PROTECTED) (buffer_of d l)"

definition assign_step :: "disp_env \<Rightarrow> display \<Rightarrow> bool \<Rightarrow> nat \<Rightarrow> vstate \<Rightarrow> vstate" where
  "assign_step env d dev i v =
     (let l = v_layers v ! i
      in if \<not> busy l then v
         else if de_checkOverlay env l then
           (case v_ov v of
              None \<Rightarrow> v\<lparr>v_ov := Some i\<rparr>
            | Some o' \<Rightarrow>
                if HAVE_UNMAPPED_HEAP (e_cfg (l_env (de_lib env))) \<and>
                   protected_buffer d l = Some True \<and> protected_buffer d (v_layers v ! o') = Some False
                then assign_layer env d dev o'
                       (v\<lparr>v_layers := (v_layers v)[o' := (v_layers v ! o')\<lparr>isOverlay := False\<rparr>],
                          v_ov := Some i\<rparr>)
                else assign_layer env d dev i v)
         else assign_layer env d dev i v)"

definition contains :: "rect \<Rightarrow> rect \<Rightarrow> bool" where
  "contains outer inner \<longleftrightarrow>
     r_left outer \<le> r_left inner \<and> r_right inner \<le> r_right outer \<and> r_top outer \<le> r_top inner \<and>
     r_bottom inner \<le> r_bottom outer"

text \<open>The overlay candidate is used unless a client layer below it covers it.\<close>

definition overlay_ok :: "(i32 \<times> rect) list \<Rightarrow> layer \<Rightarrow> bool" where
  "overlay_ok zs l \<longleftrightarrow> \<not> list_ex (\<lambda>(z, r). z <s zorder l \<and> contains r (displayFrame l)) zs"

definition choose_overlay :: "display \<Rightarrow> vstate \<Rightarrow> display" where
  "choose_overlay d v =
     (let d1 = d\<lparr>mLayers := v_layers v, mComposeFlag := v_flag v, mTotalLayerNum := v_total v,
                 mUiUpdate := v_ui v, mLayerVector := v_vec v\<rparr>
      in case v_ov v of
           None \<Rightarrow> d1
         | Some o' \<Rightarrow>
             (let l = v_layers v ! o'
              in if overlay_ok (v_z v) l
                 then (set_layer o' (l\<lparr>isOverlay := True, type := LAYER_TYPE_DEVICE\<rparr>) d1)
                        \<lparr>mOverlay := Some o', mComposeFlag := v_flag v OR OVERLAY_COMPOSE_MASK\<rparr>
                 else (set_layer o' (l\<lparr>type := LAYER_TYPE_CLIENT\<rparr>) d1)
                        \<lparr>mComposeFlag := v_flag v OR CLIENT_COMPOSE_MASK,
                         mTotalLayerNum := v_total v + 1\<rparr>))"

text \<open>The layers without a source, the background of a \<open>SurfaceView\<close>, are skipped beside an overlay.\<close>

definition skip_background :: "display \<Rightarrow> display" where
  "skip_background d =
     d\<lparr>mLayers := map (\<lambda>l. if busy l \<and> sourceCrop l = rect0 \<and>
                              has_flag (mComposeFlag d) OVERLAY_COMPOSE_MASK
                           then l\<lparr>type := LAYER_TYPE_DEVICE\<rparr> else l) (mLayers d)\<rparr>"

text \<open>\<open>ONLY_OVERLAY\<close>; the counter is the static variable \<open>only_overlay_cnt\<close>.\<close>

definition only_overlay :: "i32 \<Rightarrow> nat \<Rightarrow> display \<Rightarrow> nat \<times> display" where
  "only_overlay lastFlag0 cnt0 d =
     (let lastFlag = lastFlag0 AND NOT ONLY_OVERLAY_MASK
      in if \<not> has_flag (mComposeFlag d) CLIENT_COMPOSE_MASK \<and> has_flag (mComposeFlag d) OVERLAY_COMPOSE_MASK
         then (let cnt = (if has_flag lastFlag CLIENT_COMPOSE_MASK then 1 else cnt0)
               in if lastFlag = mComposeFlag d
                  then (if cnt > 0
                        then (cnt - 1, d\<lparr>mComposeFlag := mComposeFlag d OR ONLY_OVERLAY_MASK\<rparr>)
                        else (cnt, d\<lparr>mComposeFlag := mComposeFlag d AND NOT ONLY_OVERLAY_MASK\<rparr>))
                  else (cnt, d\<lparr>mComposeFlag := mComposeFlag d OR ONLY_OVERLAY_MASK\<rparr>))
         else (cnt0, d))"

definition keep_ui :: "display \<Rightarrow> display" where
  "keep_ui d =
     (if has_flag (mComposeFlag d) OVERLAY_COMPOSE_MASK \<and> has_flag (mComposeFlag d) LAST_OVERLAY_MASK \<and>
         \<not> mUiUpdate d
      then d\<lparr>mLayers := map (\<lambda>l. if busy l \<and> \<not> isOverlay l \<and> type l = LAYER_TYPE_CLIENT
                                 then l\<lparr>type := LAYER_TYPE_DEVICE\<rparr> else l) (mLayers d)\<rparr>
      else d)"

definition verifyLayers :: "disp_env \<Rightarrow> nat \<Rightarrow> display \<Rightarrow> bool \<times> nat \<times> display" where
  "verifyLayers env cnt d =
     (let lastFlag = mComposeFlag d; lastTotal = mTotalLayerNum d;
          d0 = d\<lparr>mUiUpdate := False, mLayerVector := [], mTotalLayerNum := 0\<rparr>;
          (dev0, d1) = check2DComposition env d0;
          dev1 = (dev0 \<and> device_ok (mLayers d1));
          d2 = d1\<lparr>mLayers := classify_all (mLayers d1)\<rparr>;
          (valid, d3) = with_comp (isValid (de_lib env) (d_comp d2)) d2;
          dev = (dev1 \<and> valid \<and> \<not> isDisabled (d_comp d3));
          v0 = \<lparr>v_layers = mLayers d3, v_ov = None,
                v_flag = push_bit 1 (mComposeFlag d3 AND OVERLAY_COMPOSE_MASK), v_total = 0, v_z = [],
                v_ui = False, v_vec = []\<rparr>;
          v = fold (assign_step env d3 dev) [0..<length (mLayers d3)] v0;
          d4 = choose_overlay d3 v;
          d5 = (if mTotalLayerNum d4 \<noteq> lastTotal then d4\<lparr>mUiUpdate := True\<rparr> else d4);
          d6 = skip_background d5;
          (cnt', d7) = only_overlay lastFlag cnt d6
      in (dev, cnt', keep_ui d7))"

end
