(* ===== verification/Display_Verify.thy ===== *)
theory Display_Verify
  imports Display_Layers
begin

text \<open>
  Correctness of \<open>Display::verifyLayers\<close> (\<open>display/display/Display.cpp\<close>): every layer in use is
  composed by someone.  The second loop of the method keeps an invariant (\<open>loop_base\<close> with
  \<open>loop_dev\<close> or \<open>loop_client\<close>), and the stages after it only turn layers into device layers.
\<close>

section \<open>Every layer is composed by someone\<close>

definition same_layer :: "layer \<Rightarrow> layer \<Rightarrow> bool" where
  "same_layer a b \<longleftrightarrow> busy a = busy b \<and> zorder a = zorder b \<and> sourceCrop a = sourceCrop b \<and>
     displayFrame a = displayFrame b"

lemma same_layer_refl [simp]: "same_layer a a"
  by (simp add: same_layer_def)

lemma z_of_update:
  "zorder l = zorder (ls ! i) \<Longrightarrow> z_of (d\<lparr>mLayers := ls[i := l]\<rparr>) = z_of (d\<lparr>mLayers := ls\<rparr>)"
proof (rule ext)
  fix r
  assume a: "zorder l = zorder (ls ! i)"
  have "zorder (ls[i := l] ! j) = zorder (ls ! j)" for j
    using a by (cases "j = i"; cases "i < length ls") (auto simp: not_less list_update_beyond)
  then show "z_of (d\<lparr>mLayers := ls[i := l]\<rparr>) r = z_of (d\<lparr>mLayers := ls\<rparr>) r"
    by (simp add: z_of_def split: layer_ref.split)
qed

text \<open>The z-orders of the layers in use: distinct, and not negative.\<close>

definition z_distinct :: "layer list \<Rightarrow> bool" where
  "z_distinct ls \<longleftrightarrow>
     (\<forall>i<length ls. busy (ls ! i) \<longrightarrow> 0 \<le> sint (zorder (ls ! i)) \<and>
        (\<forall>j<i. busy (ls ! j) \<longrightarrow> zorder (ls ! j) \<noteq> zorder (ls ! i)))"

lemma own_compare:
  assumes "z_distinct ls" "i < length ls" "j < length ls" "busy (ls ! i)" "busy (ls ! j)"
  shows "do_compare (zorder (ls ! i)) (zorder (ls ! j)) \<noteq> 0 \<longleftrightarrow> i \<noteq> j"
proof
  assume "i \<noteq> j"
  then have "zorder (ls ! i) \<noteq> zorder (ls ! j)"
    using assms unfolding z_distinct_def by (metis linorder_neq_iff)
  moreover have "0 \<le> sint (zorder (ls ! i))" "0 \<le> sint (zorder (ls ! j))"
    using assms unfolding z_distinct_def by auto
  ultimately show "do_compare (zorder (ls ! i)) (zorder (ls ! j)) \<noteq> 0"
    by (simp add: do_compare_nonneg) (metis signed_word_eqI)
qed auto

abbreviation z0 :: "display \<Rightarrow> layer list \<Rightarrow> layer_ref \<Rightarrow> i32" where
  "z0 d ls \<equiv> z_of (d\<lparr>mLayers := ls\<rparr>)"

lemma sv_add_own:
  assumes "sv_ok sv" "z_distinct ls" "z_sorted (z0 d ls) vec"
    and "set vec \<subseteq> Own ` {j. j < length ls \<and> busy (ls ! j)}" "i < length ls" "busy (ls ! i)"
  shows "set (sv_add sv (z0 d ls) (Own i) vec) = insert (Own i) (set vec) \<and>
         z_sorted (z0 d ls) (sv_add sv (z0 d ls) (Own i) vec)"
proof -
  have ok: "z_ok (z0 d ls) (insert (Own i) (set vec))"
    using assms(2,4-6) unfolding z_ok_def z_distinct_def by (auto simp: z_of_def)
  have "{x \<in> set vec. do_compare (z0 d ls x) (z0 d ls (Own i)) \<noteq> 0} = set vec - {Own i}"
    using assms(4) own_compare[OF assms(2) _ assms(5) _ assms(6)] by (fastforce simp: z_of_def)
  then show ?thesis using assms(1,3) ok unfolding sv_ok_def by fastforce
qed

text \<open>
  The invariant of the second loop of \<open>verifyLayers\<close>, after \<open>k\<close> layers: whatever else changes, the
  layers keep their slots; with device composition every layer is in the vector or is the overlay
  candidate, and without it every layer is a client layer or the overlay candidate.
\<close>

definition loop_base :: "display \<Rightarrow> layer list \<Rightarrow> nat \<Rightarrow> vstate \<Rightarrow> bool" where
  "loop_base d ls k v \<longleftrightarrow>
     length (v_layers v) = length ls \<and> (\<forall>j<length ls. same_layer (v_layers v ! j) (ls ! j)) \<and>
     z0 d (v_layers v) = z0 d ls \<and> (\<forall>o'. v_ov v = Some o' \<longrightarrow> o' < k \<and> busy (ls ! o'))"

definition loop_dev :: "display \<Rightarrow> layer list \<Rightarrow> nat \<Rightarrow> vstate \<Rightarrow> bool" where
  "loop_dev d ls k v \<longleftrightarrow>
     v_z v = [] \<and> (\<forall>j<length ls. type (v_layers v ! j) = type (ls ! j)) \<and>
     z_sorted (z0 d ls) (v_vec v) \<and> set (v_vec v) \<subseteq> Own ` {j. j < k \<and> busy (ls ! j)} \<and>
     (\<forall>j<k. busy (ls ! j) \<longrightarrow> Own j \<in> set (v_vec v) \<or> v_ov v = Some j)"

definition loop_client :: "layer list \<Rightarrow> nat \<Rightarrow> vstate \<Rightarrow> bool" where
  "loop_client ls k v \<longleftrightarrow>
     v_vec v = [] \<and>
     (\<forall>j<k. busy (ls ! j) \<longrightarrow> type (v_layers v ! j) = LAYER_TYPE_CLIENT \<or> v_ov v = Some j)"

lemma assign_layer_simps [simp]:
  "v_ov (assign_layer env d dev i v) = v_ov v"
  "v_layers (assign_layer env d dev i v) =
     (if dev then v_layers v else (v_layers v)[i := to_client (v_layers v ! i)])"
  "v_vec (assign_layer env d dev i v) =
     (if dev then sv_add (de_sv env) (z0 d (v_layers v)) (Own i) (v_vec v) else v_vec v)"
  "v_z (assign_layer env d True i v) = v_z v"
  by (simp_all add: assign_layer_def Let_def)

lemma to_client_simps [simp]:
  "type (to_client l) = LAYER_TYPE_CLIENT" "zorder (to_client l) = zorder l" "same_layer (to_client l) l"
  "busy (to_client l) = busy l" "sourceCrop (to_client l) = sourceCrop l"
  "displayFrame (to_client l) = displayFrame l" "same_layer (to_client l) l' = same_layer l l'"
  by (simp_all add: to_client_def same_layer_def)

lemma assign_step_cases:
  assumes "loop_base d ls k v" "k < length ls"
  obtains (idle) "\<not> busy (ls ! k)" "assign_step env d dev k v = v"
  | (first) "busy (ls ! k)" "v_ov v = None" "assign_step env d dev k v = v\<lparr>v_ov := Some k\<rparr>"
  | (swap) o' where "busy (ls ! k)" "v_ov v = Some o'" "o' < k" "busy (ls ! o')"
      "assign_step env d dev k v = assign_layer env d dev o'
         (v\<lparr>v_layers := (v_layers v)[o' := (v_layers v ! o')\<lparr>isOverlay := False\<rparr>], v_ov := Some k\<rparr>)"
  | (plain) "busy (ls ! k)" "assign_step env d dev k v = assign_layer env d dev k v"
proof -
  have "busy (v_layers v ! k) = busy (ls ! k)" using assms by (simp add: loop_base_def same_layer_def)
  then have b: "busy (v_layers v ! k) = busy (ls ! k)" .
  let ?swap = "\<lambda>o'. HAVE_UNMAPPED_HEAP (e_cfg (l_env (de_lib env))) \<and>
       protected_buffer d (v_layers v ! k) = Some True \<and> protected_buffer d (v_layers v ! o') = Some False"
  show thesis
  proof (cases "busy (ls ! k) \<and> de_checkOverlay env (v_layers v ! k)")
    case False
    then show ?thesis using idle plain b by (cases "busy (ls ! k)") (simp_all add: assign_step_def Let_def)
  next
    case True
    show ?thesis
    proof (cases "v_ov v")
      case None
      then show ?thesis using True b by (intro first) (simp_all add: assign_step_def Let_def)
    next
      case (Some o')
      then have o': "o' < k" "busy (ls ! o')" using assms(1) by (auto simp: loop_base_def)
      show ?thesis
      proof (cases "?swap o'")
        case True
        with Some o' b \<open>busy (ls ! k) \<and> _\<close> show ?thesis
          by (intro swap[of o']) (simp_all add: assign_step_def Let_def)
      next
        case False
        then have "assign_step env d dev k v = assign_layer env d dev k v"
          using Some b \<open>busy (ls ! k) \<and> _\<close> by (auto simp: assign_step_def Let_def)
        then show ?thesis using plain True by simp
      qed
    qed
  qed
qed

lemma loop_base_step:
  assumes "loop_base d ls k v" "k < length ls"
  shows "loop_base d ls (Suc k) (assign_step env d dev k v)"
  using assms
proof (cases rule: assign_step_cases[where env = env and dev = dev])
  case idle
  then show ?thesis using assms by (auto simp: loop_base_def)
next
  case first
  then show ?thesis using assms by (auto simp: loop_base_def)
next
  case (swap o')
  then show ?thesis using assms
    by (auto simp: loop_base_def z_of_update nth_list_update same_layer_def)
next
  case plain
  then show ?thesis using assms
    by (auto simp: loop_base_def z_of_update nth_list_update same_layer_def)
qed

lemma loop_dev_step:
  assumes "sv_ok (de_sv env)" "z_distinct ls" "loop_base d ls k v" "loop_dev d ls k v" "k < length ls"
  shows "loop_dev d ls (Suc k) (assign_step env d True k v)"
proof -
  have z: "z0 d (v_layers v) = z0 d ls" and len: "length (v_layers v) = length ls" using assms(3) by (auto simp: loop_base_def)
  have add: "set (sv_add (de_sv env) (z0 d ls) (Own i) (v_vec v)) = insert (Own i) (set (v_vec v)) \<and>
         z_sorted (z0 d ls) (sv_add (de_sv env) (z0 d ls) (Own i) (v_vec v))"
    if "i < length ls" "busy (ls ! i)" for i
    using assms(4,5) that by (intro sv_add_own[OF assms(1,2)]) (auto simp: loop_dev_def)
  show ?thesis
    using assms(3,5)
  proof (cases rule: assign_step_cases[where env = env and dev = True])
    case idle
    then show ?thesis using assms(4) by (auto simp: loop_dev_def less_Suc_eq)
  next
    case first
    then show ?thesis using assms(4) by (auto simp: loop_dev_def less_Suc_eq)
  next
    case (swap o')
    then show ?thesis using assms(4,5) add[of o'] len
      by (auto simp: loop_dev_def less_Suc_eq z_of_update z nth_list_update)
  next
    case plain
    then show ?thesis using assms(4,5) add[of k]
      by (auto simp: loop_dev_def less_Suc_eq z)
  qed
qed

lemma loop_client_step:
  assumes "loop_base d ls k v" "loop_client ls k v" "k < length ls"
  shows "loop_client ls (Suc k) (assign_step env d False k v)"
  using assms(1,3)
proof (cases rule: assign_step_cases[where env = env and dev = False])
  case idle
  then show ?thesis using assms by (auto simp: loop_client_def less_Suc_eq)
next
  case first
  then show ?thesis using assms by (auto simp: loop_client_def less_Suc_eq)
next
  case (swap o')
  then show ?thesis using assms by (auto simp: loop_client_def loop_base_def less_Suc_eq nth_list_update)
next
  case plain
  then show ?thesis using assms by (auto simp: loop_client_def loop_base_def less_Suc_eq nth_list_update)
qed

lemma check2D_state: "\<exists>c. snd (check2DComposition env d) = d\<lparr>d_comp := c\<rparr>"
  by (auto simp: check2DComposition_def with_comp_def Let_def case_prod_beta)

lemma classify_simps [simp]:
  "busy (fst (classify l)) = busy l" "zorder (fst (classify l)) = zorder l"
  "sourceCrop (fst (classify l)) = sourceCrop l" "displayFrame (fst (classify l)) = displayFrame l"
  by (simp_all add: classify_def Let_def)

lemma classify_device: "snd (classify l) \<Longrightarrow> type (fst (classify l)) \<noteq> LAYER_TYPE_CLIENT"
  by (auto simp: classify_def Let_def split: if_split_asm)

text \<open>The state in which the second loop of \<open>verifyLayers\<close> starts, and how the rest follows.\<close>

definition loop_init :: "layer list \<Rightarrow> i32 \<Rightarrow> vstate" where
  "loop_init ls flag =
     \<lparr>v_layers = ls, v_ov = None, v_flag = push_bit 1 (flag AND OVERLAY_COMPOSE_MASK), v_total = 0,
      v_z = [], v_ui = False, v_vec = []\<rparr>"

definition finish_verify :: "nat \<Rightarrow> i32 \<Rightarrow> int \<Rightarrow> display \<Rightarrow> nat \<times> display" where
  "finish_verify cnt lastFlag lastTotal d4 =
     (let d5 = (if mTotalLayerNum d4 \<noteq> lastTotal then d4\<lparr>mUiUpdate := True\<rparr> else d4);
          (cnt', d7) = only_overlay lastFlag cnt (skip_background d5)
      in (cnt', keep_ui d7))"

lemma verifyLayers_split:
  assumes "verifyLayers env cnt d = (dev, cnt', d')"
  obtains c where
    "dev \<Longrightarrow> device_ok (mLayers d)"
    "finish_verify cnt (mComposeFlag d) (mTotalLayerNum d)
       (choose_overlay (d\<lparr>mUiUpdate := False, mLayerVector := [], mTotalLayerNum := 0, d_comp := c,
                          mLayers := classify_all (mLayers d)\<rparr>)
         (fold (assign_step env (d\<lparr>mUiUpdate := False, mLayerVector := [], mTotalLayerNum := 0, d_comp := c,
                          mLayers := classify_all (mLayers d)\<rparr>) dev) [0..<length (mLayers d)]
           (loop_init (classify_all (mLayers d)) (mComposeFlag d)))) = (cnt', d')"
proof -
  let ?d0 = "d\<lparr>mUiUpdate := False, mLayerVector := [], mTotalLayerNum := 0\<rparr>"
  obtain c where c: "snd (check2DComposition env ?d0) = ?d0\<lparr>d_comp := c\<rparr>"
    using check2D_state by blast
  let ?v = "isValid (de_lib env) c"
  have ex: "d\<lparr>mUiUpdate := False, mLayerVector := [], mTotalLayerNum := 0, d_comp := c, mLayers := x, d_comp := y\<rparr>
     = d\<lparr>mUiUpdate := False, mLayerVector := [], mTotalLayerNum := 0, d_comp := y, mLayers := x\<rparr>" for x y by simp
  show thesis
    by (rule that[of "snd ?v"])
       (use assms c in \<open>auto simp: verifyLayers_def with_comp_def Let_def case_prod_beta finish_verify_def
          loop_init_def classify_all_def ex\<close>)
qed


lemma overlay_mask_bits [simp]:
  "has_flag (x OR ONLY_OVERLAY_MASK) OVERLAY_COMPOSE_MASK = has_flag x OVERLAY_COMPOSE_MASK"
  "has_flag (x OR ONLY_OVERLAY_MASK) LAST_OVERLAY_MASK = has_flag x LAST_OVERLAY_MASK"
  "has_flag (x OR ONLY_OVERLAY_MASK) CLIENT_COMPOSE_MASK = has_flag x CLIENT_COMPOSE_MASK"
  by (simp_all add: has_flag_def[of ONLY_OVERLAY_MASK]) (simp_all add: compose_masks)

lemma overlay_mask_clear [simp]:
  "has_flag (x AND NOT ONLY_OVERLAY_MASK) OVERLAY_COMPOSE_MASK = has_flag x OVERLAY_COMPOSE_MASK"
  "has_flag (x AND NOT ONLY_OVERLAY_MASK) LAST_OVERLAY_MASK = has_flag x LAST_OVERLAY_MASK"
  "has_flag (x AND NOT ONLY_OVERLAY_MASK) CLIENT_COMPOSE_MASK = has_flag x CLIENT_COMPOSE_MASK"
  by (rule has_flag_clear_other, simp add: compose_masks)+

lemma only_overlay_state:
  "\<exists>f. snd (only_overlay lastFlag cnt d) = d\<lparr>mComposeFlag := f\<rparr> \<and>
     has_flag f OVERLAY_COMPOSE_MASK = has_flag (mComposeFlag d) OVERLAY_COMPOSE_MASK \<and>
     has_flag f LAST_OVERLAY_MASK = has_flag (mComposeFlag d) LAST_OVERLAY_MASK \<and>
     has_flag f CLIENT_COMPOSE_MASK = has_flag (mComposeFlag d) CLIENT_COMPOSE_MASK"
  unfolding only_overlay_def Let_def
  by (auto simp del: has_flag_or intro: exI[of _ "mComposeFlag d"] exI[of _ "mComposeFlag d OR ONLY_OVERLAY_MASK"]
      exI[of _ "mComposeFlag d AND NOT ONLY_OVERLAY_MASK"])

text \<open>What the last stages may change of a layer: its type, to \<open>LAYER_TYPE_DEVICE\<close>.\<close>

lemma finish_verify_state:
  assumes "finish_verify cnt lastFlag lastTotal d = (cnt', d')"
  shows "mLayerVector d' = mLayerVector d" "mOverlay d' = mOverlay d" "hw_layers d' = hw_layers d"
    "length (mLayers d') = length (mLayers d)"
    "has_flag (mComposeFlag d') OVERLAY_COMPOSE_MASK = has_flag (mComposeFlag d) OVERLAY_COMPOSE_MASK"
    "i < length (mLayers d) \<Longrightarrow> same_layer (mLayers d' ! i) (mLayers d ! i) \<and>
       (type (mLayers d' ! i) = type (mLayers d ! i) \<or>
        type (mLayers d' ! i) = LAYER_TYPE_DEVICE \<and> has_flag (mComposeFlag d') OVERLAY_COMPOSE_MASK \<and>
        (sourceCrop (mLayers d ! i) = rect0 \<or>
         has_flag (mComposeFlag d') LAST_OVERLAY_MASK \<and> \<not> mUiUpdate d'))"
proof -
  let ?d5 = "if mTotalLayerNum d \<noteq> lastTotal then d\<lparr>mUiUpdate := True\<rparr> else d"
  obtain f where f: "snd (only_overlay lastFlag cnt (skip_background ?d5)) = (skip_background ?d5)\<lparr>mComposeFlag := f\<rparr>"
     "has_flag f OVERLAY_COMPOSE_MASK = has_flag (mComposeFlag (skip_background ?d5)) OVERLAY_COMPOSE_MASK"
    using only_overlay_state by blast
  have d': "d' = keep_ui ((skip_background ?d5)\<lparr>mComposeFlag := f\<rparr>)"
    using assms f(1) by (simp add: finish_verify_def Let_def case_prod_beta)
  show "mLayerVector d' = mLayerVector d" "mOverlay d' = mOverlay d" "hw_layers d' = hw_layers d"
    "length (mLayers d') = length (mLayers d)"
    by (simp_all add: d' keep_ui_def skip_background_def)
  show "has_flag (mComposeFlag d') OVERLAY_COMPOSE_MASK = has_flag (mComposeFlag d) OVERLAY_COMPOSE_MASK"
    using f(2) by (simp add: d' keep_ui_def skip_background_def)
  show "i < length (mLayers d) \<Longrightarrow> same_layer (mLayers d' ! i) (mLayers d ! i) \<and>
       (type (mLayers d' ! i) = type (mLayers d ! i) \<or>
        type (mLayers d' ! i) = LAYER_TYPE_DEVICE \<and> has_flag (mComposeFlag d') OVERLAY_COMPOSE_MASK \<and>
        (sourceCrop (mLayers d ! i) = rect0 \<or>
         has_flag (mComposeFlag d') LAST_OVERLAY_MASK \<and> \<not> mUiUpdate d'))"
    using f(2) by (auto simp: d' keep_ui_def skip_background_def same_layer_def)
qed

lemma overlay_mask_nz: "OVERLAY_COMPOSE_MASK \<noteq> 0"
  by (simp add: OVERLAY_COMPOSE_MASK_def)

lemma choose_overlay_state:
  "mLayerVector (choose_overlay d v) = v_vec v" "hw_layers (choose_overlay d v) = hw_layers d"
  "length (mLayers (choose_overlay d v)) = length (v_layers v)"
  "j < length (v_layers v) \<Longrightarrow> same_layer (mLayers (choose_overlay d v) ! j) (v_layers v ! j)"
  "j < length (v_layers v) \<Longrightarrow> v_ov v \<noteq> Some j \<Longrightarrow> mLayers (choose_overlay d v) ! j = v_layers v ! j"
  "j < length (v_layers v) \<Longrightarrow> v_ov v = Some j \<Longrightarrow> overlay_ok (v_z v) (v_layers v ! j) \<Longrightarrow>
     mOverlay (choose_overlay d v) = Some j \<and> has_flag (mComposeFlag (choose_overlay d v)) OVERLAY_COMPOSE_MASK \<and>
     type (mLayers (choose_overlay d v) ! j) = LAYER_TYPE_DEVICE"
  "j < length (v_layers v) \<Longrightarrow> v_ov v = Some j \<Longrightarrow> \<not> overlay_ok (v_z v) (v_layers v ! j) \<Longrightarrow>
     type (mLayers (choose_overlay d v) ! j) = LAYER_TYPE_CLIENT"
  by (auto simp: choose_overlay_def Let_def set_layer_def same_layer_def nth_update_if has_flag_def[of OVERLAY_COMPOSE_MASK]
      overlay_mask_nz split: option.split)

lemma z_sorted_cong: "(\<And>x. x \<in> set rs \<Longrightarrow> z x = z' x) \<Longrightarrow> z_sorted z rs = z_sorted z' rs"
  by (induction rs) (auto simp: z_sorted_def)

text \<open>
  When \<open>verifyLayers\<close> answers that the device composes, it composes everything: no layer in use is
  left to the client, and each is in the composition list or is the overlay.  The list is in
  z-order.
\<close>

lemma verify_device_complete:
  assumes "sv_ok (de_sv env)" "z_distinct (mLayers d)" "verifyLayers env cnt d = (True, cnt', d')"
  shows "z_sorted (z_of d') (mLayerVector d') \<and>
    (\<forall>i<length (mLayers d). busy (mLayers d ! i) \<longrightarrow>
       type (mLayers d' ! i) \<noteq> LAYER_TYPE_CLIENT \<and>
       (Own i \<in> set (mLayerVector d') \<or> mOverlay d' = Some i))"
proof -
  let ?ls = "classify_all (mLayers d)" and ?n = "length (mLayers d)"
  from verifyLayers_split[OF assms(3)] obtain c where ok: "device_ok (mLayers d)" and
    fin: "finish_verify cnt (mComposeFlag d) (mTotalLayerNum d)
       (choose_overlay (d\<lparr>mUiUpdate := False, mLayerVector := [], mTotalLayerNum := 0, d_comp := c, mLayers := ?ls\<rparr>)
         (fold (assign_step env (d\<lparr>mUiUpdate := False, mLayerVector := [], mTotalLayerNum := 0, d_comp := c,
                          mLayers := ?ls\<rparr>) True) [0..<?n] (loop_init ?ls (mComposeFlag d)))) = (cnt', d')"
    by auto
  define d3 where "d3 = d\<lparr>mUiUpdate := False, mLayerVector := [], mTotalLayerNum := 0, d_comp := c, mLayers := ?ls\<rparr>"
  define v where "v = fold (assign_step env d3 True) [0..<?n] (loop_init ?ls (mComposeFlag d))"
  note fin = fin[folded d3_def, folded v_def]
  have len: "length ?ls = ?n" by (simp add: classify_all_def)
  have zd: "z_distinct ?ls" using assms(2) by (auto simp: z_distinct_def classify_all_def)
  have inv: "loop_base d3 ?ls ?n v \<and> loop_dev d3 ?ls ?n v"
    unfolding v_def
  proof (rule fold_upt_inv[where P = "\<lambda>k v. loop_base d3 ?ls k v \<and> loop_dev d3 ?ls k v"])
    show "loop_base d3 ?ls 0 (loop_init ?ls (mComposeFlag d)) \<and> loop_dev d3 ?ls 0 (loop_init ?ls (mComposeFlag d))"
      by (simp add: loop_base_def loop_dev_def loop_init_def z_sorted_def)
  next
    fix k s
    assume "k < ?n" "loop_base d3 ?ls k s \<and> loop_dev d3 ?ls k s"
    then show "loop_base d3 ?ls (Suc k) (assign_step env d3 True k s) \<and>
          loop_dev d3 ?ls (Suc k) (assign_step env d3 True k s)"
      using loop_base_step loop_dev_step[OF assms(1) zd] len by auto
  qed
  note fs = finish_verify_state[OF fin] and cs = choose_overlay_state[where d = d3 and v = v]
  have vl: "length (v_layers v) = ?n" using inv len by (simp add: loop_base_def)
  have sl: "same_layer (mLayers d' ! i) (mLayers d ! i) \<and> same_layer (v_layers v ! i) (?ls ! i)" if "i < ?n" for i
  proof -
    have "same_layer (mLayers d' ! i) (v_layers v ! i)" "same_layer (v_layers v ! i) (?ls ! i)"
      using fs(6)[of i] cs(3) cs(4)[of i] inv that len vl by (auto simp: loop_base_def same_layer_def)
    moreover have "same_layer (?ls ! i) (mLayers d ! i)" using that by (simp add: classify_all_def same_layer_def)
    ultimately show ?thesis by (simp add: same_layer_def)
  qed
  have sorted: "z_sorted (z_of d') (v_vec v)"
  proof -
    have "z_of d' r = z0 d3 ?ls r" if "r \<in> set (v_vec v)" for r
      using inv that sl len by (auto simp: loop_dev_def z_of_def same_layer_def classify_all_def)
    moreover have "z_sorted (z0 d3 ?ls) (v_vec v)" using inv by (simp add: loop_dev_def)
    ultimately show ?thesis using z_sorted_cong by metis
  qed
  have "type (mLayers d' ! i) \<noteq> LAYER_TYPE_CLIENT \<and> (Own i \<in> set (v_vec v) \<or> mOverlay d' = Some i)"
    if i: "i < ?n" "busy (mLayers d ! i)" for i
  proof -
    have b: "busy (?ls ! i)" using i by (simp add: classify_all_def)
    have "type (?ls ! i) \<noteq> LAYER_TYPE_CLIENT"
      using ok i classify_device[of "mLayers d ! i"] by (auto simp: classify_all_def device_ok_def list_all_length)
    then have t: "type (v_layers v ! i) \<noteq> LAYER_TYPE_CLIENT"
      using inv i len by (simp add: loop_dev_def)
    have zn: "v_z v = []" and cov: "Own i \<in> set (v_vec v) \<or> v_ov v = Some i"
      using inv i b by (auto simp: loop_dev_def)
    have ov: "overlay_ok (v_z v) l" for l by (simp add: zn overlay_ok_def)
    have "type (mLayers (choose_overlay d3 v) ! i) \<noteq> LAYER_TYPE_CLIENT"
      using cs(5)[of i] cs(6)[of i] t ov i vl by (cases "v_ov v = Some i") auto
    then have "type (mLayers d' ! i) \<noteq> LAYER_TYPE_CLIENT" using fs(6)[of i] cs(3) vl i by auto
    moreover have "mOverlay d' = Some i" if "v_ov v = Some i"
      using cs(6)[of i] that ov i vl fs(2) by simp
    ultimately show ?thesis using cov by blast
  qed
  then show ?thesis using sorted fs(1) cs(1) by simp
qed

text \<open>
  C9: when the client composes, no layer in use is lost: each is given to the client, or is the
  overlay, or may be skipped beside an overlay because it has no source or because nothing on the
  screen changed.  The device has nothing to compose.
\<close>

theorem verify_client_complete:
  assumes "verifyLayers env cnt d = (False, cnt', d')"
  shows "mLayerVector d' = [] \<and>
    (\<forall>i<length (mLayers d). busy (mLayers d ! i) \<longrightarrow>
       type (mLayers d' ! i) = LAYER_TYPE_CLIENT \<or>
       has_flag (mComposeFlag d') OVERLAY_COMPOSE_MASK \<and>
         (mOverlay d' = Some i \<and> type (mLayers d' ! i) = LAYER_TYPE_DEVICE \<or>
          sourceCrop (mLayers d ! i) = rect0 \<or>
          has_flag (mComposeFlag d') LAST_OVERLAY_MASK \<and> \<not> mUiUpdate d'))"
proof -
  let ?ls = "classify_all (mLayers d)" and ?n = "length (mLayers d)"
  from verifyLayers_split[OF assms] obtain c where
    fin: "finish_verify cnt (mComposeFlag d) (mTotalLayerNum d)
       (choose_overlay (d\<lparr>mUiUpdate := False, mLayerVector := [], mTotalLayerNum := 0, d_comp := c, mLayers := ?ls\<rparr>)
         (fold (assign_step env (d\<lparr>mUiUpdate := False, mLayerVector := [], mTotalLayerNum := 0, d_comp := c,
                          mLayers := ?ls\<rparr>) False) [0..<?n] (loop_init ?ls (mComposeFlag d)))) = (cnt', d')"
    by auto
  define d3 where "d3 = d\<lparr>mUiUpdate := False, mLayerVector := [], mTotalLayerNum := 0, d_comp := c, mLayers := ?ls\<rparr>"
  define v where "v = fold (assign_step env d3 False) [0..<?n] (loop_init ?ls (mComposeFlag d))"
  note fin = fin[folded d3_def, folded v_def]
  have len: "length ?ls = ?n" by (simp add: classify_all_def)
  have inv: "loop_base d3 ?ls ?n v \<and> loop_client ?ls ?n v"
    unfolding v_def
  proof (rule fold_upt_inv[where P = "\<lambda>k v. loop_base d3 ?ls k v \<and> loop_client ?ls k v"])
    show "loop_base d3 ?ls 0 (loop_init ?ls (mComposeFlag d)) \<and> loop_client ?ls 0 (loop_init ?ls (mComposeFlag d))"
      by (simp add: loop_base_def loop_client_def loop_init_def)
  next
    fix k s
    assume "k < ?n" "loop_base d3 ?ls k s \<and> loop_client ?ls k s"
    then show "loop_base d3 ?ls (Suc k) (assign_step env d3 False k s) \<and>
          loop_client ?ls (Suc k) (assign_step env d3 False k s)"
      using loop_base_step loop_client_step len by auto
  qed
  note fs = finish_verify_state[OF fin] and cs = choose_overlay_state[where d = d3 and v = v]
  have vl: "length (v_layers v) = ?n" using inv len by (simp add: loop_base_def)
  have "type (mLayers d' ! i) = LAYER_TYPE_CLIENT \<or>
       has_flag (mComposeFlag d') OVERLAY_COMPOSE_MASK \<and>
         (mOverlay d' = Some i \<and> type (mLayers d' ! i) = LAYER_TYPE_DEVICE \<or>
          sourceCrop (mLayers d ! i) = rect0 \<or>
          has_flag (mComposeFlag d') LAST_OVERLAY_MASK \<and> \<not> mUiUpdate d')"
    if i: "i < ?n" "busy (mLayers d ! i)" for i
  proof -
    have b: "busy (?ls ! i)" using i by (simp add: classify_all_def)
    have sc: "sourceCrop (mLayers (choose_overlay d3 v) ! i) = sourceCrop (mLayers d ! i)"
      using cs(4)[of i] inv i vl len by (auto simp: loop_base_def same_layer_def classify_all_def)
    have cov: "type (v_layers v ! i) = LAYER_TYPE_CLIENT \<or> v_ov v = Some i"
      using inv i b by (auto simp: loop_client_def)
    have ch: "type (mLayers (choose_overlay d3 v) ! i) = LAYER_TYPE_CLIENT \<or>
        (mOverlay (choose_overlay d3 v) = Some i \<and>
         has_flag (mComposeFlag (choose_overlay d3 v)) OVERLAY_COMPOSE_MASK \<and>
         type (mLayers (choose_overlay d3 v) ! i) = LAYER_TYPE_DEVICE)"
    proof (cases "v_ov v = Some i")
      case True
      then show ?thesis using cs(6)[of i] cs(7)[of i] i vl by auto
    next
      case False
      then show ?thesis using cs(5)[of i] cov i vl by simp
    qed
    then show ?thesis using fs(2,5) fs(6)[of i] cs(3) i vl sc by auto
  qed
  then show ?thesis using fs(1) cs(1) inv by (simp add: loop_client_def)
qed
section \<open>Witnesses\<close>

definition env_disp :: disp_env where
  "env_disp = \<lparr>de_lib = lib_demo, de_sv = sv_ref, de_checkOverlay = \<lambda>l. False, de_performOverlay = \<lambda>d. d,
     de_full_range = \<lambda>u. False\<rparr>"

text \<open>A display whose first two layers are in use, the second above the first.\<close>

definition disp_demo :: display where
  "disp_demo = (Display_init comp_demo (\<lambda>a. Layer_init) (\<lambda>q. BufferSlot_init 3))
     \<lparr>mLayers := [layer_demo\<lparr>origType := LAYER_TYPE_DEVICE\<rparr>,
                   layer_demo\<lparr>origType := LAYER_TYPE_SOLID_COLOR, zorder := 5, handle := None\<rparr>, Layer_init]\<rparr>"

lemma disp_demo_simps:
  "mLayers disp_demo = [layer_demo\<lparr>origType := LAYER_TYPE_DEVICE\<rparr>,
                   layer_demo\<lparr>origType := LAYER_TYPE_SOLID_COLOR, zorder := 5, handle := None\<rparr>, Layer_init]"
  "mHwLayers disp_demo = replicate MAX_LAYERS None" "d_comp disp_demo = comp_demo"
  by (simp_all add: disp_demo_def Display_init_def)

lemma demo_z: "z_distinct (mLayers disp_demo)"
  by (auto simp: z_distinct_def disp_demo_simps less_Suc_eq layer_demo_def Layer_init_def)

definition comp_open :: composer where "comp_open = comp_demo\<lparr>sHandle := Some 1\<rparr>"

lemma demo_comp:
  "isFeatureSupported lib_demo f c = (False, c)" "isValid lib_demo comp_demo = (True, comp_open)"
  "isValid lib_demo comp_open = (True, comp_open)" "\<not> isDisabled comp_open" "is2DComposition comp_open"
  "de_lib env_disp = lib_demo" "heap (cw comp_open) 1000 = Some mem_1080p"
  by (simp_all add: isFeatureSupported_def isValid_def getHandle_def lib_demo_def comp_demo_def comp_open_def
      Composer_init_def isDisabled_def is2DComposition_def env_disp_def world1_def)

lemma demo_hw: "mHwLayers d = replicate MAX_LAYERS None \<Longrightarrow> hw_list d = []"
  by (simp add: hw_list_def MAX_LAYERS_def map_filter_def)

lemma demo_dev: "fst (verifyLayers env_disp 0 disp_demo)"
proof -
  have z: "zip (replicate MAX_LAYERS None) [a, b, c] = [(None, a), (None, b), (None, c)]" for a b c :: layer
    by (simp add: MAX_LAYERS_def numeral_eq_Suc)
  have cfg: "\<not> ENABLE_8QM_WIDEVINE cfg_imx8m" "\<not> WORKAROUND_DPU_ALPHA_BLENDING cfg_imx8m"
    by (simp_all add: cfg_imx8m_def)
  show ?thesis
    by (simp add: verifyLayers_def check2DComposition_def with_comp_def Let_def case_prod_beta forceVync_def
        demo_hw disp_demo_simps demo_comp z cfg device_only_def client_only_def buffer_of_def demo_layer demo_flags
        env_disp_def[THEN arg_cong, of de_full_range] device_ok_def classify_def)
       (simp add: layer_demo_def Layer_init_def)
qed

text \<open>The same display when the framework asks for client composition of the first layer.\<close>

definition disp_client :: display where
  "disp_client = disp_demo\<lparr>mLayers := (mLayers disp_demo)[0 := layer_demo\<lparr>origType := LAYER_TYPE_CLIENT\<rparr>]\<rparr>"

lemma verify_dev_fst: "fst (verifyLayers env cnt d) \<Longrightarrow> device_ok (mLayers d)"
  using verifyLayers_split[of env cnt d True] by (metis prod.collapse)

theorem verify_client_complete_witness:
  "\<exists>cnt' d'. verifyLayers env_disp 0 disp_client = (False, cnt', d') \<and> mLayerVector d' = [] \<and>
     (type (mLayers d' ! 0) = LAYER_TYPE_CLIENT \<or> has_flag (mComposeFlag d') OVERLAY_COMPOSE_MASK)"
proof -
  have "\<not> device_ok (mLayers disp_client)"
    by (simp add: disp_client_def disp_demo_simps device_ok_def classify_def layer_demo_def)
  then have "\<not> fst (verifyLayers env_disp 0 disp_client)" using verify_dev_fst by blast
  then obtain cnt' d' where v: "verifyLayers env_disp 0 disp_client = (False, cnt', d')"
    by (metis (full_types) prod.collapse)
  have "busy (mLayers disp_client ! 0)" "0 < length (mLayers disp_client)"
    by (simp_all add: disp_client_def disp_demo_simps layer_demo_def)
  with verify_client_complete[OF v] v show ?thesis by blast
qed

end
