(* ===== verification/Display_Compose.thy ===== *)
theory Display_Compose
  imports Display_Verify
begin

text \<open>
  \<open>Display::composeLayers\<close> (\<open>display/display/Display.cpp\<close>): the fences, the frames of registered
  layers, and the composition of the layer vector into the render target.  Each layer of the vector
  is drawn in the order of the vector, and every surface that is locked is unlocked.
\<close>

section \<open>Fences and registered layers\<close>

definition waitOnFence :: "display \<Rightarrow> display" where
  "waitOnFence d =
     (d_emit (concat (map (\<lambda>l. if busy l \<and> acquireFence l \<noteq> -1
                               then [SyncWait (acquireFence l), CloseFence (acquireFence l)] else [])
                      (mLayers d))) d)
       \<lparr>mLayers := map (\<lambda>l. if busy l then l\<lparr>acquireFence := -1\<rparr> else l) (mLayers d)\<rparr>"

text \<open>The next frame of a registered layer: taken from its queue, and the layer joins the vector.\<close>

definition hw_present :: "sv_ops \<Rightarrow> nat \<Rightarrow> display \<Rightarrow> display" where
  "hw_present sv a d =
     (case hw_queue d a of
        None \<Rightarrow> d
      | Some q \<Rightarrow>
          (let (slot, _, bs) = getPresentSlot (hw_queues d q);
               d1 = d\<lparr>hw_queues := (hw_queues d)(q := bs)\<rparr>
           in if slot < 0 then d1
              else (let buf = getPresentBuffer slot bs;
                        d2 = d1\<lparr>hw_layers := (hw_layers d1)(a := (hw_layers d1 a)\<lparr>handle := buf\<rparr>)\<rparr>
                    in if buf = None then d2
                       else d2\<lparr>mLayerVector := sv_add sv (z_of d2) (Hw a) (mLayerVector d2)\<rparr>)))"

definition layer_at :: "display \<Rightarrow> layer_ref \<Rightarrow> layer" where
  "layer_at d r = (case r of Own i \<Rightarrow> mLayers d ! i | Hw a \<Rightarrow> hw_layers d a)"

section \<open>The composition loop\<close>

definition surface_locked :: "layer \<Rightarrow> bool" where
  "surface_locked l \<longleftrightarrow> handle l \<noteq> None \<and> \<not> has_flag (flags l) BUFFER_SLOT"

definition composed :: "layer \<Rightarrow> bool" where
  "composed l \<longleftrightarrow> busy l \<and> type l \<noteq> LAYER_TYPE_SIDEBAND"

fun compose_list :: "g2d_lib \<Rightarrow> layer list \<Rightarrow> bool \<Rightarrow> composer \<Rightarrow> (int \<times> composer) option" where
  "compose_list lib [] first c = Some (0, c)"
| "compose_list lib (l # ls) first c =
     (if \<not> composed l then compose_list lib ls False c
      else do { c1 \<leftarrow> (if surface_locked l then map_option snd (lockSurface lib (handle l) c) else Some c);
                (ret, c2) \<leftarrow> composeLayer lib (Some l) first c1;
                c3 \<leftarrow> (if surface_locked l then map_option snd (unlockSurface lib (handle l) c2) else Some c2);
                if ret \<noteq> 0 then Some (ret, c3) else compose_list lib ls False c3 })"

definition compose_vector :: "g2d_lib \<Rightarrow> nat option \<Rightarrow> layer list \<Rightarrow> composer \<Rightarrow> (int \<times> composer) option" where
  "compose_vector lib target ls c =
     do { (r1, c1) \<leftarrow> lockSurface lib target c;
          (r2, c2) \<leftarrow> clearWormHole lib ls (snd (setRenderTarget_c target c1));
          (ret, c3) \<leftarrow> compose_list lib ls True c2;
          (r3, c4) \<leftarrow> unlockSurface lib target c3;
          Some (ret, snd (finishComposite lib c4)) }"

definition composeLayersLocked :: "disp_env \<Rightarrow> display \<Rightarrow> (int \<times> display) option" where
  "composeLayersLocked env d =
     (let d1 = waitOnFence d
      in if \<not> mConnected d1 \<and> mIndex d1 \<noteq> DISPLAY_PRIMARY then Some (- EINVAL, d1)
         else
           (let d2 = de_performOverlay env d1
            in if mLayerVector d2 = [] \<and> \<not> directComposition d2 then Some (0, d2)
               else
                 (let d3 = fold (hw_present (de_sv env)) (hw_list d2) d2
                  in map_option (\<lambda>(ret, c). (ret, d3\<lparr>d_comp := c\<rparr>))
                       (compose_vector (de_lib env) (mRenderTarget d3)
                          (map (layer_at d3) (mLayerVector d3)) (d_comp d3)))))"

section \<open>What is locked\<close>

text \<open>How often a surface was locked, less how often it was unlocked.\<close>

fun lock_balance :: "nat \<Rightarrow> g2d_call list \<Rightarrow> int" where
  "lock_balance a [] = 0"
| "lock_balance a (LockSurface b # ks) = of_bool (a = b) + lock_balance a ks"
| "lock_balance a (UnlockSurface b # ks) = lock_balance a ks - of_bool (a = b)"
| "lock_balance a (_ # ks) = lock_balance a ks"

lemma lock_balance_append [simp]: "lock_balance a (ks @ ks') = lock_balance a ks + lock_balance a ks'"
  by (induction a ks rule: lock_balance.induct) auto

lemma lock_balance_resolve: "\<forall>k\<in>set ks. \<exists>m. k = ResolveTileStatus m \<Longrightarrow> lock_balance a ks = 0"
  by (induction ks) auto

lemma lock_balance_blit: "lock_balance a (blit_calls lib blend dither src dst) = 0"
  by (simp add: blit_calls_def Let_def)

lemma compose_rects_locks:
  assumes "compose_rects lib l bypass vs dst dither c = Some (r, c')"
  shows "lock_balance a (gcalls c') = lock_balance a (gcalls c)"
  using assms
proof (induction vs arbitrary: dst dither c)
  case (Cons v vs)
  show ?case
  proof (cases "clip_of (l_ui lib) (displayFrame l) v")
    case None
    then show ?thesis using Cons by simp
  next
    case (Some clip)
    from Some Cons.prems show ?thesis
    proof (cases rule: compose_rects_step)
      case (fail ks)
      then show ?thesis using lock_balance_resolve[OF fail(3)] by simp
    next
      case (draw ks src dst3 dither' c4)
      then show ?thesis
        using Cons.IH[OF draw(1)] lock_balance_resolve[OF draw(3)] by (simp add: lock_balance_blit)
    qed
  qed
qed simp

lemma composeLayer_locks:
  assumes "composeLayer lib (Some l) bypass c = Some (r, c')" "bypass \<or> \<not> isSolidColor l"
  shows "lock_balance a (gcalls c') = lock_balance a (gcalls c)"
  using assms compose_rects_locks by (auto simp: composeLayer_def split: if_split_asm)

lemma lock_event:
  assumes "lockSurface lib p c = Some (r, c')"
  shows "gcalls c' = gcalls c @ (if l_lockSurface lib = None then [] else [LockSurface (the p)])"
  using assms by (auto simp: lockSurface_def case_prod_beta Let_def bind_eq_Some_conv gcall_def
      split: option.split_asm)

lemma unlock_event:
  assumes "unlockSurface lib p c = Some (r, c')"
  shows "gcalls c' = gcalls c @ (if l_unlockSurface lib = None then [] else [UnlockSurface (the p)])"
  using assms by (auto simp: unlockSurface_def case_prod_beta Let_def bind_eq_Some_conv gcall_def
      split: option.split_asm)

lemma clear_holes_locks: "lock_balance a (gcalls (clear_holes lib t rcs s c)) = lock_balance a (gcalls c)"
proof (induction lib t rcs s c rule: clear_holes.induct)
  case (2 lib t rc rcs s c)
  obtain s1 c1 where s: "setG2dSurface lib s t rc c = (s1, c1)" by fastforce
  then have "lock_balance a (gcalls c1) = lock_balance a (gcalls c)"
    using setG2dSurface_gcalls[of lib s t rc c] lock_balance_resolve by fastforce
  then show ?case using 2 s by (auto simp: Let_def clearFunction_def engine_call_gcalls)
qed simp

lemma clearWormHole_locks:
  "clearWormHole lib ls c = Some (r, c') \<Longrightarrow> lock_balance a (gcalls c') = lock_balance a (gcalls c)"
  by (auto simp: clearWormHole_def bind_eq_Some_conv Let_def clear_holes_locks split: if_split_asm)

lemma compose_list_locks:
  assumes "compose_list lib ls first c = Some (r, c')"
    and "l_lockSurface lib = None \<longleftrightarrow> l_unlockSurface lib = None"
    and "\<forall>l\<in>set (if first then tl ls else ls). \<not> isSolidColor l"
  shows "lock_balance a (gcalls c') = lock_balance a (gcalls c)"
  using assms(1,3)
proof (induction ls arbitrary: first c)
  case (Cons l ls)
  show ?case
  proof (cases "composed l")
    case False
    then show ?thesis using Cons by (auto split: if_split_asm)
  next
    case True
    then obtain c1 c2 c3 ret where
      1: "(if surface_locked l then map_option snd (lockSurface lib (handle l) c) else Some c) = Some c1" and
      2: "composeLayer lib (Some l) first c1 = Some (ret, c2)" and
      3: "(if surface_locked l then map_option snd (unlockSurface lib (handle l) c2) else Some c2) = Some c3" and
      4: "(if ret \<noteq> 0 then Some (ret, c3) else compose_list lib ls False c3) = Some (r, c')"
      using Cons.prems(1) by (auto simp: bind_eq_Some_conv)
    have "lock_balance a (gcalls c3) = lock_balance a (gcalls c)"
      using 1 3 composeLayer_locks[OF 2] Cons.prems(2) lock_event[of lib "handle l" c]
        unlock_event[of lib "handle l" c2] assms(2)
      by (cases first) (auto split: if_split_asm)
    then show ?thesis using 4 Cons.IH[of False c3] Cons.prems(2) by (auto split: if_split_asm)
  qed
qed simp

lemma finishComposite_gcalls:
  "gcalls (snd (finishComposite lib c)) = gcalls c @ (if l_finish lib then [FinishEngine] else [])"
  by (simp add: finishComposite_def finishEngine_def engine_call_gcalls)

text \<open>
  C22: composing a frame unlocks every surface it locked, the render target and each layer's buffer,
  also when the composition of some layer fails half-way.  (A solid colour above the first layer
  locks the dim buffer, which stays locked on purpose.)  The library locks and unlocks, or does neither.
\<close>

theorem compose_locks_balanced:
  assumes "compose_vector lib target ls c = Some (r, c')"
    and "l_lockSurface lib = None \<longleftrightarrow> l_unlockSurface lib = None"
    and "\<forall>l\<in>set (tl ls). \<not> isSolidColor l"
  shows "lock_balance a (gcalls c') = lock_balance a (gcalls c)"
proof -
  from assms(1) obtain r1 c1 r2 c2 c3 r3 c4 where
    1: "lockSurface lib target c = Some (r1, c1)" and
    2: "clearWormHole lib ls (snd (setRenderTarget_c target c1)) = Some (r2, c2)" and
    3: "compose_list lib ls True c2 = Some (r, c3)" and
    4: "unlockSurface lib target c3 = Some (r3, c4)" and
    5: "c' = snd (finishComposite lib c4)"
    by (auto simp: compose_vector_def bind_eq_Some_conv)
  show ?thesis
    using lock_event[OF 1] clearWormHole_locks[OF 2] compose_list_locks[OF 3 assms(2)] unlock_event[OF 4]
      assms(2,3) by (auto simp: 5 finishComposite_gcalls setRenderTarget_c_def)
qed

section \<open>What is drawn\<close>

text \<open>The blits for one layer, and for a frame: the first layer is not drawn when it is a solid colour.\<close>

definition draws_of :: "ui_ops \<Rightarrow> layer \<Rightarrow> (rect option \<times> rect \<times> rect) list" where
  "draws_of ui l =
     (if (ui_isEmpty ui (sourceCrop l) \<and> \<not> isSolidColor l) \<or> ui_isEmpty ui (displayFrame l) then []
      else map (\<lambda>clip. (Some clip, if \<not> isSolidColor l \<and> handle l \<noteq> None then sourceCrop l else displayFrame l,
                        displayFrame l))
             (List.map_filter (clip_of ui (displayFrame l)) (visibleRegion l)))"

fun frame_of :: "ui_ops \<Rightarrow> bool \<Rightarrow> layer list \<Rightarrow> (rect option \<times> rect \<times> rect) list" where
  "frame_of ui first [] = []"
| "frame_of ui first (l # ls) =
     (if composed l \<and> \<not> (first \<and> isSolidColor l) then draws_of ui l else []) @ frame_of ui False ls"

text \<open>\<open>draws c c' xs\<close>: the engine calls between two states draw \<open>xs\<close>, whatever the clip was before.\<close>

definition draws :: "composer \<Rightarrow> composer \<Rightarrow> (rect option \<times> rect \<times> rect) list \<Rightarrow> bool" where
  "draws c c' xs \<longleftrightarrow> (\<exists>ks. gcalls c' = gcalls c @ ks \<and> (\<forall>cl. drawn cl ks = xs))"

lemma drawn_append: "\<exists>cl'. drawn cl (ks @ ks') = drawn cl ks @ drawn cl' ks'"
  by (induction cl ks rule: drawn.induct) auto

lemma drawn_append_all:
  "(\<forall>cl. drawn cl ks = xs) \<Longrightarrow> (\<forall>cl. drawn cl ks' = ys) \<Longrightarrow> drawn cl (ks @ ks') = xs @ ys"
  using drawn_append[of cl ks ks'] by auto

lemma draws_trans [trans]: "draws a b xs \<Longrightarrow> draws b c ys \<Longrightarrow> draws a c (xs @ ys)"
  unfolding draws_def using drawn_append_all by fastforce

lemma drawn_quiet: "list_all quiet ks \<Longrightarrow> drawn cl ks = []"
  by (induction cl ks rule: drawn.induct) auto

lemma draws_quiet: "calls quiet c c' \<Longrightarrow> draws c c' []"
  unfolding calls_def draws_def using drawn_quiet by blast

lemma draws_same: "gcalls c' = gcalls c \<Longrightarrow> draws c c' []"
  by (auto simp: draws_def)

lemma compose_rects_draws:
  assumes "compose_rects lib l bypass vs dst dither c = Some (0, c')" "l_blit lib" "l_setClipping lib"
  shows "draws c c' (map (\<lambda>clip. (Some clip,
        if \<not> isSolidColor l \<and> handle l \<noteq> None then sourceCrop l else displayFrame l, displayFrame l))
      (List.map_filter (clip_of (l_ui lib) (displayFrame l)) vs))"
  using compose_rects_drawn[OF assms] by (simp add: draws_def)

lemma composeLayer_draws:
  assumes "composeLayer lib (Some l) bypass c = Some (0, c')" "l_blit lib" "l_setClipping lib"
  shows "draws c c' (if bypass \<and> isSolidColor l then [] else draws_of (l_ui lib) l)"
proof -
  consider "bypass \<and> isSolidColor l \<or> (ui_isEmpty (l_ui lib) (sourceCrop l) \<and> \<not> isSolidColor l) \<or>
      ui_isEmpty (l_ui lib) (displayFrame l)" "c' = c"
    | c1 where "\<not> (bypass \<and> isSolidColor l)"
        "\<not> (ui_isEmpty (l_ui lib) (sourceCrop l) \<and> \<not> isSolidColor l)" "\<not> ui_isEmpty (l_ui lib) (displayFrame l)"
        "c1 = c \<or> (\<exists>r. checkDimBuffer lib c = Some (r, c1))"
        "compose_rects lib l bypass (visibleRegion l) surface0 False c1 = Some (0, c')"
    using assms(1) by (auto simp: composeLayer_def bind_eq_Some_conv split: if_split_asm)
  then show ?thesis
  proof cases
    case 1
    then show ?thesis by (auto simp: draws_same draws_of_def)
  next
    case 2
    have "draws c c1 []" using 2(4) checkDimBuffer_calls draws_quiet draws_same by blast
    from draws_trans[OF this compose_rects_draws[OF 2(5) assms(2,3)]] 2(1,2,3) show ?thesis
      by (auto simp: draws_of_def)
  qed
qed

lemma lock_draws: "lockSurface lib p c = Some (r, c') \<Longrightarrow> draws c c' []"
    "unlockSurface lib p c = Some (r, c') \<Longrightarrow> draws c c' []"
  using lockSurface_calls unlockSurface_calls draws_quiet by blast+

lemma compose_list_draws:
  assumes "compose_list lib ls first c = Some (0, c')" "l_blit lib" "l_setClipping lib"
  shows "draws c c' (frame_of (l_ui lib) first ls)"
  using assms(1)
proof (induction ls arbitrary: first c)
  case Nil
  then show ?case by (simp add: draws_same)
next
  case (Cons l ls)
  show ?case
  proof (cases "composed l")
    case False
    then show ?thesis using Cons by (auto split: if_split_asm)
  next
    case True
    then obtain c1 c2 c3 ret where
      1: "(if surface_locked l then map_option snd (lockSurface lib (handle l) c) else Some c) = Some c1" and
      2: "composeLayer lib (Some l) first c1 = Some (ret, c2)" and
      3: "(if surface_locked l then map_option snd (unlockSurface lib (handle l) c2) else Some c2) = Some c3" and
      4: "(if ret \<noteq> 0 then Some (ret, c3) else compose_list lib ls False c3) = Some (0, c')"
      using Cons.prems(1) by (auto simp: bind_eq_Some_conv)
    have r: "ret = 0" "compose_list lib ls False c3 = Some (0, c')" using 4 by (auto split: if_split_asm)
    have d1: "draws c c1 []" using 1 lock_draws(1) draws_same by (auto split: if_split_asm)
    have d3: "draws c2 c3 []" using 3 lock_draws(2) draws_same by (auto split: if_split_asm)
    from draws_trans[OF draws_trans[OF draws_trans[OF d1 composeLayer_draws[OF 2[unfolded r(1)] assms(2,3)]] d3]
        Cons.IH[OF r(2)]] True
    show ?thesis by (auto split: if_split_asm)
  qed
qed

lemma clearWormHole_draws:
  assumes "clearWormHole lib ls c = Some (r, c')" shows "draws c c' []"
  using assms draws_quiet[OF clear_holes_calls] draws_same
  by (auto simp: clearWormHole_def bind_eq_Some_conv Let_def split: if_split_asm)

lemma compose_vector_draws:
  assumes "compose_vector lib target ls c = Some (0, c')" "l_blit lib" "l_setClipping lib"
  shows "draws c c' (frame_of (l_ui lib) True ls)"
proof -
  from assms(1) obtain r1 c1 r2 c2 c3 r3 c4 where
    1: "lockSurface lib target c = Some (r1, c1)" and
    2: "clearWormHole lib ls (snd (setRenderTarget_c target c1)) = Some (r2, c2)" and
    3: "compose_list lib ls True c2 = Some (0, c3)" and
    4: "unlockSurface lib target c3 = Some (r3, c4)" and
    5: "c' = snd (finishComposite lib c4)"
    by (auto simp: compose_vector_def bind_eq_Some_conv)
  have a: "draws c1 (snd (setRenderTarget_c target c1)) []" by (simp add: draws_same setRenderTarget_c_def)
  have f: "draws c4 c' []" by (auto simp: 5 draws_def finishComposite_gcalls)
  from draws_trans[OF draws_trans[OF draws_trans[OF draws_trans[OF draws_trans[OF lock_draws(1)[OF 1] a]
        clearWormHole_draws[OF 2]] compose_list_draws[OF 3 assms(2,3)]] lock_draws(2)[OF 4]] f]
  show ?thesis by simp
qed

text \<open>
  A composed frame shows every layer of the layer vector, in the order of the vector: for each
  layer one blit per visible rectangle, clipped to it, and nothing else is drawn.
\<close>

lemma composeLayers_draws_frame:
  assumes "composeLayersLocked env d = Some (0, d')" "mConnected d \<or> mIndex d = DISPLAY_PRIMARY"
    and "d2 = de_performOverlay env (waitOnFence d)" "mHwLayers d2 = replicate MAX_LAYERS None"
    and "mLayerVector d2 \<noteq> []" "l_blit (de_lib env)" "l_setClipping (de_lib env)"
  shows "\<exists>ks. gcalls (d_comp d') = gcalls (d_comp d2) @ ks \<and>
    drawn None ks = frame_of (l_ui (de_lib env)) True (map (layer_at d2) (mLayerVector d2))"
proof -
  have h: "hw_list d2 = []" using assms(4) by (rule demo_hw)
  have "mConnected (waitOnFence d) = mConnected d" "mIndex (waitOnFence d) = mIndex d"
    by (simp_all add: waitOnFence_def d_emit_def)
  with assms(1,2,5) h obtain c where
    "compose_vector (de_lib env) (mRenderTarget d2) (map (layer_at d2) (mLayerVector d2)) (d_comp d2) = Some (0, c)"
    "d' = d2\<lparr>d_comp := c\<rparr>"
    by (auto simp: composeLayersLocked_def Let_def assms(3) split: if_split_asm)
  then show ?thesis using compose_vector_draws[OF _ assms(6,7)] by (fastforce simp: draws_def)
qed

section \<open>Composition succeeds\<close>

definition alive :: "composer \<Rightarrow> nat option \<Rightarrow> bool" where
  "alive c p \<longleftrightarrow> deref c p \<noteq> None"

lemma deref_same: "cw c' = cw c \<Longrightarrow> deref c' p = deref c p"
  by (simp add: deref_def split: option.split)

lemma alive_same: "cw c' = cw c \<Longrightarrow> alive c' p = alive c p"
  unfolding alive_def by (simp only: deref_same[of c' c])

lemma alive_some: "alive c p \<Longrightarrow> p \<noteq> None"
  by (auto simp: alive_def deref_def split: option.splits)

definition kept :: "composer \<Rightarrow> composer \<Rightarrow> bool" where
  "kept c c' \<longleftrightarrow> dom (heap (cw c)) \<subseteq> dom (heap (cw c'))"

lemma kept_alive: "kept c c' \<Longrightarrow> alive c p \<Longrightarrow> alive c' p"
  by (auto simp: kept_def alive_def deref_def split: option.splits)

lemma kept_refl [simp]: "kept c c" and kept_trans: "kept a b \<Longrightarrow> kept b c \<Longrightarrow> kept a c"
  by (auto simp: kept_def)

lemma kept_same: "cw c' = cw c \<Longrightarrow> kept c c'"
  by (simp add: kept_def)

lemma lock_alive:
  assumes "alive c p"
  shows "\<exists>r c'. lockSurface lib p c = Some (r, c') \<and> kept c c' \<and> mTarget c' = mTarget c"
    and "\<exists>r c'. unlockSurface lib p c = Some (r, c') \<and> kept c c' \<and> mTarget c' = mTarget c"
proof -
  obtain m where m: "deref c p = Some m" using assms by (auto simp: alive_def)
  show "\<exists>r c'. lockSurface lib p c = Some (r, c') \<and> kept c c' \<and> mTarget c' = mTarget c"
    by (cases "l_lockSurface lib")
       (auto simp: lockSurface_def m case_prod_beta Let_def kept_def store_def gcall_def)
  show "\<exists>r c'. unlockSurface lib p c = Some (r, c') \<and> kept c c' \<and> mTarget c' = mTarget c"
    by (cases "l_unlockSurface lib")
       (auto simp: unlockSurface_def m case_prod_beta Let_def kept_def store_def gcall_def)
qed

lemma compose_rects_total:
  assumes "alive c (mTarget c)" "\<not> isSolidColor l" "alive c (handle l)"
  shows "\<exists>c'. compose_rects lib l bypass vs dst dither c = Some (0, c') \<and> cw c' = cw c \<and> mTarget c' = mTarget c"
  using assms(1,3)
proof (induction vs arbitrary: dst dither c)
  case (Cons v vs)
  show ?case
  proof (cases "clip_of (l_ui lib) (displayFrame l) v")
    case (Some clip)
    let ?c1 = "snd (setClipping lib clip c)"
    obtain t where t: "deref ?c1 (mTarget ?c1) = Some t"
      using Cons.prems by (auto simp: alive_def deref_same[of ?c1 c])
    let ?g = "setG2dSurface lib dst t (displayFrame l) ?c1"
    have h: "handle l \<noteq> None" using Cons.prems(2) by (rule alive_some)
    obtain m where m: "deref (snd ?g) (handle l) = Some m"
      using Cons.prems(2) by (auto simp: alive_def deref_same[of "snd ?g" c])
    obtain src d c3 where b: "blit_source lib l t (snd ?g) = Some (Inr (src, d, c3))"
        and c3: "cw c3 = cw c" "mTarget c3 = mTarget c"
      using m h assms(2) by (auto simp: blit_source_def case_prod_beta Let_def)
    let ?r = "convertRotation (transform l) src (fst ?g)"
    let ?b = "if bypass then ?r else convertBlending (blendMode l) (fst ?r) (snd ?r)"
    let ?c4 = "do_blit lib l bypass (dither \<or> d) ((fst ?b)\<lparr>s_global_alpha := planeAlpha l\<rparr>) (snd ?b) c3"
    have "alive ?c4 (mTarget ?c4)" "alive ?c4 (handle l)"
      using Cons.prems c3 by (simp_all add: alive_same[of ?c4 c])
    from Cons.IH[OF this, of "snd ?b" "dither \<or> d"] show ?thesis
      using Some t b c3 by (auto simp: Let_def case_prod_beta)
  qed (use Cons in auto)
qed simp

lemma composeLayer_total:
  assumes "alive c (mTarget c)" "alive c (handle l)" "\<not> isSolidColor l"
  shows "\<exists>c'. composeLayer lib (Some l) bypass c = Some (0, c') \<and> cw c' = cw c \<and> mTarget c' = mTarget c"
  using compose_rects_total[OF assms(1,3,2)] alive_some[OF assms(1)]
  by (simp add: composeLayer_def assms(3))

lemma composeLayer_bypass:
  "alive c (mTarget c) \<Longrightarrow> isSolidColor l \<Longrightarrow> composeLayer lib (Some l) True c = Some (0, c)"
  by (auto simp: composeLayer_def dest: alive_some)

text \<open>A layer that the loop can draw: its buffer is allocated, or it is a solid colour at the bottom.\<close>

definition drawable :: "composer \<Rightarrow> bool \<Rightarrow> layer \<Rightarrow> bool" where
  "drawable c first l \<longleftrightarrow> (composed l \<longrightarrow>
     (if isSolidColor l then first \<and> handle l = None else alive c (handle l)))"

fun drawable_list :: "composer \<Rightarrow> bool \<Rightarrow> layer list \<Rightarrow> bool" where
  "drawable_list c first [] = True"
| "drawable_list c first (l # ls) = (drawable c first l \<and> drawable_list c False ls)"

lemma drawable_kept: "kept c c' \<Longrightarrow> drawable_list c first ls \<Longrightarrow> drawable_list c' first ls"
  by (induction c first ls rule: drawable_list.induct) (auto simp: drawable_def kept_alive)

lemma compose_list_total:
  assumes "alive c (mTarget c)" "drawable_list c first ls"
  shows "\<exists>c'. compose_list lib ls first c = Some (0, c') \<and> kept c c' \<and> mTarget c' = mTarget c"
  using assms
proof (induction ls arbitrary: first c)
  case (Cons l ls)
  show ?case
  proof (cases "composed l")
    case False
    then show ?thesis using Cons by simp
  next
    case True
    let ?lock = "\<lambda>c c'. (if surface_locked l then map_option snd (lockSurface lib (handle l) c) else Some c) = Some c'"
    let ?unlock = "\<lambda>c c'. (if surface_locked l then map_option snd (unlockSurface lib (handle l) c) else Some c) = Some c'"
    have h: "alive c (handle l) \<or> first \<and> isSolidColor l \<and> handle l = None"
      using Cons.prems(2) True by (auto simp: drawable_def split: if_split_asm)
    have sl: "surface_locked l \<Longrightarrow> alive c (handle l)" using h by (auto simp: surface_locked_def)
    obtain c1 where 1: "?lock c c1" "kept c c1" "mTarget c1 = mTarget c"
      using lock_alive(1)[OF sl] by (cases "surface_locked l") fastforce+
    have t1: "alive c1 (mTarget c1)" using 1 Cons.prems(1) kept_alive by simp
    obtain c2 where 2: "composeLayer lib (Some l) first c1 = Some (0, c2)" "kept c1 c2" "mTarget c2 = mTarget c1"
      using composeLayer_total[OF t1, of l lib first] composeLayer_bypass[OF t1, of l lib] h kept_alive[OF 1(2)] True
        Cons.prems(2) kept_same by (cases "isSolidColor l") (fastforce simp: drawable_def)+
    have "surface_locked l \<Longrightarrow> alive c2 (handle l)" using sl kept_alive 1(2) 2(2) by blast
    then obtain c3 where 3: "?unlock c2 c3" "kept c2 c3" "mTarget c3 = mTarget c2"
      using lock_alive(2)[of c2 "handle l" lib] by (cases "surface_locked l") fastforce+
    have k: "kept c c3" using 1 2 3 kept_trans by blast
    have m: "mTarget c3 = mTarget c" using 1 2 3 by simp
    have "alive c3 (mTarget c3)" using kept_alive[OF k Cons.prems(1)] by (simp only: m)
    moreover have "drawable_list c3 False ls" using drawable_kept[OF k] Cons.prems(2) by simp
    ultimately obtain c' where 4: "compose_list lib ls False c3 = Some (0, c')" "kept c3 c'" "mTarget c' = mTarget c3"
      using Cons.IH[of c3 False] by blast
    have "compose_list lib (l # ls) first c = Some (0, c')" using True 1(1) 2(1) 3(1) 4(1) by simp
    then show ?thesis using kept_trans[OF k 4(2)] 4(3) m by auto
  qed
qed simp

text \<open>
  C21: a frame whose render target and layer buffers are allocated, and in which only the bottom
  layer may be a solid colour (without a buffer of its own; the composer skips it), is always
  composed: no step fails, no released buffer is touched, and the loop over the layers ends with
  success.  A solid colour above the bottom layer needs the dim buffer, whose allocation can fail;
  such frames are excluded here.
\<close>

theorem compose_succeeds:
  assumes "alive c target" "drawable_list c True ls"
  shows "\<exists>c'. compose_vector lib target ls c = Some (0, c')"
proof -
  obtain r1 c1 where 1: "lockSurface lib target c = Some (r1, c1)" "kept c c1"
    using lock_alive(1)[OF assms(1)] by blast
  let ?c2 = "snd (setRenderTarget_c target c1)"
  have 2: "alive ?c2 (mTarget ?c2)" "kept c ?c2"
    using kept_alive[OF 1(2) assms(1)] 1(2) alive_same[of ?c2 c1] by (simp_all add: setRenderTarget_c_def kept_def)
  obtain t where t: "deref ?c2 (mTarget ?c2) = Some t" using 2(1) by (auto simp: alive_def)
  have hole: "mTarget (clear_holes lib t rcs s c) = mTarget c \<and> cw (clear_holes lib t rcs s c) = cw c" for rcs s c
    by (induction lib t rcs s c rule: clear_holes.induct) (auto simp: case_prod_beta Let_def clearFunction_def)
  obtain r3 c3 where 3: "clearWormHole lib ls ?c2 = Some (r3, c3)" "kept ?c2 c3" "mTarget c3 = mTarget ?c2"
    using t hole alive_some[OF 2(1)] by (simp add: clearWormHole_def Let_def kept_def)
  have "drawable_list c3 True ls" "alive c3 (mTarget c3)"
    using assms(2) 2 3 drawable_kept kept_trans kept_alive by (blast, metis)
  then obtain c4 where 4: "compose_list lib ls True c3 = Some (0, c4)" "kept c3 c4" "mTarget c4 = mTarget c3"
    using compose_list_total by blast
  have "alive c4 target" using assms(1) 2(2) 3(2) 4(2) kept_alive by blast
  then obtain r5 c5 where "unlockSurface lib target c4 = Some (r5, c5)" using lock_alive(2) by blast
  then show ?thesis using 1 3 4 by (simp add: compose_vector_def)
qed

section \<open>Witnesses\<close>

text \<open>A display with one layer, before and after it is verified.\<close>

definition layer_one :: layer where "layer_one = layer_demo\<lparr>origType := LAYER_TYPE_DEVICE\<rparr>"

definition disp_one :: display where
  "disp_one = disp_demo\<lparr>mLayers := [layer_one], mRenderTarget := Some 1000, mIndex := DISPLAY_PRIMARY\<rparr>"

definition disp_ready :: display where
  "disp_ready = disp_one\<lparr>mUiUpdate := True, mLayerVector := [Own 0], mTotalLayerNum := 1, d_comp := comp_open\<rparr>"

lemma one_layer:
  "busy layer_one" "flags layer_one = 0" "origType layer_one = LAYER_TYPE_DEVICE" "type layer_one = LAYER_TYPE_DEVICE"
  "sourceCrop layer_one \<noteq> rect0" "transform layer_one = 0" "handle layer_one = Some 1000" "\<not> isSolidColor layer_one"
  by (simp_all add: layer_one_def layer_demo_def Layer_init_def rect_hd_def rect0_def isSolidColor_def)

lemma one_classify: "classify layer_one = (layer_one, True)"
  by (simp add: classify_def one_layer Let_def)

lemma one_state:
  "mLayers disp_one = [layer_one]" "mHwLayers disp_one = replicate MAX_LAYERS None"
  "d_comp disp_one = comp_demo" "mComposeFlag disp_one = 0" "mTotalLayerNum disp_one = 0"
  by (simp_all add: disp_one_def disp_demo_simps, simp_all add: disp_demo_def Display_init_def)

lemma one_check2D:
  assumes "mLayers d = [layer_one]" "mHwLayers d = replicate MAX_LAYERS None" "d_comp d = comp_demo"
  shows "check2DComposition env_disp d = (True, d\<lparr>d_comp := comp_open\<rparr>)"
proof -
  have z: "zip (replicate MAX_LAYERS None) [a] = [(None, a)]" for a :: layer
    by (simp add: MAX_LAYERS_def numeral_eq_Suc)
  have cfg: "\<not> ENABLE_8QM_WIDEVINE cfg_imx8m" "\<not> WORKAROUND_DPU_ALPHA_BLENDING cfg_imx8m"
    by (simp_all add: cfg_imx8m_def)
  have f: "\<not> de_full_range env_disp u" for u by (simp add: env_disp_def)
  show ?thesis
    by (simp add: check2DComposition_def with_comp_def Let_def forceVync_def demo_hw assms demo_comp z
        device_only_def client_only_def buffer_of_def one_layer cfg demo_flags f)
qed

lemma one_step:
  assumes "v_layers v = [layer_one]" "v_vec v = []"
  shows "assign_step env_disp d True 0 v = v\<lparr>v_vec := [Own 0], v_total := v_total v + 1\<rparr>"
proof -
  have f: "\<not> de_checkOverlay env_disp l" "de_sv env_disp = sv_ref" for l by (simp_all add: env_disp_def)
  show ?thesis by (simp add: assign_step_def assms one_layer f assign_layer_def Let_def sv_ref_def)
qed

lemma one_verify: "verifyLayers env_disp 0 disp_one = (True, 0, disp_ready)"
proof -
  have m: "classify_all [layer_one] = [layer_one]" "device_ok [layer_one]"
    by (simp_all add: classify_all_def device_ok_def one_classify)
  show ?thesis
    by (simp add: verifyLayers_def one_check2D one_state m with_comp_def demo_comp one_step choose_overlay_def
        skip_background_def one_layer only_overlay_def keep_ui_def disp_ready_def Let_def)
qed

lemma one_alive: "alive comp_open (Some 1000)" "drawable_list comp_open True [layer_one]"
  by (simp_all add: alive_def deref_def demo_comp drawable_def one_layer)

theorem compose_succeeds_witness:
  "\<exists>c'. compose_vector lib_demo (Some 1000) [layer_one] comp_open = Some (0, c')"
  using compose_succeeds[OF one_alive] .

text \<open>Helper libraries that lock and unlock a surface.\<close>

definition lib_lock :: g2d_lib where
  "lib_lock = lib_demo\<lparr>l_lockSurface := Some (\<lambda>m. (0, m)), l_unlockSurface := Some (\<lambda>m. (0, m))\<rparr>"

theorem compose_locks_balanced_witness:
  "\<exists>c'. compose_vector lib_lock (Some 1000) [layer_one] comp_open = Some (0, c') \<and>
     lock_balance 1000 (gcalls c') = lock_balance 1000 (gcalls comp_open)"
proof -
  obtain c' where c: "compose_vector lib_lock (Some 1000) [layer_one] comp_open = Some (0, c')"
    using compose_succeeds[OF one_alive] by blast
  have "(l_lockSurface lib_lock = None) = (l_unlockSurface lib_lock = None)" by (simp add: lib_lock_def)
  from compose_locks_balanced[OF c this] c show ?thesis by simp
qed

lemma ready_state:
  "mHwLayers (waitOnFence disp_ready) = replicate MAX_LAYERS None" "mLayerVector (waitOnFence disp_ready) = [Own 0]"
  "d_comp (waitOnFence disp_ready) = comp_open" "mIndex disp_ready = DISPLAY_PRIMARY"
  "mRenderTarget (waitOnFence disp_ready) = Some 1000" "de_performOverlay env_disp d = d"
  "mIndex (waitOnFence disp_ready) = DISPLAY_PRIMARY" "mHwLayers disp_ready = replicate MAX_LAYERS None"
  "mLayers (waitOnFence disp_ready) = [layer_one\<lparr>acquireFence := -1\<rparr>]" "mLayerVector disp_ready = [Own 0]"
  by (simp_all add: waitOnFence_def d_emit_def disp_ready_def one_state env_disp_def one_layer)
     (simp_all add: disp_one_def)

lemma ready_compose: "\<exists>d'. composeLayersLocked env_disp disp_ready = Some (0, d')"
proof -
  have l: "layer_at (waitOnFence disp_ready) (Own 0) = layer_one\<lparr>acquireFence := -1\<rparr>"
    by (simp add: layer_at_def ready_state)
  have "drawable_list comp_open True [layer_one\<lparr>acquireFence := -1\<rparr>]"
    using one_alive by (simp add: drawable_def composed_def isSolidColor_def)
  from compose_succeeds[OF one_alive(1) this, of lib_demo] show ?thesis
    by (auto simp: composeLayersLocked_def Let_def ready_state demo_hw l demo_comp)
qed

end
