(* ===== verification/Edid_Parser.thy ===== *)
theory Edid_Parser
  imports HAL_Prelude "HOL-Library.Monad_Syntax"
begin

text \<open>
  \<open>Edid\<close> (\<open>libedid/Edid.cpp\<close>) and \<open>Display::getDisplayIdentificationData\<close>
  (\<open>display/display/Display.cpp\<close>).  The blob that the kernel hands over is a list of bytes; a pointer
  into it is an offset, and reading outside of it is undefined behaviour, the result \<open>None\<close>.
  Luminances are stored in floats that hold bytes, here natural numbers.
\<close>

section \<open>State and blob\<close>

definition EDID_LENGTH :: nat where [simp]: "EDID_LENGTH = 128"
definition CEA_EXTENSION :: u8 where [simp]: "CEA_EXTENSION = 0x02"
definition DATA_BLOCK_EXTENDED_TAG :: u8 where [simp]: "DATA_BLOCK_EXTENDED_TAG = 0x07"
definition HDR_STATIC_METADATA_BLOCK :: u8 where [simp]: "HDR_STATIC_METADATA_BLOCK = 0x06"
definition SDR_DEFAULT_LUMINANCE :: nat where [simp]: "SDR_DEFAULT_LUMINANCE = 100"
definition EXTENSION_NUM :: nat where [simp]: "EXTENSION_NUM = 0x7e"
definition LEN_MASK :: u8 where [simp]: "LEN_MASK = 0x1f"
definition TAG_SHIFT :: nat where [simp]: "TAG_SHIFT = 5"

record hdr_meta =
  eotf :: u8
  max_cll :: nat
  max_fall :: nat
  min_cll :: nat

record edid =
  mIsHdrSupported :: bool
  mHdrMetaData :: hdr_meta
  edidValid :: bool
  mRawData :: "u8 list"

definition Edid_init :: edid where
  "Edid_init = \<lparr>mIsHdrSupported = False,
     mHdrMetaData = \<lparr>eotf = 0, max_cll = 0, max_fall = 0, min_cll = 0\<rparr>, edidValid = False, mRawData = []\<rparr>"

definition byte_at :: "u8 list \<Rightarrow> nat \<Rightarrow> u8 option" where
  "byte_at b i = (if i < length b then Some (b ! i) else None)"

section \<open>Checksum and extension blocks\<close>

text \<open>\<open>isEdidValid\<close>; \<open>p\<close> is the offset of the block, \<open>None\<close> for the null pointer.\<close>

definition isEdidValid :: "u8 list \<Rightarrow> nat option \<Rightarrow> bool option" where
  "isEdidValid b p =
     (case p of
        None \<Rightarrow> Some False
      | Some start \<Rightarrow>
          if length b < start + EDID_LENGTH then None
          else (let check = b ! (start + EDID_LENGTH - 1);
                    total = fold (\<lambda>i s. s + b ! (start + i)) [0..<EDID_LENGTH - 1] 0
                in Some (check + total = 0)))"

fun cea_search :: "u8 list \<Rightarrow> nat list \<Rightarrow> nat option option" where
  "cea_search b [] = Some None"
| "cea_search b (i # is) =
     (case isEdidValid b (Some (EDID_LENGTH * i)) of
        None \<Rightarrow> None
      | Some valid \<Rightarrow>
          if \<not> valid then Some None
          else if b ! (EDID_LENGTH * i) \<noteq> CEA_EXTENSION then cea_search b is
          else Some (Some (EDID_LENGTH * i)))"

definition getCeaExtensionData :: "u8 list \<Rightarrow> nat option option" where
  "getCeaExtensionData b =
     (case byte_at b EXTENSION_NUM of
        None \<Rightarrow> None
      | Some n \<Rightarrow> cea_search b [1..<Suc (unat n)])"

section \<open>Data blocks\<close>

definition getDataBlockLen :: "u8 \<Rightarrow> nat" where
  "getDataBlockLen h = unat (h AND LEN_MASK)"

definition isHdrMetadataBlock :: "u8 list \<Rightarrow> nat \<Rightarrow> bool option" where
  "isHdrMetadataBlock b p =
     (case byte_at b p of
        None \<Rightarrow> None
      | Some h \<Rightarrow>
          if drop_bit TAG_SHIFT h \<noteq> DATA_BLOCK_EXTENDED_TAG then Some False
          else map_option (\<lambda>t. t = HDR_STATIC_METADATA_BLOCK) (byte_at b (p + 1)))"

definition parseHdrMetadataBlock :: "u8 list \<Rightarrow> nat \<Rightarrow> hdr_meta \<Rightarrow> hdr_meta option" where
  "parseHdrMetadataBlock b p m =
     do { h \<leftarrow> byte_at b p;
          e \<leftarrow> byte_at b (p + 2);
          let len = getDataBlockLen h; m1 = m\<lparr>eotf := e\<rparr>
          in if len = 6 then
               do { c \<leftarrow> byte_at b (p + 4); f \<leftarrow> byte_at b (p + 5); l \<leftarrow> byte_at b (p + 6);
                    Some (m1\<lparr>max_cll := unat c, max_fall := unat f, min_cll := unat l\<rparr>) }
             else if len = 5 then
               do { c \<leftarrow> byte_at b (p + 4); f \<leftarrow> byte_at b (p + 5);
                    Some (m1\<lparr>max_cll := unat c, max_fall := unat f\<rparr>) }
             else if len = 4 then
               do { c \<leftarrow> byte_at b (p + 4); Some (m1\<lparr>max_cll := unat c\<rparr>) }
             else if len = 3 \<and> has_flag e 1 then
               Some (m1\<lparr>max_cll := SDR_DEFAULT_LUMINANCE, max_fall := SDR_DEFAULT_LUMINANCE,
                        min_cll := SDR_DEFAULT_LUMINANCE\<rparr>)
             else Some m1 }"

text \<open>The loop of \<open>parseCeaExtData\<close>: \<open>i\<close> advances by at least one, up to \<open>ceaDbLen\<close>.\<close>

function parse_blocks :: "u8 list \<Rightarrow> nat \<Rightarrow> nat \<Rightarrow> nat \<Rightarrow> edid \<Rightarrow> edid option" where
  "parse_blocks b start ceaDbLen i e =
     (if i \<ge> ceaDbLen then Some e
      else case byte_at b (start + i) of
        None \<Rightarrow> None
      | Some h \<Rightarrow>
          (let next = i + (getDataBlockLen h + 1)
           in case isHdrMetadataBlock b (start + i) of
                None \<Rightarrow> None
              | Some False \<Rightarrow> parse_blocks b start ceaDbLen next e
              | Some True \<Rightarrow>
                  (case parseHdrMetadataBlock b (start + i) (mHdrMetaData e) of
                     None \<Rightarrow> None
                   | Some m \<Rightarrow> parse_blocks b start ceaDbLen next
                                 (e\<lparr>mIsHdrSupported := True, mHdrMetaData := m\<rparr>))))"
  by pat_completeness auto
termination by (relation "measure (\<lambda>(b, start, ceaDbLen, i, e). ceaDbLen - i)") auto

declare parse_blocks.simps [simp del]

definition parseCeaExtData :: "u8 list \<Rightarrow> nat option \<Rightarrow> edid \<Rightarrow> edid option" where
  "parseCeaExtData b p e =
     (case isEdidValid b p of
        None \<Rightarrow> None
      | Some False \<Rightarrow> Some e
      | Some True \<Rightarrow> (case byte_at b (the p + 2) of
                       None \<Rightarrow> None
                     | Some d \<Rightarrow> parse_blocks b (the p) (unat d) 4 e))"

text \<open>\<open>getEdidDataFromDrm\<close>, given the blob that the kernel returned, if any.\<close>

definition getEdidDataFromDrm :: "u8 list option \<Rightarrow> edid \<Rightarrow> edid option" where
  "getEdidDataFromDrm blob e =
     (case blob of
        None \<Rightarrow> Some e
      | Some b \<Rightarrow>
          do { valid \<leftarrow> isEdidValid b (Some 0);
               if \<not> valid then Some e
               else do { ext \<leftarrow> getCeaExtensionData b;
                         e1 \<leftarrow> parseCeaExtData b ext e;
                         Some (e1\<lparr>mRawData := take EDID_LENGTH b, edidValid := True\<rparr>) } })"

definition Edid_new :: "u8 list option \<Rightarrow> edid option" where
  "Edid_new blob = getEdidDataFromDrm blob Edid_init"

section \<open>Queries\<close>

definition edid_isHdrSupported :: "edid \<Rightarrow> bool" where
  "edid_isHdrSupported e = mIsHdrSupported e"

definition getEdidRawData :: "edid \<Rightarrow> int \<Rightarrow> int \<times> u8 list" where
  "getEdidRawData e buflen =
     (if buflen < int EDID_LENGTH \<or> \<not> edidValid e then (-1, []) else (int EDID_LENGTH, mRawData e))"

definition isHdrEotfSupported :: "edid \<Rightarrow> nat \<Rightarrow> bool" where
  "isHdrEotfSupported e k \<longleftrightarrow> bit (eotf (mHdrMetaData e)) k"

text \<open>\<open>hdrTable\<close> pairs the transfer functions of the kernel with the HDR types of Android.\<close>

definition getHdrSupportTypes :: "(nat \<times> int) list \<Rightarrow> edid \<Rightarrow> int list" where
  "getHdrSupportTypes hdrTable e = map snd (filter (\<lambda>(k, t). bit (eotf (mHdrMetaData e)) k) hdrTable)"

section \<open>Display identification\<close>

definition default_edid :: "u8 list" where
  "default_edid =
    [0, 0xFF, 0xFF, 0xFF, 0xFF, 0xFF, 0xFF, 0, 0x3B, 0x10, 0, 0, 0, 0, 0, 0,
     1, 0x1D, 1, 3, 0, 0, 0, 0, 0, 0, 0, 0, 0, 0, 0, 0,
     0, 0, 0, 0, 0, 0, 1, 1, 1, 1, 1, 1, 1, 1, 1, 1,
     1, 1, 1, 1, 1, 1, 0x64, 0, 0, 0, 0, 0, 0, 0, 0, 0,
     0, 0, 0, 0, 0, 0, 0, 0, 0, 0, 0, 0xFC, 0, 0x4E, 0x58, 0x50,
     0x20, 0x41, 0x6E, 0x64, 0x72, 0x6F, 0x69, 0x64, 0x0A, 0x0A, 0, 0, 0, 0x10, 0, 0,
     0, 0, 0, 0, 0, 0, 0, 0, 0, 0, 0, 0, 0, 0, 0, 0x10,
     0, 0, 0, 0, 0, 0, 0, 0, 0, 0, 0, 0, 0, 0, 0, 0x1E]"

text \<open>
  \<open>getDisplayIdentificationData\<close>: the port, and the length and bytes that are written.
\<close>

definition getDisplayIdentificationData :: "i32 \<Rightarrow> i32 \<Rightarrow> edid option \<Rightarrow> u32 \<Rightarrow> u8 \<times> int \<times> u8 list" where
  "getDisplayIdentificationData mIndex mTileHwLimit mEdid buflen =
     (let port = (if 0 <s mTileHwLimit then ucast (push_bit 6 mTileHwLimit OR mIndex) else ucast mIndex)
      in if buflen < word_of_nat EDID_LENGTH then (port, -1, [])
         else case mEdid of
           None \<Rightarrow> (port, int EDID_LENGTH, default_edid)
         | Some e \<Rightarrow>
             (case getEdidRawData e (sint buflen) of
                (len, bytes) \<Rightarrow> if len \<le> 0 then (port, int EDID_LENGTH, default_edid)
                                else (port, len, bytes)))"

section \<open>Memory safety\<close>

lemma byte_at_some [simp]: "i < length b \<Longrightarrow> byte_at b i = Some (b ! i)"
  by (simp add: byte_at_def)

lemma isEdidValid_some: "start + 128 \<le> length b \<Longrightarrow> \<exists>v. isEdidValid b (Some start) = Some v"
  by (auto simp: isEdidValid_def Let_def)

lemma cea_search_in_bounds:
  assumes "\<forall>i\<in>set is. 128 * i + 128 \<le> length b"
  shows "\<exists>p. cea_search b is = Some p \<and> (\<forall>q. p = Some q \<longrightarrow>
    (\<exists>i\<in>set is. q = 128 * i \<and> b ! (128 * i) = CEA_EXTENSION \<and> isEdidValid b (Some q) = Some True))"
  using assms
proof (induction "is")
  case (Cons i "is")
  then obtain v where "isEdidValid b (Some (128 * i)) = Some v"
    using isEdidValid_some[of "128 * i" b] by auto
  with Cons show ?case by (cases v) auto
qed simp

lemma getDataBlockLen_le: "getDataBlockLen h \<le> 31"
proof -
  have "h AND 0x1f \<le> 0x1f" by (rule word_and_le1)
  then show ?thesis by (simp add: getDataBlockLen_def word_le_nat_alt)
qed

lemma isHdrMetadataBlock_in_bounds:
  "p + 1 < length b \<Longrightarrow> \<exists>t. isHdrMetadataBlock b p = Some t"
  by (simp add: isHdrMetadataBlock_def) blast

lemma parseHdrMetadataBlock_in_bounds:
  "p + 6 < length b \<Longrightarrow> \<exists>m'. parseHdrMetadataBlock b p m = Some m'"
  by (auto simp: parseHdrMetadataBlock_def Let_def)

lemma parse_blocks_in_bounds:
  "start + n + 6 \<le> length b \<Longrightarrow> \<exists>e'. parse_blocks b start n i e = Some e'"
proof (induction b start n i e rule: parse_blocks.induct)
  case (1 b start n i e)
  show ?case
  proof (cases "i \<ge> n")
    case False
    obtain t where t: "isHdrMetadataBlock b (start + i) = Some t"
      using isHdrMetadataBlock_in_bounds[of "start + i" b] 1(3) False by auto
    obtain m where m: "parseHdrMetadataBlock b (start + i) (mHdrMetaData e) = Some m"
      using 1(3) False parseHdrMetadataBlock_in_bounds[of "start + i" b] by auto
    have r: "byte_at b (start + i) = Some (b ! (start + i))" using 1(3) False by simp
    show ?thesis
      using 1(1)[OF False r refl t] 1(2)[OF False r refl t] 1(3) False t m r
      by (cases t) (auto simp: parse_blocks.simps[of b start n i e] Let_def)
  qed (simp add: parse_blocks.simps)
qed

text \<open>
  C24: the EDID parser never reads outside of the blob when the blob has the extension blocks that it
  announces and each CEA block keeps its data blocks within the first 122 bytes.
\<close>

theorem edid_in_bounds:
  assumes "length b = 128 * (1 + unat (b ! 126))"
    and "\<forall>i\<in>{1..unat (b ! 126)}. b ! (128 * i) = 2 \<longrightarrow> b ! (128 * i + 2) \<le> 122"
  shows "\<exists>e. Edid_new (Some b) = Some e"
proof -
  obtain v where v: "isEdidValid b (Some 0) = Some v" using isEdidValid_some[of 0 b] assms(1) by auto
  have s: "set [1..<Suc k] = {1..k}" for k by auto
  have "\<forall>i\<in>set [1..<Suc (unat (b ! 126))]. 128 * i + 128 \<le> length b" unfolding s using assms(1) by auto
  from cea_search_in_bounds[OF this, unfolded s] obtain p where p: "getCeaExtensionData b = Some p"
    "\<forall>q. p = Some q \<longrightarrow> (\<exists>i\<in>{1..unat (b ! 126)}. q = 128 * i \<and> b ! (128 * i) = 2 \<and>
       isEdidValid b (Some q) = Some True)"
    using assms(1) by (auto simp: getCeaExtensionData_def simp del: upt_Suc)
  have "\<exists>e. parseCeaExtData b p e0 = Some e" for e0
  proof (cases p)
    case None
    then show ?thesis by (simp add: parseCeaExtData_def isEdidValid_def)
  next
    case (Some q)
    then obtain i where i: "i \<in> {1..unat (b ! 126)}" "q = 128 * i" "b ! (128 * i) = 2" "isEdidValid b (Some q) = Some True"
      using p(2) by blast
    have "unat (b ! (q + 2)) \<le> 122" using assms(2) i by (simp add: word_le_nat_alt)
    then have "\<exists>e. parse_blocks b q (unat (b ! (q + 2))) 4 e0 = Some e"
      using i(1,2) assms(1) by (intro parse_blocks_in_bounds) auto
    moreover have "q + 2 < length b" using i(1,2) assms(1) by auto
    ultimately show ?thesis using i(4) Some by (simp add: parseCeaExtData_def)
  qed
  then obtain e where "parseCeaExtData b p Edid_init = Some e" by blast
  then show ?thesis using v p(1) by (cases v) (simp_all add: Edid_new_def getEdidDataFromDrm_def)
qed

definition edid_one_ext :: "u8 list" where
  "edid_one_ext = replicate 126 0 @ [1, 255]"

definition cea_overlong :: "u8 list" where
  "cea_overlong = [2, 3, 255] @ replicate 124 0 @ [252]"

text \<open>
  Without that bound it does: the length byte of the CEA block is not checked, and a blob of two
  blocks with correct checksums makes the parser read past its end.
\<close>

theorem edid_overread:
  "isEdidValid (edid_one_ext @ cea_overlong) (Some 0) = Some True \<and>
   isEdidValid (edid_one_ext @ cea_overlong) (Some 128) = Some True \<and>
   length (edid_one_ext @ cea_overlong) = 256 \<and>
   Edid_new (Some (edid_one_ext @ cea_overlong)) = None"
  by code_simp

section \<open>Round trip\<close>

text \<open>A data block of a CEA extension (tag and payload), how it is encoded, and what it says of HDR.\<close>

definition enc_block :: "nat \<times> u8 list \<Rightarrow> u8 list" where
  "enc_block tp = (push_bit 5 (word_of_nat (fst tp)) OR word_of_nat (length (snd tp))) # snd tp"

definition wf_block :: "nat \<times> u8 list \<Rightarrow> bool" where
  "wf_block tp \<longleftrightarrow> fst tp < 8 \<and> length (snd tp) < 32 \<and>
     (fst tp = 7 \<longrightarrow> snd tp \<noteq> [] \<and> (snd tp ! 0 = 6 \<longrightarrow> 3 \<le> length (snd tp)))"

definition is_hdr :: "nat \<times> u8 list \<Rightarrow> bool" where
  "is_hdr tp \<longleftrightarrow> fst tp = 7 \<and> snd tp ! 0 = 6"

definition hdr_of :: "u8 list \<Rightarrow> hdr_meta \<Rightarrow> hdr_meta" where
  "hdr_of p m =
     (let n = length p; m1 = m\<lparr>eotf := p ! 1\<rparr>; v = \<lambda>i. unat (p ! i)
      in if n = 6 then m1\<lparr>max_cll := v 3, max_fall := v 4, min_cll := v 5\<rparr>
         else if n = 5 then m1\<lparr>max_cll := v 3, max_fall := v 4\<rparr>
         else if n = 4 then m1\<lparr>max_cll := v 3\<rparr>
         else if n = 3 \<and> has_flag (p ! 1) 1 then m1\<lparr>max_cll := 100, max_fall := 100, min_cll := 100\<rparr>
         else m1)"

definition apply_block :: "nat \<times> u8 list \<Rightarrow> edid \<Rightarrow> edid" where
  "apply_block tp e =
     (if is_hdr tp then e\<lparr>mIsHdrSupported := True, mHdrMetaData := hdr_of (snd tp) (mHdrMetaData e)\<rparr> else e)"

lemma enc_header:
  assumes "t < 8" "n < 32"
  defines "h \<equiv> push_bit 5 (word_of_nat t) OR word_of_nat n :: u8"
  shows "getDataBlockLen h = n" "drop_bit 5 h = word_of_nat t"
proof -
  have "t \<in> {..<8}" "n \<in> {..<32}" using assms by auto
  then show "getDataBlockLen h = n" "drop_bit 5 h = word_of_nat t"
    unfolding h_def getDataBlockLen_def
    by (auto simp: lessThan_nat_numeral lessThan_Suc)
qed


lemma tag7: "t < 8 \<Longrightarrow> (word_of_nat t :: u8) = 7 \<longleftrightarrow> t = 7"
proof -
  assume "t < 8"
  then show ?thesis by (simp add: word_unat_eq_iff unat_of_nat)
qed

lemma parse_one:
  assumes "wf_block tp" "b = pre @ enc_block tp @ post"
  shows "getDataBlockLen (b ! length pre) = length (snd tp)"
    and "isHdrMetadataBlock b (length pre) = Some (is_hdr tp)"
    and "is_hdr tp \<Longrightarrow> parseHdrMetadataBlock b (length pre) m = Some (hdr_of (snd tp) m)"
proof -
  let ?p = "length pre" and ?pl = "snd tp"
  have h: "b ! ?p = push_bit 5 (word_of_nat (fst tp)) OR word_of_nat (length ?pl)" "?p < length b"
    by (simp_all add: assms(2) enc_block_def)
  have wf: "fst tp < 8" "length ?pl < 32" "fst tp = 7 \<Longrightarrow> ?pl \<noteq> []" "is_hdr tp \<Longrightarrow> 3 \<le> length ?pl"
    using assms(1) by (auto simp: wf_block_def is_hdr_def)
  have pl: "byte_at b (?p + Suc k) = Some (?pl ! k)" if "k < length ?pl" for k
    using that by (simp add: assms(2) enc_block_def byte_at_def nth_append)
  note hd = enc_header[OF wf(1,2), folded h(1)]
  show "getDataBlockLen (b ! ?p) = length ?pl" by (rule hd(1))
  show "isHdrMetadataBlock b ?p = Some (is_hdr tp)"
    using wf(3) pl[of 0] h(2) by (auto simp: isHdrMetadataBlock_def hd(2) tag7[OF wf(1)] is_hdr_def)
  assume "is_hdr tp"
  from wf(4)[OF this] show "parseHdrMetadataBlock b ?p m = Some (hdr_of ?pl m)"
    using pl[of 1] pl[of 3] pl[of 4] pl[of 5] h(2)
    by (simp add: parseHdrMetadataBlock_def hd(1) hdr_of_def Let_def numeral_eq_Suc)
qed

lemma parse_enc_blocks:
  assumes "\<forall>tp\<in>set blocks. wf_block tp"
    and "b = pre @ mid @ concat (map enc_block blocks) @ post" "length pre = start" "length mid = i"
  shows "parse_blocks b start (i + length (concat (map enc_block blocks))) i e = Some (fold apply_block blocks e)"
  using assms
proof (induction blocks arbitrary: mid i e)
  case Nil
  then show ?case by (simp add: parse_blocks.simps)
next
  case (Cons tp blocks)
  let ?rest = "concat (map enc_block blocks)"
  have b: "b = (pre @ mid) @ enc_block tp @ (?rest @ post)" and p: "start + i = length (pre @ mid)"
    using Cons.prems by simp_all
  have wf: "wf_block tp" using Cons.prems by simp
  note one = parse_one[OF wf b, folded p]
  have len: "length (enc_block tp) = Suc (length (snd tp))" by (simp add: enc_block_def)
  have r: "byte_at b (start + i) = Some (b ! (start + i))" using b p by (simp add: byte_at_def len)
  let ?n = "i + length (concat (map enc_block (tp # blocks)))"
  have "length (mid @ enc_block tp) = i + length (enc_block tp)" by (simp add: Cons.prems(4))
  then have "parse_blocks b start (i + length (enc_block tp) + length ?rest) (i + length (enc_block tp)) e' =
      Some (fold apply_block blocks e')" for e'
    using Cons.prems Cons.IH[where mid = "mid @ enc_block tp" and i = "i + length (enc_block tp)"] by simp
  moreover have "i + length (enc_block tp) + length ?rest = ?n" "i + length (enc_block tp) = i + (length (snd tp) + 1)"
    using len by simp_all
  ultimately have step: "parse_blocks b start ?n (i + (length (snd tp) + 1)) e' = Some (fold apply_block blocks e')" for e'
    by metis
  have "\<not> ?n \<le> i" by (simp add: len)
  then show ?case
    by (subst parse_blocks.simps) (cases "is_hdr tp"; simp only: r Let_def apply_block_def one step option.case bool.case if_False fold_simps if_True)
qed

lemma isEdidValid_append:
  assumes "length base = 128"
  shows "isEdidValid (base @ x) (Some 0) = isEdidValid base (Some 0)"
    and "isEdidValid (base @ x) (Some 128) = isEdidValid x (Some 0)"
proof -
  have "fold (\<lambda>i s. s + (base @ x) ! (0 + i)) [0..<127] 0 = fold (\<lambda>i s. s + base ! (0 + i)) [0..<127] 0"
    by (rule fold_cong) (use assms in \<open>auto simp: nth_append\<close>)
  then show "isEdidValid (base @ x) (Some 0) = isEdidValid base (Some 0)"
    using assms by (simp add: isEdidValid_def nth_append)
  have "fold (\<lambda>i s. s + (base @ x) ! (128 + i)) [0..<127] 0 = fold (\<lambda>i s. s + x ! (0 + i)) [0..<127] 0"
    by (rule fold_cong) (use assms in \<open>auto simp: nth_append\<close>)
  then show "isEdidValid (base @ x) (Some 128) = isEdidValid x (Some 0)"
    using assms by (auto simp: isEdidValid_def nth_append)
qed

text \<open>
  C23: the parser inverts the encoding of an EDID with a CEA extension: whatever well-formed data
  blocks the extension carries, the HDR capabilities are those of its HDR static metadata blocks,
  the other blocks are skipped, and the raw data is the base block.
\<close>

theorem edid_roundtrip:
  assumes "length base = 128" "base ! 126 = 1" "isEdidValid base (Some 0) = Some True"
    and "cea = [2, ver, word_of_nat (4 + length body), f] @ body @ rest" "length cea = 128"
    and "isEdidValid cea (Some 0) = Some True"
    and "body = concat (map enc_block blocks)" "\<forall>tp\<in>set blocks. wf_block tp"
  shows "Edid_new (Some (base @ cea)) =
    Some ((fold apply_block blocks Edid_init)\<lparr>mRawData := base, edidValid := True\<rparr>)"
proof -
  let ?b = "base @ cea"
  have v: "isEdidValid ?b (Some 0) = Some True" "isEdidValid ?b (Some 128) = Some True"
    using isEdidValid_append[OF assms(1), of cea] assms(3,6) by simp_all
  have "byte_at ?b 126 = Some 1" "?b ! 128 = 2" using assms(1,2,4) by (simp_all add: byte_at_def nth_append)
  then have ext: "getCeaExtensionData ?b = Some (Some 128)"
    using v by (simp add: getCeaExtensionData_def)
  have d: "byte_at ?b 130 = Some (word_of_nat (4 + length body))"
    using assms(1,4) by (simp add: byte_at_def nth_append)
  have "length body \<le> 124" using assms(4,5) by simp
  then have n: "unat (word_of_nat (4 + length body) :: u8) = 4 + length body"
    by (simp add: unat_of_nat del: of_nat_add)
  have "parse_blocks ?b 128 (4 + length body) 4 e = Some (fold apply_block blocks e)" for e
    unfolding assms(7)
    by (rule parse_enc_blocks[OF assms(8), where pre = base and mid = "[2, ver, word_of_nat (4 + length body), f]" and
        post = rest]) (use assms in simp_all)
  then have "parseCeaExtData ?b (Some 128) e = Some (fold apply_block blocks e)" for e
    using v d n by (simp add: parseCeaExtData_def)
  then show ?thesis using v ext assms(1) by (simp add: Edid_new_def getEdidDataFromDrm_def)
qed

lemma default_edid_valid: "isEdidValid default_edid (Some 0) = Some True" "length default_edid = 128"
  by code_simp+

text \<open>
  The identification data of a display is always an EDID block with a correct checksum: the raw
  data of the monitor when it is valid, and otherwise the built-in default.
\<close>

theorem identification_data_valid:
  assumes "128 \<le> buflen" "Edid_new blob = Some e"
    and "mEdid = None \<or> mEdid = Some e"
  shows "\<exists>port data. getDisplayIdentificationData idx limit mEdid buflen = (port, 128, data) \<and>
    length data = 128 \<and> isEdidValid data (Some 0) = Some True"
proof -
  have raw: "length (mRawData e) = 128 \<and> isEdidValid (mRawData e) (Some 0) = Some True" if valid: "edidValid e"
  proof -
    obtain b where b: "blob = Some b" "isEdidValid b (Some 0) = Some True" "mRawData e = take 128 b"
      using assms(2) valid
      by (auto simp: Edid_new_def getEdidDataFromDrm_def Edid_init_def bind_eq_Some_conv split: option.split_asm if_split_asm)
    then have l: "128 \<le> length b" by (auto simp: isEdidValid_def split: if_split_asm)
    then show ?thesis
      using b isEdidValid_append(1)[of "take 128 b" "drop 128 b"] by simp
  qed
  have "\<not> buflen < 128" using assms(1) by simp
  then show ?thesis
    using raw default_edid_valid assms(3) by (auto simp: getDisplayIdentificationData_def getEdidRawData_def Let_def)
qed

section \<open>Witnesses\<close>

definition hdr_block :: "nat \<times> u8 list" where "hdr_block = (7, [6, 5, 1, 100, 80, 10])"

definition hdr_body :: "u8 list" where "hdr_body = [0xE6, 6, 5, 1, 100, 80, 10]"

definition hdr_cea :: "u8 list" where
  "hdr_cea = [2, 3, 11, 0] @ hdr_body @ (replicate 116 0 @ [64])"

lemma hdr_demo:
  "length edid_one_ext = 128" "edid_one_ext ! 126 = 1" "isEdidValid edid_one_ext (Some 0) = Some True"
  "length hdr_cea = 128" "isEdidValid hdr_cea (Some 0) = Some True"
  "hdr_body = concat (map enc_block [hdr_block])" "\<forall>tp\<in>set [hdr_block]. wf_block tp"
  "word_of_nat (4 + length hdr_body) = (11 :: u8)" "hdr_cea ! 2 = 11"
  by code_simp+

theorem edid_roundtrip_witness:
  "\<exists>e. Edid_new (Some (edid_one_ext @ hdr_cea)) = Some e \<and> mIsHdrSupported e \<and>
     mHdrMetaData e = \<lparr>eotf = 5, max_cll = 100, max_fall = 80, min_cll = 10\<rparr>"
proof -
  have c: "hdr_cea = [2, 3, word_of_nat (4 + length hdr_body), 0] @ hdr_body @ (replicate 116 0 @ [64])"
    by (simp only: hdr_demo(8) hdr_cea_def)
  from edid_roundtrip[OF hdr_demo(1-3) c hdr_demo(4-7)] show ?thesis
    by (simp add: apply_block_def is_hdr_def hdr_block_def hdr_of_def Edid_init_def Let_def)
qed

theorem edid_in_bounds_witness: "\<exists>e. Edid_new (Some (edid_one_ext @ hdr_cea)) = Some e"
proof (rule edid_in_bounds)
  have n: "unat ((edid_one_ext @ hdr_cea) ! 126) = 1" using hdr_demo(1,2) by (simp add: nth_append)
  show "length (edid_one_ext @ hdr_cea) = 128 * (1 + unat ((edid_one_ext @ hdr_cea) ! 126))"
    unfolding n using hdr_demo(1,4) by simp
  show "\<forall>i\<in>{1..unat ((edid_one_ext @ hdr_cea) ! 126)}.
     (edid_one_ext @ hdr_cea) ! (128 * i) = 2 \<longrightarrow> (edid_one_ext @ hdr_cea) ! (128 * i + 2) \<le> 122"
    unfolding n using hdr_demo(1,9) by (simp add: nth_append)
qed

theorem identification_data_valid_witness:
  "\<exists>e port data. Edid_new (Some (edid_one_ext @ hdr_cea)) = Some e \<and>
     getDisplayIdentificationData 1 0 (Some e) 256 = (port, 128, data) \<and> isEdidValid data (Some 0) = Some True"
proof -
  have "\<not> Option.is_none (Edid_new (Some (edid_one_ext @ hdr_cea)))" by code_simp
  then obtain e where e: "Edid_new (Some (edid_one_ext @ hdr_cea)) = Some e" by (auto simp: Option.is_none_def)
  from identification_data_valid[OF _ e disjI2[OF refl], of 256 1 0] e show ?thesis by auto
qed

end
