(* ===== verification/Kms_Device.thy ===== *)
theory Kms_Device
  imports Kms_Mode Display_Compose Edid_Parser "HOL-Library.AList"
begin

text \<open>
  \<open>KmsDisplay\<close> (\<open>display/display/KmsDisplay.cpp\<close>): opening and closing the device, its connection
  and power, and the frame buffers.  The base class is the field \<open>k_disp\<close>, its configurations
  are \<open>k_conf\<close>.  What the kernel answers through \<open>libdrm\<close> while an operation runs is the
  parameter \<open>drm\<close>; a pointer that the code uses although the kernel returned none is undefined
  behaviour, the result \<open>None\<close>.
\<close>

section \<open>The kernel\<close>

record drm_connector =
  dc_type :: nat
  dc_connection :: nat
  dc_modes :: "drm_mode list"
  dc_encoders :: "u32 list"
  dc_mmWidth :: int
  dc_mmHeight :: int

record drm_plane =
  dp_formats :: "u32 list"
  dp_possible_crtcs :: u32

text \<open>A property of an object: name, id and value; \<open>None\<close> where \<open>drmModeGetProperty\<close> fails.\<close>

type_synonym drm_props = "(string \<times> u32 \<times> u64) option list option"

record drm =
  ke_prop :: "string \<Rightarrow> string option"
  ke_resources :: "u32 list option"
  ke_setClientCap :: "nat \<Rightarrow> int"
  ke_addfb2_modifiers :: u64
  ke_connector :: "u32 \<Rightarrow> drm_connector option"
  ke_encoder :: "u32 \<Rightarrow> (u32 \<times> int) option"
  ke_plane_ids :: "u32 list option"
  ke_plane :: "u32 \<Rightarrow> drm_plane option"
  ke_properties :: "u32 \<Rightarrow> drm_props"
  ke_setProperty :: "u32 \<Rightarrow> u32 \<Rightarrow> int \<Rightarrow> int"
  ke_edid_blob :: "u8 list option"

definition property_get :: "drm \<Rightarrow> string \<Rightarrow> string \<Rightarrow> string" where
  "property_get ke k dflt = (case ke_prop ke k of None \<Rightarrow> dflt | Some v \<Rightarrow> v)"

definition fourcc :: "char \<Rightarrow> char \<Rightarrow> char \<Rightarrow> char \<Rightarrow> u32" where
  "fourcc a b c d = of_char a + 2 ^ 8 * of_char b + 2 ^ 16 * of_char c + 2 ^ 24 * of_char d"

definition DRM_FORMAT_ABGR8888 :: u32 where "DRM_FORMAT_ABGR8888 = fourcc CHR ''A'' CHR ''B'' CHR ''2'' CHR ''4''"
definition DRM_FORMAT_XRGB8888 :: u32 where "DRM_FORMAT_XRGB8888 = fourcc CHR ''X'' CHR ''R'' CHR ''2'' CHR ''4''"
definition DRM_FORMAT_RGB565 :: u32 where "DRM_FORMAT_RGB565 = fourcc CHR ''R'' CHR ''G'' CHR ''1'' CHR ''6''"

section \<open>The state\<close>

record kms_plane =
  plane_id :: u32
  plane_fd :: int
  plane_props :: "string \<Rightarrow> u32"

datatype kms_event =
    CloseDrm int
  | SetProperty u32 u32 int
  | SecurePipe bool

record kms =
  k_disp :: display
  k_conf :: kms_config
  mBackupConfig :: display_config
  mCustomizeUI :: ui_scale
  mEdid :: "edid option"
  mDrmFd :: int
  mPowerMode :: int
  mTargets :: "nat option list"
  mTargetIndex :: nat
  mSecTargets :: "nat option list"
  mSecTargetIndex :: nat
  g2d_secure :: bool
  mCrtc :: "string \<Rightarrow> u32"
  mCrtcID :: u32
  mCrtcIndex :: int
  mEncoderType :: int
  mConnector :: "string \<Rightarrow> u32"
  mConnectorID :: u32
  mKmsPlanes :: "kms_plane list"
  mKmsPlaneNum :: nat
  mAllowModifier :: bool
  mConfigThread :: bool
  mUseOverlayAndroidUI :: bool
  mSecureDisplay :: bool
  k_events :: "kms_event list"

definition KMS_PLANE_NUM :: nat where "KMS_PLANE_NUM = 2"

definition DPMS_ON :: int where "DPMS_ON = 0"
definition DPMS_STANDBY :: int where "DPMS_STANDBY = 1"
definition DPMS_SUSPEND :: int where "DPMS_SUSPEND = 2"
definition DPMS_OFF :: int where "DPMS_OFF = 3"

definition plane0 :: kms_plane where
  "plane0 = \<lparr>plane_id = 0, plane_fd = 0, plane_props = (\<lambda>_. 0)\<rparr>"

text \<open>
  The constructor, on the part that the constructor of \<open>Display\<close> made: \<open>frames\<close> is
  \<open>MAX_FRAMEBUFFERS\<close>, \<open>secure\<close> the mode of the 2D engine at that time.
\<close>

definition KmsDisplay_init :: "display \<Rightarrow> nat \<Rightarrow> bool \<Rightarrow> drm \<Rightarrow> kms" where
  "KmsDisplay_init d frames secure ke =
     \<lparr>k_disp = d\<lparr>mListener := False\<rparr>,
      k_conf = \<lparr>mActiveConfig = -1, mConfigs = [], mFirstConfigId = 0, mDrmModes = [],
                mMode = \<lparr>hdisplay = 0, vdisplay = 0, vrefresh = 0, mode_type = 0\<rparr>, mModePrefered = -1,
                mModeset = True, mmUseConfigThread = False, mRefreshRequired = False\<rparr>,
      mBackupConfig = config0, mCustomizeUI = UI_SCALE_NONE, mEdid = None, mDrmFd = -1,
      mPowerMode = DPMS_OFF, mTargets = replicate frames None, mTargetIndex = 0,
      mSecTargets = replicate frames None, mSecTargetIndex = 0, g2d_secure = secure,
      mCrtc = (\<lambda>_. 0), mCrtcID = 0, mCrtcIndex = 0, mEncoderType = 0, mConnector = (\<lambda>_. 0),
      mConnectorID = 0, mKmsPlanes = replicate KMS_PLANE_NUM plane0, mKmsPlaneNum = 1,
      mAllowModifier = False, mConfigThread = False,
      mUseOverlayAndroidUI = (property_get ke ''ro.boot.androidui.overlay'' [] = ''enable''),
      mSecureDisplay = False, k_events = []\<rparr>"

definition k_emit :: "kms_event list \<Rightarrow> kms \<Rightarrow> kms" where
  "k_emit es k = k\<lparr>k_events := k_events k @ es\<rparr>"

section \<open>Device, connection and power\<close>

text \<open>\<open>setDrm\<close>; \<open>dup\<close> duplicates a descriptor.\<close>

definition setDrm :: "(int \<Rightarrow> int) \<Rightarrow> int \<Rightarrow> u32 \<Rightarrow> kms \<Rightarrow> int \<times> kms" where
  "setDrm dup drmfd connectorId k =
     (if drmfd < 0 \<or> connectorId = 0 then (- ENODEV, k)
      else (0, (k_emit (if mDrmFd k > 0 then [CloseDrm (mDrmFd k)] else []) k)
                 \<lparr>mDrmFd := dup drmfd, mConnectorID := connectorId\<rparr>))"

definition DISPLAY_LDB :: int where "DISPLAY_LDB = 1"
definition DISPLAY_HDMI :: int where "DISPLAY_HDMI = 2"
definition DISPLAY_DVI :: int where "DISPLAY_DVI = 3"

definition connector_display :: "nat \<Rightarrow> int" where
  "connector_display t =
     (if t = 7 then DISPLAY_LDB else if t \<in> {11, 12, 13} then DISPLAY_HDMI
      else if t \<in> {2, 3, 4} then DISPLAY_DVI else DISPLAY_LDB)"

definition readType :: "drm \<Rightarrow> kms \<Rightarrow> int \<times> kms" where
  "readType ke k =
     (if mDrmFd k < 0 \<or> mConnectorID k = 0 then (- ENODEV, k)
      else case ke_connector ke (mConnectorID k) of
        None \<Rightarrow> (- ENODEV, k)
      | Some c \<Rightarrow> (0, k\<lparr>k_disp := (k_disp k)\<lparr>mType := connector_display (dc_type c)\<rparr>\<rparr>))"

definition readConnection :: "drm \<Rightarrow> kms \<Rightarrow> int \<times> kms" where
  "readConnection ke k =
     (if mDrmFd k < 0 \<or> mConnectorID k = 0 then (- ENODEV, k)
      else case ke_connector ke (mConnectorID k) of
        None \<Rightarrow> (- ENODEV, k)
      | Some c \<Rightarrow>
          (let connected = mConnected (k_disp k);
               now = (dc_connection c = 1 \<and> dc_modes c \<noteq> [] \<and> dc_encoders c \<noteq> []);
               k1 = k\<lparr>k_disp := (k_disp k)\<lparr>mConnected := now\<rparr>\<rparr>
           in (0, if connected \<noteq> now then k1\<lparr>k_conf := (k_conf k1)\<lparr>mModeset := True\<rparr>\<rparr> else k1)))"

definition POWER_ON :: int where "POWER_ON = 0"
definition POWER_DOZE :: int where "POWER_DOZE = 1"
definition POWER_DOZE_SUSPEND :: int where "POWER_DOZE_SUSPEND = 2"
definition POWER_OFF :: int where "POWER_OFF = 3"

definition dpms_of :: "int \<Rightarrow> int" where
  "dpms_of mode =
     (if mode = POWER_ON then DPMS_ON else if mode = POWER_DOZE then DPMS_STANDBY
      else if mode = POWER_DOZE_SUSPEND then DPMS_SUSPEND else if mode = POWER_OFF then DPMS_OFF
      else DPMS_ON)"

definition DRM_MODE_ENCODER_TMDS :: int where "DRM_MODE_ENCODER_TMDS = 2"

definition setPowerMode :: "drm \<Rightarrow> int \<Rightarrow> kms \<Rightarrow> int \<times> kms" where
  "setPowerMode ke mode k =
     (let k1 = k\<lparr>mPowerMode := dpms_of mode\<rparr>;
          k2 = (if mPowerMode k1 = DPMS_ON then k1\<lparr>k_conf := (k_conf k1)\<lparr>mModeset := True\<rparr>\<rparr> else k1)
      in if \<not> mConnected (k_disp k2) \<and> mode = POWER_ON then (0, k2\<lparr>mPowerMode := DPMS_OFF\<rparr>)
         else if mEncoderType k2 = DRM_MODE_ENCODER_TMDS then (0, k2)
         else if mCrtc k2 ''DISPLAY_TRANSFER'' > 0 then
           (let disp = (if mPowerMode k2 = DPMS_ON then 1 else 2)
            in (ke_setProperty ke (mCrtcID k2) (mCrtc k2 ''DISPLAY_TRANSFER'') disp,
                k_emit [SetProperty (mCrtcID k2) (mCrtc k2 ''DISPLAY_TRANSFER'') disp] k2))
         else
           (ke_setProperty ke (mConnectorID k2) (mConnector k2 ''DPMS'') (mPowerMode k2),
            k_emit [SetProperty (mConnectorID k2) (mConnector k2 ''DPMS'') (mPowerMode k2)] k2))"

section \<open>Frame buffers\<close>

text \<open>The loop that fills the array of targets; an allocation that fails leaves its entry.\<close>

fun alloc_targets ::
    "mem_env \<Rightarrow> mem_desc \<Rightarrow> nat option list \<Rightarrow> mem_world \<Rightarrow> (mem_desc \<times> nat option list \<times> mem_world) option" where
  "alloc_targets env desc [] w = Some (desc, [], w)"
| "alloc_targets env desc (t # ts) w =
     do { (ret, desc1, h, w1) \<leftarrow> allocMemory env desc w;
          (desc2, ts2, w2) \<leftarrow> alloc_targets env desc1 ts w1;
          Some (desc2, (case h of None \<Rightarrow> t | Some a \<Rightarrow> a) # ts2, w2) }"

definition with_mem :: "mem_world \<Rightarrow> kms \<Rightarrow> kms" where
  "with_mem w k = k\<lparr>k_disp := (k_disp k)\<lparr>d_comp := (d_comp (k_disp k))\<lparr>cw := w\<rparr>\<rparr>\<rparr>"

definition k_mem :: "kms \<Rightarrow> mem_world" where
  "k_mem k = cw (d_comp (k_disp k))"

definition target_desc :: "display_config \<Rightarrow> kms \<Rightarrow> mem_desc" where
  "target_desc c k =
     (let size = (if mCustomizeUI k = UI_SCALE_SOFTWARE
                  then (hdisplay (mMode (k_conf k)), vdisplay (mMode (k_conf k))) else (mXres c, mYres c))
      in MemoryDesc_init\<lparr>mWidth := word_of_int (fst size), mHeight := word_of_int (snd size),
           mFormat := cFormat c, mFslFormat := cFormat c,
           mProduceUsage := mProduceUsage MemoryDesc_init OR (USAGE_HW_COMPOSER OR USAGE_HW_2D OR USAGE_HW_RENDER),
           mFlag := FLAGS_FRAMEBUFFER\<rparr>)"

definition prepareTargetsLocked :: "g2d_lib \<Rightarrow> kms \<Rightarrow> kms option" where
  "prepareTargetsLocked lib k =
     (let (valid, comp) = isValid lib (d_comp (k_disp k));
          k0 = k\<lparr>k_disp := (k_disp k)\<lparr>d_comp := comp\<rparr>\<rparr>;
          env = l_env lib; cfg = e_cfg env
      in if \<not> valid then Some k0
         else
           (let (c, m) = index_op (mActiveConfig (k_conf k0)) (mConfigs (k_conf k0));
                k1 = k0\<lparr>k_conf := (k_conf k0)\<lparr>mConfigs := m\<rparr>\<rparr>;
                desc = snd (checkFormat cfg (e_tile env) (target_desc c k1))
            in do { (desc1, ts, w) \<leftarrow> alloc_targets env desc (mTargets k1) (k_mem k1);
                    let k2 = (with_mem w k1)\<lparr>mTargets := ts, mTargetIndex := 0\<rparr>;
                    if HAVE_UNMAPPED_HEAP cfg then
                      do { let sec = desc1\<lparr>mProduceUsage := mProduceUsage desc1 OR
                                 (if ENABLE_8QM_WIDEVINE cfg then USAGE_PROTECTED OR USAGE_HW_VIDEO_ENCODER
                                  else USAGE_PROTECTED)\<rparr>;
                           (_, ss, w') \<leftarrow> alloc_targets env sec (mSecTargets k2) (k_mem k2);
                           Some ((with_mem w' k2)\<lparr>mSecTargets := ss, mSecTargetIndex := 0\<rparr>) }
                    else Some k2 }))"

definition release_target :: "mem_env \<Rightarrow> nat option \<Rightarrow> mem_world \<Rightarrow> mem_world option" where
  "release_target env t w =
     (case t of None \<Rightarrow> Some w | Some a \<Rightarrow> map_option snd (releaseMemory env (Some a) w))"

text \<open>The secure targets exist only with \<open>HAVE_UNMAPPED_HEAP\<close>.\<close>

fun release_targets :: "mem_env \<Rightarrow> (nat option \<times> nat option) list \<Rightarrow> mem_world \<Rightarrow> mem_world option" where
  "release_targets env [] w = Some w"
| "release_targets env ((t, st) # ts) w =
     do { w1 \<leftarrow> release_target env t w;
          w2 \<leftarrow> (if HAVE_UNMAPPED_HEAP (e_cfg env) then release_target env st w1 else Some w1);
          release_targets env ts w2 }"

definition releaseTargetsLocked :: "g2d_lib \<Rightarrow> kms \<Rightarrow> kms option" where
  "releaseTargetsLocked lib k =
     map_option (\<lambda>w.
         let k1 = (with_mem w k)\<lparr>mTargets := map (\<lambda>_. None) (mTargets k), mTargetIndex := 0\<rparr>
         in if HAVE_UNMAPPED_HEAP (e_cfg (l_env lib))
            then k1\<lparr>mSecTargets := map (\<lambda>_. None) (mSecTargets k), mSecTargetIndex := 0\<rparr> else k1)
       (release_targets (l_env lib) (zip (mTargets k) (mSecTargets k)) (k_mem k))"

section \<open>Planes and properties\<close>

text \<open>
  \<open>getPropertyValue\<close>: id and value of the property with that name, 0 and 0 when there is none;
  nothing is written when the properties of the object cannot be read.
\<close>

definition getPropertyValue :: "drm_props \<Rightarrow> string \<Rightarrow> (u32 \<times> u64) option" where
  "getPropertyValue props name =
     map_option (\<lambda>ps. case List.find (\<lambda>p. case p of None \<Rightarrow> False | Some (n, _) \<Rightarrow> n = name) ps of
                        Some (Some (_, i, v)) \<Rightarrow> (i, v) | _ \<Rightarrow> (0, 0)) props"

definition getTableProperty :: "drm_props \<Rightarrow> string list \<Rightarrow> (string \<Rightarrow> u32) \<Rightarrow> string \<Rightarrow> u32" where
  "getTableProperty props names tab =
     fold (\<lambda>n t. case getPropertyValue props n of None \<Rightarrow> t | Some (i, _) \<Rightarrow> t(n := i)) names tab"

definition planeTable :: "string list" where
  "planeTable = [''SRC_X'', ''SRC_Y'', ''SRC_W'', ''SRC_H'', ''CRTC_X'', ''CRTC_Y'', ''CRTC_W'', ''CRTC_H'',
     ''alpha'', ''dtrc_table_ofs'', ''FB_ID'', ''CRTC_ID'', ''IN_FENCE_FD'']"

definition getPropertyIds :: "drm \<Rightarrow> kms_plane \<Rightarrow> kms_plane" where
  "getPropertyIds ke p =
     p\<lparr>plane_props := getTableProperty (ke_properties ke (plane_id p)) planeTable (plane_props p)\<rparr>"

definition getKmsProperty :: "drm \<Rightarrow> kms \<Rightarrow> kms" where
  "getKmsProperty ke k =
     k\<lparr>mCrtc := getTableProperty (ke_properties ke (mCrtcID k))
         [''MODE_ID'', ''ACTIVE'', ''ANDROID_OUT_FENCE_PTR'', ''OUT_FENCE_PTR'', ''force_modeset'', ''DISPLAY_TRANSFER'']
         ((mCrtc k)(''ANDROID_OUT_FENCE_PTR'' := 0)),
       mConnector := getTableProperty (ke_properties ke (mConnectorID k))
         [''CRTC_ID'', ''DPMS'', ''HDR_OUTPUT_METADATA'', ''Content Protection''] (mConnector k),
       mKmsPlanes := map (getPropertyIds ke) (take (mKmsPlaneNum k) (mKmsPlanes k)) @
         drop (mKmsPlaneNum k) (mKmsPlanes k)\<rparr>"

text \<open>
  One plane of the loop of \<open>getPrimaryPlane\<close>.  The variable \<open>type\<close> is not initialised: when the
  properties of the plane cannot be read, its use is undefined.
\<close>

definition add_plane :: "drm \<Rightarrow> u32 \<Rightarrow> kms \<Rightarrow> kms option" where
  "add_plane ke p k =
     (case ke_plane ke p of
        None \<Rightarrow> Some k
      | Some pl \<Rightarrow>
          if \<not> bit (dp_possible_crtcs pl) (nat (mCrtcIndex k)) then Some k
          else case getPropertyValue (ke_properties ke p) ''type'' of
            None \<Rightarrow> None
          | Some (_, ptype) \<Rightarrow>
              (let new = (\<lambda>i. (mKmsPlanes k)[i := (mKmsPlanes k ! i)\<lparr>plane_id := p, plane_fd := mDrmFd k\<rparr>])
               in if ptype = 1 then Some (k\<lparr>mKmsPlanes := new 0\<rparr>)
                  else if ptype = 0 \<and> mKmsPlaneNum k < KMS_PLANE_NUM
                  then Some (k\<lparr>mKmsPlanes := new (mKmsPlaneNum k), mKmsPlaneNum := Suc (mKmsPlaneNum k)\<rparr>)
                  else Some k))"

fun add_planes :: "drm \<Rightarrow> u32 list \<Rightarrow> kms \<Rightarrow> kms option" where
  "add_planes ke [] k = Some k"
| "add_planes ke (p # ps) k = Option.bind (add_plane ke p k) (add_planes ke ps)"

definition getPrimaryPlane :: "drm \<Rightarrow> kms \<Rightarrow> (int \<times> kms) option" where
  "getPrimaryPlane ke k =
     (case ke_plane_ids ke of
        None \<Rightarrow> Some (- ENODEV, k)
      | Some ps \<Rightarrow> map_option (\<lambda>k'. (if plane_id (mKmsPlanes k' ! 0) = 0 then - ENODEV else 0, k'))
                    (add_planes ke ps k))"

section \<open>Opening and closing\<close>

text \<open>The format of the primary plane; \<open>bgrx\<close> is the option \<open>WORKAROUND_DCNANO_BGRX\<close>.\<close>

fun plane_format :: "bool \<Rightarrow> u32 list \<Rightarrow> int \<Rightarrow> int" where
  "plane_format bgrx [] format = format"
| "plane_format bgrx (f # fs) format =
     (if f = DRM_FORMAT_ABGR8888 then FORMAT_RGBA8888
      else if bgrx \<and> f = DRM_FORMAT_XRGB8888 then FORMAT_BGRA8888
      else if f = DRM_FORMAT_RGB565 then plane_format bgrx fs FORMAT_RGB565
      else plane_format bgrx fs format)"

text \<open>The first CRTC that the encoder can use.\<close>

definition find_crtc :: "u32 \<Rightarrow> u32 list \<Rightarrow> kms \<Rightarrow> kms" where
  "find_crtc possible crtcs k =
     (case List.find (\<lambda>i. bit possible i) [0..<length crtcs] of
        None \<Rightarrow> k
      | Some i \<Rightarrow> k\<lparr>mCrtcID := crtcs ! i, mCrtcIndex := int i\<rparr>)"

text \<open>
  The configurations of a connector: those of its modes, and the one that becomes active.  The
  result is the id of that one, or -1.
\<close>

definition choose_config :: "string \<Rightarrow> int \<Rightarrow> int \<Rightarrow> int \<Rightarrow> ui_scale \<Rightarrow> kms_config \<Rightarrow> (int \<times> ui_scale \<times> kms_config) option" where
  "choose_config gui mmw mmh format ui s =
     (let s1 = buildDisplayConfigs mmw mmh format s; m = mMode s1
      in case getGUIResolution gui (hdisplay m) (vdisplay m) ui of
           None \<Rightarrow> None
         | Some (custom, (width, height), ui') \<Rightarrow>
             if custom then
               (case kms_createDisplayConfig width height (real_of_int (vrefresh m)) format s1 of
                  (configId, s2) \<Rightarrow> Some (configId, ui', s2))
             else Some (findDisplayConfig width height (real_of_int (vrefresh m)) format (config_state.truncate s1),
                        ui', s1))"

text \<open>
  \<open>openKms\<close>, from the connector on: what follows the tests of the kernel's answers.  An encoder
  is read at the first index of the array of the connector.
\<close>

definition open_connector :: "g2d_lib \<Rightarrow> bool \<Rightarrow> drm \<Rightarrow> u32 list \<Rightarrow> drm_connector \<Rightarrow> kms \<Rightarrow> (int \<times> kms) option" where
  "open_connector lib bgrx ke crtcs conn k =
     (case dc_encoders conn of
        [] \<Rightarrow> None
      | e # _ \<Rightarrow>
     (case ke_encoder ke e of
        None \<Rightarrow> Some (- ENODEV, k)
      | Some (possible, etype) \<Rightarrow>
          do { conf \<leftarrow> getDisplayMode (property_get ke ''ro.boot.displaymode'' ''p'') (dc_modes conn) (k_conf k);
               let k1 = find_crtc possible crtcs (k\<lparr>k_conf := conf\<rparr>);
               if mCrtcID k1 = 0 then Some (- ENODEV, k1)
               else do {
                 (_, k2) \<leftarrow> getPrimaryPlane ke (k1\<lparr>mEncoderType := etype\<rparr>);
                 let k3 = getKmsProperty ke k2;
                 plane \<leftarrow> ke_plane ke (plane_id (mKmsPlanes k3 ! 0));
                 let format = plane_format bgrx (dp_formats plane) FORMAT_RGBX8888;
                 (configId, ui, conf1) \<leftarrow> choose_config (property_get ke ''ro.boot.gui_resolution'' ''p'')
                   (dc_mmWidth conn) (dc_mmHeight conn) format (mCustomizeUI k3) (k_conf k3);
                 let k4 = k3\<lparr>k_conf := conf1, mCustomizeUI := ui\<rparr>;
                 if configId < 0 then Some (-1, k4)
                 else do {
                   let m = snd (index_op configId (mConfigs conf1));
                   k5 \<leftarrow> prepareTargetsLocked lib (k4\<lparr>k_conf := conf1\<lparr>mConfigs := m, mActiveConfig := configId\<rparr>\<rparr>);
                   edid \<leftarrow> Edid_new (ke_edid_blob ke);
                   Some (0, k5\<lparr>mConfigThread := True, mEdid := Some edid\<rparr>) } } }))"

definition openKms :: "g2d_lib \<Rightarrow> bool \<Rightarrow> drm \<Rightarrow> kms \<Rightarrow> (int \<times> kms) option" where
  "openKms lib bgrx ke k =
     (if mDrmFd k < 0 \<or> mConnectorID k = 0 then Some (- ENODEV, k)
      else case ke_resources ke of
        None \<Rightarrow> Some (- ENODEV, k)
      | Some crtcs \<Rightarrow>
          if ke_setClientCap ke 2 \<noteq> 0 then Some (ke_setClientCap ke 2, k)
          else if ke_setClientCap ke 3 \<noteq> 0 then Some (ke_setClientCap ke 3, k)
          else (let k0 = k\<lparr>mAllowModifier := (ke_addfb2_modifiers ke \<noteq> 0)\<rparr>
                in case ke_connector ke (mConnectorID k) of
                     None \<Rightarrow> Some (- ENODEV, k0)
                   | Some conn \<Rightarrow> open_connector lib bgrx ke crtcs conn k0))"

text \<open>\<open>openFakeKms\<close>: the display that stands in for a primary display that is not there.\<close>

definition fake_config :: "display_config \<Rightarrow> display_config" where
  "fake_config c = c\<lparr>mXdpi := 160000, mYdpi := 160000, mFps := 60, mVsyncPeriod := trunc (float_nearest (1000000000 / 60)),
     cFormat := FORMAT_RGBA8888, mBytespixel := 4\<rparr>"

definition openFakeKms :: "g2d_lib \<Rightarrow> drm \<Rightarrow> kms \<Rightarrow> (int \<times> kms) option" where
  "openFakeKms lib ke k =
     do { (w, h, rate, _) \<leftarrow> parseDisplayMode (property_get ke ''ro.boot.displaymode'' ''p'');
          let k1 = k\<lparr>k_disp := (k_disp k)\<lparr>mType := DISPLAY_HDMI\<rparr>\<rparr>;
          let (w', h') = (if mXres (mBackupConfig k) > 0 \<and> mYres (mBackupConfig k) > 0
                          then (mXres (mBackupConfig k), mYres (mBackupConfig k)) else (w, h));
          let (configId, conf) = kms_createDisplayConfig w' h' (real_of_int rate) (-1) (k_conf k1);
          if configId < 0 then Some (-1, k1\<lparr>k_conf := conf\<rparr>)
          else (let (c, m) = index_op configId (mConfigs conf)
                in map_option (\<lambda>k2. (0, k2))
                     (prepareTargetsLocked lib
                        (k1\<lparr>k_conf := conf\<lparr>mConfigs := AList.update configId (fake_config c) m,
                                          mActiveConfig := configId\<rparr>\<rparr>))) }"

definition closeKms :: "g2d_lib \<Rightarrow> kms \<Rightarrow> (int \<times> kms) option" where
  "closeKms lib k =
     (let d = k_disp k; s = k_conf k;
          d1 = (d_emit (close_fence (mAcquireFence d)) d)\<lparr>mRenderTarget := None, mAcquireFence := -1\<rparr>;
          backup = (if mActiveConfig s \<ge> 0 then fst (index_op (mActiveConfig s) (mConfigs s)) else mBackupConfig k);
          s1 = s\<lparr>mModePrefered := -1, mDrmModes := [],
                 mFirstConfigId := mFirstConfigId s + int (length (mConfigs s)),
                 mActiveConfig := -1, mConfigs := []\<rparr>
      in map_option (\<lambda>k1. (0, k1))
           (releaseTargetsLocked lib
              (k\<lparr>k_disp := d1, k_conf := s1, mBackupConfig := backup, mKmsPlaneNum := 1,
                 mKmsPlanes := map (\<lambda>_. plane0) (mKmsPlanes k), mEdid := None\<rparr>)))"

end
