(* ===== verification/Kms_Frame.thy ===== *)
theory Kms_Frame
  imports Kms_Device "HOL-Library.Signed_Division"
begin

text \<open>
  \<open>KmsDisplay\<close> (\<open>display/display/KmsDisplay.cpp\<close>): a frame on its way to the screen.  The overlay
  plane and the primary plane get their properties in a property set, which \<open>updateScreen\<close>
  commits.  A property set is the list of what was added, and the last value of a property counts;
  the value of a fence property is the address of the member that the kernel fills.
  Arithmetic of \<open>int\<close> that overflows or divides by zero is undefined, the result \<open>None\<close>.
\<close>

section \<open>Property sets and frame buffers\<close>

datatype prop_val = Val u64 | PresentFencePtr | OutFencePtr

type_synonym pset = "(u32 \<times> u32 \<times> prop_val) list"

datatype fb_modifier =
    MOD_NONE
  | MOD_AMPHION_TILED
  | MOD_VSI_G1_TILED
  | MOD_VSI_G2_TILED
  | MOD_VSI_G2_TILED_COMPRESSED
  | MOD_VIVANTE_SUPER_TILED_FC
  | MOD_VIVANTE_SUPER_TILED
  | MOD_VIVANTE_TILED

record fb_request =
  rq_fd :: int
  rq_width :: i32
  rq_height :: i32
  rq_format :: u32
  rq_handles :: "u32 list"
  rq_pitches :: "u32 list"
  rq_offsets :: "u32 list"
  rq_modifiers :: "fb_modifier list option"

record commit_result =
  cr_ret :: int
  cr_present :: int
  cr_out :: int

text \<open>
  What the frame operations take from outside: the libraries, the build options of this file and
  the answers of the kernel.  \<open>io_commit\<close> depends on the attempt; it says what the kernel writes
  through the fence pointers it was given.
\<close>

record frame_io =
  io_lib :: g2d_lib
  io_overlay_enabled :: bool
  io_downscale :: bool
  io_downscale_dcss :: bool
  io_bgrx :: bool
  io_prime :: "int \<Rightarrow> int \<Rightarrow> u32 option"
  io_addfb :: "fb_request \<Rightarrow> u32 option"
  io_atomic_alloc :: bool
  io_mode_blob :: "drm_mode \<Rightarrow> u32 option"
  io_hdr_blob :: "u8 list \<Rightarrow> u32 option"
  io_commit :: "pset \<Rightarrow> u32 \<Rightarrow> nat \<Rightarrow> commit_result"
  io_dup :: "int \<Rightarrow> int"

record metadata =
  md_flags :: i32
  md_yoffset :: u32
  md_uvoffset :: u32

datatype frame_event =
    AddFb fb_request
  | Commit pset u32 int
  | SetConnectorProp u32 int
  | SetCrtcProp u32 int
  | CloseFd int
  | DestroyBlob u32
  | FillBuffer nat u8

text \<open>The layer of the secure display is deleted without its pointer being cleared.\<close>

datatype dummy_layer = NoLayer | DummyLayer layer | DeletedLayer

record kms_frame =
  f_kms :: kms
  mPset :: "pset option"
  mOutFence :: int
  mPresentFence :: int
  mNoResolve :: bool
  mMetadataID :: u32
  mLastHdrMetaData :: "u8 list"
  mForceModeSet :: bool
  mDummyTarget :: "nat option"
  mDummylayer :: dummy_layer
  mHDCPMode :: bool
  mHDCPDisableCnt :: int
  mHDCPEnable :: bool
  f_meta :: "u64 \<Rightarrow> metadata"
  f_events :: "frame_event list"

text \<open>The members of the constructor that \<open>KmsDisplay_init\<close> leaves out.\<close>

definition kms_frame_init :: "kms \<Rightarrow> drm \<Rightarrow> (u64 \<Rightarrow> metadata) \<Rightarrow> kms_frame" where
  "kms_frame_init k ke meta =
     \<lparr>f_kms = k, mPset = None, mOutFence = -1, mPresentFence = -1, mNoResolve = False, mMetadataID = 0,
      mLastHdrMetaData = [], mForceModeSet = False, mDummyTarget = None, mDummylayer = NoLayer,
      mHDCPMode = False, mHDCPDisableCnt = 0,
      mHDCPEnable = (property_get ke ''ro.boot.support_hdcp'' [] = ''enable''), f_meta = meta, f_events = []\<rparr>"

definition f_emit :: "frame_event list \<Rightarrow> kms_frame \<Rightarrow> kms_frame" where
  "f_emit es f = f\<lparr>f_events := f_events f @ es\<rparr>"

abbreviation f_disp :: "kms_frame \<Rightarrow> display" where "f_disp f \<equiv> k_disp (f_kms f)"
abbreviation f_conf :: "kms_frame \<Rightarrow> kms_config" where "f_conf f \<equiv> k_conf (f_kms f)"

definition on_kms :: "(kms \<Rightarrow> kms) \<Rightarrow> kms_frame \<Rightarrow> kms_frame" where
  "on_kms g f = f\<lparr>f_kms := g (f_kms f)\<rparr>"

definition on_disp :: "(display \<Rightarrow> display) \<Rightarrow> kms_frame \<Rightarrow> kms_frame" where
  "on_disp g = on_kms (\<lambda>k. k\<lparr>k_disp := g (k_disp k)\<rparr>)"

definition set_modeset :: "bool \<Rightarrow> kms_frame \<Rightarrow> kms_frame" where
  "set_modeset b = on_kms (\<lambda>k. k\<lparr>k_conf := (k_conf k)\<lparr>mModeset := b\<rparr>\<rparr>)"

definition f_env :: "frame_io \<Rightarrow> mem_env" where "f_env io = l_env (io_lib io)"

definition f_mem :: "kms_frame \<Rightarrow> mem_world" where "f_mem f = k_mem (f_kms f)"

definition f_buffer :: "kms_frame \<Rightarrow> nat \<Rightarrow> memory option" where
  "f_buffer f a = heap (f_mem f) a"

definition f_store :: "nat \<Rightarrow> memory \<Rightarrow> kms_frame \<Rightarrow> kms_frame" where
  "f_store a m f = on_kms (with_mem (store a m (f_mem f))) f"

section \<open>Arithmetic of int\<close>

definition fits32 :: "int \<Rightarrow> bool" where
  "fits32 x \<longleftrightarrow> - (2 ^ 31) \<le> x \<and> x < 2 ^ 31"

definition scale32 :: "int \<Rightarrow> int \<Rightarrow> int \<Rightarrow> int option" where
  "scale32 x num den =
     (if den = 0 \<or> \<not> fits32 (x * num) \<or> \<not> fits32 (x * num sdiv den) then None
      else Some (x * num sdiv den))"

text \<open>\<open>ALIGN_PIXEL_2\<close>: for an \<open>int\<close>, \<open>& ~1\<close> clears the lowest bit.\<close>

definition ALIGN_PIXEL_2 :: "int \<Rightarrow> int" where
  "ALIGN_PIXEL_2 x = 2 * ((x + 1) div 2)"

definition r_width :: "rect \<Rightarrow> int" where "r_width r = r_right r - r_left r"
definition r_height :: "rect \<Rightarrow> int" where "r_height r = r_bottom r - r_top r"

section \<open>Pixel formats\<close>

definition drm_NV12 :: u32 where "drm_NV12 = fourcc CHR ''N'' CHR ''V'' CHR ''1'' CHR ''2''"
definition drm_NV21 :: u32 where "drm_NV21 = fourcc CHR ''N'' CHR ''V'' CHR ''2'' CHR ''1''"
definition drm_P010 :: u32 where "drm_P010 = fourcc CHR ''P'' CHR ''0'' CHR ''1'' CHR ''0''"
definition drm_UYVY :: u32 where "drm_UYVY = fourcc CHR ''U'' CHR ''Y'' CHR ''V'' CHR ''Y''"
definition drm_VYUY :: u32 where "drm_VYUY = fourcc CHR ''V'' CHR ''Y'' CHR ''U'' CHR ''Y''"
definition drm_YUYV :: u32 where "drm_YUYV = fourcc CHR ''Y'' CHR ''U'' CHR ''Y'' CHR ''V''"
definition drm_YVYU :: u32 where "drm_YVYU = fourcc CHR ''Y'' CHR ''V'' CHR ''Y'' CHR ''U''"
definition drm_ARGB8888 :: u32 where "drm_ARGB8888 = fourcc CHR ''A'' CHR ''R'' CHR ''2'' CHR ''4''"
definition drm_XBGR8888 :: u32 where "drm_XBGR8888 = fourcc CHR ''X'' CHR ''B'' CHR ''2'' CHR ''4''"

definition convertFormatToDrm :: "int \<Rightarrow> u32" where
  "convertFormatToDrm format =
     (if format = FORMAT_RGB888 then fourcc CHR ''B'' CHR ''G'' CHR ''2'' CHR ''4''
      else if format = FORMAT_BGRA8888 then drm_ARGB8888
      else if format = FORMAT_RGBX8888 then drm_XBGR8888
      else if format = FORMAT_RGBA8888 then DRM_FORMAT_ABGR8888
      else if format = FORMAT_RGB565 then DRM_FORMAT_RGB565
      else if format = FORMAT_NV12 then drm_NV12
      else if format = FORMAT_NV21 then drm_NV21
      else if format = FORMAT_YCBCR_P010 then drm_P010
      else if format \<in> {FORMAT_P010, FORMAT_P010_TILED, FORMAT_P010_TILED_COMPRESSED}
        then fourcc CHR ''N'' CHR ''V'' CHR ''1'' CHR ''5''
      else if format = FORMAT_I420 then fourcc CHR ''Y'' CHR ''U'' CHR ''1'' CHR ''2''
      else if format = FORMAT_YV12 then fourcc CHR ''Y'' CHR ''V'' CHR ''1'' CHR ''2''
      else if format = FORMAT_NV16 then fourcc CHR ''N'' CHR ''V'' CHR ''1'' CHR ''6''
      else if format = FORMAT_YUYV then drm_YUYV
      else if format \<in> {FORMAT_NV12_TILED, FORMAT_NV12_G1_TILED, FORMAT_NV12_G2_TILED,
                         FORMAT_NV12_G2_TILED_COMPRESSED} then drm_NV12
      else word_of_int (- EINVAL))"

section \<open>The properties of planes and CRTC\<close>

definition add_prop :: "u32 \<Rightarrow> u32 \<Rightarrow> prop_val \<Rightarrow> pset \<Rightarrow> pset" where
  "add_prop obj p v s = s @ [(obj, p, v)]"

definition connectCrtc :: "kms_plane \<Rightarrow> u32 \<Rightarrow> u32 \<Rightarrow> pset \<Rightarrow> pset" where
  "connectCrtc p crtc fb s =
     add_prop (plane_id p) (plane_props p ''CRTC_ID'') (Val (ucast crtc))
       (add_prop (plane_id p) (plane_props p ''FB_ID'') (Val (ucast fb)) s)"

definition setAlpha :: "kms_plane \<Rightarrow> u32 \<Rightarrow> pset \<Rightarrow> pset" where
  "setAlpha p alpha s = add_prop (plane_id p) (plane_props p ''alpha'') (Val (ucast alpha)) s"

definition setClientFence :: "kms_plane \<Rightarrow> int \<Rightarrow> pset \<Rightarrow> pset" where
  "setClientFence p fd s =
     (if plane_props p ''IN_FENCE_FD'' > 0
      then add_prop (plane_id p) (plane_props p ''IN_FENCE_FD'') (Val (word_of_int fd)) s else s)"

definition setTableOffset :: "kms_plane \<Rightarrow> metadata \<Rightarrow> pset \<Rightarrow> pset" where
  "setTableOffset p meta s =
     add_prop (plane_id p) (plane_props p ''dtrc_table_ofs'')
       (Val (or (ucast (md_yoffset meta)) (push_bit 32 (ucast (md_uvoffset meta))))) s"

definition setSourceSurface :: "kms_plane \<Rightarrow> u32 \<Rightarrow> u32 \<Rightarrow> u32 \<Rightarrow> u32 \<Rightarrow> pset \<Rightarrow> pset" where
  "setSourceSurface p x y w h s =
     s @ [(plane_id p, plane_props p ''SRC_X'', Val (ucast x)), (plane_id p, plane_props p ''SRC_Y'', Val (ucast y)),
          (plane_id p, plane_props p ''SRC_W'', Val (ucast (push_bit 16 w))),
          (plane_id p, plane_props p ''SRC_H'', Val (ucast (push_bit 16 h)))]"

definition setDisplayFrame :: "kms_plane \<Rightarrow> u32 \<Rightarrow> u32 \<Rightarrow> u32 \<Rightarrow> u32 \<Rightarrow> pset \<Rightarrow> pset" where
  "setDisplayFrame p x y w h s =
     s @ [(plane_id p, plane_props p ''CRTC_X'', Val (ucast x)), (plane_id p, plane_props p ''CRTC_Y'', Val (ucast y)),
          (plane_id p, plane_props p ''CRTC_W'', Val (ucast w)), (plane_id p, plane_props p ''CRTC_H'', Val (ucast h))]"

definition bindCrtc :: "kms \<Rightarrow> u32 \<Rightarrow> pset \<Rightarrow> pset" where
  "bindCrtc k modeID s =
     (let s1 = (if mModeset (k_conf k)
                then s @ [(mCrtcID k, mCrtc k ''MODE_ID'', Val (ucast modeID)),
                          (mCrtcID k, mCrtc k ''ACTIVE'', Val 1),
                          (mConnectorID k, mConnector k ''CRTC_ID'', Val (ucast (mCrtcID k)))]
                else s)
      in if mCrtc k ''OUT_FENCE_PTR'' \<noteq> 0
         then s1 @ [(mCrtcID k, mCrtc k ''OUT_FENCE_PTR'', PresentFencePtr)] else s1)"

definition bindOutFence :: "kms \<Rightarrow> pset \<Rightarrow> pset" where
  "bindOutFence k s =
     (if mCrtc k ''ANDROID_OUT_FENCE_PTR'' \<noteq> 0
      then s @ [(mCrtcID k, mCrtc k ''ANDROID_OUT_FENCE_PTR'', OutFencePtr)] else s)"

text \<open>\<open>getPresentFence\<close>, with an argument that is not null.\<close>

definition getPresentFence :: "kms_frame \<Rightarrow> int \<times> kms_frame" where
  "getPresentFence f = (mPresentFence f, f\<lparr>mPresentFence := -1\<rparr>)"

section \<open>The overlay plane\<close>

text \<open>
  \<open>mConfigs[mActiveConfig]\<close>: the active configuration, which is added with zeros where there is none.
\<close>

definition active_config :: "kms \<Rightarrow> display_config \<times> kms" where
  "active_config k =
     (let (c, m) = index_op (mActiveConfig (k_conf k)) (mConfigs (k_conf k))
      in (c, k\<lparr>k_conf := (k_conf k)\<lparr>mConfigs := m\<rparr>\<rparr>))"

definition overlay_format :: "memory \<Rightarrow> bool" where
  "overlay_format m \<longleftrightarrow>
     (has_flag (h_usage m) USAGE_PADDING_BUFFER \<and> h_fslFormat m = FORMAT_NV12) \<or> has_flag (h_flags m) FLAGS_SECURE \<or>
     h_fslFormat m \<in> {FORMAT_NV12_G1_TILED, FORMAT_NV12_G2_TILED, FORMAT_NV12_G2_TILED_COMPRESSED,
       FORMAT_YCBCR_P010, FORMAT_P010, FORMAT_P010_TILED, FORMAT_P010_TILED_COMPRESSED}"

text \<open>\<open>checkOverlay\<close> on a layer that is not null.\<close>

definition kms_checkOverlay :: "frame_io \<Rightarrow> layer \<Rightarrow> kms \<Rightarrow> (bool \<times> kms) option" where
  "kms_checkOverlay io l k =
     (if (mUseOverlayAndroidUI k \<and> mSecureDisplay k) \<or> \<not> io_overlay_enabled io \<or> mKmsPlaneNum k < 2 then Some (False, k)
      else case handle l of
        None \<Rightarrow> Some (False, k)
      | Some a \<Rightarrow>
          if transform l \<noteq> 0 then Some (False, k)
          else do {
            m \<leftarrow> heap (k_mem k) a;
            if FORMAT_RGBA8888 \<le> h_fslFormat m \<and> h_fslFormat m \<le> FORMAT_BGRA8888 then Some (False, k)
            else if \<not> overlay_format m then Some (False, k)
            else if has_flag (h_usage m) USAGE_PADDING_BUFFER then
              do { let (c, k1) = active_config k;
                   w \<leftarrow> scale32 (r_width (displayFrame l)) (hdisplay (mMode (k_conf k))) (mXres c);
                   h \<leftarrow> scale32 (r_height (displayFrame l)) (vdisplay (mMode (k_conf k))) (mYres c);
                   Some (\<not> (w > r_width (sourceCrop l) * 7 \<or> h > r_height (sourceCrop l) * 7), k1) }
            else Some (True, k) })"

definition veritySourceSize :: "layer \<Rightarrow> memory \<Rightarrow> bool" where
  "veritySourceSize l m \<longleftrightarrow>
     (let srcW = r_width (sourceCrop l); srcH = r_height (sourceCrop l);
          format = convertFormatToDrm (h_fslFormat m)
      in if srcW < 64 \<and> format \<in> {drm_NV12, drm_NV21, drm_P010} then False
         else if srcW < 32 \<and> format \<in> {drm_UYVY, drm_VYUY, drm_YUYV, drm_YVYU} then False
         else srcW \<ge> 16 \<and> srcH \<ge> 8)"

text \<open>The modifiers of the two planes of an overlay buffer, if it has any.\<close>

definition overlay_modifier :: "int \<Rightarrow> fb_modifier option" where
  "overlay_modifier format =
     (if format = FORMAT_NV12_TILED then Some MOD_AMPHION_TILED
      else if format \<in> {FORMAT_NV12_G1_TILED, FORMAT_P010_TILED} then Some MOD_VSI_G1_TILED
      else if format = FORMAT_NV12_G2_TILED then Some MOD_VSI_G2_TILED
      else if format \<in> {FORMAT_NV12_G2_TILED_COMPRESSED, FORMAT_P010_TILED_COMPRESSED}
        then Some MOD_VSI_G2_TILED_COMPRESSED
      else None)"

text \<open>The frame buffer of an overlay: the request, and the buffer with what the kernel answered.\<close>

definition prime_handle :: "frame_io \<Rightarrow> int \<Rightarrow> memory \<Rightarrow> u32" where
  "prime_handle io drmfd m = (case io_prime io drmfd (h_fd m) of None \<Rightarrow> h_fbHandle m | Some h \<Rightarrow> h)"

definition with_fb :: "frame_io \<Rightarrow> fb_request \<Rightarrow> u32 \<Rightarrow> memory \<Rightarrow> memory" where
  "with_fb io rq bo m =
     m\<lparr>h_fbHandle := bo, h_fbId := (case io_addfb io rq of None \<Rightarrow> h_fbId m | Some i \<Rightarrow> i), h_kmsFd := rq_fd rq\<rparr>"

definition overlay_request :: "kms \<Rightarrow> i32 \<Rightarrow> u32 \<Rightarrow> memory \<Rightarrow> fb_request" where
  "overlay_request k gstride bo m =
     (let stride = h_stride m * gstride; one = mSecureDisplay k
      in \<lparr>rq_fd = mDrmFd k, rq_width = h_width m, rq_height = h_height m,
          rq_format = convertFormatToDrm (h_fslFormat m),
          rq_handles = (if one then [bo, 0, 0, 0] else [bo, bo, 0, 0]),
          rq_pitches = (if one then [ucast stride, 0, 0, 0] else [ucast stride, ucast stride, 0, 0]),
          rq_offsets = (if one then [0, 0, 0, 0] else [0, ucast (stride * h_height m), 0, 0]),
          rq_modifiers = map_option (\<lambda>md. [md, md, MOD_NONE, MOD_NONE]) (overlay_modifier (h_fslFormat m))\<rparr>)"

definition overlay_fb :: "frame_io \<Rightarrow> i32 \<Rightarrow> nat \<Rightarrow> memory \<Rightarrow> kms_frame \<Rightarrow> memory \<times> kms_frame" where
  "overlay_fb io gstride a m f =
     (if h_fbId m \<noteq> 0 then (m, f)
      else
        (let bo = prime_handle io (mDrmFd (f_kms f)) m;
             rq = overlay_request (f_kms f) gstride bo m;
             m1 = with_fb io rq bo m
         in (m1, f_emit [AddFb rq] (f_store a m1 f))))"

text \<open>HDCP, which is switched off after ten frames without an overlay.\<close>

definition hdcp_idle :: "frame_io \<Rightarrow> kms_frame \<Rightarrow> kms_frame" where
  "hdcp_idle io f =
     (if HAVE_UNMAPPED_HEAP (e_cfg (f_env io)) \<and> mHDCPMode f \<and> mHDCPEnable f then
        (let f1 = f\<lparr>mHDCPDisableCnt := mHDCPDisableCnt f + 1\<rparr>
         in if mHDCPDisableCnt f1 > 10
            then (set_modeset True (f_emit [SetConnectorProp (mConnector (f_kms f) ''Content Protection'') 0] f1))
                   \<lparr>mHDCPMode := False, mHDCPDisableCnt := 0\<rparr>
            else f1)
      else f)"

definition hdcp_overlay :: "frame_io \<Rightarrow> memory \<Rightarrow> kms_frame \<Rightarrow> kms_frame" where
  "hdcp_overlay io m f =
     (if HAVE_UNMAPPED_HEAP (e_cfg (f_env io)) \<and> mHDCPEnable f then
        (let pid = mConnector (f_kms f) ''Content Protection'';
             enable = (has_flag (h_usage m) USAGE_PROTECTED \<and> pid > 0)
         in if mHDCPMode f \<noteq> enable
            then (set_modeset True (f_emit [SetConnectorProp pid (of_bool enable)] f))\<lparr>mHDCPMode := enable\<rparr>
            else f)
      else f)"

text \<open>HDR metadata, only for a display that supports it.\<close>

definition setHdrMetaData :: "frame_io \<Rightarrow> u8 list \<Rightarrow> pset \<Rightarrow> kms_frame \<Rightarrow> pset \<times> kms_frame" where
  "setHdrMetaData io hdr s f =
     (let mid = (case io_hdr_blob io hdr of None \<Rightarrow> mMetadataID f | Some i \<Rightarrow> i);
          k = f_kms f
      in (s @ [(mConnectorID k, mConnector k ''HDR_OUTPUT_METADATA'', Val (ucast mid))],
          set_modeset True (f\<lparr>mMetadataID := mid\<rparr>)))"

definition hdr_overlay :: "frame_io \<Rightarrow> nat \<Rightarrow> layer \<Rightarrow> pset \<Rightarrow> kms_frame \<Rightarrow> pset \<times> kms_frame" where
  "hdr_overlay io i l s f =
     (if mLastHdrMetaData f \<noteq> hdrMetadata l \<and>
         (case mEdid (f_kms f) of None \<Rightarrow> False | Some e \<Rightarrow> edid_isHdrSupported e)
      then (let (s1, f1) = setHdrMetaData io (hdrMetadata l) s f
            in (s1, (on_disp (set_layer i (l\<lparr>isHdrMode := True\<rparr>)) f1)\<lparr>mLastHdrMetaData := hdrMetadata l\<rparr>))
      else (s, f))"

text \<open>The table of a compressed buffer; the flag says that it was not passed yet.\<close>

definition FLAGS_COMPRESSED_OFFSET :: i32 where "FLAGS_COMPRESSED_OFFSET = 0x08000000"

definition table_overlay :: "frame_io \<Rightarrow> kms_plane \<Rightarrow> nat \<Rightarrow> pset \<Rightarrow> kms_frame \<Rightarrow> (pset \<times> kms_frame) option" where
  "table_overlay io p a s f =
     do { (addr, w) \<leftarrow> getMetaData (f_env io) (Some a) (f_mem f);
          let f1 = on_kms (with_mem w) f;
          case addr of
            None \<Rightarrow> Some (s, f1)
          | Some v \<Rightarrow>
              (let meta = f_meta f1 v
               in if has_flag (md_flags meta) FLAGS_COMPRESSED_OFFSET
                  then Some (setTableOffset p meta s,
                    f1\<lparr>f_meta := (f_meta f1)(v := meta\<lparr>md_flags := and (md_flags meta) (not FLAGS_COMPRESSED_OFFSET)\<rparr>)\<rparr>)
                  else Some (s, f1)) }"

text \<open>Where the overlay is shown, and what part of the buffer.\<close>

definition overlay_frame :: "kms \<Rightarrow> display_config \<Rightarrow> rect \<Rightarrow> (int \<times> int \<times> int \<times> int) option" where
  "overlay_frame k c r =
     do { x \<leftarrow> scale32 (r_left r) (hdisplay (mMode (k_conf k))) (mXres c);
          y \<leftarrow> scale32 (r_top r) (vdisplay (mMode (k_conf k))) (mYres c);
          w \<leftarrow> scale32 (r_width r) (hdisplay (mMode (k_conf k))) (mXres c);
          h \<leftarrow> scale32 (r_height r) (vdisplay (mMode (k_conf k))) (mYres c);
          Some (x, y, w, h) }"

definition u32s :: "(u32 \<Rightarrow> u32 \<Rightarrow> u32 \<Rightarrow> u32 \<Rightarrow> 'a) \<Rightarrow> int \<Rightarrow> int \<Rightarrow> int \<Rightarrow> int \<Rightarrow> 'a" where
  "u32s g x y w h = g (word_of_int x) (word_of_int y) (word_of_int w) (word_of_int h)"

definition overlay_display :: "frame_io \<Rightarrow> kms \<Rightarrow> kms_plane \<Rightarrow> rect \<Rightarrow> int \<times> int \<times> int \<times> int \<Rightarrow> pset \<Rightarrow> pset" where
  "overlay_display io k p r fr s =
     (let (x, y, w, h) = fr
      in if \<not> mSecureDisplay k \<and> mCustomizeUI k = UI_SCALE_NONE then
           (if io_downscale io \<or> io_downscale_dcss io
            then u32s (setDisplayFrame p) x y (ALIGN_PIXEL_2 (w - 1)) (ALIGN_PIXEL_2 (h - 1)) s
            else u32s (setDisplayFrame p) x y w h s)
         else u32s (setDisplayFrame p) (r_left r) (r_top r) (r_width r) (r_height r) s)"

definition overlay_source :: "frame_io \<Rightarrow> kms \<Rightarrow> kms_plane \<Rightarrow> rect \<Rightarrow> int \<times> int \<times> int \<times> int \<Rightarrow> pset \<Rightarrow> pset" where
  "overlay_source io k p r fr s =
     (let (_, _, w, h) = fr
      in if \<not> mSecureDisplay k \<and> io_downscale io
         then u32s (setSourceSurface p) 0 0 (ALIGN_PIXEL_2 (min (r_width r) w - 1)) (ALIGN_PIXEL_2 (min (r_height r) h - 1)) s
         else if \<not> mSecureDisplay k \<and> io_downscale_dcss io
         then u32s (setSourceSurface p) (r_left r) (r_top r) (ALIGN_PIXEL_2 (r_width r - 1)) (ALIGN_PIXEL_2 (r_height r - 1)) s
         else u32s (setSourceSurface p) (r_left r) (r_top r) (r_width r) (r_height r) s)"

text \<open>
  The layer of the overlay plane: the layer of the secure display, where the user interface is on
  the overlay, else the overlay that \<open>verifyLayers\<close> chose.
\<close>

datatype overlay_ref = DummyRef | OverlayRef nat

definition overlay_layer :: "kms_frame \<Rightarrow> (overlay_ref \<times> layer) option" where
  "overlay_layer f =
     (if mUseOverlayAndroidUI (f_kms f) \<and> mSecureDisplay (f_kms f)
      then (case mDummylayer f of DummyLayer l \<Rightarrow> Some (DummyRef, l) | _ \<Rightarrow> None)
      else map_option (\<lambda>i. (OverlayRef i, mLayers (f_disp f) ! i)) (mOverlay (f_disp f)))"

definition the_pset :: "kms_frame \<Rightarrow> pset" where
  "the_pset f = (case mPset f of None \<Rightarrow> [] | Some s \<Rightarrow> s)"

text \<open>\<open>performOverlay\<close>, from the frame buffer on.\<close>

definition show_overlay ::
    "frame_io \<Rightarrow> nat \<Rightarrow> overlay_ref \<Rightarrow> layer \<Rightarrow> display_config \<Rightarrow> nat \<Rightarrow> memory \<Rightarrow> kms_frame \<Rightarrow> (int \<times> kms_frame) option" where
  "show_overlay io pidx lr l c a m f =
     (let k = f_kms f; p = mKmsPlanes k ! pidx; s0 = bindOutFence k (the_pset f)
      in do { (s1, f1) \<leftarrow> (case lr of
                 OverlayRef i \<Rightarrow> if mSecureDisplay k then Some (s0, f)
                                 else case hdr_overlay io i l s0 f of (s, f') \<Rightarrow> table_overlay io p a s f'
               | DummyRef \<Rightarrow> Some (s0, f));
              fr \<leftarrow> overlay_frame k c (displayFrame l);
              Some (1, f1\<lparr>mPset := Some (overlay_source io k p (sourceCrop l) fr
                             (overlay_display io k p (displayFrame l) fr
                                (connectCrtc p (mCrtcID k) (h_fbId m) s1)))\<rparr>) })"

definition performOverlay :: "frame_io \<Rightarrow> kms_frame \<Rightarrow> (int \<times> kms_frame) option" where
  "performOverlay io f =
     (let secure_ui = mUseOverlayAndroidUI (f_kms f) \<and> mSecureDisplay (f_kms f);
          gstride = (if secure_ui then 4 else 1);
          pidx = (if secure_ui then 0 else mKmsPlaneNum (f_kms f) - 1)
      in if secure_ui \<and> mDummylayer f = DeletedLayer then None
         else case overlay_layer f of
           None \<Rightarrow> Some (0, hdcp_idle io f)
         | Some (lr, l) \<Rightarrow>
             (case handle l of
                None \<Rightarrow> Some (0, hdcp_idle io f)
              | Some a \<Rightarrow> do {
                  m \<leftarrow> f_buffer f a;
                  if \<not> veritySourceSize l m then Some (0, f)
                  else if mPset f = None \<and> \<not> io_atomic_alloc io then Some (- 12, f)
                  else do {
                    let f1 = hdcp_overlay io m (f\<lparr>mPset := Some (the_pset f)\<rparr>);
                    let (c, k2) = active_config (f_kms f1);
                    let (m1, f3) = overlay_fb io gstride a m (f1\<lparr>f_kms := k2\<rparr>);
                    if h_fbId m1 = 0 then
                      (case mOverlay (f_disp f3) of
                         None \<Rightarrow> None
                       | Some i \<Rightarrow> Some (0, on_disp (\<lambda>d. (set_layer i ((mLayers d ! i)\<lparr>isOverlay := False\<rparr>) d)
                                                           \<lparr>mOverlay := None\<rparr>) f3))
                    else show_overlay io pidx lr l c a m1 f3 } }))"

section \<open>The frame\<close>

definition DRM_MODE_ATOMIC_NONBLOCK :: u32 where "DRM_MODE_ATOMIC_NONBLOCK = 0x0200"
definition DRM_MODE_ATOMIC_ALLOW_MODESET :: u32 where "DRM_MODE_ATOMIC_ALLOW_MODESET = 0x0400"
definition EBUSY :: int where "EBUSY = 16"

text \<open>The first part, under the lock: a forced mode set, the primary plane and the buffer.\<close>

definition screen_target :: "kms_frame \<Rightarrow> nat \<times> nat option \<times> kms_frame" where
  "screen_target f =
     (let k = f_kms f
      in if mUseOverlayAndroidUI k then
           (let f1 = (if mForceModeSet f
                      then set_modeset True (f_emit [SetCrtcProp (mCrtc k ''force_modeset'') 1] (f\<lparr>mForceModeSet := False\<rparr>))
                      else f)
            in (if mSecureDisplay k then mKmsPlaneNum k - 1 else 0, mRenderTarget (k_disp k), f1))
         else (0, if mSecureDisplay k then mDummyTarget f else mRenderTarget (k_disp k), f))"

text \<open>The modifier of a tiled frame buffer that is shown without resolving it.\<close>

definition screen_modifier :: "build_cfg \<Rightarrow> kms \<Rightarrow> memory \<Rightarrow> fb_modifier option" where
  "screen_modifier cfg k m =
     (let tiled = (if WORKAROUND_DISPLAY_UNDERRUN cfg then MOD_VIVANTE_TILED else MOD_VIVANTE_SUPER_TILED)
      in if \<not> mUseOverlayAndroidUI k then
           (if mAllowModifier k \<and> and (h_usage m) (or USAGE_GPU_TILED_VIV USAGE_GPU_TS_VIV) \<noteq> 0
            then Some (if FRAMEBUFFER_COMPRESSION cfg \<and> has_flag (h_usage m) USAGE_GPU_TS_VIV
                       then MOD_VIVANTE_SUPER_TILED_FC else tiled)
            else None)
         else if mAllowModifier k \<and> has_flag (h_usage m) USAGE_GPU_TILED_VIV then Some tiled else None)"

definition swap_format :: "u32 \<Rightarrow> u32" where
  "swap_format format =
     (let f1 = (if format = drm_XBGR8888 then DRM_FORMAT_XRGB8888 else format)
      in if f1 = DRM_FORMAT_ABGR8888 then drm_ARGB8888 else f1)"

definition screen_request :: "frame_io \<Rightarrow> kms \<Rightarrow> display_config \<Rightarrow> u32 \<Rightarrow> memory \<Rightarrow> fb_request" where
  "screen_request io k c bo m =
     (let format = convertFormatToDrm (cFormat c);
          pitch = ucast (h_stride m * word_of_int (mBytespixel c));
          rq = \<lparr>rq_fd = mDrmFd k, rq_width = h_width m, rq_height = h_height m, rq_format = format,
                rq_handles = [bo, 0, 0, 0], rq_pitches = [pitch, 0, 0, 0], rq_offsets = [0, 0, 0, 0], rq_modifiers = None\<rparr>
      in case screen_modifier (e_cfg (f_env io)) k m of
           Some md \<Rightarrow> rq\<lparr>rq_format := swap_format format, rq_modifiers := Some [md, MOD_NONE, MOD_NONE, MOD_NONE]\<rparr>
         | None \<Rightarrow> rq\<lparr>rq_width := h_stride m,
                      rq_format := (if io_bgrx io \<and> format = drm_ARGB8888 then DRM_FORMAT_XRGB8888 else format)\<rparr>)"

definition screen_fb :: "frame_io \<Rightarrow> display_config \<Rightarrow> nat \<Rightarrow> memory \<Rightarrow> kms_frame \<Rightarrow> memory \<times> kms_frame" where
  "screen_fb io c a m f =
     (if h_fbId m \<noteq> 0 then (m, f)
      else
        (let k = f_kms f; bo = prime_handle io (mDrmFd k) m; rq = screen_request io k c bo m; m1 = with_fb io rq bo m
         in (m1, f_emit [AddFb rq] ((f_store a m1 f)\<lparr>mNoResolve := (screen_modifier (e_cfg (f_env io)) k m \<noteq> None)\<rparr>))))"

text \<open>The frame buffer is cleared when the overlay comes or goes, or when there is nothing else.\<close>

definition clear_needed :: "i32 \<Rightarrow> bool" where
  "clear_needed flag \<longleftrightarrow>
     xor (and flag CLIENT_COMPOSE_MASK) CLIENT_COMPOSE_MASK \<noteq> 0 \<and>
     (xor (signed_drop_bit 1 flag) (and flag OVERLAY_COMPOSE_MASK) \<noteq> 0 \<or> and flag ONLY_OVERLAY_MASK \<noteq> 0)"

definition clear_screen :: "frame_io \<Rightarrow> nat \<Rightarrow> memory \<Rightarrow> kms_frame \<Rightarrow> (memory \<times> kms_frame) option" where
  "clear_screen io a m f =
     (if \<not> clear_needed (mComposeFlag (f_disp f)) then Some (m, f)
      else do {
        (m1, f1) \<leftarrow> (if h_base m \<noteq> 0 then Some (m, f)
          else do { ((_, v), w1) \<leftarrow> mm_lock (f_env io) (Some a) (f_mem f);
                    (_, w2) \<leftarrow> mm_unlock (f_env io) (Some a) w1;
                    m' \<leftarrow> heap w2 a;
                    let m2 = m'\<lparr>h_base := (case v of None \<Rightarrow> 0 | Some x \<Rightarrow> x)\<rparr>;
                    Some (m2, f_store a m2 (on_kms (with_mem w2) f)) });
        Some (m1, if h_base m1 \<noteq> 0 then f_emit [FillBuffer a 0] f1 else f1) })"

definition reset_hdr :: "kms_frame \<Rightarrow> kms_frame" where
  "reset_hdr f =
     (if mResetHdrMode (f_disp f)
      then set_modeset True ((on_disp (\<lambda>d. d\<lparr>mResetHdrMode := False\<rparr>) f)
             \<lparr>mLastHdrMetaData := [],
              mPset := Some (the_pset f @ [(mConnectorID (f_kms f), mConnector (f_kms f) ''HDR_OUTPUT_METADATA'', Val 0)])\<rparr>)
      else f)"

text \<open>What the primary plane shows: the part of the buffer and the place on the screen.\<close>

definition screen_rects :: "kms \<Rightarrow> display_config \<Rightarrow> (int \<times> int) \<times> int \<times> int" where
  "screen_rects k c =
     (let m = mMode (k_conf k)
      in case mCustomizeUI k of
           UI_SCALE_SOFTWARE \<Rightarrow> ((hdisplay m, vdisplay m), hdisplay m, vdisplay m)
         | UI_SCALE_HARDWARE \<Rightarrow> ((mXres c, mYres c), mXres c, mYres c)
         | _ \<Rightarrow> ((mXres c, mYres c), hdisplay m, vdisplay m))"

definition screen_props :: "kms \<Rightarrow> display_config \<Rightarrow> u32 \<Rightarrow> kms_plane \<Rightarrow> u32 \<Rightarrow> int \<Rightarrow> pset \<Rightarrow> pset" where
  "screen_props k c modeID p fb fence s =
     (let ((sw, sh), dw, dh) = screen_rects k c;
          s1 = u32s (setDisplayFrame p) 0 0 dw dh
                 (u32s (setSourceSurface p) 0 0 sw sh (connectCrtc p (mCrtcID k) fb (bindCrtc k modeID s)))
      in if fence \<noteq> -1 then setClientFence p fence s1 else s1)"

text \<open>The attempts to commit: at most 32, as long as the kernel is busy.\<close>

fun try_commit :: "(nat \<Rightarrow> commit_result) \<Rightarrow> nat \<Rightarrow> nat \<Rightarrow> commit_result list" where
  "try_commit answer i 0 = []"
| "try_commit answer i (Suc n) =
     (let r = answer i in r # (if cr_ret r = - EBUSY then try_commit answer (Suc i) n else []))"

definition MAX_COMMITS :: nat where "MAX_COMMITS = 32"

definition kernel_fences :: "pset \<Rightarrow> commit_result \<Rightarrow> kms_frame \<Rightarrow> kms_frame" where
  "kernel_fences s r f =
     (if cr_ret r \<noteq> 0 then f
      else f\<lparr>mPresentFence := (if PresentFencePtr \<in> (\<lambda>(_, _, v). v) ` set s then cr_present r else mPresentFence f),
             mOutFence := (if OutFencePtr \<in> (\<lambda>(_, _, v). v) ` set s then cr_out r else mOutFence f)\<rparr>)"

definition commit :: "frame_io \<Rightarrow> u32 \<Rightarrow> pset \<Rightarrow> kms_frame \<Rightarrow> kms_frame" where
  "commit io fl s f =
     (let rs = try_commit (io_commit io s fl) 0 MAX_COMMITS
      in f_emit (map (\<lambda>r. Commit s fl (cr_ret r)) rs) (fold (kernel_fences s) rs f))"

text \<open>After the commit: the fence of the overlay, the property set, the blobs and the acquire fence.\<close>

definition release_overlay :: "frame_io \<Rightarrow> kms_frame \<Rightarrow> kms_frame" where
  "release_overlay io f =
     (case mOverlay (f_disp f) of
        None \<Rightarrow> f
      | Some i \<Rightarrow>
          (let fence = (if mCrtc (f_kms f) ''ANDROID_OUT_FENCE_PTR'' \<noteq> 0 then mOutFence f else io_dup io (mPresentFence f));
               l = mLayers (f_disp f) ! i
           in (on_disp (\<lambda>d. (set_layer i (l\<lparr>releaseFence := fence, isOverlay := False\<rparr>) d)\<lparr>mOverlay := None\<rparr>) f)
                \<lparr>mOutFence := -1\<rparr>))"

definition close_acquire :: "kms_frame \<Rightarrow> kms_frame" where
  "close_acquire f =
     (if mAcquireFence (f_disp f) \<noteq> -1
      then on_disp (\<lambda>d. d\<lparr>mAcquireFence := -1\<rparr>) (f_emit [CloseFd (mAcquireFence (f_disp f))] f) else f)"

definition finish_frame :: "frame_io \<Rightarrow> u32 \<Rightarrow> kms_frame \<Rightarrow> kms_frame" where
  "finish_frame io modeID f =
     (let f1 = (release_overlay io f)\<lparr>mPset := None\<rparr>;
          f2 = (if mModeset (f_conf f1) then set_modeset False (f_emit [DestroyBlob modeID] f1) else f1);
          f3 = (if mMetadataID f2 \<noteq> 0 then f_emit [DestroyBlob (mMetadataID f2)] f2 else f2)
      in close_acquire f3)"

definition commit_frame :: "frame_io \<Rightarrow> nat \<Rightarrow> display_config \<Rightarrow> memory \<Rightarrow> kms_frame \<Rightarrow> int \<times> kms_frame" where
  "commit_frame io pidx c m f =
     (let k = f_kms f; ms = mModeset (k_conf k);
          fl = (if ms then DRM_MODE_ATOMIC_ALLOW_MODESET else DRM_MODE_ATOMIC_NONBLOCK);
          modeID = (if ms then (case io_mode_blob io (mMode (k_conf k)) of None \<Rightarrow> 0 | Some i \<Rightarrow> i) else 0);
          s = screen_props k c modeID (mKmsPlanes k ! pidx) (h_fbId m) (mAcquireFence (k_disp k)) (the_pset f)
      in (0, finish_frame io modeID (commit io fl s f)))"

text \<open>
  \<open>updateScreen\<close>.  The notification of the thread that changes the mode is left out here; a commit
  that fails is only logged.
\<close>

definition updateScreen :: "frame_io \<Rightarrow> kms_frame \<Rightarrow> (int \<times> kms_frame) option" where
  "updateScreen io f =
     (if mPowerMode (f_kms f) \<noteq> POWER_ON then Some (- EINVAL, f)
      else
        (let (pidx, buffer, f1) = screen_target f
         in if mDrmFd (f_kms f1) < 0 then Some (- EINVAL, f1)
            else case buffer of
              None \<Rightarrow> Some (- EINVAL, f1)
            | Some a \<Rightarrow> do {
                m \<leftarrow> f_buffer f1 a;
                if \<not> has_flag (h_flags m) FLAGS_FRAMEBUFFER then Some (- EINVAL, f1)
                else if \<not> mConnected (f_disp f1) then Some (- EINVAL, close_acquire (f1\<lparr>mPresentFence := -1\<rparr>))
                else do {
                  let (c, k2) = active_config (f_kms f1);
                  let (m1, f2) = screen_fb io c a m (f1\<lparr>f_kms := k2\<rparr>);
                  if h_fbId m1 = 0 then Some (0, f2)
                  else if mPset f2 = None \<and> \<not> io_atomic_alloc io then Some (- 12, f2)
                  else do {
                    (m2, f3) \<leftarrow> clear_screen io a m1 (reset_hdr (f2\<lparr>mPset := Some (the_pset f2)\<rparr>));
                    Some (commit_frame io pidx c m2 f3) } } }))"

section \<open>Composition into the targets\<close>

text \<open>\<open>checkSecureLayers\<close>: the number of protected layers of the vector.\<close>

fun count_secure :: "mem_world \<Rightarrow> layer list \<Rightarrow> nat option" where
  "count_secure w [] = Some 0"
| "count_secure w (l # ls) =
     (case handle l of
        None \<Rightarrow> count_secure w ls
      | Some a \<Rightarrow> do { m \<leftarrow> heap w a; n \<leftarrow> count_secure w ls;
                      Some (if has_flag (h_usage m) USAGE_PROTECTED then Suc n else n) })"

definition checkSecureLayers :: "display \<Rightarrow> nat option" where
  "checkSecureLayers d = count_secure (cw (d_comp d)) (map (layer_at d) (mLayerVector d))"

definition set_secure_pipe :: "bool \<Rightarrow> kms \<Rightarrow> kms" where
  "set_secure_pipe b k =
     (if g2d_secure k = b then k
      else (k_emit [SecurePipe b] k)\<lparr>g2d_secure := b,
             k_disp := (k_disp k)\<lparr>d_comp := setSecureMode b (d_comp (k_disp k))\<rparr>\<rparr>)"

definition next_target :: "kms \<Rightarrow> kms" where
  "next_target k =
     (let i = mTargetIndex k mod length (mTargets k)
      in k\<lparr>k_disp := (k_disp k)\<lparr>mRenderTarget := mTargets k ! i\<rparr>, mTargetIndex := Suc i\<rparr>)"

definition next_sec_target :: "kms \<Rightarrow> kms" where
  "next_sec_target k =
     (let i = mSecTargetIndex k mod length (mSecTargets k)
      in k\<lparr>k_disp := (k_disp k)\<lparr>mRenderTarget := mSecTargets k ! i\<rparr>, mSecTargetIndex := Suc i\<rparr>)"

definition choose_target :: "build_cfg \<Rightarrow> kms \<Rightarrow> kms option" where
  "choose_target cfg k =
     (if HAVE_UNMAPPED_HEAP cfg then
        do { n \<leftarrow> checkSecureLayers (k_disp k);
             Some (if n > 0 then set_secure_pipe True (next_sec_target k) else set_secure_pipe False (next_target k)) }
      else Some (next_target k))"

text \<open>What \<open>composeLayersLocked\<close> does after \<open>performOverlay\<close>.\<close>

definition compose_rest :: "disp_env \<Rightarrow> display \<Rightarrow> (int \<times> display) option" where
  "compose_rest env d2 =
     (if mLayerVector d2 = [] \<and> \<not> directComposition d2 then Some (0, d2)
      else
        (let d3 = fold (hw_present (de_sv env)) (hw_list d2) d2
         in map_option (\<lambda>(ret, c). (ret, d3\<lparr>d_comp := c\<rparr>))
              (compose_vector (de_lib env) (mRenderTarget d3) (map (layer_at d3) (mLayerVector d3)) (d_comp d3))))"

lemma composeLayersLocked_rest:
  "composeLayersLocked env d =
     (let d1 = waitOnFence d
      in if \<not> mConnected d1 \<and> mIndex d1 \<noteq> DISPLAY_PRIMARY then Some (- EINVAL, d1)
         else compose_rest env (de_performOverlay env d1))"
  by (simp add: composeLayersLocked_def compose_rest_def Let_def)

definition kms_composeLayersLocked :: "frame_io \<Rightarrow> disp_env \<Rightarrow> kms_frame \<Rightarrow> (int \<times> kms_frame) option" where
  "kms_composeLayersLocked io env f =
     (let f1 = on_disp waitOnFence f
      in if \<not> mConnected (f_disp f1) \<and> mIndex (f_disp f1) \<noteq> DISPLAY_PRIMARY then Some (- EINVAL, f1)
         else do { (_, f2) \<leftarrow> performOverlay io f1;
                   (ret, d) \<leftarrow> compose_rest env (f_disp f2);
                   Some (ret, on_disp (\<lambda>_. d) f2) })"

definition kms_composeLayers :: "frame_io \<Rightarrow> disp_env \<Rightarrow> kms_frame \<Rightarrow> (int \<times> kms_frame) option" where
  "kms_composeLayers io env f =
     (if mLayerVector (f_disp f) \<noteq> [] \<or> directComposition (f_disp f) then
        do { k \<leftarrow> choose_target (e_cfg (f_env io)) (f_kms f);
             let f1 = f\<lparr>f_kms := k\<rparr>;
             if mRenderTarget (f_disp f1) = None then Some (0, f1) else kms_composeLayersLocked io env f1 }
      else kms_composeLayersLocked io env f)"

section \<open>The secure display\<close>

definition dummy_desc :: "frame_io \<Rightarrow> u32 \<Rightarrow> u32 \<Rightarrow> mem_desc" where
  "dummy_desc io w h =
     snd (checkFormat (e_cfg (f_env io)) (e_tile (f_env io))
       (MemoryDesc_init\<lparr>mWidth := ucast w, mHeight := ucast h, mFormat := FORMAT_RGBA8888, mFslFormat := FORMAT_RGBA8888,
          mProduceUsage := or (mProduceUsage MemoryDesc_init) (or USAGE_SW_READ_OFTEN (or USAGE_SW_WRITE_OFTEN
            (or USAGE_HW_RENDER USAGE_HW_TEXTURE))), mFlag := FLAGS_FRAMEBUFFER\<rparr>))"

text \<open>The buffer of the secure display, which is locked once for its address and filled with white.\<close>

definition alloc_dummy :: "frame_io \<Rightarrow> u32 \<Rightarrow> u32 \<Rightarrow> kms_frame \<Rightarrow> (bool \<times> kms_frame) option" where
  "alloc_dummy io w h f =
     do { (ret, _, out, w1) \<leftarrow> allocMemory (f_env io) (dummy_desc io w h) (f_mem f);
          let t = (case out of None \<Rightarrow> None | Some t \<Rightarrow> t);
          let f1 = (on_kms (with_mem w1) f)\<lparr>mDummyTarget := t\<rparr>;
          if ret \<noteq> 0 \<or> t = None then Some (False, f1)
          else do { ((_, v), w2) \<leftarrow> mm_lock (f_env io) t w1;
                    (_, w3) \<leftarrow> mm_unlock (f_env io) t w2;
                    a \<leftarrow> t;
                    m \<leftarrow> heap w3 a;
                    let base = (case v of None \<Rightarrow> 0 | Some x \<Rightarrow> x);
                    let f2 = on_kms (with_mem (store a (m\<lparr>h_base := base\<rparr>) w3)) f1;
                    Some (True, if base \<noteq> 0 then f_emit [FillBuffer a 0xff] f2 else f2) } }"

definition dummy_rects :: "u32 \<Rightarrow> u32 \<Rightarrow> u32 \<Rightarrow> u32 \<Rightarrow> nat option \<Rightarrow> layer" where
  "dummy_rects x y w h t =
     Layer_init\<lparr>sourceCrop := \<lparr>r_left = 0, r_top = 0, r_right = sint w, r_bottom = sint h\<rparr>,
                displayFrame := \<lparr>r_left = sint x, r_top = sint y, r_right = sint (x + w), r_bottom = sint (y + h)\<rparr>,
                handle := t\<rparr>"

definition setSecureDisplayEnable ::
    "frame_io \<Rightarrow> bool \<Rightarrow> u32 \<Rightarrow> u32 \<Rightarrow> u32 \<Rightarrow> u32 \<Rightarrow> kms_frame \<Rightarrow> (int \<times> kms_frame) option" where
  "setSecureDisplayEnable io enable x y w h f =
     (let f1 = on_kms (\<lambda>k. k\<lparr>mSecureDisplay := enable\<rparr>) f
      in if enable then
           do { (done, f2) \<leftarrow> (if mDummyTarget f1 = None then alloc_dummy io w h f1 else Some (True, f1));
                if \<not> done then Some (-1, f2)
                else Some (0, f2\<lparr>mDummylayer := DummyLayer (dummy_rects x y w h (mDummyTarget f2))\<rparr>) }
         else
           (let f2 = (if mUseOverlayAndroidUI (f_kms f1) then f1\<lparr>mForceModeSet := True\<rparr> else f1)
            in if mDummyTarget f2 = None then Some (0, f2)
               else do { (_, wd) \<leftarrow> releaseMemory (f_env io) (mDummyTarget f2) (f_mem f2);
                         if mDummylayer f2 = DeletedLayer then None
                         else Some (0, (on_kms (with_mem wd) f2)\<lparr>mDummyTarget := None,
                                mDummylayer := (if mDummylayer f2 = NoLayer then NoLayer else DeletedLayer)\<rparr>) }))"

text \<open>The destructor: deleting the layer of the secure display a second time is undefined.\<close>

definition kms_destroy :: "frame_io \<Rightarrow> kms_frame \<Rightarrow> kms_frame option" where
  "kms_destroy io f =
     do { (_, k) \<leftarrow> closeKms (io_lib io) (f_kms f);
          let f1 = f\<lparr>f_kms := k\<rparr>;
          let f2 = (if mDrmFd k > 0 then f_emit [CloseFd (mDrmFd k)] f1 else f1);
          if mDummylayer f2 = DeletedLayer then None else Some f2 }"

end
