(* ===== verification/Kms_Open.thy ===== *)
theory Kms_Open
  imports Kms_Device
begin

text \<open>
  What holds of a \<open>KmsDisplay\<close> that is opened, closed and opened again: the table of its
  configurations and the active one, over every sequence of operations.
\<close>

section \<open>Choosing a configuration\<close>

definition mode_ok :: "drm_mode \<Rightarrow> bool" where
  "mode_ok m \<longleftrightarrow> wf_mode m \<and> 0 < vrefresh m"

lemma getGUIResolution_le:
  assumes "getGUIResolution value w h ui = Some (custom, (w', h'), ui')"
  shows "w' \<le> w \<and> h' \<le> h" "\<not> custom \<Longrightarrow> w' = w \<and> h' = h"
proof -
  note le = shrink_le[of _ _ w h]
  show "w' \<le> w \<and> h' \<le> h"
    using assms le unfolding getGUIResolution_def Let_def
    by (auto split: option.split_asm prod.split_asm if_split_asm simp: shrink_def)
  show "\<not> custom \<Longrightarrow> w' = w \<and> h' = h"
    using assms unfolding getGUIResolution_def Let_def
    by (auto split: option.split_asm prod.split_asm if_split_asm simp: shrink_def)
qed

lemma build_same [simp]:
  "mFirstConfigId (buildDisplayConfigs mmw mmh fmt s) = mFirstConfigId s"
  "mMode (buildDisplayConfigs mmw mmh fmt s) = mMode s"
  "mDrmModes (buildDisplayConfigs mmw mmh fmt s) = mDrmModes s"
  "mModePrefered (buildDisplayConfigs mmw mmh fmt s) = mModePrefered s"
  "mActiveConfig (buildDisplayConfigs mmw mmh fmt s) = mActiveConfig s"
  by (simp_all add: buildDisplayConfigs_def Let_def)

lemma truncate_simps [simp]:
  "mFirstConfigId (config_state.truncate s) = mFirstConfigId s"
  "mConfigs (config_state.truncate s) = mConfigs s"
  by (simp_all add: config_state.truncate_def)

lemma truncate_eq:
  "\<lparr>mActiveConfig = mActiveConfig s, mConfigs = mConfigs s, mFirstConfigId = mFirstConfigId s\<rparr> = config_state.truncate s"
  by (simp add: config_state.truncate_def)

lemma build_ids: "ids_from (mFirstConfigId s) (mConfigs (buildDisplayConfigs mmw mmh fmt s))"
  by (rule conjunct1[OF buildDisplayConfigs_spec])

text \<open>The two ways in which a configuration is chosen.\<close>

lemma choose_config_cases:
  assumes "choose_config gui mmw mmh format ui s = Some (configId, ui', s')"
  obtains (custom) w h where
      "kms_createDisplayConfig w h (real_of_int (vrefresh (mMode s))) format (buildDisplayConfigs mmw mmh format s) = (configId, s')"
      "w \<le> hdisplay (mMode s)" "h \<le> vdisplay (mMode s)"
      "\<exists>r. getGUIResolution gui (hdisplay (mMode s)) (vdisplay (mMode s)) ui = Some (True, r)"
  | (plain) "s' = buildDisplayConfigs mmw mmh format s"
      "configId = findDisplayConfig (hdisplay (mMode s)) (vdisplay (mMode s)) (real_of_int (vrefresh (mMode s))) format
         (config_state.truncate (buildDisplayConfigs mmw mmh format s))"
      "\<exists>r. getGUIResolution gui (hdisplay (mMode s)) (vdisplay (mMode s)) ui = Some (False, r)"
proof -
  let ?s1 = "buildDisplayConfigs mmw mmh format s" and ?m = "mMode s"
  obtain c w h u where g: "getGUIResolution gui (hdisplay ?m) (vdisplay ?m) ui = Some (c, (w, h), u)"
    using assms by (auto simp: choose_config_def Let_def split: option.split_asm)
  show thesis
  proof (cases c)
    case True
    obtain i t where "kms_createDisplayConfig w h (real_of_int (vrefresh ?m)) format ?s1 = (i, t)" by fastforce
    then show thesis
      using custom[of w h] getGUIResolution_le(1)[OF g] assms True g by (simp add: choose_config_def Let_def)
  next
    case False
    then show thesis
      by (intro plain) (use getGUIResolution_le(2)[OF g] assms g False in \<open>auto simp: choose_config_def Let_def\<close>)
  qed
qed

lemma findDisplayConfig_some:
  assumes "ids_from (mFirstConfigId s) (mConfigs s)" "0 \<le> findDisplayConfig w h f fmt s"
  shows "\<exists>c. map_of (mConfigs s) (findDisplayConfig w h f fmt s) = Some c \<and> config_matches w h f fmt c"
  using assms(1)
proof (cases rule: findDisplayConfig_cases[where w = w and h = h and f = f and fmt = fmt])
  case none
  then show ?thesis using assms(2) by simp
next
  case (found i)
  then show ?thesis using map_of_ids_from(1)[OF assms(1), of i] by simp
qed

lemma choose_config_ids:
  assumes "choose_config gui mmw mmh format ui s = Some (configId, ui', s')"
  shows "ids_from (mFirstConfigId s') (mConfigs s') \<and> mFirstConfigId s' = mFirstConfigId s \<and>
    mMode s' = mMode s \<and> mDrmModes s' = mDrmModes s \<and> mModePrefered s' = mModePrefered s \<and>
    mActiveConfig s' = mActiveConfig s \<and>
    (0 \<le> configId \<longrightarrow> map_of (mConfigs s') configId \<noteq> None)"
  using assms
proof (cases rule: choose_config_cases)
  case (custom w h)
  let ?s1 = "buildDisplayConfigs mmw mmh format s"
  have "ids_from (mFirstConfigId ?s1) (mConfigs ?s1)" by (simp add: build_ids)
  note * = kms_createDisplayConfig_ids[OF this custom(1)]
  have "configId \<in> dom (map_of (mConfigs s'))" using ids_from_dom[OF conjunct1[OF *]] * by simp
  then show ?thesis using * by auto
next
  case plain
  have "ids_from (mFirstConfigId (config_state.truncate s')) (mConfigs (config_state.truncate s'))"
    unfolding plain(1) by (simp add: build_ids)
  from findDisplayConfig_some[OF this, of "hdisplay (mMode s)" "vdisplay (mMode s)" "real_of_int (vrefresh (mMode s))" format]
  show ?thesis unfolding plain(1,2) by (auto simp: build_ids)
qed

text \<open>The mode that was chosen is among the configurations.\<close>

lemma build_has_mode:
  assumes "i < length (mDrmModes s)" "mMode s = mDrmModes s ! i" "fmt \<noteq> -1"
  shows "\<exists>(k, c)\<in>set (mConfigs (buildDisplayConfigs mmw mmh fmt s)).
    config_matches (hdisplay (mMode s)) (vdisplay (mMode s)) (real_of_int (vrefresh (mMode s))) fmt c"
proof -
  let ?m = "mMode s" and ?cs = "mConfigs (buildDisplayConfigs mmw mmh fmt s)"
  have "(i, ?m) \<in> set (enumerate 0 (mDrmModes s))" using assms by (auto simp: in_set_enumerate_eq)
  then have "(hdisplay ?m, vdisplay ?m, int i) \<in> (\<lambda>(k, c). (mXres c, mYres c, modeIdx c)) ` set ?cs"
    using arg_cong[OF conjunct2[OF buildDisplayConfigs_spec[of s mmw mmh fmt]], of set] by force
  then obtain k c where c: "(k, c) \<in> set ?cs" "mXres c = hdisplay ?m" "mYres c = vdisplay ?m" by auto
  then show ?thesis
    using buildDisplayConfigs_entries[OF c(1) assms(3)] assms(3) by (force simp: config_matches_def FLOAT_TOLERANCE_def)
qed

lemma choose_config_correct:
  assumes "choose_config gui mmw mmh format ui s = Some (configId, ui', s')" "format \<noteq> -1" "0 \<le> mFirstConfigId s"
    and "i < length (mDrmModes s)" "mMode s = mDrmModes s ! i" "0 < vrefresh (mMode s)"
  shows "0 \<le> configId \<and> (\<exists>c w h. map_of (mConfigs s') configId = Some c \<and>
    w \<le> hdisplay (mMode s) \<and> h \<le> vdisplay (mMode s) \<and>
    config_matches w h (real_of_int (vrefresh (mMode s))) format c \<and>
    ((\<exists>r. getGUIResolution gui (hdisplay (mMode s)) (vdisplay (mMode s)) ui = Some (False, r)) \<longrightarrow>
       w = hdisplay (mMode s) \<and> h = vdisplay (mMode s)))"
  using assms(1)
proof (cases rule: choose_config_cases)
  case (custom w h)
  let ?s1 = "buildDisplayConfigs mmw mmh format s"
  have i: "ids_from (mFirstConfigId ?s1) (mConfigs ?s1)" by (simp add: build_ids)
  have "FLOAT_TOLERANCE \<le> \<bar>real_of_int (vrefresh (mMode s))\<bar>"
    using assms(6) by (simp add: FLOAT_TOLERANCE_def)
  from kms_createDisplayConfig_spec[OF i _ this custom(1)] kms_createDisplayConfig_ids[OF i custom(1)]
  show ?thesis using custom(2-) assms(3) by fastforce
next
  case plain
  let ?s1 = "buildDisplayConfigs mmw mmh format s" and ?m = "mMode s"
  let ?id = "findDisplayConfig (hdisplay ?m) (vdisplay ?m) (real_of_int (vrefresh ?m)) format (config_state.truncate ?s1)"
  have i: "ids_from (mFirstConfigId (config_state.truncate ?s1)) (mConfigs (config_state.truncate ?s1))"
    by (simp add: build_ids)
  have ex: "\<exists>(k, c)\<in>set (mConfigs ?s1). config_matches (hdisplay ?m) (vdisplay ?m) (real_of_int (vrefresh ?m)) format c"
    by (rule build_has_mode[OF assms(4,5,2)])
  have "0 \<le> ?id" using i
    by (cases rule: findDisplayConfig_cases[where w = "hdisplay ?m" and h = "vdisplay ?m"
          and f = "real_of_int (vrefresh ?m)" and fmt = format]) (use ex assms(3) in auto)
  then show ?thesis using findDisplayConfig_some[OF i] plain by auto
qed

section \<open>Opening\<close>

lemma index_op_present: "map_of m k = Some c \<Longrightarrow> index_op k m = (c, m)"
  by (simp add: index_op_def emplace_def)

lemma add_planes_conf: "add_planes ke ps k = Some k' \<Longrightarrow>
    k_conf k' = k_conf k \<and> k_disp k' = k_disp k \<and> length (mKmsPlanes k') = length (mKmsPlanes k) \<and>
    mTargets k' = mTargets k \<and> mSecTargets k' = mSecTargets k \<and> mCustomizeUI k' = mCustomizeUI k"
proof (induction ke ps k rule: add_planes.induct)
  case (2 ke p ps k)
  then obtain k1 where k1: "add_plane ke p k = Some k1" "add_planes ke ps k1 = Some k'"
    by (auto simp: bind_eq_Some_conv)
  have "k_conf k1 = k_conf k \<and> k_disp k1 = k_disp k \<and> length (mKmsPlanes k1) = length (mKmsPlanes k) \<and>
    mTargets k1 = mTargets k \<and> mSecTargets k1 = mSecTargets k \<and> mCustomizeUI k1 = mCustomizeUI k"
    using k1(1) by (auto simp: add_plane_def Let_def split: option.split_asm if_split_asm)
  then show ?case using 2(1)[OF k1] by simp
qed simp

lemma getPrimaryPlane_conf: "getPrimaryPlane ke k = Some (r, k') \<Longrightarrow>
    k_conf k' = k_conf k \<and> k_disp k' = k_disp k \<and> length (mKmsPlanes k') = length (mKmsPlanes k) \<and>
    mTargets k' = mTargets k \<and> mSecTargets k' = mSecTargets k \<and> mCustomizeUI k' = mCustomizeUI k"
  using add_planes_conf[of ke _ k k'] unfolding getPrimaryPlane_def by (auto split: option.split_asm)

lemma find_crtc_conf [simp]:
  "k_conf (find_crtc p cs k) = k_conf k" "k_disp (find_crtc p cs k) = k_disp k"
  "mTargets (find_crtc p cs k) = mTargets k" "mSecTargets (find_crtc p cs k) = mSecTargets k"
  "mCustomizeUI (find_crtc p cs k) = mCustomizeUI k" "mKmsPlanes (find_crtc p cs k) = mKmsPlanes k"
  by (simp_all add: find_crtc_def split: option.split)

lemma getKmsProperty_conf [simp]:
  "k_conf (getKmsProperty ke k) = k_conf k" "k_disp (getKmsProperty ke k) = k_disp k"
  "mTargets (getKmsProperty ke k) = mTargets k" "mSecTargets (getKmsProperty ke k) = mSecTargets k"
  "mCustomizeUI (getKmsProperty ke k) = mCustomizeUI k"
  "length (mKmsPlanes (getKmsProperty ke k)) = length (mKmsPlanes k)"
  by (simp_all add: getKmsProperty_def)

lemma with_mem_conf [simp]:
  "k_conf (with_mem w k) = k_conf k" "mTargets (with_mem w k) = mTargets k"
  "mSecTargets (with_mem w k) = mSecTargets k" "mKmsPlanes (with_mem w k) = mKmsPlanes k"
  by (simp_all add: with_mem_def)

lemma alloc_targets_length: "alloc_targets env d ts w = Some (d', ts', w') \<Longrightarrow> length ts' = length ts"
  by (induction env d ts w arbitrary: ts' d' w' rule: alloc_targets.induct) (auto simp: bind_eq_Some_conv)

lemma prepareTargets_conf:
  assumes "prepareTargetsLocked lib k = Some k'" "map_of (mConfigs (k_conf k)) (mActiveConfig (k_conf k)) \<noteq> None"
  shows "k_conf k' = k_conf k \<and> length (mTargets k') = length (mTargets k) \<and>
    length (mSecTargets k') = length (mSecTargets k) \<and> mKmsPlanes k' = mKmsPlanes k"
proof -
  obtain c where "map_of (mConfigs (k_conf k)) (mActiveConfig (k_conf k)) = Some c" using assms(2) by auto
  note i = index_op_present[OF this]
  show ?thesis
    using assms(1) unfolding prepareTargetsLocked_def Let_def
    by (auto simp: i case_prod_beta bind_eq_Some_conv dest!: alloc_targets_length split: if_split_asm)
qed

lemma plane_format_valid: "format \<noteq> -1 \<Longrightarrow> plane_format bgrx fs format \<noteq> -1"
  by (induction bgrx fs format rule: plane_format.induct) auto

lemma open_connector_cases:
  assumes "open_connector lib bgrx ke crtcs conn k = Some (ret, k')"
  obtains (fail) "ret = - ENODEV"
      "k_conf k' = k_conf k \<or> (\<exists>v. getDisplayMode v (dc_modes conn) (k_conf k) = Some (k_conf k'))"
  | (config) v fmt s configId ui s' where
      "getDisplayMode v (dc_modes conn) (k_conf k) = Some s" "fmt \<noteq> -1"
      "choose_config (property_get ke ''ro.boot.gui_resolution'' ''p'') (dc_mmWidth conn) (dc_mmHeight conn) fmt
         (mCustomizeUI k) s = Some (configId, ui, s')"
      "configId < 0 \<Longrightarrow> ret = -1 \<and> k_conf k' = s'"
      "0 \<le> configId \<Longrightarrow> ret = 0 \<and> k_conf k' = s'\<lparr>mActiveConfig := configId\<rparr>"
proof -
  obtain e es where e: "dc_encoders conn = e # es"
    using assms by (auto simp: open_connector_def split: list.split_asm)
  show thesis
  proof (cases "ke_encoder ke e")
    case None
    then show thesis using fail assms e by (simp add: open_connector_def)
  next
    case (Some pe)
    obtain possible etype where pe: "pe = (possible, etype)" by fastforce
    let ?v = "property_get ke ''ro.boot.displaymode'' ''p''"
    obtain conf where conf: "getDisplayMode ?v (dc_modes conn) (k_conf k) = Some conf"
      using assms e Some pe by (auto simp: open_connector_def bind_eq_Some_conv)
    let ?k1 = "find_crtc possible crtcs (k\<lparr>k_conf := conf\<rparr>)"
    show thesis
    proof (cases "mCrtcID ?k1 = 0")
      case True
      then have "ret = - ENODEV \<and> k_conf k' = conf" using assms e Some pe conf by (auto simp: open_connector_def Let_def)
      then show thesis using fail conf by blast
    next
      case False
      obtain r k2 where k2: "getPrimaryPlane ke (?k1\<lparr>mEncoderType := etype\<rparr>) = Some (r, k2)"
        using assms e Some pe conf False by (auto simp: open_connector_def Let_def bind_eq_Some_conv)
      have c2: "k_conf k2 = conf" "mCustomizeUI k2 = mCustomizeUI k"
        using getPrimaryPlane_conf[OF k2] by simp_all
      let ?k3 = "getKmsProperty ke k2"
      obtain plane where plane: "ke_plane ke (plane_id (mKmsPlanes ?k3 ! 0)) = Some plane"
        using assms e Some pe conf False k2 by (auto simp: open_connector_def Let_def bind_eq_Some_conv)
      let ?fmt = "plane_format bgrx (dp_formats plane) FORMAT_RGBX8888"
      obtain configId ui conf1 where ch: "choose_config (property_get ke ''ro.boot.gui_resolution'' ''p'')
          (dc_mmWidth conn) (dc_mmHeight conn) ?fmt (mCustomizeUI k) conf = Some (configId, ui, conf1)"
        using assms e Some pe conf False k2 plane c2 by (auto simp: open_connector_def Let_def bind_eq_Some_conv)
      let ?k4 = "?k3\<lparr>k_conf := conf1, mCustomizeUI := ui\<rparr>"
      have neg: "configId < 0 \<Longrightarrow> ret = -1 \<and> k_conf k' = conf1"
        using assms e Some pe conf False k2 plane c2 ch by (auto simp: open_connector_def Let_def bind_eq_Some_conv)
      have pos: "ret = 0 \<and> k_conf k' = conf1\<lparr>mActiveConfig := configId\<rparr>" if nn: "0 \<le> configId"
      proof -
        obtain c where c: "map_of (mConfigs conf1) configId = Some c"
          using choose_config_ids[OF ch] nn by auto
        let ?k5 = "?k4\<lparr>k_conf := conf1\<lparr>mConfigs := mConfigs conf1, mActiveConfig := configId\<rparr>\<rparr>"
        obtain k6 where k6: "prepareTargetsLocked lib ?k5 = Some k6" "ret = 0" "k_conf k' = k_conf k6"
          using assms e Some pe conf False k2 plane c2 ch nn index_op_present[OF c]
          by (auto simp: open_connector_def Let_def bind_eq_Some_conv)
        then show ?thesis using prepareTargets_conf[OF k6(1)] c by simp
      qed
      show thesis
        by (rule config[OF conf plane_format_valid ch neg pos]) simp
    qed
  qed
qed

lemma openKms_cases:
  assumes "openKms lib bgrx ke k = Some (ret, k')"
  obtains (early) "ret = - ENODEV \<or> ret \<noteq> 0 \<and> ret \<in> {ke_setClientCap ke 2, ke_setClientCap ke 3}" "k_conf k' = k_conf k"
  | (connector) crtcs conn where "ke_connector ke (mConnectorID k) = Some conn"
      "open_connector lib bgrx ke crtcs conn (k\<lparr>mAllowModifier := (ke_addfb2_modifiers ke \<noteq> 0)\<rparr>) = Some (ret, k')"
  using assms unfolding openKms_def Let_def by (auto split: if_split_asm option.split_asm)

text \<open>The connector of a display that is opened has modes.\<close>

definition modes_ok :: "drm \<Rightarrow> kms \<Rightarrow> bool" where
  "modes_ok ke k \<longleftrightarrow> (\<forall>c. ke_connector ke (mConnectorID k) = Some c \<longrightarrow>
     dc_modes c \<noteq> [] \<and> (\<forall>m\<in>set (dc_modes c). mode_ok m))"

lemma getDisplayMode_current:
  assumes "getDisplayMode v modes s = Some s'" "modes \<noteq> []" "\<forall>m\<in>set modes. mode_ok m"
  shows "\<exists>i<length modes. mDrmModes s' = modes \<and> mMode s' = modes ! i \<and> mModePrefered s' = int i \<and> mode_ok (mMode s')"
proof -
  obtain w h r p where v: "parseDisplayMode v = Some (w, h, r, p)"
    using assms(1) by (auto simp: getDisplayMode_def split: option.split_asm)
  show ?thesis using getDisplayMode_spec[OF v assms(2), of s] assms by (auto simp: mode_ok_def)
qed

lemma openKms_active_spec:
  assumes "openKms lib bgrx ke k = Some (ret, k')" "modes_ok ke k" "0 \<le> mFirstConfigId (k_conf k)"
    and "ke_setClientCap ke 2 = 0" "ke_setClientCap ke 3 = 0"
  shows "ret \<in> {0, - ENODEV} \<and> (ret = 0 \<longrightarrow>
    (\<exists>conn i c. ke_connector ke (mConnectorID k) = Some conn \<and> i < length (dc_modes conn) \<and>
       mDrmModes (k_conf k') = dc_modes conn \<and> mMode (k_conf k') = dc_modes conn ! i \<and>
       mModePrefered (k_conf k') = int i \<and>
       ids_from (mFirstConfigId (k_conf k')) (mConfigs (k_conf k')) \<and>
       map_of (mConfigs (k_conf k')) (mActiveConfig (k_conf k')) = Some c \<and>
       mXres c \<le> hdisplay (dc_modes conn ! i) \<and> mYres c \<le> vdisplay (dc_modes conn ! i) \<and>
       \<bar>mFps c - real_of_int (vrefresh (dc_modes conn ! i))\<bar> < FLOAT_TOLERANCE \<and>
       (ke_prop ke ''ro.boot.gui_resolution'' = None \<longrightarrow>
          mXres c = hdisplay (dc_modes conn ! i) \<and> mYres c = vdisplay (dc_modes conn ! i))))"
  using assms(1)
proof (cases rule: openKms_cases)
  case early
  then show ?thesis using assms(4,5) by auto
next
  case (connector crtcs conn)
  have modes: "dc_modes conn \<noteq> []" "\<forall>m\<in>set (dc_modes conn). mode_ok m"
    using assms(2) connector(1) by (auto simp: modes_ok_def)
  show ?thesis using connector(2)
  proof (cases rule: open_connector_cases)
    case fail
    then show ?thesis by simp
  next
    case (config v fmt s configId ui s')
    then have g: "getDisplayMode v (dc_modes conn) (k_conf k) = Some s" by simp
    obtain i where i: "i < length (mDrmModes s)" "mDrmModes s = dc_modes conn" "mMode s = mDrmModes s ! i"
      "mModePrefered s = int i" "mode_ok (mMode s)"
      using getDisplayMode_current[OF g modes] by auto
    have first: "0 \<le> mFirstConfigId s" using getDisplayMode_frame[OF g] assms(3) by simp
    have rate: "0 < vrefresh (mMode s)" using i(5) by (simp add: mode_ok_def)
    note ch = choose_config_correct[OF config(3,2) first i(1,3) rate]
    note ids = choose_config_ids[OF config(3)]
    have ret: "ret = 0" "k_conf k' = s'\<lparr>mActiveConfig := configId\<rparr>" using config(5) ch by auto
    obtain c w h where c: "map_of (mConfigs s') configId = Some c" "w \<le> hdisplay (mMode s)" "h \<le> vdisplay (mMode s)"
      "config_matches w h (real_of_int (vrefresh (mMode s))) fmt c"
      "(\<exists>r. getGUIResolution (property_get ke ''ro.boot.gui_resolution'' ''p'') (hdisplay (mMode s)) (vdisplay (mMode s))
          (mCustomizeUI k) = Some (False, r)) \<longrightarrow> w = hdisplay (mMode s) \<and> h = vdisplay (mMode s)"
      using ch by auto
    have "getGUIResolution ''p'' a b u = Some (False, (a, b), u)" for a b u
      by (simp add: getGUIResolution_def starts_with_def shrink_def)
    then have "ke_prop ke ''ro.boot.gui_resolution'' = None \<longrightarrow> w = hdisplay (mMode s) \<and> h = vdisplay (mMode s)"
      using c(5) by (auto simp: property_get_def)
    then show ?thesis using ret c(1-4) ids i connector(1) by (auto simp: config_matches_def)
  qed
qed

lemma openKms_ids:
  assumes "openKms lib bgrx ke k = Some (ret, k')" "ids_from (mFirstConfigId (k_conf k)) (mConfigs (k_conf k))"
  shows "ids_from (mFirstConfigId (k_conf k')) (mConfigs (k_conf k')) \<and>
    mFirstConfigId (k_conf k') = mFirstConfigId (k_conf k)"
  using assms(1)
proof (cases rule: openKms_cases)
  case early
  then show ?thesis using assms(2) by simp
next
  case (connector crtcs conn)
  show ?thesis using connector(2)
  proof (cases rule: open_connector_cases)
    case fail
    then show ?thesis using getDisplayMode_frame assms(2) by fastforce
  next
    case (config v fmt s configId ui s')
    then show ?thesis using getDisplayMode_frame[OF config(1)] choose_config_ids[OF config(3)]
      by (cases "0 \<le> configId") auto
  qed
qed

text \<open>
  Opening a display whose connector has modes either fails for want of a device or makes a
  configuration active that is in the table of configurations: its refresh rate is the one of the
  chosen mode, its resolution does not exceed it, and is the one of the mode unless the system
  property asks for another; the mode is one of the connector's and its index is recorded.
\<close>

theorem openKms_active:
  assumes "openKms lib bgrx ke k = Some (ret, k')" "modes_ok ke k" "0 \<le> mFirstConfigId (k_conf k)"
    and "ke_setClientCap ke 2 = 0" "ke_setClientCap ke 3 = 0"
  shows "ret \<in> {0, - ENODEV} \<and> (ret = 0 \<longrightarrow>
    (\<exists>conn i c. ke_connector ke (mConnectorID k) = Some conn \<and> i < length (dc_modes conn) \<and>
       mDrmModes (k_conf k') = dc_modes conn \<and> mMode (k_conf k') = dc_modes conn ! i \<and>
       mModePrefered (k_conf k') = int i \<and>
       ids_from (mFirstConfigId (k_conf k')) (mConfigs (k_conf k')) \<and>
       map_of (mConfigs (k_conf k')) (mActiveConfig (k_conf k')) = Some c \<and>
       mXres c \<le> hdisplay (dc_modes conn ! i) \<and> mYres c \<le> vdisplay (dc_modes conn ! i) \<and>
       \<bar>mFps c - real_of_int (vrefresh (dc_modes conn ! i))\<bar> < FLOAT_TOLERANCE \<and>
       (ke_prop ke ''ro.boot.gui_resolution'' = None \<longrightarrow>
          mXres c = hdisplay (dc_modes conn ! i) \<and> mYres c = vdisplay (dc_modes conn ! i))))"
  by (rule openKms_active_spec[OF assms])

section \<open>Closing\<close>

lemma closeKms_conf:
  assumes "closeKms lib k = Some (ret, k')"
  shows "ret = 0 \<and> mConfigs (k_conf k') = [] \<and> mActiveConfig (k_conf k') = -1 \<and>
    mFirstConfigId (k_conf k') = mFirstConfigId (k_conf k) + int (length (mConfigs (k_conf k))) \<and>
    mDrmModes (k_conf k') = [] \<and> mEdid k' = None \<and> mKmsPlaneNum k' = 1 \<and>
    length (mKmsPlanes k') = length (mKmsPlanes k) \<and> mTargets k' = map (\<lambda>_. None) (mTargets k) \<and>
    length (mSecTargets k') = length (mSecTargets k)"
  using assms unfolding closeKms_def releaseTargetsLocked_def Let_def by (auto simp: with_mem_def)

text \<open>
  The id of a configuration is never given to another one: after a display is closed and
  opened again, whether that succeeds or not, no id of the new table was in use before.
\<close>

theorem reopen_ids_fresh:
  assumes "closeKms lib k = Some (r1, k1)" "openKms lib bgrx ke k1 = Some (r2, k2)"
    and "ids_from (mFirstConfigId (k_conf k)) (mConfigs (k_conf k))"
  shows "dom (map_of (mConfigs (k_conf k2))) \<inter> dom (map_of (mConfigs (k_conf k))) = {}"
proof -
  note c = closeKms_conf[OF assms(1)]
  have "ids_from (mFirstConfigId (k_conf k1)) (mConfigs (k_conf k1))" using c by (simp add: ids_from_def)
  note i = openKms_ids[OF assms(2) this]
  show ?thesis using ids_from_dom[OF conjunct1[OF i]] ids_from_dom[OF assms(3)] i c by auto
qed

section \<open>The life of a display\<close>

definition conf_ok :: "kms_config \<Rightarrow> bool" where
  "conf_ok s \<longleftrightarrow> ids_from (mFirstConfigId s) (mConfigs s) \<and> 0 \<le> mFirstConfigId s \<and>
     (mActiveConfig s = -1 \<or> map_of (mConfigs s) (mActiveConfig s) \<noteq> None)"

text \<open>
  The operations that a client of \<open>KmsDisplay\<close> performs.  A display is opened when its connector
  has modes; when it is opened without, as the primary display may be, and that fails, it is
  closed at once, as \<open>enumKmsDisplay\<close> does.  \<open>changeDisplayConfig\<close> and the steps of \<open>ConfigThread\<close> read
  \<open>mConfigs[id]\<close>, which inserts what is not there: they are taken here with ids of the table.
\<close>

inductive kms_step :: "g2d_lib \<Rightarrow> kms \<Rightarrow> kms \<Rightarrow> bool" for lib where
  step_setDrm: "kms_step lib k (snd (setDrm dup fd c k))"
| step_type: "kms_step lib k (snd (readType ke k))"
| step_connection: "kms_step lib k (snd (readConnection ke k))"
| step_power: "kms_step lib k (snd (setPowerMode ke mode k))"
| step_open: "modes_ok ke k \<Longrightarrow> ke_setClientCap ke 2 = 0 \<Longrightarrow> ke_setClientCap ke 3 = 0 \<Longrightarrow>
    openKms lib bgrx ke k = Some (r, k') \<Longrightarrow> kms_step lib k k'"
| step_open_close: "openKms lib bgrx ke k = Some (r, k1) \<Longrightarrow> r \<noteq> 0 \<Longrightarrow> closeKms lib k1 = Some (r', k') \<Longrightarrow>
    kms_step lib k k'"
| step_fake: "openFakeKms lib ke k = Some (r, k') \<Longrightarrow> kms_step lib k k'"
| step_close: "closeKms lib k = Some (r, k') \<Longrightarrow> kms_step lib k k'"
| step_active: "kms_step lib k (k\<lparr>k_conf := snd (kms_setActiveConfig configId (k_conf k))\<rparr>)"
| step_change: "map_of (mConfigs (k_conf k)) config \<noteq> None \<Longrightarrow>
    map_of (mConfigs (k_conf k)) (mActiveConfig (k_conf k)) \<noteq> None \<Longrightarrow>
    kms_changeDisplayConfig config desired seamless (k_conf k) = (r, conf) \<Longrightarrow> kms_step lib k (k\<lparr>k_conf := conf\<rparr>)"
| step_getConfig: "map_of (mConfigs (k_conf k)) config \<noteq> None \<Longrightarrow>
    kms_step lib k (k\<lparr>k_conf := (k_conf k)\<lparr>mConfigs := snd (index_op config (mConfigs (k_conf k)))\<rparr>\<rparr>)"
| step_mode: "kms_step lib k (k\<lparr>k_conf := snd (setNewDrmMode index (k_conf k))\<rparr>)"
| step_refresh: "kms_step lib k (k\<lparr>k_conf := (k_conf k)\<lparr>mRefreshRequired := False\<rparr>\<rparr>)"

inductive kms_reach :: "g2d_lib \<Rightarrow> kms \<Rightarrow> bool" for lib where
  reach_init: "kms_reach lib (KmsDisplay_init d frames secure ke)"
| reach_step: "kms_reach lib k \<Longrightarrow> kms_step lib k k' \<Longrightarrow> kms_reach lib k'"

lemma conf_ok_open:
  assumes "conf_ok (k_conf k)" "modes_ok ke k" "ke_setClientCap ke 2 = 0" "ke_setClientCap ke 3 = 0"
    "openKms lib bgrx ke k = Some (r, k')"
  shows "conf_ok (k_conf k')"
proof -
  have f: "0 \<le> mFirstConfigId (k_conf k)" "ids_from (mFirstConfigId (k_conf k)) (mConfigs (k_conf k))"
    using assms(1) by (auto simp: conf_ok_def)
  note a = openKms_active_spec[OF assms(5,2) f(1) assms(3,4)] and i = openKms_ids[OF assms(5) f(2)]
  show ?thesis
  proof (cases "r = 0")
    case True
    then show ?thesis using a i f(1) by (auto simp: conf_ok_def)
  next
    case False
    show ?thesis using assms(5)
    proof (cases rule: openKms_cases)
      case early
      then show ?thesis using assms(1) by simp
    next
      case (connector crtcs conn)
      show ?thesis using connector(2)
      proof (cases rule: open_connector_cases)
        case fail
        then show ?thesis using assms(1) getDisplayMode_frame[of _ _ "k_conf k" "k_conf k'"] by (auto simp: conf_ok_def)
      next
        case (config v fmt s configId ui s')
        then have "r = -1 \<or> r = 0" by (cases "0 \<le> configId") auto
        then show ?thesis using a False by simp
      qed
    qed
  qed
qed

lemma conf_ok_closed:
  assumes "closeKms lib k = Some (r, k')" "0 \<le> mFirstConfigId (k_conf k)"
  shows "conf_ok (k_conf k')"
  using closeKms_conf[OF assms(1)] assms(2) by (simp add: conf_ok_def ids_from_def)

lemma update_entry:
  assumes "map_of m k = Some c"
  shows "ids_from first (AList.update k v m) \<longleftrightarrow> ids_from first m" "map_of (AList.update k v m) k = Some v"
proof -
  have "k \<in> set (map fst m)" using assms by (metis map_of_eq_None_iff option.simps(3) list.set_map)
  then have "map fst (AList.update k v m) = map fst m" by (simp add: update_keys)
  moreover from this have "length (AList.update k v m) = length m" by (metis length_map)
  ultimately show "ids_from first (AList.update k v m) \<longleftrightarrow> ids_from first m" by (simp add: ids_from_def)
qed (simp add: update_conv)

lemma conf_ok_fake:
  assumes "conf_ok (k_conf k)" "openFakeKms lib ke k = Some (r, k')"
  shows "conf_ok (k_conf k')"
proof -
  obtain w h rate p where v: "parseDisplayMode (property_get ke ''ro.boot.displaymode'' ''p'') = Some (w, h, rate, p)"
    using assms(2) by (auto simp: openFakeKms_def bind_eq_Some_conv)
  let ?size = "if mXres (mBackupConfig k) > 0 \<and> mYres (mBackupConfig k) > 0
    then (mXres (mBackupConfig k), mYres (mBackupConfig k)) else (w, h)"
  obtain configId conf where
    c: "kms_createDisplayConfig (fst ?size) (snd ?size) (real_of_int rate) (-1) (k_conf k) = (configId, conf)"
    by fastforce
  have f: "0 \<le> mFirstConfigId (k_conf k)" "ids_from (mFirstConfigId (k_conf k)) (mConfigs (k_conf k))"
    using assms(1) by (auto simp: conf_ok_def)
  note i = kms_createDisplayConfig_ids[OF f(2) c]
  then have nn: "0 \<le> configId" using f(1) by simp
  have "configId \<in> dom (map_of (mConfigs conf))" using ids_from_dom[OF conjunct1[OF i]] i by simp
  then obtain e where e: "map_of (mConfigs conf) configId = Some e" by auto
  let ?conf = "conf\<lparr>mConfigs := AList.update configId (fake_config e) (mConfigs conf), mActiveConfig := configId\<rparr>"
  let ?k0 = "k\<lparr>k_disp := (k_disp k)\<lparr>mType := DISPLAY_HDMI\<rparr>, k_conf := ?conf\<rparr>"
  have "\<not> configId < 0" using nn by simp
  then have k0: "prepareTargetsLocked lib ?k0 = Some k'"
    using assms(2) index_op_present[OF e] c unfolding openFakeKms_def v
    by (cases "mXres (mBackupConfig k) > 0 \<and> mYres (mBackupConfig k) > 0") (auto simp: Let_def)
  then have "k_conf k' = ?conf" using prepareTargets_conf[OF k0] update_entry(2)[OF e] by simp
  then show ?thesis using update_entry[OF e] i f(1) by (auto simp: conf_ok_def)
qed

lemma conf_ok_active:
  assumes "conf_ok s"
  shows "conf_ok (snd (kms_setActiveConfig configId s))"
  using assms ids_from_dom[of "mFirstConfigId s" "mConfigs s"]
  by (auto simp: conf_ok_def kms_setActiveConfig_def setActiveConfigLocked_def)

lemma conf_ok_locked:
  assumes "conf_ok s"
  shows "conf_ok (snd (setActiveConfigLocked configId s))"
  using conf_ok_active[OF assms] by (simp add: kms_setActiveConfig_def)

lemma conf_ok_change:
  assumes "conf_ok s" "map_of (mConfigs s) config \<noteq> None" "map_of (mConfigs s) (mActiveConfig s) \<noteq> None"
    and "kms_changeDisplayConfig config desired seamless s = (r, s')"
  shows "conf_ok s'"
proof -
  have ix: "snd (index_op config (mConfigs s)) = mConfigs s" "snd (index_op (mActiveConfig s) (mConfigs s)) = mConfigs s"
    using assms(2,3) by (auto simp: index_op_def emplace_def)
  have "conf_ok (s\<lparr>mConfigs := mConfigs s\<rparr>)" using assms(1) by simp
  note l = conf_ok_locked[OF this, of config]
  have u: "conf_ok (t\<lparr>mRefreshRequired := b\<rparr>) = conf_ok t" for t b by (simp add: conf_ok_def)
  show ?thesis
    using assms(1,4) l ix u by (auto simp: kms_changeDisplayConfig_def Let_def case_prod_beta split: if_split_asm)
qed

lemma conf_ok_thread:
  "map_of (mConfigs s) config \<noteq> None \<Longrightarrow> conf_ok (s\<lparr>mConfigs := snd (index_op config (mConfigs s))\<rparr>) = conf_ok s"
  "conf_ok (snd (setNewDrmMode index s)) = conf_ok s" "conf_ok (s\<lparr>mRefreshRequired := b\<rparr>) = conf_ok s"
  by (auto simp: conf_ok_def setNewDrmMode_def index_op_def emplace_def)

lemma conf_ok_same:
  "conf_ok (k_conf (snd (setDrm dup fd c k))) = conf_ok (k_conf k)"
  "conf_ok (k_conf (snd (readType ke k))) = conf_ok (k_conf k)"
  "conf_ok (k_conf (snd (readConnection ke k))) = conf_ok (k_conf k)"
  "conf_ok (k_conf (snd (setPowerMode ke mode k))) = conf_ok (k_conf k)"
  by (simp_all add: setDrm_def readType_def readConnection_def setPowerMode_def conf_ok_def k_emit_def Let_def
      split: option.split)

text \<open>
  C25: the ids of the configurations are consecutive, and the active configuration, when there is
  one, is in the table, in every state that a display reaches by \<open>setDrm\<close>, \<open>readType\<close>,
  \<open>readConnection\<close>, \<open>setPowerMode\<close>, \<open>openKms\<close> (on a connector with modes, all of a positive refresh rate,
  and with the client capabilities granted; or failing and followed by \<open>closeKms\<close>), \<open>openFakeKms\<close>, \<open>closeKms\<close>, \<open>setActiveConfig\<close> with any
  id, and \<open>changeDisplayConfig\<close> and the steps of \<open>ConfigThread\<close> with ids that are in the table when
  they are used (and, for \<open>changeDisplayConfig\<close>, an active configuration).
\<close>

theorem kms_reach_ok:
  assumes "kms_reach lib k"
  shows "conf_ok (k_conf k)"
  using assms
proof induction
  case (reach_init d frames secure ke)
  show ?case by (simp add: KmsDisplay_init_def conf_ok_def ids_from_def)
next
  case (reach_step k k')
  have first: "0 \<le> mFirstConfigId (k_conf k)" using reach_step.IH by (simp add: conf_ok_def)
  from reach_step(2) show ?case
  proof cases
    case (step_open ke bgrx r)
    then show ?thesis using conf_ok_open[OF reach_step.IH] by blast
  next
    case (step_open_close bgrx ke r k1 r')
    have "mFirstConfigId (k_conf k1) = mFirstConfigId (k_conf k)"
      using openKms_ids[OF step_open_close(1)] reach_step.IH by (simp add: conf_ok_def)
    then show ?thesis using conf_ok_closed[OF step_open_close(3)] first by simp
  next
    case (step_fake ke r)
    then show ?thesis by (rule conf_ok_fake[OF reach_step.IH])
  next
    case (step_close r)
    then show ?thesis using first by (rule conf_ok_closed)
  next
    case (step_change config desired seamless r conf)
    then show ?thesis using conf_ok_change[OF reach_step.IH] by simp
  qed (simp_all add: conf_ok_same conf_ok_active conf_ok_thread reach_step.IH)
qed

section \<open>Witnesses\<close>

text \<open>A kernel with one connector that has one mode, and a display on it.\<close>

definition conn_demo :: drm_connector where
  "conn_demo = \<lparr>dc_type = 11, dc_connection = 1, dc_modes = [mode_720], dc_encoders = [5],
     dc_mmWidth = 0, dc_mmHeight = 0\<rparr>"

definition drm_demo :: drm where
  "drm_demo = \<lparr>ke_prop = (\<lambda>_. None), ke_resources = Some [40], ke_setClientCap = (\<lambda>_. 0),
     ke_addfb2_modifiers = 1, ke_connector = (\<lambda>c. if c = 7 then Some conn_demo else None),
     ke_encoder = (\<lambda>e. if e = 5 then Some (1, 2) else None), ke_plane_ids = Some [30],
     ke_plane = (\<lambda>p. if p = 30 then Some \<lparr>dp_formats = [DRM_FORMAT_ABGR8888], dp_possible_crtcs = 1\<rparr> else None),
     ke_properties = (\<lambda>p. if p = 30 then Some [Some (''type'', 9, 1)] else None),
     ke_setProperty = (\<lambda>_ _ _. 0), ke_edid_blob = None\<rparr>"

definition lib_noblit :: g2d_lib where
  "lib_noblit = lib_demo\<lparr>l_blit := False\<rparr>"

definition kms_new :: kms where
  "kms_new = snd (setDrm (\<lambda>fd. fd + 1) 3 7 (KmsDisplay_init disp_demo 3 False drm_demo))"

lemma open_connector_progress:
  assumes "dc_encoders conn = e # es" "ke_encoder ke e = Some (possible, etype)"
    and "getDisplayMode (property_get ke ''ro.boot.displaymode'' ''p'') (dc_modes conn) (k_conf k) = Some s"
    and "mCrtcID (find_crtc possible crtcs (k\<lparr>k_conf := s\<rparr>)) \<noteq> 0"
    and "getPrimaryPlane ke ((find_crtc possible crtcs (k\<lparr>k_conf := s\<rparr>))\<lparr>mEncoderType := etype\<rparr>) = Some (r, k2)"
    and "ke_plane ke (plane_id (mKmsPlanes (getKmsProperty ke k2) ! 0)) = Some plane"
    and "choose_config (property_get ke ''ro.boot.gui_resolution'' ''p'') (dc_mmWidth conn) (dc_mmHeight conn)
      (plane_format bgrx (dp_formats plane) FORMAT_RGBX8888) (mCustomizeUI k) s = Some (configId, ui, s')"
    and "0 \<le> configId" "\<And>k. prepareTargetsLocked lib k \<noteq> None" "Edid_new (ke_edid_blob ke) = Some ed"
  shows "\<exists>k'. open_connector lib bgrx ke crtcs conn k = Some (0, k')"
proof -
  have c: "k_conf (getKmsProperty ke k2) = s" "mCustomizeUI (getKmsProperty ke k2) = mCustomizeUI k"
    using getPrimaryPlane_conf[OF assms(5)] by simp_all
  let ?k = "(getKmsProperty ke k2)\<lparr>mCustomizeUI := ui, k_conf := s'\<lparr>mConfigs := snd (index_op configId (mConfigs s')),
     mActiveConfig := configId\<rparr>\<rparr>"
  obtain k5 where "prepareTargetsLocked lib ?k = Some k5" using assms(9) by fastforce
  then show ?thesis
    using assms(1-8,10) c by (simp add: open_connector_def Let_def)
qed

lemma kms_new_open: "\<exists>k'. openKms lib_noblit False drm_demo kms_new = Some (0, k')"
proof -
  let ?k = "kms_new\<lparr>mAllowModifier := True\<rparr>"
  have drm: "ke_resources drm_demo = Some [40]" "ke_setClientCap drm_demo n = 0" "ke_addfb2_modifiers drm_demo = 1"
    "ke_connector drm_demo 7 = Some conn_demo" "ke_encoder drm_demo 5 = Some (1, 2)" "ke_plane_ids drm_demo = Some [30]"
    "ke_plane drm_demo 30 = Some \<lparr>dp_formats = [DRM_FORMAT_ABGR8888], dp_possible_crtcs = 1\<rparr>"
    "ke_properties drm_demo 30 = Some [Some (''type'', 9, 1)]" "property_get drm_demo p dflt = dflt"
    "ke_edid_blob drm_demo = None" for n p dflt
    by (simp_all add: drm_demo_def property_get_def)
  have conn: "dc_encoders conn_demo = [5]" "dc_modes conn_demo = [mode_720]" by (simp_all add: conn_demo_def)
  have two: "replicate 2 plane0 = [plane0, plane0]" by (simp add: numeral_2_eq_2)
  have new: "mDrmFd kms_new = 4" "mConnectorID kms_new = 7" "mFirstConfigId (k_conf kms_new) = 0"
    "mKmsPlanes kms_new = [plane0, plane0]"
    by (simp_all add: kms_new_def setDrm_def KmsDisplay_init_def k_emit_def KMS_PLANE_NUM_def two)
  have "parseDisplayMode ''p'' = Some (1920, 1080, 60, 1)" by code_simp
  then obtain s where s: "getDisplayMode ''p'' [mode_720] (k_conf kms_new) = Some s"
    by (simp add: getDisplayMode_def Let_def)
  have m: "mode_ok mode_720" by (simp add: mode_ok_def wf_mode_def mode_720_def)
  have sm: "mDrmModes s = [mode_720]" "mMode s = mode_720" "mFirstConfigId s = 0"
    using getDisplayMode_current[OF s] getDisplayMode_frame[OF s] m new(3) by auto
  let ?k1 = "find_crtc 1 [40] (?k\<lparr>k_conf := s\<rparr>)"
  have k1: "mCrtcID ?k1 = 40" "mCrtcIndex ?k1 = 0" "mKmsPlanes ?k1 = [plane0, plane0]"
    by (simp_all add: find_crtc_def new)
  obtain k2 where k2: "getPrimaryPlane drm_demo (?k1\<lparr>mEncoderType := 2\<rparr>) = Some (0, k2)" "plane_id (mKmsPlanes k2 ! 0) = 30"
    "length (mKmsPlanes k2) = 2"
    using k1 by (simp add: getPrimaryPlane_def drm add_plane_def getPropertyValue_def)
  have pl: "plane_id (mKmsPlanes (getKmsProperty drm_demo k2) ! 0) = 30"
    using k2(2,3) by (cases "mKmsPlanes k2"; cases "mKmsPlaneNum k2") (auto simp: getKmsProperty_def getPropertyIds_def)
  have g: "getGUIResolution ''p'' a b u = Some (False, (a, b), u)" for a b u
    by (simp add: getGUIResolution_def starts_with_def shrink_def)
  obtain configId ui s' where ch: "choose_config ''p'' (dc_mmWidth conn_demo) (dc_mmHeight conn_demo)
      (plane_format False [DRM_FORMAT_ABGR8888] FORMAT_RGBX8888) (mCustomizeUI kms_new) s = Some (configId, ui, s')"
    by (simp add: choose_config_def g Let_def)
  have "0 < vrefresh (mMode s)" "0 < length (mDrmModes s)" "mMode s = mDrmModes s ! 0"
    by (simp_all add: sm mode_720_def)
  from choose_config_correct[OF ch plane_format_valid _ this(2,3,1)] sm have "0 \<le> configId" by simp
  have v: "prepareTargetsLocked lib_noblit k \<noteq> None" for k
    by (simp add: prepareTargetsLocked_def isValid_def Let_def case_prod_beta lib_noblit_def)
  obtain ed where ed: "Edid_new (ke_edid_blob drm_demo) = Some ed"
    by (simp add: drm Edid_new_def getEdidDataFromDrm_def)
  have "\<exists>k'. open_connector lib_noblit False drm_demo [40] conn_demo ?k = Some (0, k')"
    by (rule open_connector_progress[where e = 5 and es = "[]" and possible = 1 and etype = 2 and s = s and r = 0 and ed = ed
          and ui = ui and s' = s' and ?k2.0 = k2 and configId = configId
          and plane = "\<lparr>dp_formats = [DRM_FORMAT_ABGR8888], dp_possible_crtcs = 1\<rparr>"])
       (use conn drm s k1 k2(1) pl ch \<open>0 \<le> configId\<close> v ed in simp_all)
  then show ?thesis by (simp add: openKms_def new drm Let_def)
qed

theorem openKms_active_witness:
  "\<exists>k' c. openKms lib_noblit False drm_demo kms_new = Some (0, k') \<and>
     map_of (mConfigs (k_conf k')) (mActiveConfig (k_conf k')) = Some c \<and> mXres c = 1280 \<and> mYres c = 720"
proof -
  obtain k' where k': "openKms lib_noblit False drm_demo kms_new = Some (0, k')" using kms_new_open by blast
  have "modes_ok drm_demo kms_new"
    by (auto simp: modes_ok_def drm_demo_def conn_demo_def mode_ok_def wf_mode_def mode_720_def split: if_split_asm)
  moreover have "0 \<le> mFirstConfigId (k_conf kms_new)" "mConnectorID kms_new = 7"
    by (simp_all add: kms_new_def setDrm_def KmsDisplay_init_def k_emit_def)
  moreover have "ke_setClientCap drm_demo n = 0" "ke_prop drm_demo s = None" "ke_connector drm_demo 7 = Some conn_demo"
      "dc_modes conn_demo = [mode_720]" for n s
    by (simp_all add: drm_demo_def conn_demo_def)
  ultimately show ?thesis using openKms_active[OF k'] k' by (auto simp: mode_720_def)
qed

text \<open>A display with one configuration, 0; it is closed and opened.\<close>

definition kms_used :: kms where
  "kms_used = kms_new\<lparr>k_conf := (k_conf kms_new)\<lparr>mConfigs := [(0, config0)], mActiveConfig := 0\<rparr>\<rparr>"

lemma kms_used_close: "\<exists>k1. closeKms lib_noblit kms_used = Some (0, k1) \<and> mDrmFd k1 = 4 \<and> mConnectorID k1 = 7"
proof -
  have "release_targets e (replicate n (None, None)) w = Some w" for e n w
    by (induction n) (simp_all add: release_target_def)
  then show ?thesis
    by (simp add: closeKms_def kms_used_def kms_new_def setDrm_def KmsDisplay_init_def k_emit_def Let_def
        releaseTargetsLocked_def with_mem_def)
qed

theorem reopen_ids_fresh_witness:
  "\<exists>k1 k2. closeKms lib_noblit kms_used = Some (0, k1) \<and>
     openKms lib_noblit False (drm_demo\<lparr>ke_resources := None\<rparr>) k1 = Some (- ENODEV, k2) \<and>
     0 \<notin> dom (map_of (mConfigs (k_conf k2)))"
proof -
  obtain k1 where k1: "closeKms lib_noblit kms_used = Some (0, k1)" "mDrmFd k1 = 4" "mConnectorID k1 = 7"
    using kms_used_close by blast
  have o: "openKms lib_noblit False (drm_demo\<lparr>ke_resources := None\<rparr>) k1 = Some (- ENODEV, k1)"
    using k1 by (simp add: openKms_def)
  have "ids_from (mFirstConfigId (k_conf kms_used)) (mConfigs (k_conf kms_used))"
    "0 \<in> dom (map_of (mConfigs (k_conf kms_used)))"
    by (simp_all add: kms_used_def kms_new_def setDrm_def KmsDisplay_init_def k_emit_def ids_from_def)
  with reopen_ids_fresh[OF k1(1) o] o k1(1) show ?thesis by blast
qed

theorem kms_reach_ok_witness: "\<exists>k'. openKms lib_noblit False drm_demo kms_new = Some (0, k') \<and> conf_ok (k_conf k')"
proof -
  obtain k' where k': "openKms lib_noblit False drm_demo kms_new = Some (0, k')" using kms_new_open by blast
  have "modes_ok drm_demo kms_new"
    by (auto simp: modes_ok_def drm_demo_def conn_demo_def mode_ok_def wf_mode_def mode_720_def split: if_split_asm)
  moreover have "kms_reach lib_noblit kms_new"
    unfolding kms_new_def by (rule reach_step[OF reach_init step_setDrm])
  moreover have "ke_setClientCap drm_demo n = 0" for n by (simp add: drm_demo_def)
  ultimately have "kms_reach lib_noblit k'" using reach_step step_open k' by blast
  then show ?thesis using kms_reach_ok k' by blast
qed

end
