(* ===== verification/Kms_Vsync.thy ===== *)
theory Kms_Vsync
  imports Kms_Frame Kms_Open
begin

text \<open>
  The two threads of a \<open>KmsDisplay\<close> (\<open>display/display/KmsDisplay.cpp\<close>): \<open>VSyncThread\<close>, which tells
  the listener when a frame begins, from the kernel or from a clock of its own, and \<open>ConfigThread\<close>,
  which changes the mode at the time that was asked for.  Times are nanoseconds in an \<open>int64_t\<close>; a
  result that leaves its range, and a division by zero, is undefined (\<open>None\<close>).
\<close>

section \<open>State\<close>

record vsync_thread =
  vs_enabled :: bool
  mSendVsync :: bool
  mFakeVSync :: bool
  mNextFakeVSync :: int
  mRefreshPeriod :: int

text \<open>
  Where \<open>ConfigThread::threadLoop\<close> stands: it reads and writes its members without the lock, so that
  every access is a step of its own.
\<close>

datatype cfg_pc =
    CfgWait
  | CfgRead
  | CfgTime display_config
  | CfgSleep display_config int
  | CfgMode display_config
  | CfgActive display_config
  | CfgClear display_config
  | CfgMissed display_config
  | CfgRefresh display_config
  | CfgStop

record config_thread =
  mNewChange :: bool
  mNewConfig :: int
  mDesiredTime :: int
  mRefreshTime :: int
  ct_pc :: cfg_pc

datatype listener_event =
    OnVSync int int int
  | OnTimingChanged int int bool int

text \<open>
  \<open>y_vsync\<close> are the threads that \<open>enableVsync\<close> started: the last one is \<open>mVsyncThread\<close>, and the
  threads before it, which it replaced, run on.
\<close>

record kms_sync =
  y_kms :: kms
  y_vsync :: "vsync_thread list"
  y_config :: config_thread
  lasttime :: u64
  y_events :: "listener_event list"

definition VSyncThread_init :: vsync_thread where
  "VSyncThread_init = \<lparr>vs_enabled = False, mSendVsync = True, mFakeVSync = False, mNextFakeVSync = 0, mRefreshPeriod = 0\<rparr>"

definition ConfigThread_init :: config_thread where
  "ConfigThread_init = \<lparr>mNewChange = False, mNewConfig = -1, mDesiredTime = 0, mRefreshTime = 0, ct_pc = CfgWait\<rparr>"

definition sync_init :: "kms \<Rightarrow> kms_sync" where
  "sync_init k = \<lparr>y_kms = k, y_vsync = [], y_config = ConfigThread_init, lasttime = 0, y_events = []\<rparr>"

definition on_last :: "('a \<Rightarrow> 'a) \<Rightarrow> 'a list \<Rightarrow> 'a list" where
  "on_last g xs = (if xs = [] then [] else butlast xs @ [g (last xs)])"

section \<open>VSyncThread\<close>

definition enableVsync :: "kms_sync \<Rightarrow> kms_sync" where
  "enableVsync y = (if mDrmFd (y_kms y) < 0 then y else y\<lparr>y_vsync := y_vsync y @ [VSyncThread_init]\<rparr>)"

definition setVsyncEnabled :: "bool \<Rightarrow> kms_sync \<Rightarrow> kms_sync" where
  "setVsyncEnabled b y = y\<lparr>y_vsync := on_last (\<lambda>t. t\<lparr>vs_enabled := b, mSendVsync := b\<rparr>) (y_vsync y)\<rparr>"

definition setFakeVSync :: "bool \<Rightarrow> kms_sync \<Rightarrow> kms_sync" where
  "setFakeVSync b y = y\<lparr>y_vsync := on_last (\<lambda>t. t\<lparr>mFakeVSync := b\<rparr>) (y_vsync y)\<rparr>"

definition nsecs :: "int \<Rightarrow> int option" where
  "nsecs x = (if - (2 ^ 63) \<le> x \<and> x < 2 ^ 63 then Some x else None)"

text \<open>
  What a round of the thread meets: the clock, the results of \<open>clock_nanosleep\<close> with \<open>errno\<close>, the calls
  of the composer and what the other threads do to the display while the thread sleeps (or waits for
  the kernel, with success), and the answer of \<open>drmWaitVBlank\<close>.
\<close>

datatype vsync_call = CallEnabled bool | CallFake bool

fun do_call :: "vsync_call \<Rightarrow> kms_sync \<Rightarrow> kms_sync" where
  "do_call (CallEnabled b) y = setVsyncEnabled b y"
| "do_call (CallFake b) y = setFakeVSync b y"

record vsync_env =
  ve_now :: int
  ve_sleep :: "nat \<Rightarrow> int \<times> int"
  ve_calls :: "vsync_call list"
  ve_meanwhile :: "kms \<Rightarrow> kms"
  ve_vblank :: "int \<times> int \<times> int"

definition during :: "vsync_env \<Rightarrow> kms_sync \<Rightarrow> kms_sync" where
  "during e y = (case fold do_call (ve_calls e) y of y' \<Rightarrow> y'\<lparr>y_kms := ve_meanwhile e (y_kms y')\<rparr>)"

definition EINTR :: int where "EINTR = 4"

partial_function (option) nanosleep :: "(nat \<Rightarrow> int \<times> int) \<Rightarrow> nat \<Rightarrow> int option" where
  "nanosleep answer i =
     (if fst (answer i) < 0 \<and> snd (answer i) = EINTR then nanosleep answer (Suc i) else Some (fst (answer i)))"

text \<open>\<open>handleVsyncEvent\<close>.\<close>

definition handleVsyncEvent :: "int \<Rightarrow> kms_sync \<Rightarrow> kms_sync" where
  "handleVsyncEvent timestamp y =
     (if \<not> mListener (k_disp (y_kms y)) then y
      else
        (let k1 = (y_kms y)\<lparr>k_disp := triggerRefresh (k_disp (y_kms y))\<rparr>;
             (c, k2) = active_config k1
         in y\<lparr>y_kms := k2, y_events := y_events y @ [OnVSync DISPLAY_PRIMARY timestamp (mVsyncPeriod c)]\<rparr>))"

text \<open>When the next frame of the clock begins, and the one after it.\<close>

definition next_fake :: "int \<Rightarrow> int \<Rightarrow> int \<Rightarrow> (int \<times> int) option" where
  "next_fake now next_vsync period =
     do { sleep \<leftarrow> nsecs (next_vsync - now);
          v \<leftarrow> (if sleep < 0
               then do { missed \<leftarrow> nsecs (now - next_vsync);
                         if period = 0 then None else nsecs (now + (period - missed smod period)) }
               else Some next_vsync);
          n \<leftarrow> nsecs (v + period);
          Some (v, n) }"

definition fake_period :: "kms \<Rightarrow> int \<times> kms" where
  "fake_period k =
     (if mActiveConfig (k_conf k) \<ge> 0 then (case active_config k of (c, k') \<Rightarrow> (mVsyncPeriod c, k'))
      else (1000000000 div DEFAULT_REFRESH_RATE, k))"

definition set_thread :: "nat \<Rightarrow> vsync_thread \<Rightarrow> kms_sync \<Rightarrow> kms_sync" where
  "set_thread i t y = y\<lparr>y_vsync := (y_vsync y)[i := t]\<rparr>"

text \<open>\<open>mSendVsync\<close> is read when the sleep is over.\<close>

definition performFakeVSync :: "vsync_env \<Rightarrow> nat \<Rightarrow> kms_sync \<Rightarrow> kms_sync option" where
  "performFakeVSync e i y =
     (let (period, k) = fake_period (y_kms y); t = y_vsync y ! i
      in do { (v, n) \<leftarrow> next_fake (ve_now e) (mNextFakeVSync t) period;
              err \<leftarrow> nanosleep (ve_sleep e) 0;
              let y1 = during e ((set_thread i (t\<lparr>mRefreshPeriod := period, mNextFakeVSync := n\<rparr>) y)\<lparr>y_kms := k\<rparr>);
              Some (if err = 0 \<and> mSendVsync (y_vsync y1 ! i) then handleVsyncEvent v y1 else y1) })"

definition kOneSecondNs :: u64 where "kOneSecondNs = 1000000000"

definition performVSync :: "vsync_env \<Rightarrow> nat \<Rightarrow> kms_sync \<Rightarrow> kms_sync option" where
  "performVSync e i y =
     (let (ret, sec, usec) = ve_vblank e
      in if ret = - EINTR then Some y
         else if ret \<noteq> 0 then performFakeVSync e i y
         else
           (let timestamp = word_of_int sec * kOneSecondNs + word_of_int usec * 1000
            in if timestamp = 0 then Some y
               else
                 (let y1 = (during e y)\<lparr>lasttime := timestamp\<rparr>
                  in Some (if mSendVsync (y_vsync y1 ! i) then handleVsyncEvent (sint timestamp) y1 else y1))))"

text \<open>A round of \<open>VSyncThread::threadLoop\<close>; a thread that is not enabled waits.\<close>

definition vsync_loop :: "vsync_env \<Rightarrow> nat \<Rightarrow> kms_sync \<Rightarrow> kms_sync option" where
  "vsync_loop e i y =
     (let t = y_vsync y ! i; force = forceVync (k_disp (y_kms y));
          y1 = (if force then set_thread i (t\<lparr>mSendVsync := True\<rparr>) y else y)
      in if \<not> vs_enabled t \<and> \<not> force then Some y
         else if mFakeVSync t \<or> mModeset (k_conf (y_kms y)) then performFakeVSync e i y1
         else performVSync e i y1)"

section \<open>ConfigThread\<close>

definition on_conf :: "(kms_config \<Rightarrow> kms_config) \<Rightarrow> kms_sync \<Rightarrow> kms_sync" where
  "on_conf g y = y\<lparr>y_kms := (y_kms y)\<lparr>k_conf := g (k_conf (y_kms y))\<rparr>\<rparr>"

text \<open>\<open>setActiveConfig\<close>, with the frame buffers that it allocates anew.\<close>

definition set_active :: "g2d_lib \<Rightarrow> int \<Rightarrow> kms \<Rightarrow> (int \<times> kms) option" where
  "set_active lib configId k =
     (case setActiveConfigLocked configId (k_conf k) of
        ((ret, realloc), c) \<Rightarrow>
          (let k1 = k\<lparr>k_conf := c\<rparr>
           in if realloc then do { k2 \<leftarrow> releaseTargetsLocked lib k1; k3 \<leftarrow> prepareTargetsLocked lib k2; Some (ret, k3) }
              else Some (ret, k1)))"

definition setDisplayConfig :: "int \<Rightarrow> int \<Rightarrow> int \<Rightarrow> config_thread \<Rightarrow> config_thread" where
  "setDisplayConfig configId desired refresh t =
     t\<lparr>mNewChange := True, mDesiredTime := desired, mRefreshTime := refresh, mNewConfig := configId\<rparr>"

definition sync_changeDisplayConfig ::
    "g2d_lib \<Rightarrow> int \<Rightarrow> int \<Rightarrow> bool \<Rightarrow> kms_sync \<Rightarrow> ((int \<times> (int \<times> bool \<times> int) option) \<times> kms_sync) option" where
  "sync_changeDisplayConfig lib config desired seamless y =
     (if seamless then Some ((-1, None), y)
      else
        (let conf = k_conf (y_kms y);
             m1 = snd (index_op config (mConfigs conf));
             (c, m2) = index_op (mActiveConfig conf) m1;
             applied = desired + 2 * mVsyncPeriod c; refresh = applied - mVsyncPeriod c;
             y1 = on_conf (\<lambda>s. s\<lparr>mConfigs := m2\<rparr>) y
         in do { y2 \<leftarrow> (if mConfigThread (y_kms y1)
                        then Some (y1\<lparr>y_config := setDisplayConfig config desired refresh (y_config y1)\<rparr>)
                        else map_option (\<lambda>(_, k). y1\<lparr>y_kms := k\<rparr>) (set_active lib config (y_kms y1)));
                 Some ((0, Some (applied, True, refresh)), on_conf (\<lambda>s. s\<lparr>mRefreshRequired := True\<rparr>) y2) }))"

definition handleRefreshFrameMissed :: "int \<Rightarrow> bool \<Rightarrow> int \<Rightarrow> kms_sync \<Rightarrow> kms_sync" where
  "handleRefreshFrameMissed applied refresh refreshTime y =
     (if \<not> mListener (k_disp (y_kms y)) then y
      else y\<lparr>y_events := y_events y @ [OnTimingChanged (mIndex (k_disp (y_kms y))) applied refresh refreshTime]\<rparr>)"

definition goto :: "cfg_pc \<Rightarrow> kms_sync \<Rightarrow> kms_sync" where
  "goto pc y = y\<lparr>y_config := (y_config y)\<lparr>ct_pc := pc\<rparr>\<rparr>"

text \<open>
  One step of \<open>ConfigThread::threadLoop\<close> at the time \<open>now\<close>; \<open>awake\<close> says that a signal interrupted the
  sleep, or that \<open>notifyNewFrame\<close> came.
\<close>

definition config_step :: "g2d_lib \<Rightarrow> int \<Rightarrow> bool \<Rightarrow> kms_sync \<Rightarrow> kms_sync option" where
  "config_step lib now awake y =
     (let t = y_config y
      in case ct_pc t of
           CfgWait \<Rightarrow> Some (if mNewChange t then goto CfgRead y else y)
         | CfgRead \<Rightarrow>
             (let (c, m) = index_op (mNewConfig t) (mConfigs (k_conf (y_kms y)))
              in Some (goto (CfgTime c) (on_conf (\<lambda>s. s\<lparr>mConfigs := m\<rparr>) y)))
         | CfgTime c \<Rightarrow> Some (goto (if now < mDesiredTime t then CfgSleep c (mDesiredTime t) else CfgMode c) y)
         | CfgSleep c until \<Rightarrow> Some (if now < until \<and> \<not> awake then y else goto (CfgMode c) y)
         | CfgMode c \<Rightarrow> Some (goto (CfgActive c) (on_conf (\<lambda>s. snd (setNewDrmMode (modeIdx c) s)) y))
         | CfgActive c \<Rightarrow>
             map_option (\<lambda>(_, k). goto (CfgClear c) (y\<lparr>y_kms := k\<rparr>)) (set_active lib (mNewConfig t) (y_kms y))
         | CfgClear c \<Rightarrow> Some (goto (CfgMissed c) (y\<lparr>y_config := t\<lparr>mNewChange := False\<rparr>\<rparr>))
         | CfgMissed c \<Rightarrow>
             Some (if now \<ge> mRefreshTime t
                   then goto CfgStop (handleRefreshFrameMissed (now + mVsyncPeriod c) True now y)
                   else goto (CfgRefresh c) y)
         | CfgRefresh c \<Rightarrow>
             Some (if awake then goto CfgStop y else handleRefreshFrameMissed (now + mVsyncPeriod c) True now y)
         | CfgStop \<Rightarrow> Some (goto CfgWait (on_conf (\<lambda>s. s\<lparr>mRefreshRequired := False\<rparr>) y)))"

fun config_steps :: "g2d_lib \<Rightarrow> (int \<times> bool) list \<Rightarrow> kms_sync \<Rightarrow> kms_sync option" where
  "config_steps lib [] y = Some y"
| "config_steps lib ((now, awake) # es) y = do { y' \<leftarrow> config_step lib now awake y; config_steps lib es y' }"


section \<open>The clock of VSyncThread\<close>

lemma nsecs_eq: "nsecs x = Some z \<longleftrightarrow> z = x \<and> - (2 ^ 63) \<le> x \<and> x < 2 ^ 63"
  by (auto simp: nsecs_def)

lemma next_fake_spec:
  assumes "next_fake now nx p = Some (v, n)" "0 < p"
  shows "n = v + p" "nx \<le> v" "now \<le> v" "nx \<le> now + p \<Longrightarrow> v \<le> now + p" "p dvd nx \<Longrightarrow> p dvd v"
proof -
  have v: "v = (if nx < now then now + (p - (now - nx) mod p) else nx)" and n: "n = v + p"
    using assms
    by (auto simp: next_fake_def nsecs_eq Let_def signed_modulo_int_def bind_eq_Some_conv split: if_split_asm)
  have m: "0 \<le> (now - nx) mod p" "(now - nx) mod p < p" using assms(2) by simp_all
  have e: "now + (p - (now - nx) mod p) = nx + p * ((now - nx) div p + 1)"
    by (simp add: algebra_simps minus_mod_eq_mult_div [symmetric])
  show "n = v + p" by (fact n)
  show "nx \<le> v" "now \<le> v" "nx \<le> now + p \<Longrightarrow> v \<le> now + p" using m v by auto
  show "p dvd nx \<Longrightarrow> p dvd v" using v e by simp
qed


text \<open>
  The thread of the clock, among the calls of the composer and whatever the rest of the display
  does.  The kernel reports no frames here, and \<open>Ps\<close> are the periods of the configurations that are
  active in the course of time.
\<close>

inductive vsync_step :: "int set \<Rightarrow> kms_sync \<Rightarrow> kms_sync \<Rightarrow> bool" for Ps where
  vsync_on: "vsync_step Ps y (setVsyncEnabled b y)"
| vsync_clock: "vsync_step Ps y (setFakeVSync b y)"
| vsync_display: "fst (fake_period k) \<in> Ps \<Longrightarrow> vsync_step Ps y (y\<lparr>y_kms := k\<rparr>)"
| vsync_round: "vsync_loop e i y = Some y' \<Longrightarrow> i < length (y_vsync y) \<Longrightarrow> fst (ve_vblank e) \<noteq> 0 \<Longrightarrow>
    (\<forall>k. fst (fake_period (ve_meanwhile e k)) \<in> Ps) \<Longrightarrow> vsync_step Ps y y'"

inductive vsync_reach :: "int set \<Rightarrow> kms_sync \<Rightarrow> bool" for Ps where
  vsync_start: "fst (fake_period k) \<in> Ps \<Longrightarrow> 0 \<le> mDrmFd k \<Longrightarrow> vsync_reach Ps (enableVsync (sync_init k))"
| vsync_next: "vsync_reach Ps y \<Longrightarrow> vsync_step Ps y y' \<Longrightarrow> vsync_reach Ps y'"

fun vsync_time :: "listener_event \<Rightarrow> int option" where
  "vsync_time (OnVSync d t p) = Some t"
| "vsync_time (OnTimingChanged i a r t) = None"

definition vsync_times :: "kms_sync \<Rightarrow> int list" where
  "vsync_times y = List.map_filter vsync_time (y_events y)"

definition apart :: "int set \<Rightarrow> int \<Rightarrow> int \<Rightarrow> bool" where
  "apart Ps a b \<longleftrightarrow> (\<exists>p\<in>Ps. a + p \<le> b)"

definition clock_inv :: "int set \<Rightarrow> kms_sync \<Rightarrow> bool" where
  "clock_inv Ps y \<longleftrightarrow> fst (fake_period (y_kms y)) \<in> Ps \<and>
     (\<exists>t. y_vsync y = [t] \<and> successively (apart Ps) (vsync_times y @ [mNextFakeVSync t]) \<and>
          (\<forall>P. Ps = {P} \<longrightarrow> (\<forall>x\<in>set (vsync_times y). P dvd x) \<and> P dvd mNextFakeVSync t))"

lemma fake_period_same:
  assumes "active_config k = (c, k')"
  shows "fst (fake_period k') = fst (fake_period k)"
  using assms by (auto simp: active_config_def fake_period_def index_op_def emplace_def Let_def split: if_splits option.splits)

lemma fake_period_kept: "fst (fake_period (snd (fake_period k))) = fst (fake_period k)"
proof (cases "mActiveConfig (k_conf k) \<ge> 0")
  case True
  obtain c k' where a: "active_config k = (c, k')" by (cases "active_config k")
  then show ?thesis using True fake_period_same[OF a] by (simp add: fake_period_def[of k])
qed (simp add: fake_period_def)

lemma handleVsyncEvent_spec:
  shows "y_vsync (handleVsyncEvent v y) = y_vsync y"
    "fst (fake_period (y_kms (handleVsyncEvent v y))) = fst (fake_period (y_kms y))"
    "vsync_times (handleVsyncEvent v y) = vsync_times y @ (if mListener (k_disp (y_kms y)) then [v] else [])"
proof -
  let ?k = "(y_kms y)\<lparr>k_disp := triggerRefresh (k_disp (y_kms y))\<rparr>"
  obtain c k' where a: "active_config ?k = (c, k')" by (cases "active_config ?k")
  have "fst (fake_period ?k) = fst (fake_period (y_kms y))"
    by (simp add: fake_period_def active_config_def split: prod.split)
  then show "y_vsync (handleVsyncEvent v y) = y_vsync y"
    "fst (fake_period (y_kms (handleVsyncEvent v y))) = fst (fake_period (y_kms y))"
    "vsync_times (handleVsyncEvent v y) = vsync_times y @ (if mListener (k_disp (y_kms y)) then [v] else [])"
    using fake_period_same[OF a] a
    by (simp_all add: handleVsyncEvent_def vsync_times_def map_filter_simps map_filter_def)
qed


lemma apart_later: "apart Ps a b \<Longrightarrow> b \<le> c \<Longrightarrow> apart Ps a c"
  unfolding apart_def by (meson order_trans)

lemma vsync_times_upd [simp]:
  "vsync_times (y\<lparr>y_vsync := ts\<rparr>) = vsync_times y" "vsync_times (y\<lparr>y_kms := k\<rparr>) = vsync_times y"
  by (simp_all add: vsync_times_def)

lemma apart_snoc:
  assumes "successively (apart Ps) (ts @ [a])" "a \<le> b"
  shows "successively (apart Ps) (ts @ [b])"
  using assms apart_later by (auto simp: successively_append_iff)

text \<open>The calls of the composer leave the clock of a thread as it is.\<close>

lemma on_last_nth: "i < length xs \<Longrightarrow> on_last g xs ! i = (if Suc i = length xs then g (xs ! i) else xs ! i)"
  by (cases xs rule: rev_cases) (auto simp: on_last_def nth_append)

lemma on_last_length [simp]: "length (on_last g xs) = length xs"
  by (auto simp: on_last_def)

lemma vsync_call_keeps:
  "y_kms (do_call c y) = y_kms y" "y_events (do_call c y) = y_events y"
  "length (y_vsync (do_call c y)) = length (y_vsync y)"
  "i < length (y_vsync y) \<Longrightarrow> mNextFakeVSync (y_vsync (do_call c y) ! i) = mNextFakeVSync (y_vsync y ! i)"
  "i < length (y_vsync y) \<Longrightarrow> c \<noteq> CallEnabled False \<Longrightarrow> mSendVsync (y_vsync y ! i) \<Longrightarrow>
     mSendVsync (y_vsync (do_call c y) ! i)"
  by (cases c; auto simp: setVsyncEnabled_def setFakeVSync_def on_last_nth)+

lemma vsync_calls_keep:
  "y_kms (fold do_call cs y) = y_kms y \<and> y_events (fold do_call cs y) = y_events y \<and>
   length (y_vsync (fold do_call cs y)) = length (y_vsync y) \<and>
   (\<forall>i<length (y_vsync y). mNextFakeVSync (y_vsync (fold do_call cs y) ! i) = mNextFakeVSync (y_vsync y ! i) \<and>
     (CallEnabled False \<notin> set cs \<longrightarrow> mSendVsync (y_vsync y ! i) \<longrightarrow> mSendVsync (y_vsync (fold do_call cs y) ! i)))"
proof (induction cs arbitrary: y)
  case (Cons c cs)
  show ?case using Cons.IH[of "do_call c y"] vsync_call_keeps[where c = c and y = y] by auto
qed simp

lemma during_keeps:
  "y_kms (during e y) = ve_meanwhile e (y_kms y)" "y_events (during e y) = y_events y"
  "length (y_vsync (during e y)) = length (y_vsync y)"
  "i < length (y_vsync y) \<Longrightarrow> mNextFakeVSync (y_vsync (during e y) ! i) = mNextFakeVSync (y_vsync y ! i)"
  "i < length (y_vsync y) \<Longrightarrow> CallEnabled False \<notin> set (ve_calls e) \<Longrightarrow> mSendVsync (y_vsync y ! i) \<Longrightarrow>
     mSendVsync (y_vsync (during e y) ! i)"
  using vsync_calls_keep[of "ve_calls e" y] by (simp_all add: during_def)

text \<open>What a round of the clock does to the thread and to the frames that were announced.\<close>

lemma performFakeVSync_cases:
  assumes "performFakeVSync e i y = Some y'" "i < length (y_vsync y)" "0 < fst (fake_period (y_kms y))"
  obtains v send where "next_fake (ve_now e) (mNextFakeVSync (y_vsync y ! i)) (fst (fake_period (y_kms y))) =
        Some (v, v + fst (fake_period (y_kms y)))"
      "mNextFakeVSync (y_vsync y' ! i) = v + fst (fake_period (y_kms y))" "length (y_vsync y') = length (y_vsync y)"
      "fst (fake_period (y_kms y')) = fst (fake_period (ve_meanwhile e (snd (fake_period (y_kms y)))))"
      "vsync_times y' = vsync_times y @
         (if nanosleep (ve_sleep e) 0 = Some 0 \<and> send \<and>
             mListener (k_disp (ve_meanwhile e (snd (fake_period (y_kms y))))) then [v] else [])"
      "mSendVsync (y_vsync y ! i) \<Longrightarrow> CallEnabled False \<notin> set (ve_calls e) \<Longrightarrow> send"
proof -
  obtain p k where pk: "fake_period (y_kms y) = (p, k)" by (cases "fake_period (y_kms y)")
  let ?t = "y_vsync y ! i"
  from assms(1) pk obtain v n err where vn: "next_fake (ve_now e) (mNextFakeVSync ?t) p = Some (v, n)"
    and err: "nanosleep (ve_sleep e) 0 = Some err"
    and y': "y' = (let y1 = during e ((set_thread i (?t\<lparr>mRefreshPeriod := p, mNextFakeVSync := n\<rparr>) y)\<lparr>y_kms := k\<rparr>)
                   in if err = 0 \<and> mSendVsync (y_vsync y1 ! i) then handleVsyncEvent v y1 else y1)"
    by (auto simp: performFakeVSync_def Let_def bind_eq_Some_conv)
  have n: "n = v + p" using next_fake_spec(1)[OF vn] assms(3) pk by simp
  let ?y0 = "(set_thread i (?t\<lparr>mRefreshPeriod := p, mNextFakeVSync := n\<rparr>) y)\<lparr>y_kms := k\<rparr>"
  have l: "i < length (y_vsync ?y0)" "y_vsync ?y0 ! i = ?t\<lparr>mRefreshPeriod := p, mNextFakeVSync := n\<rparr>"
    "length (y_vsync ?y0) = length (y_vsync y)" using assms(2) by (simp_all add: set_thread_def)
  have ts: "vsync_times (during e ?y0) = vsync_times y"
    by (simp add: vsync_times_def during_keeps(2)) (simp add: set_thread_def)
  show thesis
    by (rule that[of v "mSendVsync (y_vsync (during e ?y0) ! i)"])
       (use vn n pk err l ts during_keeps[where e = e and y = ?y0] in \<open>simp_all add: y' Let_def handleVsyncEvent_spec\<close>)
qed

lemma clock_inv_fake:
  assumes "clock_inv Ps y" "\<forall>p\<in>Ps. 0 < p" "performFakeVSync e 0 y = Some y'"
    and "\<forall>k. fst (fake_period (ve_meanwhile e k)) \<in> Ps"
  shows "clock_inv Ps y'"
proof -
  obtain t where t: "y_vsync y = [t]" "successively (apart Ps) (vsync_times y @ [mNextFakeVSync t])"
    and P: "\<forall>P. Ps = {P} \<longrightarrow> (\<forall>x\<in>set (vsync_times y). P dvd x) \<and> P dvd mNextFakeVSync t"
    and p: "fst (fake_period (y_kms y)) \<in> Ps"
    using assms(1) by (auto simp: clock_inv_def)
  define p where "p = fst (fake_period (y_kms y))"
  have pos: "0 < p" "p \<in> Ps" using p assms(2) by (simp_all add: p_def)
  obtain v where v: "next_fake (ve_now e) (mNextFakeVSync t) p = Some (v, v + p)"
    "mNextFakeVSync (y_vsync y' ! 0) = v + p" "length (y_vsync y') = 1"
    and k: "fst (fake_period (y_kms y')) = fst (fake_period (ve_meanwhile e (snd (fake_period (y_kms y)))))"
    and ts: "\<exists>b. vsync_times y' = vsync_times y @ (if b then [v] else [])"
    by (rule performFakeVSync_cases[OF assms(3)]) (use t pos p_def in \<open>auto simp: p_def\<close>)
  obtain t' where t': "y_vsync y' = [t']" using v(3) by (auto simp: length_Suc_conv)
  note nf = next_fake_spec[OF v(1) pos(1)]
  have s1: "successively (apart Ps) (vsync_times y @ [v])" using apart_snoc[OF t(2) nf(2)] .
  have "apart Ps v (v + p)" using pos by (auto simp: apart_def)
  then have s2: "successively (apart Ps) ((vsync_times y @ [v]) @ [v + p])"
    using s1 by (simp add: successively_append_iff del: append_assoc)
  have s3: "successively (apart Ps) (vsync_times y @ [v + p])" using apart_snoc[OF s1, of "v + p"] pos by simp
  have "\<forall>P. Ps = {P} \<longrightarrow> P dvd v \<and> P dvd v + p" using P nf(5) pos by auto
  moreover obtain b where "vsync_times y' = vsync_times y @ (if b then [v] else [])" using ts by blast
  ultimately show ?thesis
    using P s2 s3 v(2) t' k assms(4) unfolding clock_inv_def by (cases b) simp_all
qed

lemma clock_inv_step:
  assumes "vsync_step Ps y y'" "clock_inv Ps y" "\<forall>p\<in>Ps. 0 < p"
  shows "clock_inv Ps y'"
  using assms(1)
proof cases
  case (vsync_round e i)
  have i: "i = 0" using vsync_round(2) assms(2) by (auto simp: clock_inv_def)
  obtain t where t: "y_vsync y = [t]" using assms(2) by (auto simp: clock_inv_def)
  let ?y1 = "if forceVync (k_disp (y_kms y)) then set_thread 0 (t\<lparr>mSendVsync := True\<rparr>) y else y"
  have y1: "clock_inv Ps ?y1" using assms(2) t by (auto simp: clock_inv_def set_thread_def vsync_times_def)
  obtain r sec usec where vb: "ve_vblank e = (r, sec, usec)" by (cases "ve_vblank e")
  have "y' = y \<or> y' = ?y1 \<or> performFakeVSync e 0 ?y1 = Some y'"
    using vsync_round(1,3) vb t i
    by (auto simp: vsync_loop_def Let_def performVSync_def split: if_split_asm)
  then show ?thesis using assms(2) y1 clock_inv_fake[OF y1 assms(3) _ vsync_round(4)] by blast
qed (use assms(2) in \<open>auto simp: clock_inv_def setVsyncEnabled_def setFakeVSync_def on_last_def vsync_times_def\<close>)

lemma clock_inv_reach:
  assumes "vsync_reach Ps y" "\<forall>p\<in>Ps. 0 < p"
  shows "clock_inv Ps y"
  using assms(1)
proof induction
  case (vsync_start k)
  then show ?case
    by (simp add: clock_inv_def enableVsync_def sync_init_def vsync_times_def VSyncThread_init_def map_filter_simps)
next
  case (vsync_next y y')
  then show ?case using clock_inv_step assms(2) by blast
qed


lemma successively_less:
  assumes "successively (apart Ps) ts" "\<forall>p\<in>Ps. (0::int) < p"
  shows "sorted_wrt (<) ts"
proof -
  have "successively (<) ts"
    using assms(1) by (rule successively_mono) (use assms(2) in \<open>force simp: apart_def\<close>)
  then show ?thesis by (simp add: successively_conv_sorted_wrt transp_on_def)
qed

text \<open>A round of an enabled thread announces exactly one frame, the next one of the clock.\<close>

lemma nsecs_Some: "- (2 ^ 63) \<le> x \<Longrightarrow> x < 2 ^ 63 \<Longrightarrow> nsecs x = Some x"
  by (simp add: nsecs_def)

lemma next_fake_total:
  assumes "0 < p" "0 \<le> now" "0 \<le> nx" "now + 2 * p < 2 ^ 63" "nx + p < 2 ^ 63"
  shows "\<exists>v. next_fake now nx p = Some (v, v + p)"
proof -
  have m: "0 \<le> (now - nx) mod p" "(now - nx) mod p < p" using assms(1) by simp_all
  have smod: "(now - nx) smod p = (now - nx) mod p" if "nx < now"
    using that assms(1) by (simp add: signed_modulo_int_def)
  show ?thesis
  proof (cases "nx < now")
    case True
    then show ?thesis using assms m smod by (simp add: next_fake_def nsecs_Some Let_def)
  next
    case False
    then show ?thesis using assms by (simp add: next_fake_def nsecs_Some Let_def)
  qed
qed

lemma nanosleep_done: "0 \<le> fst (answer i) \<Longrightarrow> nanosleep answer i = Some (fst (answer i))"
  by (subst nanosleep.simps) simp

lemma vsync_round_spec:
  assumes "i < length (y_vsync y)" "t = y_vsync y ! i" "vs_enabled t" "mSendVsync t"
    and "mFakeVSync t \<or> mModeset (k_conf (y_kms y)) \<or> fst (ve_vblank e) \<notin> {0, - EINTR}"
    and "p = fst (fake_period (y_kms y))" "0 < p" "0 \<le> ve_now e" "0 \<le> mNextFakeVSync t"
    and "ve_now e + 2 * p < 2 ^ 63" "mNextFakeVSync t + p < 2 ^ 63" "fst (ve_sleep e 0) = 0"
    and "\<And>k. mListener (k_disp (ve_meanwhile e k))" "CallEnabled False \<notin> set (ve_calls e)"
  shows "\<exists>y' v. vsync_loop e i y = Some y' \<and> vsync_times y' = vsync_times y @ [v] \<and>
    ve_now e \<le> v \<and> mNextFakeVSync t \<le> v \<and> (mNextFakeVSync t \<le> ve_now e + p \<longrightarrow> v \<le> ve_now e + p)"
proof -
  obtain r sec usec where vb: "ve_vblank e = (r, sec, usec)" by (cases "ve_vblank e")
  let ?y1 = "if forceVync (k_disp (y_kms y)) then set_thread i (t\<lparr>mSendVsync := True\<rparr>) y else y"
  let ?t1 = "y_vsync ?y1 ! i"
  have t1: "mNextFakeVSync ?t1 = mNextFakeVSync t" "mSendVsync ?t1" and k1: "y_kms ?y1 = y_kms y"
    and ts: "vsync_times ?y1 = vsync_times y" and l1: "i < length (y_vsync ?y1)"
    using assms(1,2,4) by (auto simp: set_thread_def)
  have loop: "vsync_loop e i y = performFakeVSync e i ?y1"
    using assms(2,3,5) vb by (auto simp: vsync_loop_def performVSync_def Let_def)
  obtain v where v: "next_fake (ve_now e) (mNextFakeVSync t) p = Some (v, v + p)"
    using next_fake_total assms(7-11) by blast
  have sl: "nanosleep (ve_sleep e) 0 = Some 0" using nanosleep_done[of "ve_sleep e" 0] assms(12) by simp
  obtain k where pk: "fake_period (y_kms y) = (p, k)" using assms(6) by (cases "fake_period (y_kms y)") simp
  obtain y' where y': "performFakeVSync e i ?y1 = Some y'"
    using v sl pk t1(1) k1 by (simp add: performFakeVSync_def Let_def)
  have "vsync_times y' = vsync_times y @ [v]"
    by (rule performFakeVSync_cases[OF y' l1]) (use v sl t1 k1 assms(6,7,13,14) ts in simp_all)
  with y' loop v next_fake_spec[OF v assms(7)] show ?thesis by auto
qed

section \<open>A change of the configuration\<close>

lemma releaseTargets_conf: "releaseTargetsLocked lib k = Some k' \<Longrightarrow> k_conf k' = k_conf k"
  by (auto simp: releaseTargetsLocked_def Let_def with_mem_def split: if_split_asm)

lemma set_active_conf:
  assumes "set_active lib c k = Some (r, k')" "map_of (mConfigs (k_conf k)) c \<noteq> None"
  shows "k_conf k' = snd (kms_setActiveConfig c (k_conf k))"
proof -
  obtain r' re conf where s: "setActiveConfigLocked c (k_conf k) = ((r', re), conf)"
    by (metis prod.collapse)
  have conf: "re \<Longrightarrow> map_of (mConfigs conf) (mActiveConfig conf) \<noteq> None"
    using s assms(2) by (auto simp: setActiveConfigLocked_def split: if_split_asm)
  show ?thesis
  proof (cases re)
    case True
    then obtain k2 where k2: "releaseTargetsLocked lib (k\<lparr>k_conf := conf\<rparr>) = Some k2" "prepareTargetsLocked lib k2 = Some k'"
      using assms(1) s by (auto simp: set_active_def bind_eq_Some_conv)
    then show ?thesis
      using prepareTargets_conf[OF k2(2)] releaseTargets_conf[OF k2(1)] conf True s by (simp add: kms_setActiveConfig_def)
  next
    case False
    then show ?thesis using assms(1) s by (auto simp: set_active_def kms_setActiveConfig_def)
  qed
qed

definition conf_of :: "kms_sync \<Rightarrow> kms_config" where "conf_of y = k_conf (y_kms y)"

text \<open>The configuration of a request, and what the display has when its mode was set.\<close>

definition asked :: "int \<Rightarrow> kms_config \<Rightarrow> display_config" where
  "asked c s = the (map_of (mConfigs s) c)"

definition moded :: "int \<Rightarrow> kms_config \<Rightarrow> kms_config" where
  "moded c s = snd (setNewDrmMode (modeIdx (asked c s)) s)"

definition applied :: "int \<Rightarrow> kms_config \<Rightarrow> kms_config" where
  "applied c s = snd (kms_setActiveConfig c (moded c s))"

text \<open>Where the thread stands after the request for \<open>c\<close>, when no other comes.\<close>

definition request_inv :: "int \<Rightarrow> int \<Rightarrow> kms_config \<Rightarrow> kms_sync \<Rightarrow> bool" where
  "request_inv c desired s y \<longleftrightarrow>
     (let t = y_config y
      in mNewConfig t = c \<and> mDesiredTime t = desired \<and>
         (case ct_pc t of
            CfgWait \<Rightarrow> conf_of y = (if mNewChange t then s else (applied c s)\<lparr>mRefreshRequired := False\<rparr>)
          | CfgRead \<Rightarrow> conf_of y = s
          | CfgTime d \<Rightarrow> conf_of y = s \<and> d = asked c s
          | CfgSleep d until \<Rightarrow> conf_of y = s \<and> d = asked c s \<and> until = desired
          | CfgMode d \<Rightarrow> conf_of y = s \<and> d = asked c s
          | CfgActive d \<Rightarrow> conf_of y = moded c s
          | CfgClear d \<Rightarrow> conf_of y = applied c s
          | CfgMissed d \<Rightarrow> conf_of y = applied c s \<and> \<not> mNewChange t
          | CfgRefresh d \<Rightarrow> conf_of y = applied c s \<and> \<not> mNewChange t
          | CfgStop \<Rightarrow> conf_of y = applied c s \<and> \<not> mNewChange t))"

lemma missed_same [simp]:
  "y_kms (handleRefreshFrameMissed a r rt y) = y_kms y" "y_config (handleRefreshFrameMissed a r rt y) = y_config y"
  by (simp_all add: handleRefreshFrameMissed_def)

lemma goto_same [simp]:
  "y_kms (goto pc y) = y_kms y" "y_config (goto pc y) = (y_config y)\<lparr>ct_pc := pc\<rparr>"
  by (simp_all add: goto_def)

lemma moded_configs [simp]: "mConfigs (moded c s) = mConfigs s"
  by (simp add: moded_def setNewDrmMode_def)

lemma request_inv_step:
  assumes "config_step lib now awake y = Some y'" "request_inv c desired s y" "map_of (mConfigs s) c \<noteq> None"
  shows "request_inv c desired s y'"
proof -
  note d = request_inv_def conf_of_def on_conf_def
  have ix: "index_op c (mConfigs s) = (asked c s, mConfigs s)"
    using assms(3) by (auto simp: index_op_def emplace_def asked_def)
  show ?thesis
  proof (cases "ct_pc (y_config y)")
    case CfgRead
    then show ?thesis using assms(1,2) ix by (auto simp: config_step_def d Let_def)
  next
    case (CfgActive e)
    then obtain r k where k: "set_active lib c (y_kms y) = Some (r, k)" "y' = goto (CfgClear e) (y\<lparr>y_kms := k\<rparr>)"
      using assms(1,2) by (auto simp: config_step_def d Let_def)
    have "k_conf (y_kms y) = moded c s" using assms(2) CfgActive by (simp add: d Let_def)
    then show ?thesis
      using set_active_conf[OF k(1)] k(2) CfgActive assms(2,3) by (simp add: d Let_def applied_def)
  next
    case (CfgMode e)
    then show ?thesis using assms(1,2) by (auto simp: config_step_def d Let_def moded_def)
  next
    case CfgWait
    then show ?thesis using assms(1,2) by (auto simp: config_step_def d Let_def split: if_split_asm)
  qed (use assms(1,2) in \<open>auto simp: config_step_def d Let_def split: if_split_asm\<close>)
qed

lemma request_inv_steps:
  "config_steps lib es y = Some y' \<Longrightarrow> request_inv c desired s y \<Longrightarrow> map_of (mConfigs s) c \<noteq> None \<Longrightarrow>
   request_inv c desired s y'"
  using request_inv_step by (induction lib es y rule: config_steps.induct) (auto simp: bind_eq_Some_conv)

text \<open>Before its time the request is not applied.\<close>

definition before_time :: "cfg_pc \<Rightarrow> bool" where
  "before_time pc \<longleftrightarrow> (case pc of CfgWait \<Rightarrow> True | CfgRead \<Rightarrow> True | CfgTime d \<Rightarrow> True | CfgSleep d u \<Rightarrow> True | _ \<Rightarrow> False)"

lemma early_step:
  assumes "config_step lib now False y = Some y'" "now < desired" "request_inv c desired s y"
    and "before_time (ct_pc (y_config y)) \<and> mNewChange (y_config y)"
  shows "before_time (ct_pc (y_config y')) \<and> mNewChange (y_config y')"
  using assms
  by (cases "ct_pc (y_config y)")
     (auto simp: config_step_def Let_def before_time_def request_inv_def on_conf_def split: prod.split_asm)

lemma early_steps:
  assumes "config_steps lib es y = Some y'" "\<forall>(now, awake)\<in>set es. now < desired \<and> \<not> awake" "request_inv c desired s y"
    and "before_time (ct_pc (y_config y)) \<and> mNewChange (y_config y)" "map_of (mConfigs s) c \<noteq> None"
  shows "before_time (ct_pc (y_config y')) \<and> mNewChange (y_config y')"
  using assms
proof (induction lib es y rule: config_steps.induct)
  case (2 lib now awake es y)
  then obtain y2 where y2: "config_step lib now False y = Some y2" "config_steps lib es y2 = Some y'" "now < desired"
    by (auto simp: bind_eq_Some_conv)
  then show ?case
    using "2.IH"[OF _ y2(2)] early_step[OF y2(1,3) "2.prems"(3,4)] request_inv_step[OF y2(1) "2.prems"(3,5)]
      "2.prems"(2,5) y2(1) by simp
qed simp

text \<open>The request.\<close>

lemma index_op_keys:
  "map_of m j \<noteq> None \<Longrightarrow> map_of (snd (index_op k m)) j \<noteq> None" "map_of (snd (index_op k m)) k \<noteq> None"
  by (auto simp: index_op_def emplace_def Let_def map_add_def split: option.split)

lemma index_op_entry:
  assumes "map_of m c = Some e"
  shows "map_of (snd (index_op j (snd (index_op c m)))) c = Some e"
    "length m \<le> length (snd (index_op j (snd (index_op c m))))"
  using assms by (auto simp: index_op_def emplace_def Let_def map_add_def split: option.split)

lemma request_cases:
  assumes "sync_changeDisplayConfig lib c desired False y = Some (r, y1)" "mConfigThread (y_kms y)"
  obtains m2 refresh where "m2 = snd (index_op (mActiveConfig (k_conf (y_kms y))) (snd (index_op c (mConfigs (k_conf (y_kms y))))))"
    "y1 = y\<lparr>y_config := setDisplayConfig c desired refresh (y_config y),
       y_kms := (y_kms y)\<lparr>k_conf := (k_conf (y_kms y))\<lparr>mConfigs := m2, mRefreshRequired := True\<rparr>\<rparr>\<rparr>"
  using assms by (auto simp: sync_changeDisplayConfig_def on_conf_def Let_def split: prod.split_asm)

lemma request_start:
  assumes "sync_changeDisplayConfig lib c desired False y = Some (r, y1)" "mConfigThread (y_kms y)"
    and "ct_pc (y_config y) = CfgWait"
  shows "request_inv c desired (conf_of y1) y1" "map_of (mConfigs (conf_of y1)) c \<noteq> None"
    "mNewChange (y_config y1)" "ct_pc (y_config y1) = CfgWait" "mNewConfig (y_config y1) = c"
    "mDesiredTime (y_config y1) = desired"
proof -
  obtain m2 refresh where m2: "m2 = snd (index_op (mActiveConfig (k_conf (y_kms y))) (snd (index_op c (mConfigs (k_conf (y_kms y))))))"
    and y1: "y1 = y\<lparr>y_config := setDisplayConfig c desired refresh (y_config y),
       y_kms := (y_kms y)\<lparr>k_conf := (k_conf (y_kms y))\<lparr>mConfigs := m2, mRefreshRequired := True\<rparr>\<rparr>\<rparr>"
    by (rule request_cases[OF assms(1,2)])
  have "map_of m2 c \<noteq> None" unfolding m2 by (rule index_op_keys(1)[OF index_op_keys(2)])
  then show "request_inv c desired (conf_of y1) y1" "map_of (mConfigs (conf_of y1)) c \<noteq> None"
    "mNewChange (y_config y1)" "ct_pc (y_config y1) = CfgWait" "mNewConfig (y_config y1) = c" "mDesiredTime (y_config y1) = desired"
    using assms(3) by (simp_all add: y1 conf_of_def request_inv_def setDisplayConfig_def)
qed

lemma applied_thread:
  assumes "map_of (mConfigs s) c \<noteq> None"
  shows "config_thread_apply c s = (applied c s)\<lparr>mRefreshRequired := False\<rparr>"
  using assms by (auto simp: config_thread_apply_def applied_def moded_def asked_def index_op_def emplace_def)

text \<open>Eight steps when the time has come bring the thread back to where it waits.\<close>

lemma steps_done:
  assumes "ct_pc (y_config y) = CfgWait" "mNewChange (y_config y)" "mNewConfig (y_config y) = c"
    and "map_of (mConfigs (conf_of y)) c \<noteq> None"
    and "set_active lib c ((y_kms y)\<lparr>k_conf := moded c (conf_of y)\<rparr>) \<noteq> None"
    and "length es = 8" "\<forall>(now, awake)\<in>set es. mDesiredTime (y_config y) \<le> now \<and> mRefreshTime (y_config y) \<le> now"
  shows "\<exists>y'. config_steps lib es y = Some y' \<and> ct_pc (y_config y') = CfgWait \<and> \<not> mNewChange (y_config y')"
proof -
  obtain n1 n2 n3 n4 n5 n6 n7 n8 b1 b2 b3 b4 b5 b6 b7 b8 where es:
    "es = [(n1, b1), (n2, b2), (n3, b3), (n4, b4), (n5, b5), (n6, b6), (n7, b7), (n8, b8)]"
    using assms(6) by (auto simp: length_Suc_conv numeral_eq_Suc)
  have n: "mDesiredTime (y_config y) \<le> n3" "mRefreshTime (y_config y) \<le> n7" using assms(7) es by auto
  have ix: "index_op c (mConfigs (k_conf (y_kms y))) = (asked c (conf_of y), mConfigs (k_conf (y_kms y)))"
    using assms(4) by (auto simp: index_op_def emplace_def asked_def conf_of_def)
  obtain r k where k: "set_active lib c ((y_kms y)\<lparr>k_conf := moded c (conf_of y)\<rparr>) = Some (r, k)"
    using assms(5) by auto
  have m: "snd (setNewDrmMode (modeIdx (asked c (conf_of y))) (k_conf (y_kms y))) = moded c (conf_of y)"
    by (simp add: moded_def conf_of_def)
  show ?thesis
    by (simp add: es config_step_def assms(1-3) Let_def ix on_conf_def m k n linorder_not_less)
qed

section \<open>Properties\<close>


text \<open>
  C17: the frames that the clock of \<open>VSyncThread\<close> announces never go back: over every sequence of
  rounds of the thread in which the kernel itself reports no frame, of calls of \<open>setVsyncEnabled\<close> and
  \<open>setFakeVSync\<close> (also while the thread sleeps), and of changes of the display, with positive periods,
  each announced time is later than the one before by at least a period that was active; as
  long as the period is the same, every announced time is a multiple of it.
\<close>

theorem fake_vsync_grid:
  assumes "vsync_reach Ps y" "\<forall>p\<in>Ps. 0 < p"
  shows "sorted_wrt (<) (vsync_times y) \<and> successively (\<lambda>a b. \<exists>p\<in>Ps. a + p \<le> b) (vsync_times y) \<and>
    (\<forall>P. Ps = {P} \<longrightarrow> (\<forall>v\<in>set (vsync_times y). P dvd v))"
proof -
  obtain t :: vsync_thread where t: "successively (apart Ps) (vsync_times y @ [mNextFakeVSync t])"
    and P: "\<forall>P. Ps = {P} \<longrightarrow> (\<forall>x\<in>set (vsync_times y). P dvd x) \<and> P dvd mNextFakeVSync t"
    using clock_inv_reach[OF assms] unfolding clock_inv_def by blast
  then have s: "successively (apart Ps) (vsync_times y)" by (simp add: successively_append_iff)
  show ?thesis using s P successively_less[OF s assms(2)] by (simp add: apart_def[abs_def])
qed

text \<open>
  C18: a round of an enabled thread whose clock is used (asked for, in the course of a mode set, or
  because the kernel cannot wait for a frame) announces exactly one frame, provided that a listener
  is registered, that sending is enabled and is not switched off while the thread sleeps, that the
  sleep returns 0, that the period is positive and that no time leaves the range of 64 bits.  The
  frame is not earlier than the clock says and than the frame after the last one, and at most one
  period ahead when the thread is in time.
\<close>

theorem vsync_round_announces:
  assumes "i < length (y_vsync y)" "t = y_vsync y ! i" "vs_enabled t" "mSendVsync t"
    and "mFakeVSync t \<or> mModeset (k_conf (y_kms y)) \<or> fst (ve_vblank e) \<notin> {0, - EINTR}"
    and "p = fst (fake_period (y_kms y))" "0 < p" "0 \<le> ve_now e" "0 \<le> mNextFakeVSync t"
    and "ve_now e + 2 * p < 2 ^ 63" "mNextFakeVSync t + p < 2 ^ 63" "fst (ve_sleep e 0) = 0"
    and "\<And>k. mListener (k_disp (ve_meanwhile e k))" "CallEnabled False \<notin> set (ve_calls e)"
  shows "\<exists>y' v. vsync_loop e i y = Some y' \<and> vsync_times y' = vsync_times y @ [v] \<and>
    ve_now e \<le> v \<and> mNextFakeVSync t \<le> v \<and> (mNextFakeVSync t \<le> ve_now e + p \<longrightarrow> v \<le> ve_now e + p)"
  by (rule vsync_round_spec[OF assms])


text \<open>
  C15: a change of the configuration that \<open>changeDisplayConfig\<close> hands to a waiting \<open>ConfigThread\<close> is
  applied as a whole.  Let the id be one of the table, with consecutive ids, and its entry name a
  mode of the display.  However the steps of the thread are timed, when no other request comes and
  the thread waits again with nothing pending, the configuration of the request is active, the mode
  is that of its entry, and a mode set is pending.  Before the time that was asked for, unless a
  signal cuts the sleep short, active configuration, mode and the rest stay as they were.
\<close>

theorem config_request_applied:
  assumes "sync_changeDisplayConfig lib c desired False y = Some (r, y1)" "mConfigThread (y_kms y)"
    and "ct_pc (y_config y) = CfgWait" "config_steps lib es y1 = Some y2"
    and "mFirstConfigId (k_conf (y_kms y)) \<le> c"
      "c < mFirstConfigId (k_conf (y_kms y)) + int (length (mConfigs (k_conf (y_kms y))))"
    and "map_of (mConfigs (k_conf (y_kms y))) c = Some entry"
    and "0 \<le> modeIdx entry" "modeIdx entry < int (length (mDrmModes (k_conf (y_kms y))))"
  shows "(ct_pc (y_config y2) = CfgWait \<and> \<not> mNewChange (y_config y2) \<longrightarrow>
      mActiveConfig (k_conf (y_kms y2)) = c \<and>
      mMode (k_conf (y_kms y2)) = mDrmModes (k_conf (y_kms y)) ! nat (modeIdx entry) \<and>
      mModeset (k_conf (y_kms y2)) \<and> map_of (mConfigs (k_conf (y_kms y2))) c = Some entry) \<and>
    ((\<forall>(now, awake)\<in>set es. now < desired \<and> \<not> awake) \<longrightarrow>
      k_conf (y_kms y2) = k_conf (y_kms y1) \<and> mActiveConfig (k_conf (y_kms y2)) = mActiveConfig (k_conf (y_kms y)) \<and>
      mMode (k_conf (y_kms y2)) = mMode (k_conf (y_kms y)) \<and> mModeset (k_conf (y_kms y2)) = mModeset (k_conf (y_kms y)))"
proof -
  note st = request_start[OF assms(1-3)]
  obtain m2 refresh where m2: "m2 = snd (index_op (mActiveConfig (k_conf (y_kms y))) (snd (index_op c (mConfigs (k_conf (y_kms y))))))"
    and y1: "y1 = y\<lparr>y_config := setDisplayConfig c desired refresh (y_config y),
       y_kms := (y_kms y)\<lparr>k_conf := (k_conf (y_kms y))\<lparr>mConfigs := m2, mRefreshRequired := True\<rparr>\<rparr>\<rparr>"
    by (rule request_cases[OF assms(1,2)])
  have inv: "request_inv c desired (conf_of y1) y2" by (rule request_inv_steps[OF assms(4) st(1,2)])
  have early: "k_conf (y_kms y2) = k_conf (y_kms y1)" if "\<forall>(now, awake)\<in>set es. now < desired \<and> \<not> awake"
    using early_steps[OF assms(4) that st(1) _ st(2)] st(3,4) inv
    by (auto simp: before_time_def request_inv_def Let_def conf_of_def split: cfg_pc.split_asm)
  have table: "map_of m2 c = Some entry" "length (mConfigs (k_conf (y_kms y))) \<le> length m2"
    using index_op_entry[OF assms(7)] by (simp_all add: m2)
  have "mActiveConfig (applied c (conf_of y1)) = c \<and>
      mMode (applied c (conf_of y1)) = mDrmModes (k_conf (y_kms y)) ! nat (modeIdx entry) \<and>
      mModeset (applied c (conf_of y1)) \<and> mConfigs (applied c (conf_of y1)) = m2"
    using assms(5,6,8,9) table
    by (simp add: applied_def moded_def asked_def conf_of_def y1 setNewDrmMode_def kms_setActiveConfig_def
        setActiveConfigLocked_def)
  then show ?thesis
    using inv early y1 table by (auto simp: request_inv_def Let_def conf_of_def)
qed

text \<open>
  C16: \<open>ConfigThread\<close> finishes a request: once its time and the time of the refresh have come, eight
  steps bring the thread back to its wait with nothing pending and the request applied, provided that
  the new allocation of the frame buffers is defined (touches no dangling handle).
\<close>

theorem config_request_finishes:
  assumes "sync_changeDisplayConfig lib c desired False y = Some (r, y1)" "mConfigThread (y_kms y)"
    and "ct_pc (y_config y) = CfgWait"
    and "set_active lib c ((y_kms y1)\<lparr>k_conf := moded c (k_conf (y_kms y1))\<rparr>) \<noteq> None"
    and "length es = 8" "\<forall>(now, awake)\<in>set es. desired \<le> now \<and> mRefreshTime (y_config y1) \<le> now"
  shows "\<exists>y2. config_steps lib es y1 = Some y2 \<and> ct_pc (y_config y2) = CfgWait \<and> \<not> mNewChange (y_config y2) \<and>
    k_conf (y_kms y2) = config_thread_apply c (k_conf (y_kms y1))"
proof -
  note st = request_start[OF assms(1-3)]
  obtain y2 where y2: "config_steps lib es y1 = Some y2" "ct_pc (y_config y2) = CfgWait" "\<not> mNewChange (y_config y2)"
    using steps_done[OF st(4,3,5,2) _ assms(5)] assms(4,6) st(6) by (auto simp: conf_of_def)
  have "request_inv c desired (conf_of y1) y2" by (rule request_inv_steps[OF y2(1) st(1,2)])
  then show ?thesis
    using y2 applied_thread[OF st(2)] by (auto simp: request_inv_def Let_def conf_of_def)
qed

text \<open>
  A request that arrives while the thread is between the mode and the configuration of the one before
  is lost: its configuration becomes active with the mode of the other, and nothing is pending.
\<close>

lemma config_request_overtakes:
  assumes "ct_pc (y_config y) = CfgActive d" "mConfigThread (y_kms y)"
    and "sync_changeDisplayConfig lib c2 desired False y = Some (r, y1)" "config_steps lib [e1, e2] y1 = Some y2"
    and "mFirstConfigId (conf_of y) \<le> c2" "c2 < mFirstConfigId (conf_of y) + int (length (mConfigs (conf_of y)))"
  shows "mActiveConfig (conf_of y2) = c2 \<and> mMode (conf_of y2) = mMode (conf_of y) \<and> \<not> mNewChange (y_config y2)"
proof -
  obtain m2 refresh where m2: "m2 = snd (index_op (mActiveConfig (k_conf (y_kms y))) (snd (index_op c2 (mConfigs (k_conf (y_kms y))))))"
    and y1: "y1 = y\<lparr>y_config := setDisplayConfig c2 desired refresh (y_config y),
       y_kms := (y_kms y)\<lparr>k_conf := (k_conf (y_kms y))\<lparr>mConfigs := m2, mRefreshRequired := True\<rparr>\<rparr>\<rparr>"
    by (rule request_cases[OF assms(3,2)])
  have c2: "map_of m2 c2 \<noteq> None" unfolding m2 by (rule index_op_keys(1)[OF index_op_keys(2)])
  have len: "length (mConfigs (conf_of y)) \<le> length m2"
    unfolding m2 by (auto simp: index_op_def emplace_def Let_def conf_of_def)
  obtain n1 b1 n2 b2 where e: "e1 = (n1, b1)" "e2 = (n2, b2)" by (cases e1, cases e2)
  obtain r2 k where k: "set_active lib c2 (y_kms y1) = Some (r2, k)"
    and y2: "y2 = goto (CfgMissed d) (goto (CfgClear d) (y1\<lparr>y_kms := k\<rparr>)\<lparr>y_config := (y_config y1)\<lparr>ct_pc := CfgClear d, mNewChange := False\<rparr>\<rparr>)"
    using assms(1,4) by (auto simp: e config_step_def Let_def y1 setDisplayConfig_def bind_eq_Some_conv goto_def)
  have "k_conf k = snd (kms_setActiveConfig c2 (k_conf (y_kms y1)))"
    by (rule set_active_conf[OF k]) (use c2 in \<open>simp add: y1\<close>)
  moreover have "mActiveConfig (snd (kms_setActiveConfig c2 (k_conf (y_kms y1)))) = c2"
    using assms(5,6) len by (simp add: kms_setActiveConfig_def setActiveConfigLocked_def y1 conf_of_def)
  moreover have "mMode (snd (kms_setActiveConfig c2 (k_conf (y_kms y1)))) = mMode (conf_of y)"
    by (simp add: kms_setActiveConfig_def setActiveConfigLocked_def y1 conf_of_def)
  ultimately show ?thesis by (simp add: y2 conf_of_def goto_def)
qed


section \<open>Witnesses\<close>

definition kms_clock :: kms where
  "kms_clock = kms_new\<lparr>k_disp := disp_demo\<lparr>mListener := True\<rparr>, mConfigThread := True,
     k_conf := (k_conf kms_new)\<lparr>mConfigs := [(0, config0\<lparr>modeIdx := 1\<rparr>), (1, config0)], mDrmModes := [mode_1080, mode_720]\<rparr>\<rparr>"

definition vsync_demo :: kms_sync where
  "vsync_demo = setVsyncEnabled True (enableVsync (sync_init kms_clock))"

definition vsync_io :: vsync_env where
  "vsync_io = \<lparr>ve_now = 100, ve_sleep = (\<lambda>_. (0, 0)), ve_calls = [CallFake True], ve_meanwhile = (\<lambda>_. kms_clock), ve_vblank = (-1, 0, 0)\<rparr>"

lemma vsync_demo_state:
  "y_vsync vsync_demo = [VSyncThread_init\<lparr>vs_enabled := True, mSendVsync := True\<rparr>]" "vsync_times vsync_demo = []"
  "fst (fake_period kms_clock) = 16666666" "y_kms vsync_demo = kms_clock" "mListener (k_disp kms_clock)" "0 \<le> mDrmFd kms_clock"
  "mConfigThread kms_clock"
  by (simp_all add: vsync_demo_def setVsyncEnabled_def enableVsync_def sync_init_def on_last_def vsync_times_def map_filter_simps
      fake_period_def kms_clock_def kms_new_def setDrm_def KmsDisplay_init_def k_emit_def DEFAULT_REFRESH_RATE_def)

lemma vsync_demo_round:
  "\<exists>y' v. vsync_loop vsync_io 0 vsync_demo = Some y' \<and> vsync_times y' = [v] \<and> 100 \<le> v \<and> v \<le> 16666766"
  using vsync_round_spec[of 0 vsync_demo "y_vsync vsync_demo ! 0" vsync_io 16666666]
  by (simp add: vsync_demo_state vsync_io_def VSyncThread_init_def EINTR_def) blast

theorem fake_vsync_grid_witness:
  "\<exists>y v. vsync_reach {16666666} y \<and> vsync_times y = [v] \<and> 100 \<le> v \<and> 16666666 dvd v"
proof -
  obtain y v where y: "vsync_loop vsync_io 0 vsync_demo = Some y" "vsync_times y = [v]" "100 \<le> v"
    using vsync_demo_round by blast
  have "vsync_reach {16666666} (enableVsync (sync_init kms_clock))"
    by (rule vsync_start) (simp_all add: vsync_demo_state)
  then have "vsync_reach {16666666} vsync_demo" unfolding vsync_demo_def by (rule vsync_next[OF _ vsync_on])
  then have r: "vsync_reach {16666666} y"
    by (rule vsync_next[OF _ vsync_round[OF y(1)]]) (simp_all add: vsync_demo_state vsync_io_def)
  from fake_vsync_grid[OF r] y r show ?thesis by (auto simp: vsync_demo_state)
qed

theorem vsync_round_announces_witness:
  "\<exists>y v. vsync_loop vsync_io 0 vsync_demo = Some y \<and> vsync_times y = [v] \<and> 100 \<le> v \<and> v \<le> 16666766"
  using vsync_round_announces[of 0 vsync_demo "y_vsync vsync_demo ! 0" vsync_io 16666666]
  by (simp add: vsync_demo_state vsync_io_def VSyncThread_init_def EINTR_def) blast

text \<open>A request for the configuration 0, which has the second mode.\<close>

lemma set_active_noblit: "mTargets k = replicate n None \<Longrightarrow> mSecTargets k = replicate n None \<Longrightarrow> set_active lib_noblit c k \<noteq> None"
proof -
  assume a: "mTargets k = replicate n None" "mSecTargets k = replicate n None"
  have "release_targets e (replicate n (None, None)) w = Some w" for e n w
    by (induction n) (simp_all add: release_target_def)
  moreover have "prepareTargetsLocked lib_noblit k \<noteq> None" for k
    by (simp add: prepareTargetsLocked_def isValid_def Let_def case_prod_beta lib_noblit_def)
  ultimately have r: "\<exists>k2. releaseTargetsLocked lib_noblit (k\<lparr>k_conf := x\<rparr>) = Some k2"
    and p: "\<exists>k3. prepareTargetsLocked lib_noblit k2 = Some k3" for x k2
    using a by (auto simp: releaseTargetsLocked_def zip_replicate)
  obtain ret re conf where s: "setActiveConfigLocked c (k_conf k) = ((ret, re), conf)" by (metis prod.collapse)
  obtain k2 where k2: "releaseTargetsLocked lib_noblit (k\<lparr>k_conf := conf\<rparr>) = Some k2" using r by blast
  obtain k3 where "prepareTargetsLocked lib_noblit k2 = Some k3" using p by blast
  then show ?thesis using k2 s by (simp add: set_active_def Let_def)
qed

definition request_times :: "(int \<times> bool) list" where
  "request_times = replicate 8 (1000000000, False)"

lemma request_demo:
  "\<exists>r y1. sync_changeDisplayConfig lib_noblit 0 5 False vsync_demo = Some (r, y1) \<and>
     set_active lib_noblit 0 ((y_kms y1)\<lparr>k_conf := moded 0 (k_conf (y_kms y1))\<rparr>) \<noteq> None \<and>
     mRefreshTime (y_config y1) \<le> 1000000000 \<and> mActiveConfig (config_thread_apply 0 (k_conf (y_kms y1))) = 0 \<and>
     mMode (config_thread_apply 0 (k_conf (y_kms y1))) = mode_720"
  using set_active_noblit[where n = 3]
  by (simp add: sync_changeDisplayConfig_def vsync_demo_state on_conf_def Let_def setDisplayConfig_def)
     (simp add: kms_clock_def kms_new_def setDrm_def KmsDisplay_init_def k_emit_def index_op_def emplace_def config0_def
        config_thread_apply_def kms_setActiveConfig_def setActiveConfigLocked_def setNewDrmMode_def)

lemma request_demo_wait: "ct_pc (y_config vsync_demo) = CfgWait"
  by (simp add: vsync_demo_def setVsyncEnabled_def enableVsync_def sync_init_def ConfigThread_init_def)

theorem config_request_finishes_witness:
  "\<exists>r y1 y2. sync_changeDisplayConfig lib_noblit 0 5 False vsync_demo = Some (r, y1) \<and>
     config_steps lib_noblit request_times y1 = Some y2 \<and> mActiveConfig (k_conf (y_kms y2)) = 0 \<and>
     mMode (k_conf (y_kms y2)) = mode_720"
proof -
  obtain r y1 where y1: "sync_changeDisplayConfig lib_noblit 0 5 False vsync_demo = Some (r, y1)"
    "set_active lib_noblit 0 ((y_kms y1)\<lparr>k_conf := moded 0 (k_conf (y_kms y1))\<rparr>) \<noteq> None"
    "mRefreshTime (y_config y1) \<le> 1000000000" "mActiveConfig (config_thread_apply 0 (k_conf (y_kms y1))) = 0"
    "mMode (config_thread_apply 0 (k_conf (y_kms y1))) = mode_720"
    using request_demo by blast
  have t: "length request_times = 8" "\<forall>(now, awake)\<in>set request_times. 5 \<le> now \<and> mRefreshTime (y_config y1) \<le> now"
    using y1(3) by (auto simp: request_times_def)
  from config_request_finishes[OF y1(1) _ request_demo_wait y1(2) t] y1 show ?thesis
    by (auto simp: vsync_demo_state)
qed

theorem config_request_applied_witness:
  "\<exists>r y1 y2. sync_changeDisplayConfig lib_noblit 0 5 False vsync_demo = Some (r, y1) \<and>
     config_steps lib_noblit request_times y1 = Some y2 \<and> mMode (k_conf (y_kms y2)) = mode_720"
proof -
  obtain r y1 where y1: "sync_changeDisplayConfig lib_noblit 0 5 False vsync_demo = Some (r, y1)"
    "set_active lib_noblit 0 ((y_kms y1)\<lparr>k_conf := moded 0 (k_conf (y_kms y1))\<rparr>) \<noteq> None"
    "mRefreshTime (y_config y1) \<le> 1000000000" "mMode (config_thread_apply 0 (k_conf (y_kms y1))) = mode_720"
    using request_demo by blast
  have ct: "mConfigThread (y_kms vsync_demo)" by (simp add: vsync_demo_state)
  note st = request_start[OF y1(1) ct request_demo_wait]
  have t: "length request_times = 8" "\<forall>(now, awake)\<in>set request_times. 5 \<le> now \<and> mRefreshTime (y_config y1) \<le> now"
    using y1(3) by (auto simp: request_times_def)
  obtain y2 where y2: "config_steps lib_noblit request_times y1 = Some y2" "ct_pc (y_config y2) = CfgWait" "\<not> mNewChange (y_config y2)"
    using steps_done[OF st(4,3,5,2) _ t(1), of lib_noblit] y1(2) t(2) st(6) by (auto simp: conf_of_def)
  have conf: "mConfigs (k_conf kms_clock) = [(0, config0\<lparr>modeIdx := 1\<rparr>), (1, config0)]" "mFirstConfigId (k_conf kms_clock) = 0"
    "mDrmModes (k_conf kms_clock) = [mode_1080, mode_720]"
    by (simp_all add: kms_clock_def kms_new_def setDrm_def KmsDisplay_init_def k_emit_def)
  from config_request_applied[OF y1(1) ct request_demo_wait y2(1), of "config0\<lparr>modeIdx := 1\<rparr>"] y1 y2 show ?thesis
    by (auto simp: vsync_demo_state conf)
qed

end
