(* ===== verification/Id_Pool.thy ===== *)
theory Id_Pool
  imports HAL_Prelude
begin

text \<open>
  The contract of a pool of numbered slots, as an interface: who takes a slot has it alone until it
  is given back.
\<close>

datatype 'i pool_op = Take | Give 'i
datatype 'i pool_event = Took "'i option" | Gave 'i

fun pool_run :: "('s \<Rightarrow> 'i option \<times> 's) \<Rightarrow> ('i \<Rightarrow> 's \<Rightarrow> 's) \<Rightarrow> 'i pool_op list \<Rightarrow> 's \<Rightarrow> 'i pool_event list \<times> 's" where
  "pool_run take_id give [] s = ([], s)"
| "pool_run take_id give (Take # ops) s =
     (case take_id s of (r, s1) \<Rightarrow> case pool_run take_id give ops s1 of (es, s2) \<Rightarrow> (Took r # es, s2))"
| "pool_run take_id give (Give i # ops) s =
     (case pool_run take_id give ops (give i s) of (es, s2) \<Rightarrow> (Gave i # es, s2))"

text \<open>
  A history in which every slot that is taken was free, and none was free when nothing was found.
\<close>

fun exclusive :: "'i set \<Rightarrow> 'i set \<Rightarrow> 'i pool_event list \<Rightarrow> bool" where
  "exclusive ids held [] \<longleftrightarrow> True"
| "exclusive ids held (Took (Some i) # es) \<longleftrightarrow> i \<in> ids \<and> i \<notin> held \<and> exclusive ids (insert i held) es"
| "exclusive ids held (Took None # es) \<longleftrightarrow> held = ids \<and> exclusive ids held es"
| "exclusive ids held (Gave i # es) \<longleftrightarrow> exclusive ids (held - {i}) es"

locale id_pool =
  fixes take_id :: "'s \<Rightarrow> 'i option \<times> 's"
    and give :: "'i \<Rightarrow> 's \<Rightarrow> 's"
    and held :: "'s \<Rightarrow> 'i set"
    and ids :: "'i set"
    and ok :: "'s \<Rightarrow> bool"
  assumes take_some: "\<lbrakk>ok s; take_id s = (Some i, s')\<rbrakk> \<Longrightarrow> i \<in> ids - held s \<and> held s' = insert i (held s) \<and> ok s'"
    and take_none: "\<lbrakk>ok s; take_id s = (None, s')\<rbrakk> \<Longrightarrow> held s = ids \<and> held s' = held s \<and> ok s'"
    and give_free: "\<lbrakk>ok s; i \<in> ids\<rbrakk> \<Longrightarrow> held (give i s) = held s - {i} \<and> ok (give i s)"
begin

lemma run_exclusive:
  assumes "ok s" "\<forall>i. Give i \<in> set ops \<longrightarrow> i \<in> ids" "pool_run take_id give ops s = (es, s')"
  shows "exclusive ids (held s) es \<and> ok s'"
  using assms
proof (induction ops arbitrary: s es)
  case (Cons p ops)
  show ?case
  proof (cases p)
    case Take
    obtain r s1 where t: "take_id s = (r, s1)" by (cases "take_id s")
    obtain es1 where es1: "pool_run take_id give ops s1 = (es1, s')" "es = Took r # es1"
      using Cons.prems(3) t Take by (auto split: prod.split_asm)
    have g: "\<forall>i. Give i \<in> set ops \<longrightarrow> i \<in> ids" using Cons.prems(2) by simp
    show ?thesis
    proof (cases r)
      case None
      then show ?thesis using Cons.IH[OF _ g es1(1)] take_none[of s s1] Cons.prems(1) t es1(2) by simp
    next
      case (Some i)
      then show ?thesis using Cons.IH[OF _ g es1(1)] take_some[of s i s1] Cons.prems(1) t es1(2) by simp
    qed
  next
    case (Give i)
    then obtain es1 where es1: "pool_run take_id give ops (give i s) = (es1, s')" "es = Gave i # es1"
      using Cons.prems(3) by (auto split: prod.split_asm)
    then show ?thesis using Cons.IH[OF _ _ es1(1)] give_free[OF Cons.prems(1), of i] Cons.prems(2) Give by auto
  qed
qed simp

text \<open>As many slots can be taken in a row as are free.\<close>

lemma takes_succeed:
  assumes "ok s" "finite ids" "held s \<subseteq> ids" "n \<le> card (ids - held s)"
    and "pool_run take_id give (replicate n Take) s = (es, s')"
  shows "Took None \<notin> set es \<and> card (ids - held s') = card (ids - held s) - n"
  using assms
proof (induction n arbitrary: s es)
  case (Suc n)
  obtain r s1 where t: "take_id s = (r, s1)" by (cases "take_id s")
  obtain es1 where es1: "pool_run take_id give (replicate n Take) s1 = (es1, s')" "es = Took r # es1"
    using Suc.prems(5) t by (auto split: prod.split_asm)
  obtain i where i: "r = Some i"
  proof (cases r)
    case None
    then have "held s = ids" using take_none Suc.prems(1) t by blast
    then show thesis using Suc.prems(4) by simp
  qed
  note s1 = take_some[OF Suc.prems(1) t[unfolded i]]
  have c: "card (ids - held s1) = card (ids - held s) - 1"
  proof -
    have "ids - held s1 = (ids - held s) - {i}" using s1 by auto
    then show ?thesis using s1 by simp
  qed
  then have "Took None \<notin> set es1 \<and> card (ids - held s') = card (ids - held s1) - n"
    using Suc.IH[OF _ Suc.prems(2) _ _ es1(1)] s1 Suc.prems(3,4) by simp
  then show ?case using es1(2) i c by simp
qed simp

end

end
