(* ===== verification/C_Strings.thy ===== *)
theory C_Strings
  imports HAL_Prelude "HOL-Library.Sublist"
begin

text \<open>
  Strings of C: characters up to a NUL in a buffer.  Reading past the end of the buffer has no result.
  A message of the kernel is a sequence of such strings.
\<close>

abbreviation NUL :: char where "NUL \<equiv> CHR 0x00"

text \<open>\<open>strlen\<close>, and \<open>strncmp(cp, sub, strlen(sub)) == 0\<close>, which stops at the first difference.\<close>

fun c_strlen :: "char list \<Rightarrow> nat option" where
  "c_strlen [] = None"
| "c_strlen (c # cs) = (if c = NUL then Some 0 else map_option Suc (c_strlen cs))"

fun starts :: "char list \<Rightarrow> string \<Rightarrow> bool option" where
  "starts cs [] = Some True"
| "starts [] (s # ss) = None"
| "starts (c # cs) (s # ss) = (if c \<noteq> s then Some False else starts cs ss)"

lemma c_strlen_le: "c_strlen cs = Some n \<Longrightarrow> n < length cs"
  by (induction cs arbitrary: n) (auto split: if_splits)

section \<open>Messages\<close>

definition c_string :: "string \<Rightarrow> bool" where
  "c_string s \<longleftrightarrow> s \<noteq> [] \<and> NUL \<notin> set s"

definition message :: "string list \<Rightarrow> char list" where
  "message fs = concat (map (\<lambda>s. s @ [NUL]) fs)"

lemma c_strlen_string: "NUL \<notin> set s \<Longrightarrow> c_strlen (s @ NUL # cs) = Some (length s)"
  by (induction s) auto

lemma starts_string: "NUL \<notin> set s \<Longrightarrow> NUL \<notin> set sub \<Longrightarrow> starts (s @ NUL # cs) sub = Some (prefix sub s)"
  by (induction s sub rule: starts.induct) (auto split: list.split simp: neq_Nil_conv)

lemma update_two:
  "Suc n < length b \<Longrightarrow> b[n := x, Suc n := y] = take n b @ x # y # drop (Suc (Suc n)) b"
proof (induction b arbitrary: n)
  case (Cons c b)
  then show ?case by (cases n; cases b) auto
qed simp

text \<open>A string of a buffer that two NULs end: what follows it holds both, or only the second one.\<close>

lemma buffer_step:
  fixes xs cs :: "char list"
  defines "s \<equiv> takeWhile (\<lambda>c. c \<noteq> NUL) xs"
  obtains r where "xs @ NUL # NUL # cs = s @ NUL # r" "NUL \<notin> set s"
    "r = NUL # cs \<or> (\<exists>us. length us < length xs \<and> r = us @ NUL # NUL # cs)"
proof -
  let ?zs = "dropWhile (\<lambda>c. c \<noteq> NUL) xs"
  have n: "NUL \<notin> set s" by (auto simp: s_def dest: set_takeWhileD)
  show thesis
  proof (cases ?zs)
    case Nil
    then have "s = xs" using takeWhile_dropWhile_id[of "\<lambda>c. c \<noteq> NUL" xs] by (metis append_Nil2 s_def)
    then show thesis using n that by metis
  next
    case (Cons z us)
    then have "z = NUL" using hd_dropWhile[of "\<lambda>c. c \<noteq> NUL" xs] by simp
    moreover have "xs = s @ z # us" using Cons takeWhile_dropWhile_id[of "\<lambda>c. c \<noteq> NUL" xs] by (simp add: s_def)
    moreover then have "length us < length xs" by (metis add_Suc_right length_append length_Cons less_add_Suc2)
    ultimately show thesis using that[of "us @ NUL # NUL # cs"] n by (metis append.assoc append_Cons)
  qed
qed

lemma c_strlen_skip:
  assumes "NUL \<notin> set s"
  shows "c_strlen (s @ NUL # r) = Some (length s)" "take (length s) (s @ NUL # r) = s"
    "drop (Suc (length s)) (s @ NUL # r) = r"
  using c_strlen_string[OF assms] by simp_all

end
