(* ===== verification/Hotplug_Events.thy ===== *)
theory Hotplug_Events
  imports C_Strings "HOL-Library.Monad_Syntax"
begin

text \<open>
  \<open>DisplayManager::HotplugThread\<close> (\<open>display/display/DisplayManager.cpp\<close>): a message of the kernel,
  a sequence of strings that end with a NUL, decides whether the connections of the displays are
  looked at again.  A string of C is a list of characters with its NUL; reading past the end of the
  buffer has no result.
\<close>

definition EVENT_MSG_LEN :: nat where "EVENT_MSG_LEN = 4096"

definition HDMI_PLUG_EVENT :: string where "HDMI_PLUG_EVENT = ''hdmi_video''"
definition HDMI_PLUG_CHANGE :: string where "HDMI_PLUG_CHANGE = ''change@''"
definition HDMI_SII902_PLUG_EVENT :: string where "HDMI_SII902_PLUG_EVENT = ''change@/devices/platform/sii902x.0''"
definition HDMI_EXTCON :: string where "HDMI_EXTCON = ''extcon''"
definition HDMI_DEVTYPE_DRM :: string where "HDMI_DEVTYPE_DRM = ''DEVTYPE=drm_minor''"
definition HDMI_HOTPLUG :: string where "HDMI_HOTPLUG = ''HOTPLUG=1''"

lemmas uevent_names = HDMI_PLUG_EVENT_def HDMI_PLUG_CHANGE_def HDMI_SII902_PLUG_EVENT_def HDMI_EXTCON_def
  HDMI_DEVTYPE_DRM_def HDMI_HOTPLUG_def

text \<open>\<open>cs\<close> is the rest of the buffer from \<open>cp\<close> on.\<close>

function stringInString :: "char list \<Rightarrow> string \<Rightarrow> bool option" where
  "stringInString [] sub = None"
| "stringInString (c # cs) sub =
     (if c = NUL then Some False
      else case starts (c # cs) sub of
             None \<Rightarrow> None
           | Some True \<Rightarrow> Some True
           | Some False \<Rightarrow>
               (case c_strlen (c # cs) of None \<Rightarrow> None | Some n \<Rightarrow> stringInString (drop (Suc n) (c # cs)) sub))"
  by pat_completeness auto
termination by (relation "measure (\<lambda>(cs, sub). length cs)") auto

datatype plug = NoPlug | FbPlug | KmsPlug

definition plug_of :: "char list \<Rightarrow> plug option" where
  "plug_of b =
     do { video \<leftarrow> stringInString b HDMI_PLUG_EVENT;
          change \<leftarrow> (if video then stringInString b HDMI_PLUG_CHANGE else Some False);
          extcon \<leftarrow> (if video \<and> change then stringInString b HDMI_EXTCON else Some False);
          sii \<leftarrow> (if video \<and> change \<and> extcon then Some True else stringInString b HDMI_SII902_PLUG_EVENT);
          if sii then Some FbPlug
          else do { minor \<leftarrow> stringInString b HDMI_DEVTYPE_DRM;
                    hot \<leftarrow> (if minor then stringInString b HDMI_HOTPLUG else Some False);
                    Some (if hot then KmsPlug else NoPlug) } }"

text \<open>
  \<open>HotplugThread::threadLoop\<close>: \<open>msg\<close> is what \<open>uevent_next_event\<close> wrote into the buffer, which was filled
  with zeros, and \<open>len\<close> what it returned.
\<close>

definition uevent_buffer :: "char list \<Rightarrow> nat \<Rightarrow> char list" where
  "uevent_buffer msg len =
     ((msg @ replicate (EVENT_MSG_LEN + 2 - length msg) NUL)[len := NUL])[Suc len := NUL]"

definition uevent_loop :: "char list \<Rightarrow> int \<Rightarrow> plug option" where
  "uevent_loop msg len =
     (if len \<le> 0 \<or> len \<ge> int EVENT_MSG_LEN then Some NoPlug else plug_of (uevent_buffer msg (nat len)))"

section \<open>The strings of a message\<close>

lemma stringInString_message:
  assumes "\<forall>s\<in>set fs. c_string s" "NUL \<notin> set sub"
  shows "stringInString (message fs @ NUL # cs) sub = Some (\<exists>s\<in>set fs. prefix sub s)"
  using assms(1)
proof (induction fs)
  case (Cons s fs)
  then obtain a t where s: "s = a # t" "a \<noteq> NUL" "NUL \<notin> set t"
    by (cases s) (auto simp: c_string_def)
  let ?rest = "message fs @ NUL # cs"
  have m: "message (s # fs) @ NUL # cs = a # (t @ NUL # ?rest)" by (simp add: message_def s)
  have st: "starts (a # (t @ NUL # ?rest)) sub = Some (prefix sub s)"
    using starts_string[of s sub ?rest] assms(2) s by simp
  have ln: "c_strlen (a # (t @ NUL # ?rest)) = Some (length s)"
    using c_strlen_string[of s ?rest] s by simp
  show ?case
    unfolding m using Cons.IH Cons.prems st ln s(2) by (auto simp: s(1) split: bool.split)
qed (simp add: message_def)


text \<open>Two NULs in the buffer stop the search, whatever the message was.\<close>

lemma stringInString_stops:
  assumes "NUL \<notin> set sub"
  shows "stringInString (xs @ NUL # NUL # cs) sub \<noteq> None"
proof (induction xs rule: length_induct)
  case (1 xs)
  show ?case
  proof (cases xs)
    case (Cons a ys)
    let ?s = "takeWhile (\<lambda>c. c \<noteq> NUL) xs"
    obtain r where b: "xs @ NUL # NUL # cs = ?s @ NUL # r" and s: "NUL \<notin> set ?s"
      and r: "r = NUL # cs \<or> (\<exists>us. length us < length xs \<and> r = us @ NUL # NUL # cs)"
      by (rule buffer_step)
    have rest: "stringInString r sub \<noteq> None"
      using r
    proof
      assume "r = NUL # cs"
      then show ?thesis by simp
    next
      assume "\<exists>us. length us < length xs \<and> r = us @ NUL # NUL # cs"
      then show ?thesis using 1 by blast
    qed
    have st: "starts (?s @ NUL # r) sub = Some (prefix sub ?s)" by (rule starts_string[OF s assms])
    have ln: "c_strlen (?s @ NUL # r) = Some (length ?s)" by (rule c_strlen_string[OF s])
    show ?thesis
    proof (cases ?s)
      case Nil
      then show ?thesis unfolding b by simp
    next
      case (Cons c t)
      have "c \<noteq> NUL" using s Cons by auto
      then show ?thesis using st ln rest unfolding b Cons by (cases "prefix sub (c # t)") simp_all
    qed
  qed simp
qed

lemma uevent_names_c: "NUL \<notin> set HDMI_PLUG_EVENT" "NUL \<notin> set HDMI_PLUG_CHANGE" "NUL \<notin> set HDMI_SII902_PLUG_EVENT"
  "NUL \<notin> set HDMI_EXTCON" "NUL \<notin> set HDMI_DEVTYPE_DRM" "NUL \<notin> set HDMI_HOTPLUG"
  by (simp_all add: uevent_names)

lemma plug_of_total:
  assumes "\<And>sub. NUL \<notin> set sub \<Longrightarrow> stringInString b sub \<noteq> None"
  shows "plug_of b \<noteq> None"
  using uevent_names_c[THEN assms] by (auto simp: plug_of_def)

lemma uevent_buffer_eq:
  assumes "len < EVENT_MSG_LEN" "length msg \<le> EVENT_MSG_LEN"
  shows "\<exists>xs cs. uevent_buffer msg len = xs @ NUL # NUL # cs \<and> length xs = len"
proof -
  let ?b = "msg @ replicate (EVENT_MSG_LEN + 2 - length msg) NUL"
  have n: "length ?b = EVENT_MSG_LEN + 2" using assms(2) by simp
  have "uevent_buffer msg len = take len ?b @ NUL # NUL # drop (Suc (Suc len)) ?b"
    unfolding uevent_buffer_def by (rule update_two) (use n assms(1) in simp)
  moreover have "length (take len ?b) = len" using n assms(1) by simp
  ultimately show ?thesis by blast
qed

lemma uevent_in_bounds: "length msg \<le> EVENT_MSG_LEN \<Longrightarrow> uevent_loop msg len \<noteq> None"
proof (cases "len \<le> 0 \<or> len \<ge> int EVENT_MSG_LEN")
  case False
  assume "length msg \<le> EVENT_MSG_LEN"
  moreover have "nat len < EVENT_MSG_LEN" using False by linarith
  ultimately obtain xs cs where b: "uevent_buffer msg (nat len) = xs @ NUL # NUL # cs"
    using uevent_buffer_eq by blast
  show ?thesis
    using plug_of_total[of "uevent_buffer msg (nat len)"] stringInString_stops False
    by (simp add: uevent_loop_def b)
qed (simp add: uevent_loop_def)

text \<open>What the strings of a message mean.\<close>

definition has_field :: "string list \<Rightarrow> string \<Rightarrow> bool" where
  "has_field fs sub \<longleftrightarrow> (\<exists>s\<in>set fs. prefix sub s)"

definition plug_spec :: "string list \<Rightarrow> plug" where
  "plug_spec fs =
     (if has_field fs HDMI_SII902_PLUG_EVENT \<or>
         (has_field fs HDMI_PLUG_EVENT \<and> has_field fs HDMI_PLUG_CHANGE \<and> has_field fs HDMI_EXTCON) then FbPlug
      else if has_field fs HDMI_DEVTYPE_DRM \<and> has_field fs HDMI_HOTPLUG then KmsPlug else NoPlug)"

text \<open>
  C19: the search through a message of the kernel never leaves the buffer, and for every message of
  less than 4096 bytes that consists of strings it finds exactly the strings with the wanted
  prefixes: the connections are read again for a hotplug of a DRM device, or of an HDMI switch, and
  for no other message.
\<close>

theorem uevent_exact:
  assumes "\<forall>s\<in>set fs. c_string s" "fs \<noteq> []" "length (message fs) < EVENT_MSG_LEN"
  shows "uevent_loop (message fs) (int (length (message fs))) = Some (plug_spec fs) \<and>
    (\<forall>msg len. length msg \<le> EVENT_MSG_LEN \<longrightarrow> uevent_loop msg len \<noteq> None)"
proof -
  let ?n = "length (message fs)"
  have pos: "0 < ?n" using assms(2) by (cases fs) (simp_all add: message_def)
  have n: "\<exists>m. EVENT_MSG_LEN + 2 - ?n = Suc (Suc m)"
    using assms(3) by (intro exI[of _ "EVENT_MSG_LEN - ?n"]) simp
  then obtain m where m: "EVENT_MSG_LEN + 2 - ?n = Suc (Suc m)" by blast
  have b: "uevent_buffer (message fs) ?n = message fs @ NUL # NUL # replicate m NUL"
    unfolding uevent_buffer_def m
    using update_two[of ?n "message fs @ replicate (Suc (Suc m)) NUL" NUL NUL] by simp
  have s: "stringInString (uevent_buffer (message fs) ?n) sub = Some (has_field fs sub)" if "NUL \<notin> set sub" for sub
    unfolding b has_field_def by (rule stringInString_message[OF assms(1) that])
  have "plug_of (uevent_buffer (message fs) ?n) = Some (plug_spec fs)"
    using uevent_names_c[THEN s] by (auto simp: plug_of_def plug_spec_def)
  then show ?thesis using pos assms(3) uevent_in_bounds by (simp add: uevent_loop_def)
qed

definition drm_event :: "string list" where
  "drm_event = [''change@/devices/drm/card0'', ''DEVTYPE=drm_minor'', ''HOTPLUG=1'']"

theorem uevent_exact_witness:
  "uevent_loop (message drm_event) (int (length (message drm_event))) = Some KmsPlug"
proof -
  have c: "\<forall>s\<in>set drm_event. c_string s" "drm_event \<noteq> []" "length (message drm_event) < EVENT_MSG_LEN"
    by (simp_all add: drm_event_def c_string_def message_def EVENT_MSG_LEN_def)
  have "plug_spec drm_event = KmsPlug"
    by (simp add: plug_spec_def has_field_def drm_event_def uevent_names)
  with uevent_exact[OF c] show ?thesis by simp
qed

end
