(* ===== verification/Display_Manager.thy ===== *)
theory Display_Manager
  imports Kms_Vsync Id_Pool Hotplug_Events "HOL-Library.Sublist"
begin

text \<open>
  \<open>DisplayManager\<close> and \<open>VirtualDisplay\<close> (\<open>display/display/DisplayManager.cpp\<close>, \<open>VirtualDisplay.cpp\<close>)
  in the mode of DRM: the displays of the device, which of them is the primary one, what happens when
  a connector is plugged, and the virtual displays.  All displays share one composer and with it the
  memory.  An index outside of an array, and a call through a null pointer, have no result.
\<close>

section \<open>State\<close>

definition MAX_PHYSICAL_DISPLAY :: nat where "MAX_PHYSICAL_DISPLAY = 10"
definition MAX_VIRTUAL_DISPLAY :: nat where "MAX_VIRTUAL_DISPLAY = 16"
definition DISPLAY_VIRTUAL :: int where "DISPLAY_VIRTUAL = 5"

record virtual_display =
  v_disp :: display
  v_conf :: config_state
  mBusy :: bool

datatype dm_event =
    OnHotplug nat bool
  | OnRefreshAll
  | CloseCard int
  | DisplayReady

record display_manager =
  mKmsDisplays :: "kms_sync list"
  mVirtualDisplays :: "virtual_display list"
  m_comp :: composer
  m_listener :: bool
  mDriverReady :: bool
  mDrmMode :: bool
  mFoundPrimaryPort :: bool
  mPrimaryIsFake :: bool
  m_events :: "dm_event list"

text \<open>
  What is outside: the libraries and the build option of \<open>openKms\<close>, \<open>dup\<close>, the kernel behind a
  descriptor, and the boot argument that names the primary display (empty when it is not set).
\<close>

record dm_env =
  dv_lib :: g2d_lib
  dv_bgrx :: bool
  dv_dup :: "int \<Rightarrow> int"
  dv_drm :: "int \<Rightarrow> drm"
  dv_primary :: string

text \<open>An entry of the directory of the devices, and what its device answers.\<close>

record card =
  c_name :: string
  c_fd :: int
  c_cap :: "nat \<Rightarrow> int"
  c_version :: "string option"
  c_connectors :: "u32 list option"

definition m_emit :: "dm_event list \<Rightarrow> display_manager \<Rightarrow> display_manager" where
  "m_emit es m = m\<lparr>m_events := m_events m @ es\<rparr>"

definition sync_at :: "nat \<Rightarrow> display_manager \<Rightarrow> kms_sync" where "sync_at i m = mKmsDisplays m ! i"
definition kms_at :: "nat \<Rightarrow> display_manager \<Rightarrow> kms" where "kms_at i m = y_kms (sync_at i m)"
definition disp_at :: "nat \<Rightarrow> display_manager \<Rightarrow> display" where "disp_at i m = k_disp (kms_at i m)"

definition upd_sync :: "nat \<Rightarrow> (kms_sync \<Rightarrow> kms_sync) \<Rightarrow> display_manager \<Rightarrow> display_manager" where
  "upd_sync i g m = m\<lparr>mKmsDisplays := (mKmsDisplays m)[i := g (mKmsDisplays m ! i)]\<rparr>"

definition upd_disp :: "nat \<Rightarrow> (display \<Rightarrow> display) \<Rightarrow> display_manager \<Rightarrow> display_manager" where
  "upd_disp i g = upd_sync i (\<lambda>y. y\<lparr>y_kms := (y_kms y)\<lparr>k_disp := g (k_disp (y_kms y))\<rparr>\<rparr>)"

text \<open>A call of a method of the display \<open>i\<close>, which works on the composer that all share.\<close>

definition kms_call :: "nat \<Rightarrow> (kms \<Rightarrow> (int \<times> kms) option) \<Rightarrow> display_manager \<Rightarrow> (int \<times> display_manager) option" where
  "kms_call i f m =
     (if i < length (mKmsDisplays m) then
        do { (r, k) \<leftarrow> f ((kms_at i m)\<lparr>k_disp := (disp_at i m)\<lparr>d_comp := m_comp m\<rparr>\<rparr>);
             Some (r, (upd_sync i (\<lambda>y. y\<lparr>y_kms := k\<rparr>) m)\<lparr>m_comp := d_comp (k_disp k)\<rparr>) }
      else None)"

definition drm_of :: "dm_env \<Rightarrow> kms \<Rightarrow> drm" where "drm_of env k = dv_drm env (mDrmFd k)"

definition dm_readType :: "dm_env \<Rightarrow> nat \<Rightarrow> display_manager \<Rightarrow> (int \<times> display_manager) option" where
  "dm_readType env i = kms_call i (\<lambda>k. Some (readType (drm_of env k) k))"

definition dm_readConnection :: "dm_env \<Rightarrow> nat \<Rightarrow> display_manager \<Rightarrow> (int \<times> display_manager) option" where
  "dm_readConnection env i = kms_call i (\<lambda>k. Some (readConnection (drm_of env k) k))"

definition dm_setPowerMode :: "dm_env \<Rightarrow> int \<Rightarrow> nat \<Rightarrow> display_manager \<Rightarrow> (int \<times> display_manager) option" where
  "dm_setPowerMode env mode i = kms_call i (\<lambda>k. Some (setPowerMode (drm_of env k) mode k))"

definition dm_openKms :: "dm_env \<Rightarrow> nat \<Rightarrow> display_manager \<Rightarrow> (int \<times> display_manager) option" where
  "dm_openKms env i = kms_call i (\<lambda>k. openKms (dv_lib env) (dv_bgrx env) (drm_of env k) k)"

definition dm_openFakeKms :: "dm_env \<Rightarrow> nat \<Rightarrow> display_manager \<Rightarrow> (int \<times> display_manager) option" where
  "dm_openFakeKms env i = kms_call i (\<lambda>k. openFakeKms (dv_lib env) (drm_of env k) k)"

definition dm_closeKms :: "dm_env \<Rightarrow> nat \<Rightarrow> display_manager \<Rightarrow> (int \<times> display_manager) option" where
  "dm_closeKms env i = kms_call i (closeKms (dv_lib env))"

section \<open>Displays by their number\<close>

datatype display_ref = KmsRef nat | FbRef nat | VirtualRef nat

definition getDisplay :: "int \<Rightarrow> display_manager \<Rightarrow> display_ref option" where
  "getDisplay i m =
     (if 0 \<le> i \<and> i < int MAX_PHYSICAL_DISPLAY then Some (if mDrmMode m then KmsRef (nat i) else FbRef (nat i))
      else if int MAX_PHYSICAL_DISPLAY \<le> i \<and> i < int (MAX_PHYSICAL_DISPLAY + MAX_VIRTUAL_DISPLAY)
        then Some (VirtualRef (nat i - MAX_PHYSICAL_DISPLAY))
      else None)"

definition getPhysicalDisplay :: "int \<Rightarrow> display_manager \<Rightarrow> display_ref option" where
  "getPhysicalDisplay i m =
     (if i < 0 \<or> i \<ge> int MAX_PHYSICAL_DISPLAY then None
      else Some (if mDrmMode m then KmsRef (nat i) else FbRef (nat i)))"

definition upd_virtual :: "nat \<Rightarrow> (virtual_display \<Rightarrow> virtual_display) \<Rightarrow> display_manager \<Rightarrow> display_manager" where
  "upd_virtual i g m = m\<lparr>mVirtualDisplays := (mVirtualDisplays m)[i := g (mVirtualDisplays m ! i)]\<rparr>"

definition v_connect :: "bool \<Rightarrow> virtual_display \<Rightarrow> virtual_display" where
  "v_connect b v = v\<lparr>v_disp := (v_disp v)\<lparr>mConnected := b\<rparr>\<rparr>"

definition virtual_index :: "int \<Rightarrow> nat option" where
  "virtual_index i =
     (if i < int MAX_PHYSICAL_DISPLAY \<or> i \<ge> int (MAX_PHYSICAL_DISPLAY + MAX_VIRTUAL_DISPLAY) then None
      else Some (nat i - MAX_PHYSICAL_DISPLAY))"

definition getVirtualDisplay :: "int \<Rightarrow> display_manager \<Rightarrow> nat option \<times> display_manager" where
  "getVirtualDisplay i m =
     (case virtual_index i of None \<Rightarrow> (None, m) | Some j \<Rightarrow> (Some j, upd_virtual j (v_connect True) m))"

section \<open>Virtual displays\<close>

definition VirtualDisplay_init :: "display \<Rightarrow> virtual_display" where
  "VirtualDisplay_init d = \<lparr>v_disp = d\<lparr>mType := DISPLAY_VIRTUAL\<rparr>, v_conf = configs_init, mBusy = False\<rparr>"

definition setBusy :: "bool \<Rightarrow> virtual_display \<Rightarrow> virtual_display" where
  "setBusy b v = v\<lparr>mBusy := b\<rparr>"

text \<open>\<open>VirtualDisplay::reset\<close>.\<close>

definition v_reset :: "virtual_display \<Rightarrow> virtual_display" where
  "v_reset v =
     (let d = snd (invalidLayers (v_disp v))
      in v\<lparr>v_disp := (d_emit (close_fence (mAcquireFence d)) d)\<lparr>mRenderTarget := None, mAcquireFence := -1\<rparr>,
           v_conf := (v_conf v)\<lparr>mConfigs := [], mActiveConfig := -1\<rparr>\<rparr>)"

text \<open>
  \<open>createVirtualDisplay\<close> without interference; and its steps, between which another thread may run:
  the test of \<open>busy\<close> and the calls that follow take the lock separately.
\<close>

definition createVirtualDisplay :: "display_manager \<Rightarrow> nat option \<times> display_manager" where
  "createVirtualDisplay m =
     (case first_index (\<lambda>v. \<not> mBusy v) (mVirtualDisplays m) of
        None \<Rightarrow> (None, m)
      | Some i \<Rightarrow> (Some i, upd_virtual i (\<lambda>v. v_connect True (setBusy True v)) m))"

datatype create_pc = Probe nat | Claim nat | Created "nat option"

definition create_step :: "create_pc \<Rightarrow> display_manager \<Rightarrow> create_pc \<times> display_manager" where
  "create_step pc m =
     (case pc of
        Probe i \<Rightarrow> (if i \<ge> length (mVirtualDisplays m) then Created None
                    else if mBusy (mVirtualDisplays m ! i) then Probe (Suc i) else Claim i, m)
      | Claim i \<Rightarrow> (Created (Some i), upd_virtual i (\<lambda>v. v_connect True (setBusy True v)) m)
      | Created r \<Rightarrow> (Created r, m))"

definition destroyVirtualDisplay :: "int \<Rightarrow> display_manager \<Rightarrow> int \<times> display_manager" where
  "destroyVirtualDisplay i m =
     (case virtual_index i of
        None \<Rightarrow> (- EINVAL, m)
      | Some j \<Rightarrow>
          (0, upd_virtual j (\<lambda>v. setBusy False
                 (let v1 = v_reset (v_connect False v) in v1\<lparr>v_conf := clearConfigs (v_conf v1)\<rparr>)) m))"

section \<open>The primary display\<close>

definition setCallback :: "bool \<Rightarrow> display_manager \<Rightarrow> display_manager" where
  "setCallback b m =
     (let m1 = m\<lparr>m_listener := b\<rparr>
      in if mDrmMode m then upd_disp 0 (\<lambda>d. d\<lparr>mListener := b\<rparr>) m1 else m1)"

definition copy_layers :: "display \<Rightarrow> display \<Rightarrow> display" where
  "copy_layers src dst =
     fold (\<lambda>i d. case getLayer (int i) src of None \<Rightarrow> d | Some j \<Rightarrow> setLayerInfo (int i) (mLayers src ! j) d)
       [0..<MAX_LAYERS] dst"

definition setPrimaryDisplay :: "dm_env \<Rightarrow> nat \<Rightarrow> display_manager \<Rightarrow> display_manager option" where
  "setPrimaryDisplay env i m =
     (if i \<ge> length (mKmsDisplays m) then None
      else
        (let m1 = m\<lparr>mKmsDisplays := (mKmsDisplays m)[0 := mKmsDisplays m ! i, i := mKmsDisplays m ! 0]\<rparr>;
             m2 = upd_disp i (\<lambda>d. d\<lparr>mIndex := int i\<rparr>) (upd_disp 0 (\<lambda>d. d\<lparr>mIndex := 0\<rparr>) m1);
             m3 = upd_disp 0 (\<lambda>d. d\<lparr>mListener := m_listener m\<rparr>) m2;
             m4 = upd_disp 0 (copy_layers (disp_at i m3)) m3
         in map_option snd (dm_closeKms env i m4)))"

definition enumFakeKmsDisplay :: "dm_env \<Rightarrow> display_manager \<Rightarrow> display_manager option" where
  "enumFakeKmsDisplay env m =
     do { (r, m1) \<leftarrow> dm_openFakeKms env 0 m;
          m2 \<leftarrow> (if r \<noteq> 0 then map_option snd (dm_closeKms env 0 m1) else Some m1);
          Some (m2\<lparr>mPrimaryIsFake := True\<rparr>) }"

section \<open>Enumeration\<close>

text \<open>
  The loop of \<open>enumKmsDisplay\<close> over the connectors of a device.  \<open>here\<close> says that the device is the one
  of the primary display, \<open>found\<close> that the primary display is known.
\<close>

fun enum_connectors ::
    "dm_env \<Rightarrow> int \<Rightarrow> bool \<Rightarrow> int \<Rightarrow> u32 list \<Rightarrow> nat \<Rightarrow> bool \<Rightarrow> display_manager \<Rightarrow> (nat \<times> bool \<times> display_manager) option" where
  "enum_connectors env fd here tile [] n found m = Some (n, found, m)"
| "enum_connectors env fd here tile (c # cs) n found m =
     do { (r, m1) \<leftarrow> kms_call n (\<lambda>k. Some (setDrm (dv_dup env) fd c k)) m;
          if r \<noteq> 0 then enum_connectors env fd here tile cs n found m1
          else do {
            (_, m2) \<leftarrow> dm_readType env n (upd_disp n (\<lambda>d. d\<lparr>mTileHwLimit := tile\<rparr>) m1);
            (_, m3) \<leftarrow> dm_readConnection env n m2;
            if \<not> mConnected (disp_at n m3) \<and> (found \<or> \<not> here) then enum_connectors env fd here tile cs (Suc n) found m3
            else do {
              (r', m4) \<leftarrow> dm_openKms env n m3;
              if r' \<noteq> 0 then do { (_, m5) \<leftarrow> dm_closeKms env n m4; enum_connectors env fd here tile cs (Suc n) found m5 }
              else if \<not> found \<and> here
                then do { m5 \<leftarrow> setPrimaryDisplay env n m4; enum_connectors env fd here tile cs n True m5 }
              else enum_connectors env fd here tile cs (Suc n) found m4 } } }"

definition drm_versions :: "string list" where
  "drm_versions = [''imx-drm'', ''mxsfb-drm'', ''imx-dcss'', ''imx-dcnano'']"

text \<open>\<open>strncmp(a, b, n) == 0\<close> on strings without a NUL.\<close>

definition strncmp_eq :: "string \<Rightarrow> string \<Rightarrow> nat \<Rightarrow> bool" where
  "strncmp_eq a b n \<longleftrightarrow> take n a = take n b"

definition is_primary_card :: "string \<Rightarrow> string \<Rightarrow> bool" where
  "is_primary_card arg version \<longleftrightarrow>
     arg \<noteq> [] \<and> (case find (\<lambda>v. strncmp_eq arg v (length v)) drm_versions of
                   None \<Rightarrow> False | Some v \<Rightarrow> strncmp_eq version v (length arg))"

definition enumKmsDisplay ::
    "dm_env \<Rightarrow> card \<Rightarrow> nat \<times> bool \<times> display_manager \<Rightarrow> (nat \<times> bool \<times> display_manager) option" where
  "enumKmsDisplay env c st =
     (let (n, found, m) = st; fd = c_fd c
      in if fd < 0 then Some (n, found, m)
         else if c_cap c 2 \<noteq> 0 \<or> c_cap c 3 \<noteq> 0 then Some (n, found, m_emit [CloseCard fd] m)
         else
           (let here = (case c_version c of None \<Rightarrow> False | Some v \<Rightarrow> is_primary_card (dv_primary env) v);
                tile = (case c_version c of None \<Rightarrow> 0
                          | Some v \<Rightarrow> if strncmp_eq v ''mxsfb-drm'' (length ''mxsfb-drm'') then 1 else 0);
                m1 = (if c_version c \<noteq> None then m\<lparr>mDrmMode := True\<rparr> else m);
                m2 = (if here then m1\<lparr>mFoundPrimaryPort := True\<rparr> else m1)
            in case c_connectors c of
                 None \<Rightarrow> Some (n, found, m_emit [CloseCard fd] m2)
               | Some cs \<Rightarrow> do { (n', found', m3) \<leftarrow> enum_connectors env fd here tile cs n found m2;
                                Some (n', found', m_emit [CloseCard fd] m3) }))"

fun enum_cards ::
    "dm_env \<Rightarrow> card list \<Rightarrow> nat \<times> bool \<times> display_manager \<Rightarrow> (nat \<times> bool \<times> display_manager) option" where
  "enum_cards env [] st = Some st"
| "enum_cards env (c # cs) st =
     (if strncmp_eq (c_name c) ''card'' 4 then do { st' \<leftarrow> enumKmsDisplay env c st; enum_cards env cs st' }
      else enum_cards env cs st)"

text \<open>
  \<open>enumKmsDisplays\<close>; \<open>cards\<close> are the entries of the directory, in the order of \<open>alphasort\<close>, or \<open>None\<close>
  when it cannot be read.
\<close>

definition first_connected :: "display_manager \<Rightarrow> nat option" where
  "first_connected m = find (\<lambda>i. mConnected (disp_at i m)) [1..<MAX_PHYSICAL_DISPLAY]"

definition enumKmsDisplays :: "dm_env \<Rightarrow> card list option \<Rightarrow> display_manager \<Rightarrow> (int \<times> display_manager) option" where
  "enumKmsDisplays env cards m =
     (case cards of
        None \<Rightarrow> Some (- EINVAL, m)
      | Some cs \<Rightarrow> do {
          (_, found, m1) \<leftarrow> enum_cards env cs (1, False, m);
          (found', m2) \<leftarrow> (if mFoundPrimaryPort m1 then Some (found, m1)
            else case first_connected m1 of
                   Some i \<Rightarrow> map_option (\<lambda>m'. (True, m')) (setPrimaryDisplay env (nat (mIndex (disp_at i m1))) m1)
                 | None \<Rightarrow> Some (found, if dv_primary env \<noteq> [] then m1\<lparr>mDrmMode := True\<rparr> else m1));
          m3 \<leftarrow> (if found' then Some (m2\<lparr>mDriverReady := True\<rparr>)
                 else if mDrmMode m2 then map_option (\<lambda>m'. m'\<lparr>mDriverReady := False\<rparr>) (enumFakeKmsDisplay env m2)
                 else Some m2);
          Some (0, m3) })"

section \<open>Hotplug\<close>

text \<open>\<open>handleKmsHotplug\<close>, for the display at \<open>i\<close>.\<close>

definition plugged_in :: "dm_env \<Rightarrow> nat \<Rightarrow> display_manager \<Rightarrow> (nat \<times> display_manager) option" where
  "plugged_in env i m =
     do { (n, m1) \<leftarrow> (if mPrimaryIsFake m
                      then map_option (\<lambda>m'. (0, m'\<lparr>mPrimaryIsFake := False\<rparr>)) (setPrimaryDisplay env i m)
                      else if i = 0 then map_option (\<lambda>(_, m'). (0, m')) (dm_closeKms env 0 m)
                      else Some (i, m));
          (_, m2) \<leftarrow> dm_setPowerMode env POWER_ON n m1;
          (_, m3) \<leftarrow> dm_openKms env n m2;
          Some (n, m3) }"

definition plugged_out :: "dm_env \<Rightarrow> nat \<Rightarrow> display_manager \<Rightarrow> display_manager option" where
  "plugged_out env i m =
     do { (_, m1) \<leftarrow> dm_closeKms env i m;
          (_, m2) \<leftarrow> dm_setPowerMode env POWER_OFF i m1;
          if i = 0 then map_option snd (dm_openFakeKms env 0 m2) else Some m2 }"

definition hotplug_display :: "dm_env \<Rightarrow> nat \<Rightarrow> display_manager \<Rightarrow> display_manager option" where
  "hotplug_display env i m =
     do { (_, m1) \<leftarrow> dm_readConnection env i m;
          if mConnected (disp_at i m1) = mConnected (disp_at i m) then Some m1
          else do {
            (n, m2) \<leftarrow> (if mConnected (disp_at i m1) then plugged_in env i m1
                        else map_option (\<lambda>m'. (i, m')) (plugged_out env i m1));
            let connected = mConnected (disp_at n m2);
            let m3 = (if n = 0 then upd_sync 0 (setFakeVSync (\<not> connected)) m2 else m2);
            if \<not> m_listener m then None
            else Some (m_emit [OnHotplug n (n = 0 \<or> connected)] m3) } }"

fun hotplug_displays :: "dm_env \<Rightarrow> nat list \<Rightarrow> display_manager \<Rightarrow> display_manager option" where
  "hotplug_displays env [] m = Some m"
| "hotplug_displays env (i # is) m = do { m' \<leftarrow> hotplug_display env i m; hotplug_displays env is m' }"

definition handleKmsHotplug :: "dm_env \<Rightarrow> display_manager \<Rightarrow> display_manager option" where
  "handleKmsHotplug env = hotplug_displays env [0..<MAX_PHYSICAL_DISPLAY]"

text \<open>What \<open>PollFileThread\<close> does when a device appears; it runs only in the mode of DRM.\<close>

definition card_created :: "dm_env \<Rightarrow> card list option \<Rightarrow> display_manager \<Rightarrow> display_manager option" where
  "card_created env cards m =
     do { (_, m1) \<leftarrow> enumKmsDisplays env cards m;
          let m2 = upd_sync 0 (\<lambda>y. setVsyncEnabled True (enableVsync y)) m1;
          let m3 = (if m_listener m2
                    then m_emit (OnHotplug 0 True # OnRefreshAll #
                           map (\<lambda>i. OnHotplug i True) (filter (\<lambda>i. mConnected (disp_at i m2)) [1..<MAX_PHYSICAL_DISPLAY])) m2
                    else m2);
          Some (m_emit [DisplayReady] m3) }"

text \<open>The constructor, as far as it concerns these displays.\<close>

definition displays_init :: "(nat \<Rightarrow> kms) \<Rightarrow> (nat \<Rightarrow> display) \<Rightarrow> composer \<Rightarrow> display_manager" where
  "displays_init ks vs c =
     \<lparr>mKmsDisplays = map (\<lambda>i. sync_init ((ks i)\<lparr>k_disp := (k_disp (ks i))\<lparr>mIndex := int i\<rparr>\<rparr>)) [0..<MAX_PHYSICAL_DISPLAY],
      mVirtualDisplays = map (\<lambda>i. VirtualDisplay_init ((vs i)\<lparr>mIndex := int (i + MAX_PHYSICAL_DISPLAY)\<rparr>)) [0..<MAX_VIRTUAL_DISPLAY],
      m_comp = c, m_listener = False, mDriverReady = True, mDrmMode = False, mFoundPrimaryPort = False,
      mPrimaryIsFake = False, m_events = []\<rparr>"

definition DisplayManager_init :: "dm_env \<Rightarrow> card list option \<Rightarrow> (nat \<Rightarrow> kms) \<Rightarrow> (nat \<Rightarrow> display) \<Rightarrow> composer \<Rightarrow> display_manager option" where
  "DisplayManager_init env cards ks vs c =
     do { (_, m1) \<leftarrow> enumKmsDisplays env cards (displays_init ks vs c);
          let m2 = (if mDriverReady m1 then m_emit [DisplayReady] m1 else m1);
          Some (if mDrmMode m2
                then upd_sync 0 (\<lambda>y. (if mConnected (k_disp (y_kms y)) then id else setFakeVSync True) (enableVsync y)) m2
                else m2) }"

end
