(* ===== verification/Manager_Spec.thy ===== *)
theory Manager_Spec
  imports Display_Manager
begin

text \<open>
  What holds of the displays of a \<open>DisplayManager\<close>: a display is found at the place of its index, a
  virtual display belongs to the one who created it, and the listener hears of a display exactly
  when its connection changed.
\<close>

section \<open>What the calls of a display keep\<close>

definition same_disp :: "kms \<Rightarrow> kms \<Rightarrow> bool" where
  "same_disp k k' \<longleftrightarrow> mIndex (k_disp k') = mIndex (k_disp k) \<and> mConnected (k_disp k') = mConnected (k_disp k) \<and>
     mListener (k_disp k') = mListener (k_disp k) \<and> mLayers (k_disp k') = mLayers (k_disp k)"

lemma same_disp_refl [simp]: "same_disp k k"
  by (simp add: same_disp_def)

lemma same_disp_trans [trans]: "same_disp k1 k2 \<Longrightarrow> same_disp k2 k3 \<Longrightarrow> same_disp k1 k3"
  by (simp add: same_disp_def)

lemma same_disp_mem [simp]: "same_disp k (with_mem w k') = same_disp k k'"
  by (simp add: same_disp_def with_mem_def)

lemma same_disp_k_disp: "k_disp k' = k_disp k \<Longrightarrow> same_disp k k'"
  by (simp add: same_disp_def)

lemma same_disp_upd [simp]:
  "same_disp k (k'\<lparr>k_conf := c\<rparr>) = same_disp k k'" "same_disp k (k'\<lparr>mTargets := ts\<rparr>) = same_disp k k'"
  "same_disp k (k'\<lparr>mTargetIndex := n\<rparr>) = same_disp k k'" "same_disp k (k'\<lparr>mSecTargets := ts\<rparr>) = same_disp k k'"
  "same_disp k (k'\<lparr>mSecTargetIndex := n\<rparr>) = same_disp k k'" "same_disp k (k'\<lparr>mConfigThread := b\<rparr>) = same_disp k k'"
  "same_disp k (k'\<lparr>mEdid := e\<rparr>) = same_disp k k'" "same_disp k (k'\<lparr>mCustomizeUI := ui\<rparr>) = same_disp k k'"
  "same_disp k (k'\<lparr>mEncoderType := x\<rparr>) = same_disp k k'" "same_disp k (k'\<lparr>mAllowModifier := b\<rparr>) = same_disp k k'"
  "same_disp k (k'\<lparr>mKmsPlaneNum := n\<rparr>) = same_disp k k'" "same_disp k (k'\<lparr>mKmsPlanes := ps\<rparr>) = same_disp k k'"
  "same_disp k (k'\<lparr>mBackupConfig := bc\<rparr>) = same_disp k k'" "same_disp k (getKmsProperty ke k') = same_disp k k'"
  "same_disp k (find_crtc p cs k') = same_disp k k'" "same_disp k (k'\<lparr>k_disp := (k_disp k')\<lparr>d_comp := dc\<rparr>\<rparr>) = same_disp k k'"
  "same_disp k (k'\<lparr>k_disp := (k_disp k')\<lparr>mType := x\<rparr>\<rparr>) = same_disp k k'"
  by (simp_all add: same_disp_def)

lemma prepareTargets_disp:
  assumes "prepareTargetsLocked lib k = Some k'"
  shows "same_disp k k'"
  using assms unfolding prepareTargetsLocked_def Let_def case_prod_beta
  by (auto simp: bind_eq_Some_conv split: if_split_asm)

lemma releaseTargets_disp:
  assumes "releaseTargetsLocked lib k = Some k'"
  shows "same_disp k k'"
  using assms unfolding releaseTargetsLocked_def Let_def by (auto split: if_split_asm)

lemma getPrimaryPlane_disp: "getPrimaryPlane ke k = Some (r, k') \<Longrightarrow> same_disp k k'"
  using getPrimaryPlane_conf by (blast intro: same_disp_k_disp)

lemma open_connector_disp:
  assumes "open_connector lib bgrx ke crtcs conn k = Some (r, k')"
  shows "same_disp k k'"
proof -
  obtain e es where e: "dc_encoders conn = e # es" using assms by (auto simp: open_connector_def split: list.split_asm)
  show ?thesis
  proof (cases "ke_encoder ke e")
    case None
    then show ?thesis using assms e by (simp add: open_connector_def)
  next
    case (Some pe)
    obtain possible etype where pe: "pe = (possible, etype)" by fastforce
    obtain conf where conf: "getDisplayMode (property_get ke ''ro.boot.displaymode'' ''p'') (dc_modes conn) (k_conf k) = Some conf"
      using assms e Some pe by (auto simp: open_connector_def bind_eq_Some_conv)
    let ?k1 = "find_crtc possible crtcs (k\<lparr>k_conf := conf\<rparr>)"
    show ?thesis
    proof (cases "mCrtcID ?k1 = 0")
      case True
      then have "k' = ?k1" using assms e Some pe conf by (auto simp: open_connector_def Let_def)
      then show ?thesis by simp
    next
      case False
      obtain r2 k2 where k2: "getPrimaryPlane ke (?k1\<lparr>mEncoderType := etype\<rparr>) = Some (r2, k2)"
        using assms e Some pe conf False by (auto simp: open_connector_def Let_def bind_eq_Some_conv)
      have d2: "same_disp k k2" using getPrimaryPlane_disp[OF k2] by (auto simp: same_disp_def)
      obtain plane where plane: "ke_plane ke (plane_id (mKmsPlanes (getKmsProperty ke k2) ! 0)) = Some plane"
        using assms e Some pe conf False k2 by (auto simp: open_connector_def Let_def bind_eq_Some_conv)
      show ?thesis
        using assms e Some pe conf False k2 plane d2 prepareTargets_disp
        by (auto simp: open_connector_def Let_def bind_eq_Some_conv split: if_split_asm dest!: prepareTargets_disp)
           (auto simp: same_disp_def)
    qed
  qed
qed

lemma openKms_disp:
  assumes "openKms lib bgrx ke k = Some (r, k')"
  shows "same_disp k k'"
proof (cases "\<exists>crtcs conn b. open_connector lib bgrx ke crtcs conn (k\<lparr>mAllowModifier := b\<rparr>) = Some (r, k')")
  case True
  then show ?thesis using open_connector_disp by (fastforce simp: same_disp_def)
next
  case False
  then have "k' = k \<or> (\<exists>b. k' = k\<lparr>mAllowModifier := b\<rparr>)"
    using assms unfolding openKms_def Let_def by (auto split: if_split_asm option.split_asm)
  then show ?thesis by auto
qed

lemma closeKms_disp:
  assumes "closeKms lib k = Some (r, k')"
  shows "same_disp k k'"
proof -
  obtain k1 where k1: "releaseTargetsLocked lib k1 = Some k'" "same_disp k k1"
    using assms unfolding closeKms_def Let_def by (fastforce simp: same_disp_def d_emit_def)
  show ?thesis using same_disp_trans[OF k1(2) releaseTargets_disp[OF k1(1)]] .
qed

lemma openFakeKms_disp:
  assumes "openFakeKms lib ke k = Some (r, k')"
  shows "same_disp k k'"
proof -
  obtain w h rate q where p: "parseDisplayMode (property_get ke ''ro.boot.displaymode'' ''p'') = Some (w, h, rate, q)"
    using assms by (auto simp: openFakeKms_def bind_eq_Some_conv)
  show ?thesis
    using assms unfolding openFakeKms_def p Let_def case_prod_beta
    by (auto split: if_split_asm dest!: prepareTargets_disp) (auto simp: same_disp_def)
qed

lemma setPowerMode_disp: "same_disp k (snd (setPowerMode ke mode k))"
  by (rule same_disp_k_disp) (simp add: setPowerMode_def Let_def k_emit_def)

lemma setDrm_disp: "same_disp k (snd (setDrm dup fd c k))"
  by (rule same_disp_k_disp) (simp add: setDrm_def k_emit_def)

lemma readType_disp: "same_disp k (snd (readType ke k))"
  by (simp add: readType_def same_disp_def split: option.split)


section \<open>The place of a display\<close>

definition keeps_index :: "display_manager \<Rightarrow> display_manager \<Rightarrow> bool" where
  "keeps_index m m' \<longleftrightarrow> length (mKmsDisplays m') = length (mKmsDisplays m) \<and>
     (\<forall>i<length (mKmsDisplays m). mIndex (disp_at i m') = mIndex (disp_at i m)) \<and> mVirtualDisplays m' = mVirtualDisplays m"

lemma keeps_index_refl [simp]: "keeps_index m m"
  by (simp add: keeps_index_def)

lemma keeps_index_trans [trans]: "keeps_index m1 m2 \<Longrightarrow> keeps_index m2 m3 \<Longrightarrow> keeps_index m1 m3"
  by (simp add: keeps_index_def)

definition dm_ok :: "display_manager \<Rightarrow> bool" where
  "dm_ok m \<longleftrightarrow> length (mKmsDisplays m) = MAX_PHYSICAL_DISPLAY \<and> length (mVirtualDisplays m) = MAX_VIRTUAL_DISPLAY \<and>
     (\<forall>i<MAX_PHYSICAL_DISPLAY. mIndex (disp_at i m) = int i) \<and>
     (\<forall>i<MAX_VIRTUAL_DISPLAY. mIndex (v_disp (mVirtualDisplays m ! i)) = int (i + MAX_PHYSICAL_DISPLAY))"

lemma dm_ok_keeps: "dm_ok m \<Longrightarrow> keeps_index m m' \<Longrightarrow> dm_ok m'"
  by (simp add: dm_ok_def keeps_index_def)

text \<open>A call on one display leaves the others alone.\<close>

definition only :: "nat \<Rightarrow> display_manager \<Rightarrow> display_manager \<Rightarrow> bool" where
  "only i m m' \<longleftrightarrow> length (mKmsDisplays m') = length (mKmsDisplays m) \<and> (\<forall>j. j \<noteq> i \<longrightarrow> sync_at j m' = sync_at j m) \<and>
     mVirtualDisplays m' = mVirtualDisplays m \<and> m_listener m' = m_listener m \<and> mPrimaryIsFake m' = mPrimaryIsFake m \<and>
     m_events m' = m_events m \<and> mDrmMode m' = mDrmMode m"

lemma only_refl [simp]: "only i m m"
  by (simp add: only_def)

lemma only_trans [trans]: "only i m1 m2 \<Longrightarrow> only i m2 m3 \<Longrightarrow> only i m1 m3"
  by (simp add: only_def)

lemma only_upd_sync [simp]: "only i m (upd_sync i g m)"
  by (simp add: only_def upd_sync_def sync_at_def)

lemma only_upd_disp [simp]: "only i m (upd_disp i g m)"
  by (simp add: upd_disp_def)

lemma kms_at_upd [simp]:
  "i < length (mKmsDisplays m) \<Longrightarrow> kms_at i (upd_sync i g m) = y_kms (g (sync_at i m))"
  "i < length (mKmsDisplays m) \<Longrightarrow> disp_at i (upd_disp i h m) = h (disp_at i m)"
  by (simp_all add: upd_sync_def upd_disp_def kms_at_def sync_at_def disp_at_def)

lemma only_index:
  "only i m m' \<Longrightarrow> mIndex (disp_at i m') = mIndex (disp_at i m) \<Longrightarrow> keeps_index m m'"
  by (auto simp: only_def keeps_index_def disp_at_def kms_at_def)

lemma kms_call_cases:
  assumes "kms_call i f m = Some (r, m')"
  obtains k k' where "i < length (mKmsDisplays m)" "k = (kms_at i m)\<lparr>k_disp := (disp_at i m)\<lparr>d_comp := m_comp m\<rparr>\<rparr>"
    "f k = Some (r, k')" "m' = (upd_sync i (\<lambda>y. y\<lparr>y_kms := k'\<rparr>) m)\<lparr>m_comp := d_comp (k_disp k')\<rparr>"
  using assms by (auto simp: kms_call_def bind_eq_Some_conv split: if_split_asm)

lemma kms_call_only:
  assumes "kms_call i f m = Some (r, m')"
  shows "only i m m' \<and> (\<exists>k k'. k = (kms_at i m)\<lparr>k_disp := (disp_at i m)\<lparr>d_comp := m_comp m\<rparr>\<rparr> \<and> f k = Some (r, k') \<and>
    kms_at i m' = k' \<and> i < length (mKmsDisplays m))"
  by (rule kms_call_cases[OF assms])
     (auto simp: only_def upd_sync_def sync_at_def kms_at_def)

lemma kms_call_same:
  assumes "kms_call i f m = Some (r, m')" "\<And>k r k'. f k = Some (r, k') \<Longrightarrow> same_disp k k'"
  shows "only i m m'" "same_disp (kms_at i m) (kms_at i m')" "keeps_index m m'"
proof -
  obtain k k' where k: "k = (kms_at i m)\<lparr>k_disp := (disp_at i m)\<lparr>d_comp := m_comp m\<rparr>\<rparr>" "f k = Some (r, k')"
    "kms_at i m' = k'" "only i m m'"
    using kms_call_only[OF assms(1)] by blast
  have "same_disp (kms_at i m) k'"
    using assms(2)[OF k(2)] unfolding k(1) by (simp add: same_disp_def disp_at_def)
  then show "only i m m'" "same_disp (kms_at i m) (kms_at i m')" using k by simp_all
  then show "keeps_index m m'" by (intro only_index[of i]) (simp_all add: same_disp_def disp_at_def)
qed

lemma readConnection_index: "mIndex (k_disp (snd (readConnection ke k))) = mIndex (k_disp k)"
  by (simp add: readConnection_def Let_def split: option.split)

lemma dm_openKms_same:
  assumes "dm_openKms env i m = Some (r, m')"
  shows "only i m m'" "same_disp (kms_at i m) (kms_at i m')" "keeps_index m m'"
  by (rule kms_call_same[OF assms[unfolded dm_openKms_def] openKms_disp], assumption)+

lemma dm_closeKms_same:
  assumes "dm_closeKms env i m = Some (r, m')"
  shows "only i m m'" "same_disp (kms_at i m) (kms_at i m')" "keeps_index m m'"
  by (rule kms_call_same[OF assms[unfolded dm_closeKms_def] closeKms_disp], assumption)+

lemma dm_openFakeKms_same:
  assumes "dm_openFakeKms env i m = Some (r, m')"
  shows "only i m m'" "same_disp (kms_at i m) (kms_at i m')" "keeps_index m m'"
  by (rule kms_call_same[OF assms[unfolded dm_openFakeKms_def] openFakeKms_disp], assumption)+

lemma dm_setPowerMode_same:
  assumes "dm_setPowerMode env mode i m = Some (r, m')"
  shows "only i m m'" "same_disp (kms_at i m) (kms_at i m')" "keeps_index m m'"
proof -
  have "same_disp k k'" if "Some (setPowerMode (drm_of env k) mode k) = Some (r, k')" for k r k'
    using that setPowerMode_disp[of k "drm_of env k" mode] by simp
  note s = kms_call_same[OF assms[unfolded dm_setPowerMode_def] this]
  show "only i m m'" "same_disp (kms_at i m) (kms_at i m')" "keeps_index m m'" by (rule s, assumption)+
qed

lemma dm_readType_same:
  assumes "dm_readType env i m = Some (r, m')"
  shows "only i m m'" "same_disp (kms_at i m) (kms_at i m')" "keeps_index m m'"
proof -
  have "same_disp k k'" if "Some (readType (drm_of env k) k) = Some (r, k')" for k r k'
    using that readType_disp[of k "drm_of env k"] by simp
  note s = kms_call_same[OF assms[unfolded dm_readType_def] this]
  show "only i m m'" "same_disp (kms_at i m) (kms_at i m')" "keeps_index m m'" by (rule s, assumption)+
qed

lemma dm_setDrm_same:
  assumes "kms_call i (\<lambda>k. Some (setDrm dup fd c k)) m = Some (r, m')"
  shows "only i m m'" "same_disp (kms_at i m) (kms_at i m')" "keeps_index m m'"
proof -
  have "same_disp k k'" if "Some (setDrm dup fd c k) = Some (r, k')" for k r k'
    using that setDrm_disp[of k dup fd c] by simp
  note s = kms_call_same[OF assms this]
  show "only i m m'" "same_disp (kms_at i m) (kms_at i m')" "keeps_index m m'" by (rule s, assumption)+
qed

text \<open>What the kernel says of the connection of a display.\<close>

definition plugged :: "dm_env \<Rightarrow> kms \<Rightarrow> bool" where
  "plugged env k = mConnected (k_disp (snd (readConnection (drm_of env k) k)))"

lemma readConnection_comp:
  "mConnected (k_disp (snd (readConnection ke (k\<lparr>k_disp := (k_disp k)\<lparr>d_comp := c\<rparr>\<rparr>)))) =
   mConnected (k_disp (snd (readConnection ke k)))"
  by (simp add: readConnection_def Let_def split: option.split)

lemma dm_readConnection_spec:
  assumes "dm_readConnection env i m = Some (r, m')"
  shows "only i m m'" "keeps_index m m'" "mConnected (disp_at i m') = plugged env (kms_at i m)"
proof -
  obtain k where k: "k = (kms_at i m)\<lparr>k_disp := (disp_at i m)\<lparr>d_comp := m_comp m\<rparr>\<rparr>"
    "kms_at i m' = snd (readConnection (drm_of env k) k)" "only i m m'"
    using kms_call_only[OF assms[unfolded dm_readConnection_def]] by fastforce
  show "only i m m'" by (rule k(3))
  have "mIndex (disp_at i m') = mIndex (disp_at i m)"
    using readConnection_index[of "drm_of env k" k] k(1,2) by (simp add: disp_at_def)
  then show "keeps_index m m'" by (rule only_index[OF k(3)])
  have "drm_of env k = drm_of env (kms_at i m)" by (simp add: k(1) drm_of_def)
  then show "mConnected (disp_at i m') = plugged env (kms_at i m)"
    using readConnection_comp[of "drm_of env (kms_at i m)" "m_comp m" "kms_at i m"] k(1,2)
    by (simp add: disp_at_def plugged_def)
qed


lemma disp_at_upd:
  "disp_at j (upd_disp i h m) = (if j = i \<and> i < length (mKmsDisplays m) then h (disp_at i m) else disp_at j m)"
  by (auto simp: upd_disp_def upd_sync_def disp_at_def kms_at_def sync_at_def list_update_beyond)

lemma upd_disp_size [simp]:
  "length (mKmsDisplays (upd_disp i h m)) = length (mKmsDisplays m)" "mVirtualDisplays (upd_disp i h m) = mVirtualDisplays m"
  "length (mKmsDisplays (upd_sync i g m)) = length (mKmsDisplays m)" "mVirtualDisplays (upd_sync i g m) = mVirtualDisplays m"
  by (simp_all add: upd_disp_def upd_sync_def)

lemma keeps_upd_disp: "(\<And>d. mIndex (h d) = mIndex d) \<Longrightarrow> keeps_index m (upd_disp i h m)"
  by (simp add: keeps_index_def disp_at_upd)

lemma keeps_upd_sync: "(\<And>y. mIndex (k_disp (y_kms (g y))) = mIndex (k_disp (y_kms y))) \<Longrightarrow> keeps_index m (upd_sync i g m)"
  by (cases "i < length (mKmsDisplays m)")
     (simp_all add: keeps_index_def disp_at_def kms_at_def sync_at_def upd_sync_def nth_list_update list_update_beyond)

lemma keeps_flags [simp]:
  "keeps_index m (m'\<lparr>mPrimaryIsFake := b\<rparr>) = keeps_index m m'" "keeps_index m (m'\<lparr>mDriverReady := b\<rparr>) = keeps_index m m'"
  "keeps_index m (m'\<lparr>mDrmMode := b\<rparr>) = keeps_index m m'" "keeps_index m (m'\<lparr>mFoundPrimaryPort := b\<rparr>) = keeps_index m m'"
  "keeps_index m (m_emit es m') = keeps_index m m'" "keeps_index m (m'\<lparr>m_listener := b\<rparr>) = keeps_index m m'"
  by (simp_all add: keeps_index_def disp_at_def kms_at_def sync_at_def m_emit_def)

lemma dm_ok_flags [simp]:
  "dm_ok (m\<lparr>mPrimaryIsFake := b\<rparr>) = dm_ok m" "dm_ok (m\<lparr>mDriverReady := b\<rparr>) = dm_ok m"
  "dm_ok (m\<lparr>mDrmMode := b\<rparr>) = dm_ok m" "dm_ok (m\<lparr>mFoundPrimaryPort := b\<rparr>) = dm_ok m"
  "dm_ok (m_emit es m) = dm_ok m" "dm_ok (m\<lparr>m_listener := b\<rparr>) = dm_ok m"
  by (simp_all add: dm_ok_def disp_at_def kms_at_def sync_at_def m_emit_def)

lemma copy_layers_index: "mIndex (copy_layers src dst) = mIndex dst"
proof -
  have "mIndex (fold (\<lambda>i d. case getLayer (int i) src of None \<Rightarrow> d | Some j \<Rightarrow> setLayerInfo (int i) (mLayers src ! j) d) is d) = mIndex d"
    for "is" :: "nat list" and d
    by (induction "is" arbitrary: d) (simp_all add: setLayerInfo_def set_layer_def split: option.split)
  then show ?thesis by (simp add: copy_layers_def)
qed

lemma setPrimaryDisplay_ok:
  assumes "dm_ok m" "setPrimaryDisplay env i m = Some m'"
  shows "dm_ok m'"
proof -
  let ?m1 = "m\<lparr>mKmsDisplays := (mKmsDisplays m)[0 := mKmsDisplays m ! i, i := mKmsDisplays m ! 0]\<rparr>"
  let ?m2 = "upd_disp i (\<lambda>d. d\<lparr>mIndex := int i\<rparr>) (upd_disp 0 (\<lambda>d. d\<lparr>mIndex := 0\<rparr>) ?m1)"
  let ?m3 = "upd_disp 0 (\<lambda>d. d\<lparr>mListener := m_listener m\<rparr>) ?m2"
  let ?m4 = "upd_disp 0 (copy_layers (disp_at i ?m3)) ?m3"
  have i: "i < MAX_PHYSICAL_DISPLAY" and n: "length (mKmsDisplays m) = MAX_PHYSICAL_DISPLAY"
    using assms by (simp_all add: setPrimaryDisplay_def dm_ok_def split: if_split_asm)
  have p: "0 < MAX_PHYSICAL_DISPLAY" by (simp add: MAX_PHYSICAL_DISPLAY_def)
  have d: "disp_at j ?m1 = (if j = i then disp_at 0 m else if j = 0 then disp_at i m else disp_at j m)"
    if "j < MAX_PHYSICAL_DISPLAY" for j
    using that i n p by (simp add: disp_at_def kms_at_def sync_at_def nth_list_update)
  have "mIndex (disp_at j ?m2) = int j" if "j < MAX_PHYSICAL_DISPLAY" for j
    using assms(1) that i n p d by (auto simp: disp_at_upd dm_ok_def)
  then have "dm_ok ?m2" using assms(1) n by (simp add: dm_ok_def)
  moreover have "keeps_index ?m2 ?m4"
    by (rule keeps_index_trans[of _ ?m3]) (simp_all add: keeps_upd_disp copy_layers_index)
  ultimately have "dm_ok ?m4" by (rule dm_ok_keeps)
  moreover obtain r where "dm_closeKms env i ?m4 = Some (r, m')"
    using assms(2) i n by (auto simp: setPrimaryDisplay_def Let_def)
  ultimately show ?thesis using dm_ok_keeps dm_closeKms_same(3) by blast
qed

lemma call_ok:
  "dm_openKms env i m = Some (r, m') \<Longrightarrow> dm_ok m \<Longrightarrow> dm_ok m'" "dm_closeKms env i m = Some (r, m') \<Longrightarrow> dm_ok m \<Longrightarrow> dm_ok m'"
  "dm_openFakeKms env i m = Some (r, m') \<Longrightarrow> dm_ok m \<Longrightarrow> dm_ok m'"
  "dm_setPowerMode env mode i m = Some (r, m') \<Longrightarrow> dm_ok m \<Longrightarrow> dm_ok m'"
  "dm_readType env i m = Some (r, m') \<Longrightarrow> dm_ok m \<Longrightarrow> dm_ok m'"
  "dm_readConnection env i m = Some (r, m') \<Longrightarrow> dm_ok m \<Longrightarrow> dm_ok m'"
  "kms_call i (\<lambda>k. Some (setDrm dup fd c k)) m = Some (r, m') \<Longrightarrow> dm_ok m \<Longrightarrow> dm_ok m'"
  by (blast intro: dm_ok_keeps dest: dm_openKms_same(3) dm_closeKms_same(3) dm_openFakeKms_same(3) dm_setPowerMode_same(3)
      dm_readType_same(3) dm_readConnection_spec(2) dm_setDrm_same(3))+

lemma limit_ok: "dm_ok m \<Longrightarrow> dm_ok (upd_disp i (\<lambda>d. d\<lparr>mTileHwLimit := t\<rparr>) m)"
  by (erule dm_ok_keeps) (simp add: keeps_upd_disp)

lemma enum_connectors_ok:
  assumes "enum_connectors env fd here tile cs n found m = Some (n', found', m')" "dm_ok m"
  shows "dm_ok m'"
  using assms
proof (induction env fd here tile cs n found m rule: enum_connectors.induct)
  case (2 env fd here tile c cs n found m)
  obtain r m1 where m1: "kms_call n (\<lambda>k. Some (setDrm (dv_dup env) fd c k)) m = Some (r, m1)"
    using "2.prems"(1) by (auto simp: bind_eq_Some_conv)
  have ok1: "dm_ok m1" using call_ok(7)[OF m1 "2.prems"(2)] .
  show ?case
  proof (cases "r = 0")
    case False
    then have "enum_connectors env fd here tile cs n found m1 = Some (n', found', m')"
      using "2.prems"(1) m1 by simp
    then show ?thesis using "2.IH"(1)[OF m1 refl] False ok1 by blast
  next
    case True
    let ?m1 = "upd_disp n (\<lambda>d. d\<lparr>mTileHwLimit := tile\<rparr>) m1"
    obtain r2 m2 where m2: "dm_readType env n ?m1 = Some (r2, m2)"
      using "2.prems"(1) m1 True by (auto simp: bind_eq_Some_conv)
    obtain r3 m3 where m3: "dm_readConnection env n m2 = Some (r3, m3)"
      using "2.prems"(1) m1 m2 True by (auto simp: bind_eq_Some_conv)
    have ok3: "dm_ok m3" using call_ok(6)[OF m3 call_ok(5)[OF m2 limit_ok[OF ok1]]] .
    show ?thesis
    proof (cases "\<not> mConnected (disp_at n m3) \<and> (found \<or> \<not> here)")
      case c: True
      then have "enum_connectors env fd here tile cs (Suc n) found m3 = Some (n', found', m')"
        using "2.prems"(1) m1 m2 m3 True by simp
      then show ?thesis using "2.IH"(2)[OF m1 refl _ m2 refl m3 refl c] True ok3 by blast
    next
      case c: False
      obtain r4 m4 where m4: "dm_openKms env n m3 = Some (r4, m4)"
        using "2.prems"(1) m1 m2 m3 True c by (auto simp: bind_eq_Some_conv)
      have ok4: "dm_ok m4" using call_ok(1)[OF m4 ok3] .
      show ?thesis
      proof (cases "r4 = 0")
        case False
        then obtain r5 m5 where m5: "dm_closeKms env n m4 = Some (r5, m5)"
          "enum_connectors env fd here tile cs (Suc n) found m5 = Some (n', found', m')"
          using "2.prems"(1) m1 m2 m3 m4 True c by (auto simp: bind_eq_Some_conv)
        then show ?thesis
          using "2.IH"(3)[OF m1 refl _ m2 refl m3 refl c m4 refl False m5(1) refl] True call_ok(2)[OF m5(1) ok4] by blast
      next
        case r4: True
        show ?thesis
        proof (cases "\<not> found \<and> here")
          case fh: True
          then obtain m5 where m5: "setPrimaryDisplay env n m4 = Some m5"
            "enum_connectors env fd here tile cs n True m5 = Some (n', found', m')"
            using "2.prems"(1) m1 m2 m3 m4 True c r4 by (auto simp: bind_eq_Some_conv)
          then show ?thesis
            using "2.IH"(4)[OF m1 refl _ m2 refl m3 refl c m4 refl _ fh m5(1)] True r4 setPrimaryDisplay_ok[OF ok4 m5(1)] by blast
        next
          case fh: False
          then have "enum_connectors env fd here tile cs (Suc n) found m4 = Some (n', found', m')"
            using "2.prems"(1) m1 m2 m3 m4 True c r4 by (auto simp: bind_eq_Some_conv)
          then show ?thesis using "2.IH"(5)[OF m1 refl _ m2 refl m3 refl c m4 refl _ fh] True r4 ok4 by blast
        qed
      qed
    qed
  qed
qed simp


lemma enumKmsDisplay_ok:
  assumes "enumKmsDisplay env c (n, found, m) = Some (n', found', m')" "dm_ok m"
  shows "dm_ok m'"
  using assms unfolding enumKmsDisplay_def Let_def
  by (auto simp: bind_eq_Some_conv split: if_split_asm option.split_asm dest!: enum_connectors_ok)

lemma enum_cards_ok:
  "enum_cards env cs st = Some (n', found', m') \<Longrightarrow> dm_ok (snd (snd st)) \<Longrightarrow> dm_ok m'"
proof (induction env cs st rule: enum_cards.induct)
  case (2 env c cs st)
  obtain n found m where st: "st = (n, found, m)" by (cases st)
  show ?case
  proof (cases "strncmp_eq (c_name c) ''card'' 4")
    case True
    then obtain st' where e: "enumKmsDisplay env c st = Some st'" "enum_cards env cs st' = Some (n', found', m')"
      using "2.prems"(1) by (auto simp: bind_eq_Some_conv)
    obtain n2 found2 m2 where st': "st' = (n2, found2, m2)" by (cases st')
    have "dm_ok m2" using enumKmsDisplay_ok[of env c n found m n2 found2 m2] e(1) st st' "2.prems"(2) by simp
    then show ?thesis using "2.IH"(1)[OF True e(1)] e(2) st' by simp
  next
    case False
    then show ?thesis using "2.IH"(2) "2.prems" by simp
  qed
qed simp

lemma enumFake_ok: "enumFakeKmsDisplay env m = Some m' \<Longrightarrow> dm_ok m \<Longrightarrow> dm_ok m'"
  unfolding enumFakeKmsDisplay_def
  by (auto simp: bind_eq_Some_conv split: if_split_asm dest: call_ok(2,3))

lemma enumKmsDisplays_ok:
  assumes "enumKmsDisplays env cards m = Some (r, m')" "dm_ok m"
  shows "dm_ok m'"
proof (cases cards)
  case None
  then show ?thesis using assms by (simp add: enumKmsDisplays_def)
next
  case (Some cs)
  obtain n found m1 where m1: "enum_cards env cs (1, False, m) = Some (n, found, m1)"
    using assms(1) Some by (auto simp: enumKmsDisplays_def bind_eq_Some_conv)
  have ok1: "dm_ok m1" using enum_cards_ok[OF m1] assms(2) by simp
  obtain found' m2 where m2: "(if mFoundPrimaryPort m1 then Some (found, m1)
            else case first_connected m1 of
                   Some i \<Rightarrow> map_option (\<lambda>m'. (True, m')) (setPrimaryDisplay env (nat (mIndex (disp_at i m1))) m1)
                 | None \<Rightarrow> Some (found, if dv_primary env \<noteq> [] then m1\<lparr>mDrmMode := True\<rparr> else m1)) = Some (found', m2)"
    using assms(1) Some m1 by (fastforce simp: enumKmsDisplays_def bind_eq_Some_conv)
  have ok2: "dm_ok m2" using m2 ok1 setPrimaryDisplay_ok[OF ok1] by (auto split: if_split_asm option.split_asm)
  have "(if found' then Some (m2\<lparr>mDriverReady := True\<rparr>)
                 else if mDrmMode m2 then map_option (\<lambda>m'. m'\<lparr>mDriverReady := False\<rparr>) (enumFakeKmsDisplay env m2)
                 else Some m2) = Some m'"
    using assms(1) Some m1 m2 by (simp add: enumKmsDisplays_def bind_eq_Some_conv)
  then show ?thesis using ok2 enumFake_ok by (auto split: if_split_asm)
qed

lemma setFakeVSync_index: "mIndex (k_disp (y_kms (setFakeVSync b y))) = mIndex (k_disp (y_kms y))"
  by (simp add: setFakeVSync_def)

lemma plugged_in_ok:
  assumes "plugged_in env i m = Some (n, m')" "dm_ok m"
  shows "dm_ok m'"
proof -
  let ?x = "if mPrimaryIsFake m then map_option (\<lambda>m'. (0, m'\<lparr>mPrimaryIsFake := False\<rparr>)) (setPrimaryDisplay env i m)
            else if i = 0 then map_option (\<lambda>(_, m'). (0, m')) (dm_closeKms env 0 m) else Some (i, m)"
  have "?x \<noteq> None" using assms(1) by (cases ?x) (auto simp: plugged_in_def)
  then obtain n1 m1 where m1: "?x = Some (n1, m1)" by (cases ?x) auto
  have ok1: "dm_ok m1"
    using m1 assms(2) setPrimaryDisplay_ok[OF assms(2)] call_ok(2)[OF _ assms(2)] by (auto split: if_split_asm)
  obtain r2 m2 r3 where "dm_setPowerMode env POWER_ON n1 m1 = Some (r2, m2)" "dm_openKms env n1 m2 = Some (r3, m')"
    using assms(1) m1 by (auto simp: plugged_in_def bind_eq_Some_conv)
  then show ?thesis using call_ok(1)[OF _ call_ok(4)[OF _ ok1]] by blast
qed

lemma plugged_out_ok:
  assumes "plugged_out env i m = Some m'" "dm_ok m"
  shows "dm_ok m'"
proof -
  obtain r1 m1 r2 m2 where m: "dm_closeKms env i m = Some (r1, m1)" "dm_setPowerMode env POWER_OFF i m1 = Some (r2, m2)"
    using assms(1) by (auto simp: plugged_out_def bind_eq_Some_conv)
  have ok2: "dm_ok m2" using call_ok(4)[OF m(2) call_ok(2)[OF m(1) assms(2)]] .
  then show ?thesis
    using assms(1) m call_ok(3)[OF _ ok2] by (auto simp: plugged_out_def split: if_split_asm)
qed

lemma hotplug_display_ok:
  assumes "hotplug_display env i m = Some m'" "dm_ok m"
  shows "dm_ok m'"
proof -
  obtain r m1 where m1: "dm_readConnection env i m = Some (r, m1)"
    using assms(1) by (auto simp: hotplug_display_def bind_eq_Some_conv)
  have ok1: "dm_ok m1" using call_ok(6)[OF m1 assms(2)] .
  show ?thesis
  proof (cases "mConnected (disp_at i m1) = mConnected (disp_at i m)")
    case True
    then show ?thesis using assms(1) m1 ok1 by (simp add: hotplug_display_def)
  next
    case False
    let ?x = "if mConnected (disp_at i m1) then plugged_in env i m1 else map_option (\<lambda>m'. (i, m')) (plugged_out env i m1)"
    have "?x \<noteq> None" using assms(1) m1 False by (cases ?x) (auto simp: hotplug_display_def)
    then obtain n m2 where m2: "?x = Some (n, m2)" by (cases ?x) auto
    have ok2: "dm_ok m2"
      using m2 plugged_in_ok[OF _ ok1] plugged_out_ok[OF _ ok1] by (auto split: if_split_asm)
    have "dm_ok (upd_sync 0 (setFakeVSync b) m2)" for b
      by (rule dm_ok_keeps[OF ok2 keeps_upd_sync]) (rule setFakeVSync_index)
    then show ?thesis
      using assms(1) m1 m2 False ok2 by (auto simp: hotplug_display_def Let_def split: if_split_asm)
  qed
qed

lemma hotplug_displays_ok:
  "hotplug_displays env is m = Some m' \<Longrightarrow> dm_ok m \<Longrightarrow> dm_ok m'"
  by (induction env "is" m rule: hotplug_displays.induct) (auto simp: bind_eq_Some_conv dest: hotplug_display_ok)

lemma enableVsync_index: "mIndex (k_disp (y_kms (setVsyncEnabled b (enableVsync y)))) = mIndex (k_disp (y_kms y))"
  "mIndex (k_disp (y_kms (enableVsync y))) = mIndex (k_disp (y_kms y))"
  by (simp_all add: setVsyncEnabled_def enableVsync_def)

lemma card_created_ok:
  assumes "card_created env cards m = Some m'" "dm_ok m"
  shows "dm_ok m'"
proof -
  obtain r m1 where m1: "enumKmsDisplays env cards m = Some (r, m1)"
    using assms(1) by (auto simp: card_created_def bind_eq_Some_conv)
  have "dm_ok (upd_sync 0 (\<lambda>y. setVsyncEnabled True (enableVsync y)) m1)"
    by (rule dm_ok_keeps[OF enumKmsDisplays_ok[OF m1 assms(2)] keeps_upd_sync]) (rule enableVsync_index)
  then show ?thesis using assms(1) m1 by (auto simp: card_created_def Let_def)
qed

lemma upd_virtual_ok:
  assumes "dm_ok m" "\<And>v. mIndex (v_disp (g v)) = mIndex (v_disp v)"
  shows "dm_ok (upd_virtual i g m)"
  using assms
  by (cases "i < length (mVirtualDisplays m)")
     (auto simp: dm_ok_def upd_virtual_def nth_list_update disp_at_def kms_at_def sync_at_def list_update_beyond)

lemma virtual_index_same [simp]:
  "mIndex (v_disp (v_connect b v)) = mIndex (v_disp v)" "mIndex (v_disp (setBusy b v)) = mIndex (v_disp v)"
  "mIndex (v_disp (v_reset v)) = mIndex (v_disp v)"
  by (simp_all add: v_connect_def setBusy_def v_reset_def invalidLayers_def d_emit_def Let_def)

lemma virtual_ok:
  "dm_ok m \<Longrightarrow> dm_ok (snd (getVirtualDisplay i m))" "dm_ok m \<Longrightarrow> dm_ok (snd (createVirtualDisplay m))"
  "dm_ok m \<Longrightarrow> dm_ok (snd (destroyVirtualDisplay i m))"
  by (auto simp: getVirtualDisplay_def createVirtualDisplay_def destroyVirtualDisplay_def Let_def intro!: upd_virtual_ok split: option.split)

lemma setCallback_ok: "dm_ok m \<Longrightarrow> dm_ok (setCallback b m)"
  using dm_ok_keeps[of "m\<lparr>m_listener := b\<rparr>", OF _ keeps_upd_disp] by (simp add: setCallback_def Let_def)

text \<open>
  The life of a \<open>DisplayManager\<close>: its own operations, and whatever is done to one of its displays that
  does not give it another index.
\<close>

inductive dm_step :: "display_manager \<Rightarrow> display_manager \<Rightarrow> bool" where
  dm_enum: "enumKmsDisplays env cards m = Some (r, m') \<Longrightarrow> dm_step m m'"
| dm_card: "card_created env cards m = Some m' \<Longrightarrow> dm_step m m'"
| dm_hotplug: "handleKmsHotplug env m = Some m' \<Longrightarrow> dm_step m m'"
| dm_callback: "dm_step m (setCallback b m)"
| dm_get: "dm_step m (snd (getVirtualDisplay i m))"
| dm_create: "dm_step m (snd (createVirtualDisplay m))"
| dm_destroy: "dm_step m (snd (destroyVirtualDisplay i m))"
| dm_display: "(\<And>y. mIndex (k_disp (y_kms (g y))) = mIndex (k_disp (y_kms y))) \<Longrightarrow> dm_step m (upd_sync i g m)"

inductive dm_reach :: "display_manager \<Rightarrow> bool" where
  dm_start: "DisplayManager_init env cards ks vs c = Some m \<Longrightarrow> dm_reach m"
| dm_next: "dm_reach m \<Longrightarrow> dm_step m m' \<Longrightarrow> dm_reach m'"

lemma displays_init_ok: "dm_ok (displays_init ks vs c)"
  by (simp add: dm_ok_def displays_init_def disp_at_def kms_at_def sync_at_def sync_init_def VirtualDisplay_init_def)

lemma dm_reach_ok: "dm_reach m \<Longrightarrow> dm_ok m"
proof (induction rule: dm_reach.induct)
  case (dm_start env cards ks vs c m)
  then obtain r m1 where m1: "enumKmsDisplays env cards (displays_init ks vs c) = Some (r, m1)"
    by (auto simp: DisplayManager_init_def bind_eq_Some_conv)
  have ok1: "dm_ok m1" by (rule enumKmsDisplays_ok[OF m1 displays_init_ok])
  have k: "keeps_index m' (upd_sync 0 (\<lambda>y. (if mConnected (k_disp (y_kms y)) then id else setFakeVSync True) (enableVsync y)) m')" for m'
    by (rule keeps_upd_sync) (simp add: setFakeVSync_index enableVsync_index)
  show ?case
    using dm_start m1 ok1 dm_ok_keeps[OF _ k]
    by (auto simp: DisplayManager_init_def bind_eq_Some_conv Let_def split: if_split_asm)
next
  case (dm_next m m')
  from dm_next.hyps(2) dm_next.IH show ?case
  proof cases
    case (dm_hotplug env)
    then show ?thesis using dm_next.IH hotplug_displays_ok by (auto simp: handleKmsHotplug_def)
  next
    case (dm_display g i)
    then show ?thesis using dm_ok_keeps[OF dm_next.IH keeps_upd_sync] by blast
  qed (use dm_next.IH enumKmsDisplays_ok card_created_ok virtual_ok setCallback_ok in blast)+
qed


section \<open>A change of the connections\<close>

lemma plugged_in_spec:
  assumes "plugged_in env i m = Some (n, m')" "\<not> mPrimaryIsFake m"
  shows "n = i \<and> only i m m' \<and> same_disp (kms_at i m) (kms_at i m')"
proof -
  let ?x = "if i = 0 then map_option (\<lambda>(_, m'). (0, m')) (dm_closeKms env 0 m) else Some (i, m)"
  have "?x \<noteq> None" using assms by (cases ?x) (auto simp: plugged_in_def)
  then obtain n1 m1 where m1: "?x = Some (n1, m1)" by (cases ?x) auto
  have s1: "n1 = i \<and> only i m m1 \<and> same_disp (kms_at i m) (kms_at i m1)"
    using m1 dm_closeKms_same[of env 0 m] by (auto split: if_split_asm)
  obtain r2 m2 r3 where m2: "dm_setPowerMode env POWER_ON n1 m1 = Some (r2, m2)"
    and m3: "dm_openKms env n1 m2 = Some (r3, m')" and n: "n = n1"
    using assms m1 by (auto simp: plugged_in_def bind_eq_Some_conv)
  note s2 = dm_setPowerMode_same[OF m2] and s3 = dm_openKms_same[OF m3]
  have "only i m m'" using s1 s2(1) s3(1) only_trans by metis
  moreover have "same_disp (kms_at i m) (kms_at i m')" using s1 s2(2) s3(2) same_disp_trans by metis
  ultimately show ?thesis using n s1 by simp
qed

lemma plugged_out_spec:
  assumes "plugged_out env i m = Some m'"
  shows "only i m m' \<and> same_disp (kms_at i m) (kms_at i m')"
proof -
  obtain r1 m1 r2 m2 where m1: "dm_closeKms env i m = Some (r1, m1)" and m2: "dm_setPowerMode env POWER_OFF i m1 = Some (r2, m2)"
    using assms by (auto simp: plugged_out_def bind_eq_Some_conv)
  note s1 = dm_closeKms_same[OF m1] and s2 = dm_setPowerMode_same[OF m2]
  have s12: "only i m m2" "same_disp (kms_at i m) (kms_at i m2)"
    using only_trans[OF s1(1) s2(1)] same_disp_trans[OF s1(2) s2(2)] .
  have "m' = m2 \<or> i = 0 \<and> (\<exists>r. dm_openFakeKms env 0 m2 = Some (r, m'))"
    using assms m1 m2 by (auto simp: plugged_out_def split: if_split_asm)
  then show ?thesis
    using s12 dm_openFakeKms_same(1,2) only_trans same_disp_trans by metis
qed

lemma hotplug_display_spec:
  assumes "hotplug_display env i m = Some m'" "\<not> mPrimaryIsFake m" "i < length (mKmsDisplays m)"
  shows "(\<forall>j. j \<noteq> i \<longrightarrow> sync_at j m' = sync_at j m) \<and> length (mKmsDisplays m') = length (mKmsDisplays m) \<and>
    \<not> mPrimaryIsFake m' \<and> m_listener m' = m_listener m \<and> mConnected (disp_at i m') = plugged env (kms_at i m) \<and>
    m_events m' = m_events m @ (if plugged env (kms_at i m) = mConnected (disp_at i m) then []
                                else [OnHotplug i (i = 0 \<or> plugged env (kms_at i m))])"
proof -
  obtain r m1 where m1: "dm_readConnection env i m = Some (r, m1)"
    using assms(1) by (auto simp: hotplug_display_def bind_eq_Some_conv)
  note s1 = dm_readConnection_spec[OF m1]
  have nf: "\<not> mPrimaryIsFake m1" using s1(1) assms(2) by (simp add: only_def)
  show ?thesis
  proof (cases "mConnected (disp_at i m1) = mConnected (disp_at i m)")
    case True
    then show ?thesis using assms m1 s1 by (auto simp: hotplug_display_def only_def)
  next
    case False
    let ?x = "if mConnected (disp_at i m1) then plugged_in env i m1 else map_option (\<lambda>m'. (i, m')) (plugged_out env i m1)"
    have "?x \<noteq> None" using assms(1) m1 False by (cases ?x) (auto simp: hotplug_display_def)
    then obtain n m2 where m2: "?x = Some (n, m2)" by (cases ?x) auto
    have s2: "n = i \<and> only i m1 m2 \<and> same_disp (kms_at i m1) (kms_at i m2)"
      using m2 plugged_in_spec[OF _ nf] plugged_out_spec by (auto split: if_split_asm)
    have c: "mConnected (disp_at i m2) = plugged env (kms_at i m)"
      using s2 s1(3) by (simp add: same_disp_def disp_at_def)
    have o: "only i m m2" using only_trans[OF s1(1)] s2 by blast
    let ?m3 = "if n = 0 then upd_sync 0 (setFakeVSync (\<not> mConnected (disp_at n m2))) m2 else m2"
    have m': "m' = m_emit [OnHotplug n (n = 0 \<or> mConnected (disp_at n m2))] ?m3"
      using assms(1) m1 m2 False by (auto simp: hotplug_display_def Let_def split: if_split_asm)
    have o3: "only i m ?m3" using o s2 only_trans[OF o, of "upd_sync i _ m2"] by auto
    have l0: "0 < length (mKmsDisplays m2) \<Longrightarrow> mConnected (disp_at 0 (upd_sync 0 (setFakeVSync b) m2)) = mConnected (disp_at 0 m2)" for b
      by (simp add: disp_at_def setFakeVSync_def kms_at_def sync_at_def upd_sync_def)
    have c3: "mConnected (disp_at i ?m3) = plugged env (kms_at i m)"
    proof (cases "n = 0")
      case True
      have "0 < length (mKmsDisplays m2)" using o assms(3) unfolding only_def by linarith
      then show ?thesis using l0 c s2 True by simp
    next
      case False
      then show ?thesis using c by simp
    qed
    have em: "sync_at j (m_emit es x) = sync_at j x" "disp_at j (m_emit es x) = disp_at j x"
      "length (mKmsDisplays (m_emit es x)) = length (mKmsDisplays x)" "mPrimaryIsFake (m_emit es x) = mPrimaryIsFake x"
      "m_events (m_emit es x) = m_events x @ es" "m_listener (m_emit es x) = m_listener x" for j es and x :: display_manager
      by (simp_all add: m_emit_def sync_at_def disp_at_def kms_at_def)
    have ni: "n = i" and ne: "plugged env (kms_at i m) \<noteq> mConnected (disp_at i m)" using s2 False s1(3) by simp_all
    have "\<forall>j. j \<noteq> i \<longrightarrow> sync_at j m' = sync_at j m" "length (mKmsDisplays m') = length (mKmsDisplays m)"
      "\<not> mPrimaryIsFake m'" "m_listener m' = m_listener m" "m_events m' = m_events m @ [OnHotplug n (n = 0 \<or> mConnected (disp_at n m2))]"
      "disp_at i m' = disp_at i ?m3"
      using o3 assms(2) unfolding m' em only_def by (simp_all only: em) auto
    then show ?thesis using c c3 ni ne by simp
  qed
qed

definition hotplug_events :: "dm_env \<Rightarrow> nat list \<Rightarrow> display_manager \<Rightarrow> dm_event list" where
  "hotplug_events env is m =
     map (\<lambda>i. OnHotplug i (i = 0 \<or> plugged env (kms_at i m)))
       (filter (\<lambda>i. plugged env (kms_at i m) \<noteq> mConnected (disp_at i m)) is)"

lemma hotplug_displays_spec:
  assumes "hotplug_displays env is m = Some m'" "\<not> mPrimaryIsFake m" "distinct is" "\<forall>i\<in>set is. i < length (mKmsDisplays m)"
  shows "m_events m' = m_events m @ hotplug_events env is m \<and>
    (\<forall>i\<in>set is. mConnected (disp_at i m') = plugged env (kms_at i m)) \<and> (\<forall>j. j \<notin> set is \<longrightarrow> sync_at j m' = sync_at j m)"
  using assms
proof (induction env "is" m rule: hotplug_displays.induct)
  case (2 env i "is" m)
  obtain m1 where m1: "hotplug_display env i m = Some m1" "hotplug_displays env is m1 = Some m'"
    using "2.prems"(1) by (auto simp: bind_eq_Some_conv)
  have s: "\<forall>j. j \<noteq> i \<longrightarrow> sync_at j m1 = sync_at j m" "length (mKmsDisplays m1) = length (mKmsDisplays m)"
    "\<not> mPrimaryIsFake m1" "mConnected (disp_at i m1) = plugged env (kms_at i m)"
    "m_events m1 = m_events m @ (if plugged env (kms_at i m) = mConnected (disp_at i m) then []
                                else [OnHotplug i (i = 0 \<or> plugged env (kms_at i m))])"
    using hotplug_display_spec[OF m1(1) "2.prems"(2)] "2.prems"(4) by simp_all
  have ih: "m_events m' = m_events m1 @ hotplug_events env is m1"
    "\<forall>i\<in>set is. mConnected (disp_at i m') = plugged env (kms_at i m1)" "\<forall>j. j \<notin> set is \<longrightarrow> sync_at j m' = sync_at j m1"
    using "2.IH"[OF m1 s(3)] "2.prems"(3,4) s(2) by simp_all
  have k: "kms_at j m1 = kms_at j m" "disp_at j m1 = disp_at j m" if "j \<in> set is" for j
    using that s(1) "2.prems"(3) by (auto simp: kms_at_def disp_at_def)
  have e: "hotplug_events env is m1 = hotplug_events env is m"
    unfolding hotplug_events_def by (rule map_cong[OF filter_cong[OF refl]]) (use k in auto)
  have i: "i \<notin> set is" using "2.prems"(3) by simp
  then have "disp_at i m' = disp_at i m1" using ih(3) by (simp add: disp_at_def kms_at_def)
  moreover have "hotplug_events env (i # is) m =
      (if plugged env (kms_at i m) = mConnected (disp_at i m) then [] else [OnHotplug i (i = 0 \<or> plugged env (kms_at i m))]) @
      hotplug_events env is m"
    by (simp add: hotplug_events_def)
  ultimately show ?case using ih e s(4,5) k s(1) i by auto
qed (simp add: hotplug_events_def)


section \<open>The pool of virtual displays\<close>

definition virtual_held :: "display_manager \<Rightarrow> nat set" where
  "virtual_held m = {i. i < length (mVirtualDisplays m) \<and> mBusy (mVirtualDisplays m ! i)}"

definition virtual_destroy :: "nat \<Rightarrow> display_manager \<Rightarrow> display_manager" where
  "virtual_destroy i m = snd (destroyVirtualDisplay (int (i + MAX_PHYSICAL_DISPLAY)) m)"

definition virtual_ok_state :: "display_manager \<Rightarrow> bool" where
  "virtual_ok_state m \<longleftrightarrow> length (mVirtualDisplays m) = MAX_VIRTUAL_DISPLAY"

lemma virtual_take:
  assumes "createVirtualDisplay m = (Some i, m')"
  shows "i < length (mVirtualDisplays m) \<and> i \<notin> virtual_held m \<and> virtual_held m' = insert i (virtual_held m) \<and>
    length (mVirtualDisplays m') = length (mVirtualDisplays m)"
proof -
  have f: "first_index (\<lambda>v. \<not> mBusy v) (mVirtualDisplays m) = Some i"
    and m': "m' = upd_virtual i (\<lambda>v. v_connect True (setBusy True v)) m"
    using assms by (auto simp: createVirtualDisplay_def split: option.split_asm)
  note fi = first_index_SomeD[OF f]
  show ?thesis
    using fi(1,2) by (auto simp: m' upd_virtual_def virtual_held_def v_connect_def setBusy_def nth_list_update)
qed

lemma virtual_give:
  assumes "i < MAX_VIRTUAL_DISPLAY" "length (mVirtualDisplays m) = MAX_VIRTUAL_DISPLAY"
  shows "virtual_held (virtual_destroy i m) = virtual_held m - {i} \<and>
    length (mVirtualDisplays (virtual_destroy i m)) = MAX_VIRTUAL_DISPLAY"
proof -
  have v: "virtual_index (int (i + MAX_PHYSICAL_DISPLAY)) = Some i" using assms(1) by (simp add: virtual_index_def)
  show ?thesis
    using assms unfolding virtual_destroy_def destroyVirtualDisplay_def v
    by (auto simp: upd_virtual_def virtual_held_def setBusy_def Let_def nth_list_update)
qed

interpretation vd: id_pool createVirtualDisplay virtual_destroy virtual_held "{..<MAX_VIRTUAL_DISPLAY}" virtual_ok_state
proof
  fix m :: display_manager and i m'
  assume "virtual_ok_state m" "createVirtualDisplay m = (Some i, m')"
  then show "i \<in> {..<MAX_VIRTUAL_DISPLAY} - virtual_held m \<and> virtual_held m' = insert i (virtual_held m) \<and> virtual_ok_state m'"
    using virtual_take[of m i m'] by (simp add: virtual_ok_state_def)
next
  fix m m' :: display_manager
  assume a: "virtual_ok_state m" "createVirtualDisplay m = (None, m')"
  then have "first_index (\<lambda>v. \<not> mBusy v) (mVirtualDisplays m) = None" "m' = m"
    by (auto simp: createVirtualDisplay_def split: option.split_asm)
  then show "virtual_held m = {..<MAX_VIRTUAL_DISPLAY} \<and> virtual_held m' = virtual_held m \<and> virtual_ok_state m'"
    using a(1) by (auto simp: virtual_ok_state_def virtual_held_def first_index_None)
next
  fix m :: display_manager and i
  assume "virtual_ok_state m" "i \<in> {..<MAX_VIRTUAL_DISPLAY}"
  then show "virtual_held (virtual_destroy i m) = virtual_held m - {i} \<and> virtual_ok_state (virtual_destroy i m)"
    using virtual_give by (simp add: virtual_ok_state_def)
qed

text \<open>The steps of one thread, when no other comes between them, are \<open>createVirtualDisplay\<close>.\<close>

fun create_run :: "nat \<Rightarrow> create_pc \<Rightarrow> display_manager \<Rightarrow> create_pc \<times> display_manager" where
  "create_run 0 pc m = (pc, m)"
| "create_run (Suc n) pc m = (case create_step pc m of (pc', m') \<Rightarrow> create_run n pc' m')"

lemma create_run_done: "create_run n (Created r) m = (Created r, m)"
  by (induction n) (simp_all add: create_step_def)

lemma create_run_probe:
  assumes "\<forall>j<i. mBusy (mVirtualDisplays m ! j)" "i \<le> length (mVirtualDisplays m)" "length (mVirtualDisplays m) - i + 2 \<le> n"
  shows "create_run n (Probe i) m = (case createVirtualDisplay m of (r, m') \<Rightarrow> (Created r, m'))"
  using assms
proof (induction n arbitrary: i)
  case (Suc n)
  show ?case
  proof (cases "i = length (mVirtualDisplays m)")
    case True
    then have "first_index (\<lambda>v. \<not> mBusy v) (mVirtualDisplays m) = None"
      using Suc.prems(1) by (auto simp: first_index_None in_set_conv_nth)
    then show ?thesis using True by (simp add: create_step_def create_run_done createVirtualDisplay_def)
  next
    case False
    then have i: "i < length (mVirtualDisplays m)" using Suc.prems(2) by simp
    show ?thesis
    proof (cases "mBusy (mVirtualDisplays m ! i)")
      case True
      then have "\<forall>j<Suc i. mBusy (mVirtualDisplays m ! j)" using Suc.prems(1) less_Suc_eq by auto
      moreover have "Suc i \<le> length (mVirtualDisplays m)" "length (mVirtualDisplays m) - Suc i + 2 \<le> n" using i Suc.prems(3) by simp_all
      ultimately show ?thesis using Suc.IH True i by (simp add: create_step_def)
    next
      case False
      obtain j where j: "j \<le> i" "first_index (\<lambda>v. \<not> mBusy v) (mVirtualDisplays m) = Some j"
        using first_index_SomeI[OF i, of "\<lambda>v. \<not> mBusy v"] False by blast
      then have "j = i" using first_index_SomeD(2)[OF j(2)] Suc.prems(1) by (metis le_neq_implies_less)
      moreover obtain n' where "n = Suc n'" using Suc.prems(3) i by (cases n) simp_all
      ultimately show ?thesis using False i j(2)
        by (simp add: create_step_def create_run_done createVirtualDisplay_def)
    qed
  qed
qed simp

text \<open>Two threads that create a virtual display at the same time may get the same one.\<close>

lemma create_races:
  assumes "mVirtualDisplays m = v # vs" "\<not> mBusy v"
  shows "\<exists>m1 m2 m3 m4. create_step (Probe 0) m = (Claim 0, m1) \<and> create_step (Probe 0) m1 = (Claim 0, m2) \<and>
    create_step (Claim 0) m2 = (Created (Some 0), m3) \<and> create_step (Claim 0) m3 = (Created (Some 0), m4)"
  using assms by (simp add: create_step_def)

section \<open>Properties\<close>

text \<open>
  C12: a hotplug of a DRM device reaches the listener exactly: when no display stands in for the
  primary one, \<open>handleKmsHotplug\<close> reports the displays whose connection the kernel now reports
  differently, in the order of their numbers and no other, with their new connection, the primary
  one always as connected; afterwards every display has the connection that the kernel reports.
\<close>

theorem hotplug_exact:
  assumes "handleKmsHotplug env m = Some m'" "dm_reach m" "\<not> mPrimaryIsFake m"
  shows "m_events m' = m_events m @
      map (\<lambda>i. OnHotplug i (i = 0 \<or> plugged env (kms_at i m)))
        (filter (\<lambda>i. plugged env (kms_at i m) \<noteq> mConnected (disp_at i m)) [0..<MAX_PHYSICAL_DISPLAY]) \<and>
    (\<forall>i<MAX_PHYSICAL_DISPLAY. mConnected (disp_at i m') = plugged env (kms_at i m))"
proof -
  have "\<forall>i\<in>set [0..<MAX_PHYSICAL_DISPLAY]. i < length (mKmsDisplays m)"
    using dm_reach_ok[OF assms(2)] by (simp add: dm_ok_def)
  from hotplug_displays_spec[OF assms(1)[unfolded handleKmsHotplug_def] assms(3) distinct_upt this] show ?thesis
    by (simp add: hotplug_events_def)
qed

text \<open>
  In the mode of DRM a display is found at the place of its index: over every sequence of
  enumerations, hotplug events, changes of the primary display and calls, after which the manager is
  in the mode of DRM, the display that \<open>getDisplay\<close> finds under a number is a display of the device or
  a virtual one, exists, and has that number as its index.  (The displays of the frame buffer, which
  are used without DRM, are not covered.)
\<close>

theorem display_numbers:
  assumes "dm_reach m" "mDrmMode m" "getDisplay i m = Some ref"
  shows "case ref of KmsRef j \<Rightarrow> mIndex (disp_at j m) = i \<and> j < length (mKmsDisplays m)
    | VirtualRef j \<Rightarrow> mIndex (v_disp (mVirtualDisplays m ! j)) = i \<and> j < length (mVirtualDisplays m)
    | FbRef j \<Rightarrow> False"
  using dm_reach_ok[OF assms(1)] assms(2,3) by (auto simp: getDisplay_def dm_ok_def split: if_split_asm)

text \<open>
  C13: a virtual display has one owner: over every sequence of \<open>createVirtualDisplay\<close> and
  \<open>destroyVirtualDisplay\<close>, a display that is handed out was not in use and stays out until it is
  destroyed, and there is none only when all sixteen are in use.
\<close>

theorem virtual_displays_exclusive:
  assumes "dm_reach m" "\<forall>i. Give i \<in> set ops \<longrightarrow> i < MAX_VIRTUAL_DISPLAY"
    and "pool_run createVirtualDisplay virtual_destroy ops m = (es, m')"
  shows "exclusive {..<MAX_VIRTUAL_DISPLAY} (virtual_held m) es"
proof -
  have "virtual_ok_state m" using dm_reach_ok[OF assms(1)] by (simp add: dm_ok_def virtual_ok_state_def)
  then show ?thesis using vd.run_exclusive assms(2,3) by auto
qed


section \<open>Witnesses\<close>

text \<open>When no connected display loses its connection, the handler has a result.\<close>

lemma kms_call_total: "i < length (mKmsDisplays m) \<Longrightarrow> \<exists>r m'. kms_call i (\<lambda>k. Some (f k)) m = Some (r, m')"
  by (simp add: kms_call_def case_prod_beta)

lemma hotplug_display_progress:
  assumes "dv_drm env = (\<lambda>_. ke)" "ke_resources ke = None" "\<not> mPrimaryIsFake m" "m_listener m"
    and "i < length (mKmsDisplays m)" "\<not> mConnected (disp_at i m)" "i \<noteq> 0"
  shows "hotplug_display env i m \<noteq> None"
proof -
  obtain r m1 where m1: "dm_readConnection env i m = Some (r, m1)"
    using kms_call_total[OF assms(5), of "\<lambda>k. readConnection (drm_of env k) k"] unfolding dm_readConnection_def by blast
  note s1 = dm_readConnection_spec[OF m1]
  have f: "\<not> mPrimaryIsFake m1" "i < length (mKmsDisplays m1)" using s1(1) assms(3,5) by (simp_all add: only_def)
  have o: "openKms lib b ke k = Some (- ENODEV, k)" for lib b k
    using assms(2) by (simp add: openKms_def)
  obtain r2 m2 where m2: "dm_setPowerMode env POWER_ON i m1 = Some (r2, m2)"
    using kms_call_total[OF f(2), of "\<lambda>k. setPowerMode (drm_of env k) POWER_ON k"] unfolding dm_setPowerMode_def by blast
  have "i < length (mKmsDisplays m2)" using dm_setPowerMode_same(1)[OF m2] f(2) by (simp add: only_def)
  then obtain r3 m3 where m3: "dm_openKms env i m2 = Some (r3, m3)"
    by (simp add: dm_openKms_def kms_call_def drm_of_def assms(1) o)
  have "plugged_in env i m1 = Some (i, m3)" using f(1) assms(7) m2 m3 by (simp add: plugged_in_def)
  then show ?thesis using m1 assms(4,6,7) by (simp add: hotplug_display_def Let_def)
qed

lemma hotplug_progress:
  assumes "dv_drm env = (\<lambda>_. ke)" "ke_resources ke = None" "\<not> mPrimaryIsFake m" "m_listener m" "distinct is"
    and "\<forall>i\<in>set is. i < length (mKmsDisplays m) \<and> \<not> mConnected (disp_at i m) \<and> i \<noteq> 0"
  shows "hotplug_displays env is m \<noteq> None"
  using assms(3-)
proof (induction "is" arbitrary: m)
  case (Cons i "is")
  have i: "i < length (mKmsDisplays m)" "\<not> mConnected (disp_at i m)" "i \<noteq> 0" using Cons.prems(4) by simp_all
  obtain m1 where m1: "hotplug_display env i m = Some m1"
    using hotplug_display_progress[OF assms(1,2) Cons.prems(1,2) i] by auto
  note s = hotplug_display_spec[OF m1 Cons.prems(1) i(1)]
  have "\<forall>j\<in>set is. j < length (mKmsDisplays m1) \<and> \<not> mConnected (disp_at j m1) \<and> j \<noteq> 0"
    using s Cons.prems(3,4) by (auto simp: disp_at_def kms_at_def)
  then have "hotplug_displays env is m1 \<noteq> None" using Cons.IH[of m1] s Cons.prems(2,3) by simp
  then show ?case using m1 by simp
qed simp

definition dm_env_demo :: dm_env where
  "dm_env_demo = \<lparr>dv_lib = lib_noblit, dv_bgrx = False, dv_dup = (\<lambda>fd. fd + 1),
     dv_drm = (\<lambda>_. drm_demo\<lparr>ke_resources := None\<rparr>), dv_primary = []\<rparr>"

definition kms_offline :: kms where
  "kms_offline = KmsDisplay_init disp_demo 3 False drm_demo"

text \<open>The display 3 has a connector, and the kernel says that it is connected.\<close>

definition dm_demo :: display_manager where
  "dm_demo = setCallback True (m_emit [DisplayReady]
     (displays_init (\<lambda>i. if i = 3 then kms_offline\<lparr>mDrmFd := 4, mConnectorID := 7\<rparr> else kms_offline) (\<lambda>_. disp_demo) comp_demo))"

lemma dm_demo_reach: "dm_reach dm_demo"
proof -
  have "DisplayManager_init dm_env_demo None (\<lambda>i. if i = 3 then kms_offline\<lparr>mDrmFd := 4, mConnectorID := 7\<rparr> else kms_offline)
      (\<lambda>_. disp_demo) comp_demo = Some (m_emit [DisplayReady]
     (displays_init (\<lambda>i. if i = 3 then kms_offline\<lparr>mDrmFd := 4, mConnectorID := 7\<rparr> else kms_offline) (\<lambda>_. disp_demo) comp_demo))"
    by (simp add: DisplayManager_init_def enumKmsDisplays_def displays_init_def m_emit_def Let_def)
  then show ?thesis unfolding dm_demo_def by (rule dm_next[OF dm_start dm_callback])
qed

lemma dm_demo_state:
  "\<not> mPrimaryIsFake dm_demo" "m_listener dm_demo" "\<not> mDrmMode dm_demo" "length (mKmsDisplays dm_demo) = MAX_PHYSICAL_DISPLAY"
  "i < MAX_PHYSICAL_DISPLAY \<Longrightarrow> \<not> mConnected (disp_at i dm_demo)"
  "i < MAX_PHYSICAL_DISPLAY \<Longrightarrow> plugged dm_env_demo (kms_at i dm_demo) \<longleftrightarrow> i = 3"
  by (simp_all add: dm_demo_def setCallback_def Let_def displays_init_def m_emit_def disp_at_def kms_at_def sync_at_def
      sync_init_def kms_offline_def KmsDisplay_init_def disp_demo_def Display_init_def plugged_def readConnection_def drm_of_def
      dm_env_demo_def drm_demo_def conn_demo_def)

lemma offline_same:
  assumes "\<not> plugged env (kms_at i m)" "\<not> mConnected (disp_at i m)" "i < length (mKmsDisplays m)"
  shows "\<exists>m1. hotplug_display env i m = Some m1"
proof -
  obtain r m1 where m1: "dm_readConnection env i m = Some (r, m1)"
    using kms_call_total[OF assms(3), of "\<lambda>k. readConnection (drm_of env k) k"] unfolding dm_readConnection_def by blast
  then show ?thesis using dm_readConnection_spec(3)[OF m1] assms(1,2) by (simp add: hotplug_display_def)
qed

lemma dm_demo_hotplug: "\<exists>m'. handleKmsHotplug dm_env_demo dm_demo = Some m'"
proof -
  have p: "0 < MAX_PHYSICAL_DISPLAY" by (simp add: MAX_PHYSICAL_DISPLAY_def)
  have np: "\<not> plugged dm_env_demo (kms_at 0 dm_demo)" using dm_demo_state(6)[OF p] by simp
  have l: "0 < length (mKmsDisplays dm_demo)" using p dm_demo_state(4) by simp
  obtain m1 where m1: "hotplug_display dm_env_demo 0 dm_demo = Some m1"
    using offline_same[OF np dm_demo_state(5)[OF p] l] by blast
  note s = hotplug_display_spec[OF m1 dm_demo_state(1) l]
  have e: "dv_drm dm_env_demo = (\<lambda>_. drm_demo\<lparr>ke_resources := None\<rparr>)" "ke_resources (drm_demo\<lparr>ke_resources := None\<rparr>) = None"
    by (simp_all add: dm_env_demo_def)
  have "\<forall>i\<in>set [1..<MAX_PHYSICAL_DISPLAY]. i < length (mKmsDisplays m1) \<and> \<not> mConnected (disp_at i m1) \<and> i \<noteq> 0"
    using s dm_demo_state(4,5) by (auto simp: disp_at_def kms_at_def)
  moreover have "\<not> mPrimaryIsFake m1" "m_listener m1" using s dm_demo_state(2) by simp_all
  ultimately have "hotplug_displays dm_env_demo [1..<MAX_PHYSICAL_DISPLAY] m1 \<noteq> None"
    using hotplug_progress[OF e] by simp
  moreover have "[0..<MAX_PHYSICAL_DISPLAY] = 0 # [1..<MAX_PHYSICAL_DISPLAY]" using p upt_conv_Cons by simp
  ultimately show ?thesis using m1 by (simp add: handleKmsHotplug_def)
qed

theorem hotplug_exact_witness:
  "\<exists>m'. handleKmsHotplug dm_env_demo dm_demo = Some m' \<and> m_events m' = m_events dm_demo @ [OnHotplug 3 True] \<and>
     mConnected (disp_at 3 m')"
proof -
  obtain m' where m': "handleKmsHotplug dm_env_demo dm_demo = Some m'" using dm_demo_hotplug by blast
  have "filter (\<lambda>i. plugged dm_env_demo (kms_at i dm_demo) \<noteq> mConnected (disp_at i dm_demo)) [0..<MAX_PHYSICAL_DISPLAY] =
      filter (\<lambda>i. i = 3) [0..<MAX_PHYSICAL_DISPLAY]"
    by (rule filter_cong[OF refl]) (use dm_demo_state(5,6) in simp)
  also have "\<dots> = [3]" by (simp add: MAX_PHYSICAL_DISPLAY_def upt_rec)
  finally have f: "filter (\<lambda>i. plugged dm_env_demo (kms_at i dm_demo) \<noteq> mConnected (disp_at i dm_demo)) [0..<MAX_PHYSICAL_DISPLAY] = [3]" .
  have "(3::nat) < MAX_PHYSICAL_DISPLAY" by (simp add: MAX_PHYSICAL_DISPLAY_def)
  then show ?thesis
    using hotplug_exact[OF m' dm_demo_reach dm_demo_state(1)] m' dm_demo_state(6)[of 3] unfolding f by auto
qed

text \<open>A device without connectors is found: the manager is in the mode of DRM, with a fake display.\<close>

definition card_demo :: card where
  "card_demo = \<lparr>c_name = ''card0'', c_fd = 3, c_cap = (\<lambda>_. 0), c_version = Some ''imx-drm'', c_connectors = None\<rparr>"

lemma fake_total:
  assumes "property_get ke ''ro.boot.displaymode'' ''p'' = ''p''" "ids_from (mFirstConfigId (k_conf k)) (mConfigs (k_conf k))"
    and "0 \<le> mFirstConfigId (k_conf k)"
  shows "\<exists>k'. openFakeKms lib_noblit ke k = Some (0, k')"
proof -
  have p: "parseDisplayMode ''p'' = Some (1920, 1080, 60, 1)" by code_simp
  have prep: "prepareTargetsLocked lib_noblit k \<noteq> None" for k
    by (simp add: prepareTargetsLocked_def isValid_def Let_def case_prod_beta lib_noblit_def)
  have c: "0 \<le> fst (kms_createDisplayConfig w h (real_of_int 60) (-1) (k_conf k))" for w h
    using kms_createDisplayConfig_ids[OF assms(2) prod.collapse[symmetric], of w h "real_of_int 60" "-1"] assms(3) by linarith
  let ?size = "if mXres (mBackupConfig k) > 0 \<and> mYres (mBackupConfig k) > 0
    then (mXres (mBackupConfig k), mYres (mBackupConfig k)) else (1920, 1080)"
  obtain configId conf where
    k: "kms_createDisplayConfig (fst ?size) (snd ?size) (real_of_int 60) (-1) (k_conf k) = (configId, conf)" by fastforce
  then have "\<not> configId < 0" using c[of "fst ?size" "snd ?size"] by simp
  then show ?thesis
    using prep k unfolding openFakeKms_def assms(1) p
    by (cases "mXres (mBackupConfig k) > 0 \<and> mYres (mBackupConfig k) > 0") (auto simp: case_prod_beta)
qed

lemma dm_drm_demo: "\<exists>m. dm_reach m \<and> mDrmMode m"
proof -
  let ?m1 = "m_emit [CloseCard 3] (dm_demo\<lparr>mDrmMode := True\<rparr>)"
  have e: "enum_cards dm_env_demo [card_demo] (1, False, dm_demo) = Some (1, False, ?m1)"
    by (simp add: enumKmsDisplay_def card_demo_def strncmp_eq_def is_primary_card_def dm_env_demo_def)
  have d: "disp_at i ?m1 = disp_at i dm_demo" "kms_at i ?m1 = kms_at i dm_demo" "mKmsDisplays ?m1 = mKmsDisplays dm_demo" for i
    by (simp_all add: disp_at_def kms_at_def sync_at_def m_emit_def)
  have f: "first_connected ?m1 = None"
    using dm_demo_state(5) by (auto simp: first_connected_def find_None_iff d)
  have s: "\<not> mFoundPrimaryPort ?m1" "mDrmMode ?m1" "dv_primary dm_env_demo = []"
    by (simp_all add: m_emit_def dm_env_demo_def) (simp add: dm_demo_def setCallback_def Let_def displays_init_def m_emit_def)
  have l: "0 < length (mKmsDisplays ?m1)" by (simp add: d dm_demo_state(4) MAX_PHYSICAL_DISPLAY_def)
  let ?k = "(kms_at 0 ?m1)\<lparr>k_disp := (disp_at 0 ?m1)\<lparr>d_comp := m_comp ?m1\<rparr>\<rparr>"
  have conf: "mConfigs (k_conf ?k) = []" "mFirstConfigId (k_conf ?k) = 0"
    by (simp_all add: d, simp_all add: dm_demo_def setCallback_def Let_def displays_init_def m_emit_def kms_at_def sync_at_def
        sync_init_def kms_offline_def KmsDisplay_init_def MAX_PHYSICAL_DISPLAY_def)
  have pg: "property_get (drm_of dm_env_demo ?k) ''ro.boot.displaymode'' ''p'' = ''p''"
    by (simp add: drm_of_def dm_env_demo_def property_get_def drm_demo_def)
  obtain k' where k': "openFakeKms lib_noblit (drm_of dm_env_demo ?k) ?k = Some (0, k')"
    using fake_total[OF pg, of ?k] conf by (simp add: ids_from_def) blast
  then obtain m2 where m2: "dm_openFakeKms dm_env_demo 0 ?m1 = Some (0, m2)" "mDrmMode m2"
    using l s(2) by (auto simp: dm_openFakeKms_def kms_call_def dm_env_demo_def upd_sync_def)
  have "enumKmsDisplays dm_env_demo (Some [card_demo]) dm_demo = Some (0, m2\<lparr>mPrimaryIsFake := True, mDriverReady := False\<rparr>)"
    using e f s m2 by (simp add: enumKmsDisplays_def enumFakeKmsDisplay_def)
  from dm_next[OF dm_demo_reach dm_enum[OF this]] show ?thesis using m2(2) by (intro exI) auto
qed

theorem display_numbers_witness:
  "\<exists>m. dm_reach m \<and> mDrmMode m \<and> getDisplay 4 m = Some (KmsRef 4) \<and> mIndex (disp_at 4 m) = 4 \<and>
     getDisplay 12 m = Some (VirtualRef 2) \<and> mIndex (v_disp (mVirtualDisplays m ! 2)) = 12"
proof -
  obtain m where m: "dm_reach m" "mDrmMode m" using dm_drm_demo by blast
  have g: "getDisplay 4 m = Some (KmsRef 4)" "getDisplay 12 m = Some (VirtualRef 2)"
    using m(2) by (simp_all add: getDisplay_def MAX_PHYSICAL_DISPLAY_def MAX_VIRTUAL_DISPLAY_def)
  show ?thesis using display_numbers[OF m g(1)] display_numbers[OF m g(2)] m g by auto
qed

theorem virtual_displays_exclusive_witness:
  "\<exists>es m'. pool_run createVirtualDisplay virtual_destroy [Take, Take, Give 0, Take] dm_demo = (es, m') \<and>
     exclusive {..<MAX_VIRTUAL_DISPLAY} (virtual_held dm_demo) es \<and> length es = 4"
proof -
  obtain es m' where r: "pool_run createVirtualDisplay virtual_destroy [Take, Take, Give 0, Take] dm_demo = (es, m')"
    by fastforce
  then have "length es = 4" by (auto split: prod.split_asm)
  moreover have "\<forall>i. Give i \<in> set [Take, Take, Give 0, Take] \<longrightarrow> i < MAX_VIRTUAL_DISPLAY"
    by (simp add: MAX_VIRTUAL_DISPLAY_def)
  ultimately show ?thesis using virtual_displays_exclusive[OF dm_demo_reach _ r] r by blast
qed

end
