(* ===== verification/Layer_Slots.thy ===== *)
theory Layer_Slots
  imports Display_Layers Id_Pool
begin

text \<open>
  The layers of a display as a pool: \<open>getFreeLayer\<close> hands out a layer and \<open>releaseLayer\<close> takes it back
  (\<open>display/display/Display.cpp\<close>).
\<close>

definition busy_layers :: "display \<Rightarrow> nat set" where
  "busy_layers d = {i. i < length (mLayers d) \<and> busy (mLayers d ! i)}"

definition all_layers :: "display \<Rightarrow> bool" where
  "all_layers d \<longleftrightarrow> length (mLayers d) = MAX_LAYERS"

definition release_slot :: "sv_ops \<Rightarrow> nat \<Rightarrow> display \<Rightarrow> display" where
  "release_slot sv i d = releaseLayer sv (int i) d"

lemma getFreeLayer_take:
  assumes "getFreeLayer d = (Some i, d')"
  shows "i < length (mLayers d) \<and> i \<notin> busy_layers d \<and> busy_layers d' = insert i (busy_layers d) \<and>
    length (mLayers d') = length (mLayers d)"
proof -
  have f: "first_index (\<lambda>l. \<not> busy l) (mLayers d) = Some i"
    and d': "d' = set_layer i ((mLayers d ! i)\<lparr>busy := True\<rparr>) d"
    using assms by (auto simp: getFreeLayer_def split: option.split_asm)
  show ?thesis
    using first_index_SomeD(1,2)[OF f] by (auto simp: d' set_layer_def busy_layers_def nth_list_update)
qed

lemma releaseLayer_layers:
  assumes "i < MAX_LAYERS" "length (mLayers d) = MAX_LAYERS"
  shows "mLayers (releaseLayer sv (int i) d) = (mLayers d)[i := resetLayer (mLayers d ! i)]"
  using assms by (simp add: releaseLayer_def in_range_def set_layer_def d_emit_def Let_def)

lemma releaseLayer_give:
  assumes "i < MAX_LAYERS" "length (mLayers d) = MAX_LAYERS"
  shows "busy_layers (release_slot sv i d) = busy_layers d - {i} \<and> length (mLayers (release_slot sv i d)) = MAX_LAYERS"
  using assms releaseLayer_layers[OF assms, of sv]
  by (auto simp: release_slot_def busy_layers_def nth_list_update resetLayer_def split: if_split_asm)

interpretation layer_pool: id_pool getFreeLayer "release_slot sv" busy_layers "{..<MAX_LAYERS}" all_layers for sv
proof
  fix d d' :: display and i
  assume "all_layers d" "getFreeLayer d = (Some i, d')"
  then show "i \<in> {..<MAX_LAYERS} - busy_layers d \<and> busy_layers d' = insert i (busy_layers d) \<and> all_layers d'"
    using getFreeLayer_take[of d i d'] by (simp add: all_layers_def)
next
  fix d d' :: display
  assume a: "all_layers d" "getFreeLayer d = (None, d')"
  then have "first_index (\<lambda>l. \<not> busy l) (mLayers d) = None" "d' = d"
    by (auto simp: getFreeLayer_def split: option.split_asm)
  then show "busy_layers d = {..<MAX_LAYERS} \<and> busy_layers d' = busy_layers d \<and> all_layers d'"
    using a(1) by (auto simp: all_layers_def busy_layers_def first_index_None)
next
  fix d :: display and i
  assume "all_layers d" "i \<in> {..<MAX_LAYERS}"
  then show "busy_layers (release_slot sv i d) = busy_layers d - {i} \<and> all_layers (release_slot sv i d)"
    using releaseLayer_give[of i d sv] by (simp add: all_layers_def)
qed

text \<open>
  C20: a layer has one owner: from a display whose layers are free, every sequence of \<open>getFreeLayer\<close>
  and \<open>releaseLayer\<close> hands out only layers that are not in use, and the first 64 requests in a row are
  served.
\<close>

theorem layer_slots_exclusive:
  assumes "\<forall>i. Give i \<in> set ops \<longrightarrow> i < MAX_LAYERS" "d = Display_init c hw qs"
    and "pool_run getFreeLayer (release_slot sv) ops d = (es, d')"
  shows "exclusive {..<MAX_LAYERS} {} es \<and>
    (\<forall>n\<le>MAX_LAYERS. ops = replicate n Take \<longrightarrow> Took None \<notin> set es)"
proof -
  have ok: "all_layers d" and b: "busy_layers d = {}"
    by (auto simp: assms(2) all_layers_def busy_layers_def Display_init_def resetLayer_def)
  have "exclusive {..<MAX_LAYERS} (busy_layers d) es"
    using layer_pool.run_exclusive[OF ok _ assms(3)] assms(1) by simp
  moreover have "Took None \<notin> set es" if "n \<le> MAX_LAYERS" "ops = replicate n Take" for n
    using layer_pool.takes_succeed[OF ok, of n sv es d'] assms(3) that b by simp
  ultimately show ?thesis using b by simp
qed

theorem layer_slots_exclusive_witness:
  "\<exists>es d'. pool_run getFreeLayer (release_slot sv_ref) [Take, Take] (Display_init comp_demo (\<lambda>a. Layer_init) (\<lambda>q. BufferSlot_init 3)) = (es, d') \<and>
     exclusive {..<MAX_LAYERS} {} es \<and> Took None \<notin> set es"
proof -
  obtain es d' where r: "pool_run getFreeLayer (release_slot sv_ref) [Take, Take]
      (Display_init comp_demo (\<lambda>a. Layer_init) (\<lambda>q. BufferSlot_init 3)) = (es, d')"
    by fastforce
  have "[Take, Take] = replicate 2 Take" "2 \<le> MAX_LAYERS" by (simp_all add: numeral_eq_Suc MAX_LAYERS_def)
  then show ?thesis using layer_slots_exclusive[OF _ refl r] r by auto
qed

end
