(* ===== verification/Kms_Present.thy ===== *)
theory Kms_Present
  imports Kms_Frame Kms_Open
begin

text \<open>
  What \<open>updateScreen\<close> commits: the property set puts the frame buffer on the primary plane, keeps the
  overlay plane as \<open>performOverlay\<close> set it, and is committed until the kernel is not busy any more.
\<close>

section \<open>The last value of a property\<close>

fun prop_of :: "pset \<Rightarrow> u32 \<Rightarrow> u32 \<Rightarrow> prop_val option" where
  "prop_of [] ob p = None"
| "prop_of ((ob', q, v) # s) ob p =
     (case prop_of s ob p of Some w \<Rightarrow> Some w | None \<Rightarrow> if ob' = ob \<and> q = p then Some v else None)"

lemma prop_of_append [simp]:
  "prop_of (s @ t) ob p = (case prop_of t ob p of Some w \<Rightarrow> Some w | None \<Rightarrow> prop_of s ob p)"
  by (induction s ob p rule: prop_of.induct) (auto split: option.split)

text \<open>
  The ids of the properties that every plane has differ, and those that a plane may lack (their id
  is 0 then) are others.
\<close>

definition plane_names :: "string list" where
  "plane_names = [''SRC_X'', ''SRC_Y'', ''SRC_W'', ''SRC_H'', ''CRTC_X'', ''CRTC_Y'', ''CRTC_W'', ''CRTC_H'', ''FB_ID'', ''CRTC_ID'']"

definition plane_ok :: "kms_plane \<Rightarrow> bool" where
  "plane_ok p \<longleftrightarrow> inj_on (plane_props p) (set plane_names) \<and>
     plane_props p ''IN_FENCE_FD'' \<notin> plane_props p ` set plane_names \<and>
     plane_props p ''dtrc_table_ofs'' \<notin> plane_props p ` set plane_names"

text \<open>A plane shows a part of a frame buffer at a place of the screen.\<close>

definition plane_shows ::
    "pset \<Rightarrow> kms_plane \<Rightarrow> u32 \<Rightarrow> u32 \<Rightarrow> int \<times> int \<times> int \<times> int \<Rightarrow> int \<times> int \<times> int \<times> int \<Rightarrow> bool" where
  "plane_shows s p crtc fb src dst \<longleftrightarrow>
     (let v = (\<lambda>n. prop_of s (plane_id p) (plane_props p n)); (sx, sy, sw, sh) = src; (x, y, w, h) = dst;
          val = (\<lambda>i. Some (Val (ucast (word_of_int i :: u32))))
      in v ''FB_ID'' = Some (Val (ucast fb)) \<and> v ''CRTC_ID'' = Some (Val (ucast crtc)) \<and>
         v ''SRC_X'' = val sx \<and> v ''SRC_Y'' = val sy \<and>
         v ''SRC_W'' = Some (Val (ucast (push_bit 16 (word_of_int sw :: u32)))) \<and>
         v ''SRC_H'' = Some (Val (ucast (push_bit 16 (word_of_int sh :: u32)))) \<and>
         v ''CRTC_X'' = val x \<and> v ''CRTC_Y'' = val y \<and> v ''CRTC_W'' = val w \<and> v ''CRTC_H'' = val h)"

lemmas plane_defs = u32s_def setDisplayFrame_def setSourceSurface_def connectCrtc_def add_prop_def

lemma prop_of_table:
  assumes "inj_on P N" "n \<in> N" "fst ` set tbl \<subseteq> N" "distinct (map fst tbl)"
  shows "prop_of (s @ map (\<lambda>(n, v). (ob, P n, v)) tbl) ob (P n) =
    (case map_of tbl n of Some v \<Rightarrow> Some v | None \<Rightarrow> prop_of s ob (P n))"
proof -
  have "prop_of (map (\<lambda>(n, v). (ob, P n, v)) tbl) ob (P n) = map_of tbl n"
    using assms(3,4)
  proof (induction tbl)
    case (Cons x tbl)
    obtain a v where x: "x = (a, v)" by (cases x)
    have eq: "P a = P n \<longleftrightarrow> a = n"
      using Cons.prems(1) assms(1,2) unfolding x by (intro inj_on_eq_iff) auto
    have ih: "prop_of (map (\<lambda>(n, v). (ob, P n, v)) tbl) ob (P n) = map_of tbl n"
      using Cons.IH Cons.prems by simp
    show ?case
    proof (cases "a = n")
      case True
      then have "map_of tbl n = None" using Cons.prems(2) x by (simp add: map_of_eq_None_iff)
      then show ?thesis using True ih x by simp
    next
      case False
      then show ?thesis using ih eq x by (simp split: option.split)
    qed
  qed simp
  then show ?thesis by simp
qed

lemma plane_ok_table:
  assumes "plane_ok p" "n \<in> set plane_names" "fst ` set tbl \<subseteq> set plane_names" "distinct (map fst tbl)"
  shows "prop_of (s @ map (\<lambda>(n, v). (plane_id p, plane_props p n, v)) tbl) (plane_id p) (plane_props p n) =
    (case map_of tbl n of Some v \<Rightarrow> Some v | None \<Rightarrow> prop_of s (plane_id p) (plane_props p n))"
  using prop_of_table[OF _ assms(2-4)] assms(1) by (simp add: plane_ok_def)

lemma plane_shows_table:
  assumes "plane_ok p" "s' = s @ map (\<lambda>(n, v). (plane_id p, plane_props p n, v)) tbl"
    and "fst ` set tbl = set plane_names" "distinct (map fst tbl)"
    and "map_of tbl ''FB_ID'' = Some (Val (ucast fb))" "map_of tbl ''CRTC_ID'' = Some (Val (ucast crtc))"
    and "map_of tbl ''SRC_X'' = Some (Val (ucast (word_of_int sx :: u32)))"
    and "map_of tbl ''SRC_Y'' = Some (Val (ucast (word_of_int sy :: u32)))"
    and "map_of tbl ''SRC_W'' = Some (Val (ucast (push_bit 16 (word_of_int sw :: u32))))"
    and "map_of tbl ''SRC_H'' = Some (Val (ucast (push_bit 16 (word_of_int sh :: u32))))"
    and "map_of tbl ''CRTC_X'' = Some (Val (ucast (word_of_int x :: u32)))"
    and "map_of tbl ''CRTC_Y'' = Some (Val (ucast (word_of_int y :: u32)))"
    and "map_of tbl ''CRTC_W'' = Some (Val (ucast (word_of_int w :: u32)))"
    and "map_of tbl ''CRTC_H'' = Some (Val (ucast (word_of_int h :: u32)))"
  shows "plane_shows s' p crtc fb (sx, sy, sw, sh) (x, y, w, h)"
proof -
  have "prop_of s' (plane_id p) (plane_props p n) =
      (case map_of tbl n of Some v \<Rightarrow> Some v | None \<Rightarrow> prop_of s (plane_id p) (plane_props p n))"
    if "n \<in> set plane_names" for n
    unfolding assms(2) using plane_ok_table[OF assms(1) that _ assms(4)] assms(3) by simp
  from this[of "''FB_ID''"] this[of "''CRTC_ID''"] this[of "''SRC_X''"] this[of "''SRC_Y''"] this[of "''SRC_W''"]
    this[of "''SRC_H''"] this[of "''CRTC_X''"] this[of "''CRTC_Y''"] this[of "''CRTC_W''"] this[of "''CRTC_H''"]
  show ?thesis by (simp add: plane_shows_def Let_def assms(5-14) plane_names_def)
qed

lemma plane_shows_set:
  assumes "plane_ok p"
  shows "plane_shows (u32s (setDisplayFrame p) x y w h (u32s (setSourceSurface p) sx sy sw sh (connectCrtc p crtc fb s)))
      p crtc fb (sx, sy, sw, sh) (x, y, w, h)"
    and "plane_shows (u32s (setSourceSurface p) sx sy sw sh (u32s (setDisplayFrame p) x y w h (connectCrtc p crtc fb s)))
      p crtc fb (sx, sy, sw, sh) (x, y, w, h)"
proof -
  let ?v = "\<lambda>i. Val (ucast (word_of_int i :: u32))" and ?w = "\<lambda>i. Val (ucast (push_bit 16 (word_of_int i :: u32)))"
  let ?fb = "[(''FB_ID'', Val (ucast fb)), (''CRTC_ID'', Val (ucast crtc))]"
  let ?src = "[(''SRC_X'', ?v sx), (''SRC_Y'', ?v sy), (''SRC_W'', ?w sw), (''SRC_H'', ?w sh)]"
  let ?dst = "[(''CRTC_X'', ?v x), (''CRTC_Y'', ?v y), (''CRTC_W'', ?v w), (''CRTC_H'', ?v h)]"
  show "plane_shows (u32s (setDisplayFrame p) x y w h (u32s (setSourceSurface p) sx sy sw sh (connectCrtc p crtc fb s)))
      p crtc fb (sx, sy, sw, sh) (x, y, w, h)"
    by (rule plane_shows_table[OF assms, of _ s "?fb @ ?src @ ?dst"]) (simp_all add: plane_defs plane_names_def insert_commute)
  show "plane_shows (u32s (setSourceSurface p) sx sy sw sh (u32s (setDisplayFrame p) x y w h (connectCrtc p crtc fb s)))
      p crtc fb (sx, sy, sw, sh) (x, y, w, h)"
    by (rule plane_shows_table[OF assms, of _ s "?fb @ ?dst @ ?src"]) (simp_all add: plane_defs plane_names_def insert_commute)
qed

lemma plane_shows_cong:
  "(\<And>q. prop_of s (plane_id p) q = prop_of s' (plane_id p) q) \<Longrightarrow>
   plane_shows s p crtc fb src dst = plane_shows s' p crtc fb src dst"
  by (simp add: plane_shows_def)

lemma prop_of_other:
  assumes "ob \<noteq> plane_id p"
  shows "prop_of (connectCrtc p crtc fb s) ob q = prop_of s ob q"
    "prop_of (u32s (setSourceSurface p) x y w h s) ob q = prop_of s ob q"
    "prop_of (u32s (setDisplayFrame p) x y w h s) ob q = prop_of s ob q"
    "prop_of (setClientFence p fence s) ob q = prop_of s ob q"
    "prop_of (setTableOffset p meta s) ob q = prop_of s ob q"
  using assms by (simp_all add: plane_defs setClientFence_def setTableOffset_def)

lemma bindCrtc_other:
  assumes "ob \<noteq> mCrtcID k" "ob \<noteq> mConnectorID k"
  shows "prop_of (bindCrtc k modeID s) ob q = prop_of s ob q"
  using assms by (simp add: bindCrtc_def Let_def)

lemma shows_with_other:
  assumes "plane_shows s p crtc fb src dst" "q \<notin> plane_props p ` set plane_names"
  shows "plane_shows (add_prop (plane_id p) q v s) p crtc fb src dst"
proof -
  have "prop_of (add_prop (plane_id p) q v s) (plane_id p) (plane_props p n) = prop_of s (plane_id p) (plane_props p n)"
    if "n \<in> set plane_names" for n
    using assms(2) that by (auto simp: add_prop_def)
  then show ?thesis using assms(1) by (simp add: plane_shows_def plane_names_def)
qed

lemma shows_with_fence:
  assumes "plane_ok p" "plane_shows s p crtc fb src dst"
  shows "plane_shows (setClientFence p fence s) p crtc fb src dst"
  using shows_with_other[OF assms(2)] assms by (simp add: setClientFence_def plane_ok_def)

text \<open>The ids that the kernel gave to planes, CRTC and connector differ, as do those of the properties.\<close>

definition ids_ok :: "kms \<Rightarrow> bool" where
  "ids_ok k \<longleftrightarrow> list_all plane_ok (mKmsPlanes k) \<and> 0 < mKmsPlaneNum k \<and> mKmsPlaneNum k \<le> length (mKmsPlanes k) \<and>
     mCrtc k ''MODE_ID'' \<noteq> mCrtc k ''ACTIVE'' \<and> mCrtc k ''OUT_FENCE_PTR'' \<notin> {mCrtc k ''MODE_ID'', mCrtc k ''ACTIVE''} \<and>
     distinct (mCrtcID k # mConnectorID k # map plane_id (take (mKmsPlaneNum k) (mKmsPlanes k)))"

lemma ids_ok_plane:
  assumes "ids_ok k" "i < mKmsPlaneNum k"
  shows "plane_ok (mKmsPlanes k ! i)" "plane_id (mKmsPlanes k ! i) \<noteq> mCrtcID k"
    "plane_id (mKmsPlanes k ! i) \<noteq> mConnectorID k" "mCrtcID k \<noteq> mConnectorID k"
proof -
  have l: "i < length (mKmsPlanes k)" using assms by (simp add: ids_ok_def)
  then show "plane_ok (mKmsPlanes k ! i)" using assms by (simp add: ids_ok_def list_all_length)
  have "plane_id (mKmsPlanes k ! i) \<in> set (map plane_id (take (mKmsPlaneNum k) (mKmsPlanes k)))"
    using nth_mem[of i "take (mKmsPlaneNum k) (mKmsPlanes k)"] assms(2) l by simp
  then show "plane_id (mKmsPlanes k ! i) \<noteq> mCrtcID k" "plane_id (mKmsPlanes k ! i) \<noteq> mConnectorID k"
    "mCrtcID k \<noteq> mConnectorID k"
    using assms(1) unfolding ids_ok_def by (metis distinct.simps(2) list.set_intros(2), metis distinct.simps(2), simp)
qed

lemma ids_ok_planes:
  assumes "ids_ok k" "i < mKmsPlaneNum k" "j < mKmsPlaneNum k" "i \<noteq> j"
  shows "plane_id (mKmsPlanes k ! i) \<noteq> plane_id (mKmsPlanes k ! j)"
proof -
  have "distinct (map plane_id (take (mKmsPlaneNum k) (mKmsPlanes k)))" using assms(1) by (simp add: ids_ok_def)
  from nth_eq_iff_index_eq[OF this, of i j] show ?thesis using assms by (auto simp: ids_ok_def)
qed

section \<open>The properties of the screen\<close>

lemma screen_props_shows:
  assumes "ids_ok k" "i < mKmsPlaneNum k" "screen_rects k c = ((sw, sh), dw, dh)"
  defines "p \<equiv> mKmsPlanes k ! i"
  shows "plane_shows (screen_props k c mid p fb fence s) p (mCrtcID k) fb (0, 0, sw, sh) (0, 0, dw, dh)"
  using shows_with_fence[OF _ plane_shows_set(1)] plane_shows_set(1) ids_ok_plane(1)[OF assms(1,2)] assms(3)
  by (auto simp: screen_props_def Let_def p_def)

lemma screen_props_other:
  assumes "ob \<noteq> mCrtcID k" "ob \<noteq> mConnectorID k" "ob \<noteq> plane_id p"
  shows "prop_of (screen_props k c mid p fb fence s) ob q = prop_of s ob q"
  using assms by (simp add: screen_props_def Let_def prop_of_other bindCrtc_other split: prod.split)

lemma screen_props_mode:
  assumes "ids_ok k" "i < mKmsPlaneNum k" "mModeset (k_conf k)"
  defines "p \<equiv> mKmsPlanes k ! i"
  shows "prop_of (screen_props k c mid p fb fence s) (mCrtcID k) (mCrtc k ''MODE_ID'') = Some (Val (ucast mid))"
    "prop_of (screen_props k c mid p fb fence s) (mCrtcID k) (mCrtc k ''ACTIVE'') = Some (Val 1)"
    "prop_of (screen_props k c mid p fb fence s) (mConnectorID k) (mConnector k ''CRTC_ID'') =
       Some (Val (ucast (mCrtcID k)))"
proof -
  note pl = ids_ok_plane[OF assms(1,2), folded p_def]
  have o: "prop_of (screen_props k c mid p fb fence s) ob q = prop_of (bindCrtc k mid s) ob q"
    if "ob \<noteq> plane_id p" for ob q
    using that by (simp add: screen_props_def Let_def prop_of_other split: prod.split)
  show "prop_of (screen_props k c mid p fb fence s) (mCrtcID k) (mCrtc k ''MODE_ID'') = Some (Val (ucast mid))"
    "prop_of (screen_props k c mid p fb fence s) (mCrtcID k) (mCrtc k ''ACTIVE'') = Some (Val 1)"
    "prop_of (screen_props k c mid p fb fence s) (mConnectorID k) (mConnector k ''CRTC_ID'') =
       Some (Val (ucast (mCrtcID k)))"
    using o[OF pl(2)[symmetric]] o[OF pl(3)[symmetric]] pl(4) assms(1,3)
    by (auto simp: bindCrtc_def Let_def ids_ok_def)
qed

section \<open>Commits\<close>

lemma try_commit_shape:
  "length (try_commit answer i n) \<le> n \<and>
   (n > 0 \<longrightarrow> try_commit answer i n \<noteq> []) \<and>
   (\<forall>r\<in>set (butlast (try_commit answer i n)). cr_ret r = - EBUSY) \<and>
   (try_commit answer i n \<noteq> [] \<longrightarrow> cr_ret (last (try_commit answer i n)) \<noteq> - EBUSY \<or> length (try_commit answer i n) = n)"
  by (induction answer i n rule: try_commit.induct) (auto simp: Let_def)

section \<open>What the steps before the commit keep\<close>

definition same_ids :: "kms \<Rightarrow> kms \<Rightarrow> bool" where
  "same_ids k k' \<longleftrightarrow> mCrtc k' = mCrtc k \<and> mCrtcID k' = mCrtcID k \<and> mConnector k' = mConnector k \<and>
     mConnectorID k' = mConnectorID k \<and> mKmsPlanes k' = mKmsPlanes k \<and> mKmsPlaneNum k' = mKmsPlaneNum k \<and>
     mMode (k_conf k') = mMode (k_conf k) \<and> mCustomizeUI k' = mCustomizeUI k \<and>
     mUseOverlayAndroidUI k' = mUseOverlayAndroidUI k \<and> mSecureDisplay k' = mSecureDisplay k"

lemma same_ids_ok: "same_ids k k' \<Longrightarrow> ids_ok k' = ids_ok k"
  by (simp add: same_ids_def ids_ok_def)

lemma same_ids_rects: "same_ids k k' \<Longrightarrow> screen_rects k' c = screen_rects k c"
  by (simp add: same_ids_def screen_rects_def)

fun is_commit :: "frame_event \<Rightarrow> bool" where
  "is_commit (Commit s fl r) = True"
| "is_commit _ = False"

text \<open>
  One step keeps the ids, the overlay and the acquire fence, does not commit, and adds to the
  property set only properties of the connector.
\<close>

definition kept_frame :: "kms_frame \<Rightarrow> kms_frame \<Rightarrow> bool" where
  "kept_frame f f' \<longleftrightarrow> same_ids (f_kms f) (f_kms f') \<and> mAcquireFence (f_disp f') = mAcquireFence (f_disp f) \<and>
     mOverlay (f_disp f') = mOverlay (f_disp f) \<and> mLayers (f_disp f') = mLayers (f_disp f) \<and>
     mOutFence f' = mOutFence f \<and> (mModeset (f_conf f) \<longrightarrow> mModeset (f_conf f')) \<and>
     (\<exists>es. f_events f' = f_events f @ es \<and> filter is_commit es = []) \<and>
     (\<exists>t. the_pset f' = the_pset f @ t \<and> (\<forall>x\<in>set t. fst x = mConnectorID (f_kms f)))"

lemma kms_kept_refl: "kept_frame f f"
  by (simp add: kept_frame_def same_ids_def)

lemma same_ids_trans: "same_ids a b \<Longrightarrow> same_ids b c \<Longrightarrow> same_ids a c"
  by (simp add: same_ids_def)

lemma kept_trans:
  assumes "kept_frame f g" "kept_frame g h"
  shows "kept_frame f h"
proof -
  obtain es t where a: "f_events g = f_events f @ es" "filter is_commit es = []" "the_pset g = the_pset f @ t"
    "\<forall>x\<in>set t. fst x = mConnectorID (f_kms f)"
    using assms(1) by (auto simp: kept_frame_def)
  obtain es' t' where b: "f_events h = f_events g @ es'" "filter is_commit es' = []" "the_pset h = the_pset g @ t'"
    "\<forall>x\<in>set t'. fst x = mConnectorID (f_kms g)"
    using assms(2) by (auto simp: kept_frame_def)
  have i: "same_ids (f_kms f) (f_kms g)" "same_ids (f_kms g) (f_kms h)" using assms by (simp_all add: kept_frame_def)
  then have "mConnectorID (f_kms g) = mConnectorID (f_kms f)" by (simp add: same_ids_def)
  then have "f_events h = f_events f @ es @ es' \<and> filter is_commit (es @ es') = []"
    "the_pset h = the_pset f @ t @ t' \<and> (\<forall>x\<in>set (t @ t'). fst x = mConnectorID (f_kms f))"
    using a b by auto
  moreover have "mAcquireFence (f_disp h) = mAcquireFence (f_disp f)" "mOverlay (f_disp h) = mOverlay (f_disp f)"
    "mLayers (f_disp h) = mLayers (f_disp f)" "mOutFence h = mOutFence f" "mModeset (f_conf f) \<longrightarrow> mModeset (f_conf h)"
    using assms by (simp_all add: kept_frame_def)
  ultimately show ?thesis using same_ids_trans[OF i] unfolding kept_frame_def by blast
qed

lemmas frame_defs = on_kms_def on_disp_def set_modeset_def f_emit_def f_store_def with_mem_def

lemma kept_active: "active_config (f_kms f) = (c, k) \<Longrightarrow> kept_frame f (f\<lparr>f_kms := k\<rparr>)"
  by (auto simp: active_config_def Let_def kept_frame_def same_ids_def the_pset_def split: prod.split_asm)

lemma kept_target: "screen_target f = (i, b, f') \<Longrightarrow> kept_frame f f'"
  by (auto simp: screen_target_def Let_def kept_frame_def same_ids_def the_pset_def frame_defs split: if_split_asm)

lemma kept_fb: "screen_fb io c a m f = (m', f') \<Longrightarrow> kept_frame f f'"
  by (auto simp: screen_fb_def Let_def kept_frame_def same_ids_def the_pset_def frame_defs split: if_split_asm)

lemma kept_reset: "kept_frame f (reset_hdr f)"
  by (simp add: reset_hdr_def kept_frame_def same_ids_def the_pset_def frame_defs)

lemma kept_pset: "kept_frame f (f\<lparr>mPset := Some (the_pset f)\<rparr>)"
  by (simp add: kept_frame_def same_ids_def the_pset_def)

lemma screen_fb_buffer:
  assumes "screen_fb io c a m f = (m', f')" "f_buffer f a = Some m"
  shows "f_buffer f' a = Some m'"
  using assms by (auto simp: screen_fb_def Let_def f_buffer_def f_mem_def k_mem_def store_def frame_defs split: if_split_asm)

lemma mm_lock_buffer:
  assumes "mm_lock env (Some a) w = Some (r, w')" "heap w a = Some m"
  shows "\<exists>m'. heap w' a = Some m' \<and> h_fbId m' = h_fbId m"
  using assms
  by (auto simp: mm_lock_def with_handle_def ion_lock_def ion_getVaddrs_def store_def Let_def
      split: if_split_asm prod.split_asm)

lemma mm_unlock_heap: "mm_unlock env h w = Some (r, w') \<Longrightarrow> heap w' = heap w"
  by (auto simp: mm_unlock_def with_handle_def emit_def split: option.split_asm if_split_asm prod.split_asm)

lemma kept_mem: "kept_frame f (on_kms (with_mem w) f)"
  by (simp add: kept_frame_def same_ids_def the_pset_def frame_defs)

lemma kept_emit: "\<not> is_commit e \<Longrightarrow> kept_frame f (f_emit [e] f)"
  by (simp add: kept_frame_def same_ids_def the_pset_def frame_defs)

lemma kept_store: "kept_frame f (f_store a m f)"
  unfolding f_store_def by (rule kept_mem)

lemma f_buffer_simps [simp]:
  "f_buffer (f_store a m f) a = Some m" "f_buffer (f_emit es f) b = f_buffer f b"
  "f_buffer (f\<lparr>mPset := s\<rparr>) b = f_buffer f b" "f_buffer (reset_hdr f) b = f_buffer f b"
  by (simp_all add: f_buffer_def f_mem_def k_mem_def store_def frame_defs reset_hdr_def)

lemma clear_screen_kept:
  assumes "clear_screen io a m f = Some (m', f')" "f_buffer f a = Some m"
  shows "kept_frame f f' \<and> f_buffer f' a = Some m' \<and> h_fbId m' = h_fbId m"
proof (cases "clear_needed (mComposeFlag (f_disp f))")
  case False
  then show ?thesis using assms kms_kept_refl by (simp add: clear_screen_def)
next
  case True
  have fin: "kept_frame f f2 \<and> f_buffer f2 a = Some m2 \<Longrightarrow> h_fbId m2 = h_fbId m \<Longrightarrow>
      (m', f') = (m2, if h_base m2 \<noteq> 0 then f_emit [FillBuffer a 0] f2 else f2) \<Longrightarrow> ?thesis" for m2 f2
    using kept_trans[of f f2] kept_emit[of "FillBuffer a 0" f2] by auto
  show ?thesis
  proof (cases "h_base m \<noteq> 0")
    case True
    then show ?thesis using assms \<open>clear_needed _\<close> fin[of f m] kms_kept_refl by (simp add: clear_screen_def)
  next
    case False
    obtain r v w1 u w2 m1 where l: "mm_lock (f_env io) (Some a) (f_mem f) = Some ((r, v), w1)"
      "mm_unlock (f_env io) (Some a) w1 = Some (u, w2)" "heap w2 a = Some m1"
      and e: "(m', f') = (let m2 = m1\<lparr>h_base := (case v of None \<Rightarrow> 0 | Some x \<Rightarrow> x)\<rparr>; f2 = f_store a m2 (on_kms (with_mem w2) f)
         in (m2, if h_base m2 \<noteq> 0 then f_emit [FillBuffer a 0] f2 else f2))"
      using assms(1) True False by (auto simp: clear_screen_def bind_eq_Some_conv Let_def)
    have "h_fbId m1 = h_fbId m"
      using mm_lock_buffer[OF l(1)] mm_unlock_heap[OF l(2)] l(3) assms(2) by (auto simp: f_buffer_def)
    then show ?thesis
      using fin[of "f_store a (m1\<lparr>h_base := (case v of None \<Rightarrow> 0 | Some x \<Rightarrow> x)\<rparr>) (on_kms (with_mem w2) f)"
          "m1\<lparr>h_base := (case v of None \<Rightarrow> 0 | Some x \<Rightarrow> x)\<rparr>"] kept_trans[OF kept_mem kept_store] e
      by (simp add: Let_def)
  qed
qed

section \<open>The commit\<close>

definition commits :: "kms_frame \<Rightarrow> kms_frame \<Rightarrow> frame_event list" where
  "commits f f' = filter is_commit (drop (length (f_events f)) (f_events f'))"

lemma commits_kept:
  assumes "kept_frame f g"
  shows "commits f g = []" "f_events h = f_events g @ es \<Longrightarrow> commits f h = filter is_commit es"
  using assms by (auto simp: kept_frame_def commits_def)

lemma kernel_fences_simps [simp]:
  "f_kms (kernel_fences s r f) = f_kms f" "mPset (kernel_fences s r f) = mPset f"
  "f_events (kernel_fences s r f) = f_events f" "mMetadataID (kernel_fences s r f) = mMetadataID f"
  by (simp_all add: kernel_fences_def)

lemma fold_fences [simp]:
  "f_kms (fold (kernel_fences s) rs f) = f_kms f" "mPset (fold (kernel_fences s) rs f) = mPset f"
  "f_events (fold (kernel_fences s) rs f) = f_events f" "mMetadataID (fold (kernel_fences s) rs f) = mMetadataID f"
  by (induction rs arbitrary: f) simp_all

lemma finish_frame_events:
  "\<exists>es. f_events (finish_frame io mid f) = f_events f @ es \<and> filter is_commit es = [] \<and>
     (\<forall>fd. count_list es (CloseFd fd) = of_bool (mAcquireFence (f_disp f) = fd \<and> fd \<noteq> -1))"
  unfolding finish_frame_def Let_def close_acquire_def release_overlay_def
  by (auto simp: frame_defs set_layer_def split: option.split)

lemma finish_frame_state:
  "mPset (finish_frame io mid f) = None" "mAcquireFence (f_disp (finish_frame io mid f)) = -1"
  "mOverlay (f_disp (finish_frame io mid f)) = None" "f_buffer (finish_frame io mid f) b = f_buffer f b"
  "mModeset (f_conf (finish_frame io mid f)) = False"
  unfolding finish_frame_def Let_def close_acquire_def release_overlay_def
  by (auto simp: frame_defs set_layer_def f_buffer_def f_mem_def k_mem_def split: option.split)

definition screen_plane :: "kms \<Rightarrow> nat" where
  "screen_plane k = (if mUseOverlayAndroidUI k \<and> mSecureDisplay k then mKmsPlaneNum k - 1 else 0)"

definition screen_config :: "kms \<Rightarrow> display_config" where
  "screen_config k = fst (index_op (mActiveConfig (k_conf k)) (mConfigs (k_conf k)))"

lemma screen_target_plane:
  assumes "screen_target f = (i, b, f')"
  shows "i = screen_plane (f_kms f)" "screen_config (f_kms f') = screen_config (f_kms f)"
    "b = (if \<not> mUseOverlayAndroidUI (f_kms f) \<and> mSecureDisplay (f_kms f) then mDummyTarget f
          else mRenderTarget (f_disp f))"
    "mPowerMode (f_kms f') = mPowerMode (f_kms f)"
  using assms by (auto simp: screen_target_def screen_plane_def screen_config_def Let_def frame_defs split: if_split_asm)

text \<open>An update that returns 0: either the kernel gave no frame buffer, or the frame is committed.\<close>

lemma updateScreen_cases:
  assumes "updateScreen io f = Some (0, f')"
  obtains (refused) a m where "kept_frame f f'" "f_buffer f' a = Some m" "h_fbId m = 0"
      "snd (screen_target f) = (Some a, snd (snd (screen_target f)))"
  | (committed) g a m where "kept_frame f g" "f_buffer g a = Some m" "h_fbId m \<noteq> 0"
      "f' = snd (commit_frame io (screen_plane (f_kms f)) (screen_config (f_kms f)) m g)"
      "snd (screen_target f) = (Some a, snd (snd (screen_target f)))"
proof -
  obtain i b f1 where t: "screen_target f = (i, b, f1)" by (cases "screen_target f")
  note tp = screen_target_plane[OF t] and kt = kept_target[OF t]
  have E: "(- EINVAL :: int) \<noteq> 0" by (simp add: EINVAL_def)
  have p: "mPowerMode (f_kms f) = POWER_ON" "0 \<le> mDrmFd (f_kms f1)"
    using assms t E by (auto simp: updateScreen_def Let_def split: if_split_asm)
  obtain a where a: "b = Some a"
    using assms t E p by (cases b) (auto simp: updateScreen_def Let_def)
  obtain m where m: "f_buffer f1 a = Some m" "has_flag (h_flags m) FLAGS_FRAMEBUFFER" "mConnected (f_disp f1)"
    using assms t E p a by (cases "f_buffer f1 a") (auto simp: updateScreen_def Let_def split: if_split_asm)
  obtain c k2 where c: "active_config (f_kms f1) = (c, k2)" by (cases "active_config (f_kms f1)")
  obtain m1 f2 where fb: "screen_fb io c a m (f1\<lparr>f_kms := k2\<rparr>) = (m1, f2)"
    by (cases "screen_fb io c a m (f1\<lparr>f_kms := k2\<rparr>)")
  have cc: "c = screen_config (f_kms f)"
    using c tp(2) by (auto simp: active_config_def screen_config_def Let_def split: prod.split_asm)
  have "k_mem k2 = k_mem (f_kms f1)" using c by (auto simp: active_config_def Let_def k_mem_def split: prod.split_asm)
  then have m': "f_buffer (f1\<lparr>f_kms := k2\<rparr>) a = Some m" using m(1) by (simp add: f_buffer_def f_mem_def)
  have k2: "kept_frame f f2"
    using kept_trans[OF kept_trans[OF kt kept_active[OF c]] kept_fb[OF fb]] .
  have b2: "f_buffer f2 a = Some m1" by (rule screen_fb_buffer[OF fb m'])
  have body: "Some (0, f') = (if h_fbId m1 = 0 then Some (0, f2)
                  else if mPset f2 = None \<and> \<not> io_atomic_alloc io then Some (- 12, f2)
                  else do {
                    (m2, f3) \<leftarrow> clear_screen io a m1 (reset_hdr (f2\<lparr>mPset := Some (the_pset f2)\<rparr>));
                    Some (commit_frame io i c m2 f3) })"
    using assms t p a m c fb by (simp add: updateScreen_def Let_def)
  show thesis
  proof (cases "h_fbId m1 = 0")
    case True
    then show thesis using refused[of a m1] k2 b2 body t a by simp
  next
    case False
    obtain m2 f3 where cs: "clear_screen io a m1 (reset_hdr (f2\<lparr>mPset := Some (the_pset f2)\<rparr>)) = Some (m2, f3)"
      "(0, f') = commit_frame io i c m2 f3"
      using body[symmetric] False by (auto split: if_split_asm simp: bind_eq_Some_conv)
    have "kept_frame f2 (reset_hdr (f2\<lparr>mPset := Some (the_pset f2)\<rparr>))" by (rule kept_trans[OF kept_pset kept_reset])
    moreover have "f_buffer (reset_hdr (f2\<lparr>mPset := Some (the_pset f2)\<rparr>)) a = Some m1" using b2 by simp
    ultimately have "kept_frame f f3" "f_buffer f3 a = Some m2" "h_fbId m2 = h_fbId m1"
      using clear_screen_kept[OF cs(1)] kept_trans[OF k2 kept_trans] by blast+
    then show thesis
      using committed[of f3 a m2] False cs(2) tp(1) cc t a by (metis snd_conv)
  qed
qed

section \<open>A frame is committed\<close>

text \<open>
  The property set of a frame, for the plane \<open>p\<close>: it shows the frame buffer on it and leaves the
  properties of other objects as they were in the property set before.  When a mode set is pending
  it carries the blob that the kernel made of the mode (0 when it made none).
\<close>

definition mode_blob :: "frame_io \<Rightarrow> drm_mode \<Rightarrow> u32" where
  "mode_blob io m = (case io_mode_blob io m of None \<Rightarrow> 0 | Some i \<Rightarrow> i)"

definition frame_set :: "frame_io \<Rightarrow> kms_frame \<Rightarrow> kms_plane \<Rightarrow> display_config \<Rightarrow> u32 \<Rightarrow> u32 \<Rightarrow> pset \<Rightarrow> bool" where
  "frame_set io f p c fb fl s \<longleftrightarrow>
     (let k = f_kms f; ((sw, sh), dw, dh) = screen_rects k c
      in plane_shows s p (mCrtcID k) fb (0, 0, sw, sh) (0, 0, dw, dh) \<and>
         (\<forall>ob q. ob \<notin> {mCrtcID k, mConnectorID k, plane_id p} \<longrightarrow> prop_of s ob q = prop_of (the_pset f) ob q) \<and>
         (mModeset (f_conf f) \<longrightarrow> fl = DRM_MODE_ATOMIC_ALLOW_MODESET \<and>
            prop_of s (mCrtcID k) (mCrtc k ''MODE_ID'') = Some (Val (ucast (mode_blob io (mMode (f_conf f))))) \<and>
            prop_of s (mCrtcID k) (mCrtc k ''ACTIVE'') = Some (Val 1) \<and>
            prop_of s (mConnectorID k) (mConnector k ''CRTC_ID'') = Some (Val (ucast (mCrtcID k)))))"

text \<open>The results of the attempts to commit.\<close>

definition attempts_ok :: "int list \<Rightarrow> bool" where
  "attempts_ok rets \<longleftrightarrow> rets \<noteq> [] \<and> length rets \<le> MAX_COMMITS \<and> (\<forall>r\<in>set (butlast rets). r = - EBUSY) \<and>
     (last rets \<noteq> - EBUSY \<or> length rets = MAX_COMMITS)"

lemma attempts_ok_try: "attempts_ok (map cr_ret (try_commit answer i MAX_COMMITS))"
  using try_commit_shape[of answer i MAX_COMMITS]
  by (auto simp: attempts_ok_def map_butlast[symmetric] last_map MAX_COMMITS_def)

lemma prop_of_none: "\<forall>x\<in>set t. fst x \<noteq> ob \<Longrightarrow> prop_of t ob q = None"
  by (induction t ob q rule: prop_of.induct) auto

lemma frame_set_screen_props:
  assumes "ids_ok (f_kms f)" "kept_frame f g" "i < mKmsPlaneNum (f_kms f)"
    and "fl = (if mModeset (f_conf g) then DRM_MODE_ATOMIC_ALLOW_MODESET else DRM_MODE_ATOMIC_NONBLOCK)"
    and "mModeset (f_conf g) \<Longrightarrow> mid = mode_blob io (mMode (f_conf g))"
  shows "frame_set io f (mKmsPlanes (f_kms f) ! i) c fb fl
    (screen_props (f_kms g) c mid (mKmsPlanes (f_kms g) ! i) fb fence (the_pset g))"
proof -
  let ?k = "f_kms f" and ?g = "f_kms g" and ?p = "mKmsPlanes (f_kms f) ! i"
  have same: "same_ids ?k ?g" using assms(2) by (simp add: kept_frame_def)
  then have e: "mCrtcID ?g = mCrtcID ?k" "mConnectorID ?g = mConnectorID ?k" "mKmsPlanes ?g = mKmsPlanes ?k"
    "mCrtc ?g = mCrtc ?k" "mConnector ?g = mConnector ?k" "mKmsPlaneNum ?g = mKmsPlaneNum ?k"
    by (simp_all add: same_ids_def)
  have ok: "ids_ok ?g" using assms(1) same_ids_ok[OF same] by simp
  have r: "screen_rects ?g c = screen_rects ?k c" by (rule same_ids_rects[OF same])
  let ?s = "screen_props ?g c mid ?p fb fence (the_pset g)"
  obtain sw sh dw dh where rr: "screen_rects ?g c = ((sw, sh), dw, dh)" by (metis surj_pair)
  have pl: "plane_shows ?s ?p (mCrtcID ?k) fb (0, 0, sw, sh) (0, 0, dw, dh)"
    using screen_props_shows[OF ok, of i c sw sh dw dh mid fb fence "the_pset g"] assms(3) rr e by simp
  have md: "mModeset (f_conf g)" if "mModeset (f_conf f)" using assms(2) that by (simp add: kept_frame_def)
  have mm: "mMode (f_conf g) = mMode (f_conf f)" using same by (simp add: same_ids_def)
  have mode: "prop_of ?s (mCrtcID ?k) (mCrtc ?k ''MODE_ID'') = Some (Val (ucast (mode_blob io (mMode (f_conf f))))) \<and>
      prop_of ?s (mCrtcID ?k) (mCrtc ?k ''ACTIVE'') = Some (Val 1) \<and>
      prop_of ?s (mConnectorID ?k) (mConnector ?k ''CRTC_ID'') = Some (Val (ucast (mCrtcID ?k)))"
    if "mModeset (f_conf f)"
    using screen_props_mode[OF ok, of i c mid fb fence "the_pset g"] md[OF that] assms(3) assms(5)[OF md[OF that]] mm e
    by simp
  obtain t where t: "the_pset g = the_pset f @ t" "\<forall>x\<in>set t. fst x = mConnectorID ?k"
    using assms(2) by (auto simp: kept_frame_def)
  have other: "prop_of ?s ob q = prop_of (the_pset f) ob q"
    if "ob \<notin> {mCrtcID ?k, mConnectorID ?k, plane_id ?p}" for ob q
    using screen_props_other[of ob ?g ?p c mid fb fence "the_pset g" q] that e prop_of_none[of t ob q] t by auto
  show ?thesis
    unfolding frame_set_def e(3) using pl mode other md assms(4) rr r by (simp add: Let_def)
qed

lemma screen_plane_less: "ids_ok k \<Longrightarrow> screen_plane k < mKmsPlaneNum k"
  by (auto simp: screen_plane_def ids_ok_def)

lemma commit_frame_spec:
  assumes "kept_frame f g" "ids_ok (f_kms f)" "f' = snd (commit_frame io i c m g)" "i < mKmsPlaneNum (f_kms f)"
  shows "mPset f' = None \<and> mAcquireFence (f_disp f') = -1 \<and> mOverlay (f_disp f') = None \<and> f_buffer f' a = f_buffer g a \<and>
    (\<exists>s fl rets. commits f f' = map (Commit s fl) rets \<and> attempts_ok rets \<and>
       frame_set io f (mKmsPlanes (f_kms f) ! i) c (h_fbId m) fl s)"
proof -
  let ?k = "f_kms g"
  define fl where "fl = (if mModeset (k_conf ?k) then DRM_MODE_ATOMIC_ALLOW_MODESET else DRM_MODE_ATOMIC_NONBLOCK)"
  define mid where "mid = (if mModeset (k_conf ?k) then (case io_mode_blob io (mMode (k_conf ?k)) of None \<Rightarrow> 0 | Some i \<Rightarrow> i) else 0)"
  define s where "s = screen_props ?k c mid (mKmsPlanes ?k ! i) (h_fbId m) (mAcquireFence (k_disp ?k)) (the_pset g)"
  define rs where "rs = try_commit (io_commit io s fl) 0 MAX_COMMITS"
  have f': "f' = finish_frame io mid (commit io fl s g)"
    using assms(3) by (simp add: commit_frame_def Let_def s_def mid_def fl_def)
  obtain es where es: "f_events f' = f_events (commit io fl s g) @ es" "filter is_commit es = []"
    using finish_frame_events[of io mid "commit io fl s g"] f' by blast
  have ev: "f_events f' = f_events g @ map (\<lambda>r. Commit s fl (cr_ret r)) rs @ es"
    using es(1) by (simp add: commit_def Let_def f_emit_def rs_def)
  have "filter is_commit (map (\<lambda>r. Commit s fl (cr_ret r)) rs @ es) = map (Commit s fl) (map cr_ret rs)"
    using es(2) by (induction rs) simp_all
  then have cm: "commits f f' = map (Commit s fl) (map cr_ret rs)"
    using commits_kept(2)[OF assms(1) ev] by simp
  have fs: "frame_set io f (mKmsPlanes (f_kms f) ! i) c (h_fbId m) fl s"
    unfolding s_def by (rule frame_set_screen_props[OF assms(2,1,4) fl_def]) (simp add: mid_def mode_blob_def)
  have "f_buffer (commit io fl s g) a = f_buffer g a" by (simp add: commit_def Let_def f_buffer_def f_mem_def f_emit_def)
  then have "f_buffer f' a = f_buffer g a" by (simp only: f' finish_frame_state(4))
  moreover have "attempts_ok (map cr_ret rs)" unfolding rs_def by (rule attempts_ok_try)
  ultimately show ?thesis
    using cm fs finish_frame_state(1-3)[of io mid "commit io fl s g"] unfolding f' by metis
qed

lemma updateScreen_spec:
  assumes "updateScreen io f = Some (0, f')" "ids_ok (f_kms f)"
  defines "p \<equiv> mKmsPlanes (f_kms f) ! screen_plane (f_kms f)"
  shows "\<exists>a m. fst (snd (screen_target f)) = Some a \<and> f_buffer f' a = Some m \<and>
    (if h_fbId m = 0 then commits f f' = []
     else mPset f' = None \<and> mAcquireFence (f_disp f') = -1 \<and> mOverlay (f_disp f') = None \<and>
       (\<exists>s fl rets. commits f f' = map (Commit s fl) rets \<and> attempts_ok rets \<and>
          frame_set io f p (screen_config (f_kms f)) (h_fbId m) fl s))"
  using assms(1)
proof (cases rule: updateScreen_cases)
  case (refused a m)
  then show ?thesis using commits_kept(1) by (metis fst_conv)
next
  case (committed g a m)
  show ?thesis
    using commit_frame_spec[OF committed(1) assms(2) committed(4) screen_plane_less[OF assms(2)], of a] committed(2,3,5)
    unfolding p_def by (metis fst_conv)
qed

text \<open>When the kernel has a frame buffer for the target, the frame is committed.\<close>

lemma updateScreen_progress:
  assumes "mPowerMode (f_kms f) = POWER_ON" "\<not> mUseOverlayAndroidUI (f_kms f)" "\<not> mSecureDisplay (f_kms f)"
    and "0 \<le> mDrmFd (f_kms f)" "mRenderTarget (f_disp f) = Some a" "f_buffer f a = Some m"
    and "has_flag (h_flags m) FLAGS_FRAMEBUFFER" "mConnected (f_disp f)" "h_fbId m \<noteq> 0" "io_atomic_alloc io"
    and "\<not> clear_needed (mComposeFlag (f_disp f))" "ids_ok (f_kms f)"
  shows "\<exists>f'. updateScreen io f = Some (0, f') \<and> commits f f' \<noteq> []"
proof -
  obtain c k2 where c: "active_config (f_kms f) = (c, k2)" by (cases "active_config (f_kms f)")
  have t: "screen_target f = (0, Some a, f)" using assms(2,3,5) by (simp add: screen_target_def)
  let ?f2 = "f\<lparr>f_kms := k2\<rparr>"
  let ?f3 = "reset_hdr (?f2\<lparr>mPset := Some (the_pset ?f2)\<rparr>)"
  have "mComposeFlag (f_disp ?f3) = mComposeFlag (f_disp f)"
    using c by (auto simp: active_config_def reset_hdr_def Let_def frame_defs split: prod.split_asm)
  then have "clear_screen io a m ?f3 = Some (m, ?f3)" using assms(11) by (simp add: clear_screen_def)
  then have u: "updateScreen io f = Some (commit_frame io 0 c m ?f3)"
    using assms t c by (simp add: updateScreen_def screen_fb_def Let_def)
  have k: "kept_frame f ?f3"
    by (rule kept_trans[OF kept_active[OF c] kept_trans[OF kept_pset kept_reset]])
  have "0 < mKmsPlaneNum (f_kms f)" using assms(12) by (simp add: ids_ok_def)
  from commit_frame_spec[OF k assms(12) refl this, of io c m a] obtain s fl rets where
    "commits f (snd (commit_frame io 0 c m ?f3)) = map (Commit s fl) rets" "attempts_ok rets" by blast
  then have "commits f (snd (commit_frame io 0 c m ?f3)) \<noteq> []" by (auto simp: attempts_ok_def)
  moreover have "fst (commit_frame io 0 c m ?f3) = 0" by (simp add: commit_frame_def Let_def)
  ultimately show ?thesis using u by (metis prod.collapse)
qed

text \<open>
  C10: what an update commits.  Let the ids that the kernel gave to the CRTC, the connector, the planes
  and their properties be distinct, and let \<open>updateScreen\<close> return 0.  When the kernel has no frame
  buffer for the target, nothing is committed.  Otherwise exactly one property set is committed, again
  as long as the kernel answers that it is busy and at most 32 times (\<open>updateScreen\<close> returns 0 also
  when the last attempt fails).  That set puts the frame buffer of the target on the plane of the user
  interface: the whole configuration over the whole mode without scaling, the mode over the mode when
  the interface is scaled by software, and the configuration at its own size when it is scaled by
  hardware (\<open>screen_rects\<close>); the plane is the first one, or the last one when the interface is on the
  overlay plane of a secure display (\<open>screen_plane\<close>).  When a mode set is pending it is allowed to
  change the mode, and carries the blob of the current mode, the CRTC as active and as the one of the
  connector.  Properties of all other objects, such as the overlay plane, keep the values that were
  prepared before.  Afterwards no property set, acquire fence or overlay is left.
\<close>

theorem updateScreen_commits:
  assumes "updateScreen io f = Some (0, f')" "ids_ok (f_kms f)"
  shows "\<exists>a m. fst (snd (screen_target f)) = Some a \<and> f_buffer f' a = Some m \<and>
    (if h_fbId m = 0 then commits f f' = []
     else mPset f' = None \<and> mAcquireFence (f_disp f') = -1 \<and> mOverlay (f_disp f') = None \<and>
       (\<exists>s fl rets. commits f f' = map (Commit s fl) rets \<and> attempts_ok rets \<and>
          frame_set io f (mKmsPlanes (f_kms f) ! screen_plane (f_kms f)) (screen_config (f_kms f)) (h_fbId m) fl s))"
  by (rule updateScreen_spec[OF assms])

section \<open>The overlay\<close>

lemma scale32_inside:
  assumes "0 \<le> a" "a \<le> b" "b \<le> den" "0 < num" "0 < den" "den * num < 2 ^ 31"
  shows "scale32 a num den = Some (a * num div den)" "scale32 (b - a) num den = Some ((b - a) * num div den)"
    "0 \<le> a * num div den" "a * num div den + (b - a) * num div den \<le> num"
proof -
  have sc: "scale32 x num den = Some (x * num div den)" if "0 \<le> x" "x \<le> den" for x
  proof -
    have m: "0 \<le> x * num" "x * num \<le> den * num" using that assms(4) by (simp_all add: mult_right_mono)
    then have q: "x * num sdiv den = x * num div den" using assms(5) by (simp add: signed_divide_int_def sgn_if)
    have "x * num div den \<le> x * num" using zdiv_mono2[of "x * num" 1 den] m(1) assms(5) by simp
    moreover have "0 \<le> x * num div den" using m assms(5) by (simp add: pos_imp_zdiv_nonneg_iff)
    ultimately show ?thesis using m assms(5,6) by (simp add: scale32_def q fits32_def)
  qed
  show "scale32 a num den = Some (a * num div den)" "scale32 (b - a) num den = Some ((b - a) * num div den)"
    using sc[of a] sc[of "b - a"] assms by simp_all
  show "0 \<le> a * num div den" using assms by (simp add: pos_imp_zdiv_nonneg_iff)
  have "(a * num div den + (b - a) * num div den) * den \<le> a * num + (b - a) * num"
    using assms(5) by (simp add: distrib_right add_mono minus_mod_eq_div_mult[symmetric])
  also have "\<dots> = b * num" by (simp add: algebra_simps)
  also have "\<dots> \<le> den * num" using assms by (simp add: mult_right_mono)
  finally show "a * num div den + (b - a) * num div den \<le> num" using assms(5) by (simp add: mult.commute)
qed

text \<open>A frame inside the configuration, which the scaling to the mode keeps inside the mode.\<close>

definition frame_inside :: "rect \<Rightarrow> display_config \<Rightarrow> drm_mode \<Rightarrow> bool" where
  "frame_inside r c m \<longleftrightarrow> 0 \<le> r_left r \<and> r_left r \<le> r_right r \<and> r_right r \<le> mXres c \<and>
     0 \<le> r_top r \<and> r_top r \<le> r_bottom r \<and> r_bottom r \<le> mYres c \<and> 0 < hdisplay m \<and> 0 < vdisplay m \<and>
     0 < mXres c \<and> 0 < mYres c \<and> mXres c * hdisplay m < 2 ^ 31 \<and> mYres c * vdisplay m < 2 ^ 31"

definition in_mode :: "drm_mode \<Rightarrow> int \<times> int \<times> int \<times> int \<Rightarrow> bool" where
  "in_mode m fr \<longleftrightarrow> (let (x, y, w, h) = fr in 0 \<le> x \<and> 0 \<le> y \<and> x + w \<le> hdisplay m \<and> y + h \<le> vdisplay m)"

text \<open>The place of a frame of the configuration in the mode.\<close>

definition scaled_frame :: "drm_mode \<Rightarrow> display_config \<Rightarrow> rect \<Rightarrow> int \<times> int \<times> int \<times> int" where
  "scaled_frame m c r =
     (r_left r * hdisplay m div mXres c, r_top r * vdisplay m div mYres c,
      r_width r * hdisplay m div mXres c, r_height r * vdisplay m div mYres c)"

lemma overlay_frame_inside:
  assumes "frame_inside r c (mMode (k_conf k))"
  shows "overlay_frame k c r = Some (scaled_frame (mMode (k_conf k)) c r)"
    "in_mode (mMode (k_conf k)) (scaled_frame (mMode (k_conf k)) c r)"
proof -
  let ?m = "mMode (k_conf k)"
  have x: "0 \<le> r_left r" "r_left r \<le> r_right r" "r_right r \<le> mXres c" "0 < hdisplay ?m" "0 < mXres c" "mXres c * hdisplay ?m < 2 ^ 31"
    and y: "0 \<le> r_top r" "r_top r \<le> r_bottom r" "r_bottom r \<le> mYres c" "0 < vdisplay ?m" "0 < mYres c" "mYres c * vdisplay ?m < 2 ^ 31"
    using assms by (simp_all add: frame_inside_def)
  show "overlay_frame k c r = Some (scaled_frame ?m c r)" "in_mode ?m (scaled_frame ?m c r)"
    using scale32_inside[OF x] scale32_inside[OF y]
    by (simp_all add: overlay_frame_def scaled_frame_def r_width_def r_height_def in_mode_def)
qed

lemma kept_hdcp: "kept_frame f (hdcp_overlay io m f)"
  by (simp add: hdcp_overlay_def Let_def kept_frame_def same_ids_def the_pset_def frame_defs)

lemma kept_overlay_fb: "overlay_fb io gs a m f = (m', f') \<Longrightarrow> kept_frame f f'"
  by (auto simp: overlay_fb_def Let_def kept_frame_def same_ids_def the_pset_def frame_defs split: if_split_asm)

lemma kept_config:
  "kept_frame f g \<Longrightarrow> k_conf (f_kms g) = k_conf (f_kms f) \<Longrightarrow> screen_config (f_kms g) = screen_config (f_kms f)"
  by (simp add: screen_config_def)

lemma hdcp_config: "screen_config (f_kms (hdcp_overlay io m f)) = screen_config (f_kms f)"
  by (simp add: hdcp_overlay_def Let_def screen_config_def frame_defs)

lemma active_config_screen: "active_config k = (c, k') \<Longrightarrow> c = screen_config k"
  by (auto simp: active_config_def screen_config_def Let_def split: prod.split_asm)

lemma performOverlay_cases:
  assumes "performOverlay io f = Some (1, f')" "\<not> mSecureDisplay (f_kms f)"
  obtains i l a m g where "mOverlay (f_disp f) = Some i" "l = mLayers (f_disp f) ! i" "handle l = Some a"
    "kept_frame f g" "h_fbId m \<noteq> 0" "f_buffer g a = Some m"
    "show_overlay io (mKmsPlaneNum (f_kms f) - 1) (OverlayRef i) l (screen_config (f_kms f)) a m g = Some (1, f')"
proof -
  obtain lr l where o: "overlay_layer f = Some (lr, l)"
    using assms by (cases "overlay_layer f") (auto simp: performOverlay_def Let_def)
  then obtain i where i: "mOverlay (f_disp f) = Some i" "l = mLayers (f_disp f) ! i" "lr = OverlayRef i"
    using assms(2) by (auto simp: overlay_layer_def)
  obtain a where a: "handle l = Some a"
    using assms o by (cases "handle l") (auto simp: performOverlay_def Let_def)
  obtain m where m: "f_buffer f a = Some m"
    using assms o a by (cases "f_buffer f a") (auto simp: performOverlay_def Let_def)
  let ?f1 = "hdcp_overlay io m (f\<lparr>mPset := Some (the_pset f)\<rparr>)"
  obtain c k2 where c: "active_config (f_kms ?f1) = (c, k2)" by (cases "active_config (f_kms ?f1)")
  obtain m1 f3 where fb: "overlay_fb io 1 a m (?f1\<lparr>f_kms := k2\<rparr>) = (m1, f3)"
    by (cases "overlay_fb io 1 a m (?f1\<lparr>f_kms := k2\<rparr>)")
  have body: "(if h_fbId m1 = 0 then
        (case mOverlay (f_disp f3) of
           None \<Rightarrow> None
         | Some i \<Rightarrow> Some (0, on_disp (\<lambda>d. (set_layer i ((mLayers d ! i)\<lparr>isOverlay := False\<rparr>) d)\<lparr>mOverlay := None\<rparr>) f3))
      else show_overlay io (mKmsPlaneNum (f_kms f) - 1) lr l c a m1 f3) = Some (1, f')"
    using assms o a m c fb by (simp add: performOverlay_def Let_def split: if_split_asm)
  then have nz: "h_fbId m1 \<noteq> 0" by (auto split: option.split_asm if_split_asm)
  have "kept_frame f f3"
    using kept_trans[OF kept_trans[OF kept_pset kept_trans[OF kept_hdcp kept_active[OF c]]] kept_overlay_fb[OF fb]] .
  moreover have "c = screen_config (f_kms f)"
    using active_config_screen[OF c] hdcp_config[of io m "f\<lparr>mPset := Some (the_pset f)\<rparr>"] by simp
  moreover have "f_buffer f3 a = Some m1"
  proof -
    have "k_mem k2 = k_mem (f_kms ?f1)" using c by (auto simp: active_config_def Let_def k_mem_def split: prod.split_asm)
    then have "f_buffer (?f1\<lparr>f_kms := k2\<rparr>) a = Some m"
      using m by (simp add: f_buffer_def f_mem_def k_mem_def hdcp_overlay_def Let_def frame_defs)
    then show ?thesis using fb by (auto simp: overlay_fb_def Let_def split: if_split_asm)
  qed
  ultimately show thesis using that[of i l a f3 m1] i a nz body by simp
qed

text \<open>What is added before the plane is connected concerns the CRTC, the connector and the table of the plane.\<close>

definition table_only :: "kms \<Rightarrow> kms_plane \<Rightarrow> pset \<Rightarrow> pset \<Rightarrow> bool" where
  "table_only k p s s' \<longleftrightarrow>
     (\<forall>ob q. ob \<notin> {mCrtcID k, mConnectorID k, plane_id p} \<longrightarrow> prop_of s' ob q = prop_of s ob q)"

lemma table_only_trans: "table_only k p s t \<Longrightarrow> table_only k p t u \<Longrightarrow> table_only k p s u"
  by (simp add: table_only_def)

lemma hdr_overlay_kept:
  assumes "hdr_overlay io i l s f = (s', f')"
  shows "same_ids (f_kms f) (f_kms f')" "table_only (f_kms f) p s s'" "f_buffer f' b = f_buffer f b"
  using assms
  by (auto simp: hdr_overlay_def setHdrMetaData_def Let_def same_ids_def table_only_def frame_defs set_layer_def
      f_buffer_def f_mem_def k_mem_def split: if_split_asm)

lemma table_overlay_kept:
  assumes "table_overlay io p a s f = Some (s', f')"
  shows "same_ids (f_kms f) (f_kms f')" "table_only (f_kms f) p s s'" "f_buffer f' b = f_buffer f b"
proof -
  obtain addr w where m: "getMetaData (f_env io) (Some a) (f_mem f) = Some (addr, w)"
    using assms by (auto simp: table_overlay_def bind_eq_Some_conv)
  have h: "heap w = heap (f_mem f)"
    using m by (auto simp: getMetaData_def with_handle_def split: option.split_asm if_split_asm)
  show "same_ids (f_kms f) (f_kms f')" "table_only (f_kms f) p s s'" "f_buffer f' b = f_buffer f b"
    using assms m h
    by (auto simp: table_overlay_def Let_def same_ids_def table_only_def frame_defs setTableOffset_def
        add_prop_def f_buffer_def f_mem_def k_mem_def split: if_split_asm option.split_asm)
qed

lemma show_overlay_shows:
  assumes "show_overlay io pidx (OverlayRef i) l c a m f = Some (1, f')" "\<not> mSecureDisplay (f_kms f)"
    and "mCustomizeUI (f_kms f) = UI_SCALE_NONE" "\<not> io_downscale io" "\<not> io_downscale_dcss io"
    and "ids_ok (f_kms f)" "pidx < mKmsPlaneNum (f_kms f)" "overlay_frame (f_kms f) c (displayFrame l) = Some fr"
  defines "p \<equiv> mKmsPlanes (f_kms f) ! pidx" and "r \<equiv> sourceCrop l"
  shows "\<exists>s. mPset f' = Some s \<and>
    plane_shows s p (mCrtcID (f_kms f)) (h_fbId m) (r_left r, r_top r, r_width r, r_height r) fr \<and>
    table_only (f_kms f) p (the_pset f) s \<and> same_ids (f_kms f) (f_kms f') \<and> f_buffer f' b = f_buffer f b"
proof -
  let ?k = "f_kms f"
  obtain x y w h where fr: "fr = (x, y, w, h)" by (cases fr) auto
  let ?base = "bindOutFence ?k (the_pset f)"
  obtain s1 g where g: "hdr_overlay io i l ?base f = (s1, g)" by (cases "hdr_overlay io i l ?base f")
  obtain s2 f1 where t: "table_overlay io p a s1 g = Some (s2, f1)"
    and f': "f' = f1\<lparr>mPset := Some (overlay_source io ?k p r fr (overlay_display io ?k p (displayFrame l) fr
        (connectCrtc p (mCrtcID ?k) (h_fbId m) s2)))\<rparr>"
    using assms(1,2,8) g unfolding p_def r_def by (auto simp: show_overlay_def Let_def bind_eq_Some_conv)
  let ?s = "u32s (setSourceSurface p) (r_left r) (r_top r) (r_width r) (r_height r)
    (u32s (setDisplayFrame p) x y w h (connectCrtc p (mCrtcID ?k) (h_fbId m) s2))"
  have s: "mPset f' = Some ?s"
    using assms(2-5) by (simp add: f' overlay_source_def overlay_display_def fr)
  have ok: "plane_ok p" using ids_ok_plane(1)[OF assms(6,7)] by (simp add: p_def)
  have same: "same_ids ?k (f_kms f')"
    using same_ids_trans[OF hdr_overlay_kept(1)[OF g] table_overlay_kept(1)[OF t]] by (simp add: f')
  have a: "table_only ?k p (the_pset f) ?base" by (simp add: table_only_def bindOutFence_def)
  have b: "table_only ?k p s1 s2"
    using table_overlay_kept(2)[OF t] hdr_overlay_kept(1)[OF g] by (simp add: table_only_def same_ids_def)
  have "table_only ?k p s2 ?s" by (simp add: table_only_def prop_of_other)
  then have "table_only ?k p (the_pset f) ?s"
    using table_only_trans[OF table_only_trans[OF table_only_trans[OF a hdr_overlay_kept(2)[OF g]] b]] by blast
  moreover have "f_buffer f' b = f_buffer f b"
    using hdr_overlay_kept(3)[OF g] table_overlay_kept(3)[OF t] by (simp add: f')
  ultimately show ?thesis using s same plane_shows_set(2)[OF ok] fr by blast
qed

lemma performOverlay_spec:
  assumes "performOverlay io f = Some (1, f')" "\<not> mSecureDisplay (f_kms f)" "mCustomizeUI (f_kms f) = UI_SCALE_NONE"
    and "\<not> io_downscale io" "\<not> io_downscale_dcss io" "ids_ok (f_kms f)"
    and "\<And>i. mOverlay (f_disp f) = Some i \<Longrightarrow>
      frame_inside (displayFrame (mLayers (f_disp f) ! i)) (screen_config (f_kms f)) (mMode (f_conf f))"
  defines "p \<equiv> mKmsPlanes (f_kms f) ! (mKmsPlaneNum (f_kms f) - 1)"
  shows "\<exists>i a m s. mOverlay (f_disp f) = Some i \<and> mPset f' = Some s \<and>
    handle (mLayers (f_disp f) ! i) = Some a \<and> f_buffer f' a = Some m \<and> h_fbId m \<noteq> 0 \<and>
    (let r = sourceCrop (mLayers (f_disp f) ! i);
         dst = scaled_frame (mMode (f_conf f)) (screen_config (f_kms f)) (displayFrame (mLayers (f_disp f) ! i))
     in plane_shows s p (mCrtcID (f_kms f)) (h_fbId m) (r_left r, r_top r, r_width r, r_height r) dst \<and>
        in_mode (mMode (f_conf f)) dst) \<and>
    table_only (f_kms f) p (the_pset f) s \<and> same_ids (f_kms f) (f_kms f')"
  using assms(1,2)
proof (cases rule: performOverlay_cases)
  case (1 i l a m g)
  have same: "same_ids (f_kms f) (f_kms g)" using 1(4) by (simp add: kept_frame_def)
  then have e: "mMode (f_conf g) = mMode (f_conf f)" "mKmsPlanes (f_kms g) = mKmsPlanes (f_kms f)"
    "mKmsPlaneNum (f_kms g) = mKmsPlaneNum (f_kms f)" "mCrtcID (f_kms g) = mCrtcID (f_kms f)"
    "mConnectorID (f_kms g) = mConnectorID (f_kms f)"
    "\<not> mSecureDisplay (f_kms g)" "mCustomizeUI (f_kms g) = UI_SCALE_NONE"
    using assms(2,3) by (simp_all add: same_ids_def)
  have ok: "ids_ok (f_kms g)" using assms(6) same_ids_ok[OF same] by simp
  then have n: "mKmsPlaneNum (f_kms f) - 1 < mKmsPlaneNum (f_kms g)" using e(3) by (simp add: ids_ok_def)
  have "frame_inside (displayFrame l) (screen_config (f_kms f)) (mMode (f_conf g))"
    using assms(7)[OF 1(1)] 1(2) e(1) by simp
  note fr = overlay_frame_inside[OF this]
  let ?fr = "scaled_frame (mMode (f_conf g)) (screen_config (f_kms f)) (displayFrame l)"
  obtain t where t: "the_pset g = the_pset f @ t" "\<forall>x\<in>set t. fst x = mConnectorID (f_kms f)"
    using 1(4) by (auto simp: kept_frame_def)
  then have "table_only (f_kms f) p (the_pset f) (the_pset g)"
    using prop_of_none[of t] by (auto simp: table_only_def)
  moreover obtain s where s: "mPset f' = Some s"
    "plane_shows s p (mCrtcID (f_kms f)) (h_fbId m)
       (r_left (sourceCrop l), r_top (sourceCrop l), r_width (sourceCrop l), r_height (sourceCrop l)) ?fr"
    "table_only (f_kms g) p (the_pset g) s" "same_ids (f_kms g) (f_kms f')" "f_buffer f' a = f_buffer g a"
    using show_overlay_shows[OF 1(7) e(6,7) assms(4,5) ok n fr(1), where b = a] e unfolding p_def by auto
  ultimately have "table_only (f_kms f) p (the_pset f) s"
    using table_only_trans[of "f_kms f" p "the_pset f" "the_pset g" s] e by (simp add: table_only_def)
  then show ?thesis
    using 1(1-3,5,6) s(1,2,5) fr(2) e(1) same_ids_trans[OF same s(4)] by (auto simp: Let_def)
qed

text \<open>
  C11: the overlay and the user interface are committed together.  Let a display that is not secure
  and whose interface is not scaled have two planes or more with distinct ids, on a board that does
  not downscale overlays; let \<open>performOverlay\<close> take the overlay layer, whose frame lies inside the
  configuration and whose source crop begins in the corner of its buffer; and let the next update,
  started with the property set of \<open>performOverlay\<close> and the same ids, commit something.  Then every
  attempt to commit carries one property set, which puts the frame buffer of the layer's buffer on
  the last plane, with the width and height of the crop as its source and the frame, scaled to the
  mode, as its destination, which lies inside the mode; and which puts the frame buffer of the render
  target on the first plane as every frame does.
\<close>

theorem overlay_and_screen_committed:
  assumes "performOverlay io f = Some (1, f')" "updateScreen io g = Some (0, g')" "commits g g' \<noteq> []"
    and "mPset g = mPset f'" "same_ids (f_kms f') (f_kms g)"
    and "\<not> mSecureDisplay (f_kms f)" "mCustomizeUI (f_kms f) = UI_SCALE_NONE" "ids_ok (f_kms f)" "1 < mKmsPlaneNum (f_kms f)"
    and "\<not> io_downscale io" "\<not> io_downscale_dcss io"
    and "\<And>i. mOverlay (f_disp f) = Some i \<Longrightarrow>
      frame_inside (displayFrame (mLayers (f_disp f) ! i)) (screen_config (f_kms f)) (mMode (f_conf f)) \<and>
      r_left (sourceCrop (mLayers (f_disp f) ! i)) = 0 \<and> r_top (sourceCrop (mLayers (f_disp f) ! i)) = 0"
  shows "\<exists>i a m b mt s fl rets. mOverlay (f_disp f) = Some i \<and> commits g g' = map (Commit s fl) rets \<and>
    handle (mLayers (f_disp f) ! i) = Some a \<and> f_buffer f' a = Some m \<and> h_fbId m \<noteq> 0 \<and>
    mRenderTarget (f_disp g) = Some b \<and> f_buffer g' b = Some mt \<and> h_fbId mt \<noteq> 0 \<and>
    (let k = f_kms f; r = sourceCrop (mLayers (f_disp f) ! i);
         dst = scaled_frame (mMode (f_conf f)) (screen_config k) (displayFrame (mLayers (f_disp f) ! i))
     in plane_shows s (mKmsPlanes k ! (mKmsPlaneNum k - 1)) (mCrtcID k) (h_fbId m) (0, 0, r_width r, r_height r) dst \<and>
        in_mode (mMode (f_conf f)) dst \<and>
        frame_set io g (mKmsPlanes k ! 0) (screen_config (f_kms g)) (h_fbId mt) fl s)"
proof -
  let ?k = "f_kms f" and ?p = "mKmsPlanes (f_kms f) ! (mKmsPlaneNum (f_kms f) - 1)"
  obtain i a m s where o: "mOverlay (f_disp f) = Some i" "mPset f' = Some s" "handle (mLayers (f_disp f) ! i) = Some a"
    "f_buffer f' a = Some m" "h_fbId m \<noteq> 0" "same_ids ?k (f_kms f')"
    "(let r = sourceCrop (mLayers (f_disp f) ! i);
          dst = scaled_frame (mMode (f_conf f)) (screen_config ?k) (displayFrame (mLayers (f_disp f) ! i))
      in plane_shows s ?p (mCrtcID ?k) (h_fbId m) (r_left r, r_top r, r_width r, r_height r) dst \<and>
         in_mode (mMode (f_conf f)) dst)"
    using performOverlay_spec[OF assms(1,6,7,10,11,8)] assms(12) by blast
  have same: "same_ids ?k (f_kms g)" by (rule same_ids_trans[OF o(6) assms(5)])
  then have e: "mCrtcID (f_kms g) = mCrtcID ?k" "mConnectorID (f_kms g) = mConnectorID ?k" "mKmsPlanes (f_kms g) = mKmsPlanes ?k"
    "screen_plane (f_kms g) = 0" "\<not> mSecureDisplay (f_kms g)"
    using assms(6) by (simp_all add: same_ids_def screen_plane_def)
  have tgt: "fst (snd (screen_target g)) = mRenderTarget (f_disp g)" using e(5) by (simp add: screen_target_def Let_def)
  have ok: "ids_ok (f_kms g)" using assms(8) same_ids_ok[OF same] by simp
  obtain b mt s' fl rets where c: "commits g g' = map (Commit s' fl) rets"
    "frame_set io g (mKmsPlanes ?k ! 0) (screen_config (f_kms g)) (h_fbId mt) fl s'"
    "mRenderTarget (f_disp g) = Some b" "f_buffer g' b = Some mt" "h_fbId mt \<noteq> 0"
    using updateScreen_spec[OF assms(2) ok] assms(3) unfolding e tgt if_bool_eq_conj by blast
  have n: "mKmsPlaneNum ?k - 1 < mKmsPlaneNum ?k" "0 < mKmsPlaneNum ?k" "mKmsPlaneNum ?k - 1 \<noteq> 0" using assms(9) by simp_all
  have "prop_of s' (plane_id ?p) q = prop_of s (plane_id ?p) q" for q
    using c(2) ids_ok_plane(2,3)[OF assms(8) n(1)] ids_ok_planes[OF assms(8) n] e o(2) assms(4)
    by (auto simp: frame_set_def Let_def the_pset_def split: prod.split_asm)
  then have ps: "plane_shows s' ?p crtc fb src dst = plane_shows s ?p crtc fb src dst" for crtc fb src dst
    by (rule plane_shows_cong)
  have z: "r_left (sourceCrop (mLayers (f_disp f) ! i)) = 0" "r_top (sourceCrop (mLayers (f_disp f) ! i)) = 0"
    using assms(12)[OF o(1)] by simp_all
  show ?thesis
    using o(7) c(2) unfolding Let_def ps[symmetric] z
    by (intro exI[of _ i] exI[of _ a] exI[of _ m] exI[of _ b] exI[of _ mt] exI[of _ s'] exI[of _ fl] exI[of _ rets])
       (simp add: o(1,3-5) c(1,3-5))
qed

section \<open>Witnesses\<close>

definition plane_demo :: "u32 \<Rightarrow> kms_plane" where
  "plane_demo i = \<lparr>plane_id = i, plane_fd = 4,
     plane_props = (\<lambda>n. case map_of (zip planeTable [1, 2, 3, 4, 5, 6, 7, 8, 9, 10, 11, 12, 13]) n of
                          None \<Rightarrow> 0 | Some p \<Rightarrow> p)\<rparr>"

definition mem_screen :: memory where
  "mem_screen = mem_1080p\<lparr>h_flags := FLAGS_FRAMEBUFFER, h_fbId := 9\<rparr>"

definition mem_overlay :: memory where
  "mem_overlay = mem_1080p\<lparr>h_fslFormat := FORMAT_NV12, h_fbId := 8, h_fd_meta := 0\<rparr>"

definition layer_overlay :: layer where
  "layer_overlay = Layer_init\<lparr>handle := Some 2, isOverlay := True,
     sourceCrop := \<lparr>r_left = 0, r_top = 0, r_right = 640, r_bottom = 360\<rparr>,
     displayFrame := \<lparr>r_left = 10, r_top = 20, r_right = 1270, r_bottom = 700\<rparr>\<rparr>"

definition config_720 :: display_config where
  "config_720 = config0\<lparr>mXres := 1280, mYres := 720\<rparr>"

definition disp_frame :: display where
  "disp_frame = disp_demo\<lparr>mConnected := True, mRenderTarget := Some 1, mComposeFlag := CLIENT_COMPOSE_MASK,
     mOverlay := Some 0, mLayers := [layer_overlay],
     d_comp := (d_comp disp_demo)\<lparr>cw := world0\<lparr>heap := [1 \<mapsto> mem_screen, 2 \<mapsto> mem_overlay]\<rparr>\<rparr>\<rparr>"

definition kms_demo_frame :: kms where
  "kms_demo_frame = (KmsDisplay_init disp_frame 3 False drm_demo)
     \<lparr>mDrmFd := 4, mPowerMode := POWER_ON, mCrtcID := 40, mConnectorID := 7, mKmsPlaneNum := 2,
      mKmsPlanes := [plane_demo 30, plane_demo 31],
      mCrtc := (\<lambda>_. 0)(''MODE_ID'' := 20, ''ACTIVE'' := 21, ''OUT_FENCE_PTR'' := 22),
      mConnector := (\<lambda>_. 0)(''CRTC_ID'' := 23),
      k_conf := (k_conf (KmsDisplay_init disp_frame 3 False drm_demo))
        \<lparr>mConfigs := [(0, config_720)], mActiveConfig := 0, mMode := mode_1080\<rparr>\<rparr>"

definition frame_demo :: kms_frame where
  "frame_demo = kms_frame_init kms_demo_frame drm_demo (\<lambda>_. \<lparr>md_flags = 0, md_yoffset = 0, md_uvoffset = 0\<rparr>)"

definition io_demo :: frame_io where
  "io_demo = \<lparr>io_lib = lib_demo, io_overlay_enabled = True, io_downscale = False, io_downscale_dcss = False,
     io_bgrx = False, io_prime = (\<lambda>_ _. Some 5), io_addfb = (\<lambda>_. Some 6), io_atomic_alloc = True,
     io_mode_blob = (\<lambda>_. Some 50), io_hdr_blob = (\<lambda>_. None),
     io_commit = (\<lambda>_ _ i. \<lparr>cr_ret = (if i = 0 then - EBUSY else 0), cr_present = 60, cr_out = -1\<rparr>),
     io_dup = (\<lambda>fd. fd + 1)\<rparr>"

lemma plane_demo_ok: "plane_ok (plane_demo i)"
  by (simp add: plane_ok_def plane_demo_def plane_names_def planeTable_def)

lemma frame_demo_ids: "ids_ok (f_kms frame_demo)"
  by (simp add: ids_ok_def frame_demo_def kms_frame_init_def kms_demo_frame_def plane_demo_ok) (simp add: plane_demo_def)

lemma frame_demo_state:
  "mPowerMode (f_kms frame_demo) = POWER_ON" "\<not> mUseOverlayAndroidUI (f_kms frame_demo)"
  "\<not> mSecureDisplay (f_kms frame_demo)" "mDrmFd (f_kms frame_demo) = 4" "mRenderTarget (f_disp frame_demo) = Some 1"
  "f_buffer frame_demo 1 = Some mem_screen" "f_buffer frame_demo 2 = Some mem_overlay" "mConnected (f_disp frame_demo)"
  "mComposeFlag (f_disp frame_demo) = CLIENT_COMPOSE_MASK" "mOverlay (f_disp frame_demo) = Some 0"
  "mLayers (f_disp frame_demo) = [layer_overlay]" "mCustomizeUI (f_kms frame_demo) = UI_SCALE_NONE"
  "mKmsPlaneNum (f_kms frame_demo) = 2" "mMode (f_conf frame_demo) = mode_1080" "screen_config (f_kms frame_demo) = config_720"
  "mPset frame_demo = None" "mEdid (f_kms frame_demo) = None" "mHDCPEnable frame_demo = False"
  by (simp_all add: frame_demo_def kms_frame_init_def kms_demo_frame_def KmsDisplay_init_def disp_frame_def f_buffer_def
      f_mem_def k_mem_def screen_config_def index_op_def emplace_def property_get_def drm_demo_def)

lemma frame_demo_target: "h_fbId mem_screen = 9" "has_flag (h_flags mem_screen) FLAGS_FRAMEBUFFER"
  by (simp_all add: mem_screen_def has_flag_def FLAGS_FRAMEBUFFER_def)

lemma client_no_clear: "\<not> clear_needed CLIENT_COMPOSE_MASK"
  by (simp add: clear_needed_def CLIENT_COMPOSE_MASK_def)

theorem updateScreen_commits_witness:
  "\<exists>f' s fl rets fb. updateScreen io_demo frame_demo = Some (0, f') \<and> commits frame_demo f' = map (Commit s fl) rets \<and>
     attempts_ok rets \<and> fb \<noteq> 0 \<and> frame_set io_demo frame_demo (plane_demo 30) config_720 fb fl s"
proof -
  obtain f' where f': "updateScreen io_demo frame_demo = Some (0, f')" "commits frame_demo f' \<noteq> []"
    using updateScreen_progress[OF frame_demo_state(1-3) _ frame_demo_state(5,6) frame_demo_target(2) frame_demo_state(8), of io_demo]
      frame_demo_target frame_demo_state client_no_clear frame_demo_ids by (auto simp: io_demo_def)
  have p: "mKmsPlanes (f_kms frame_demo) ! screen_plane (f_kms frame_demo) = plane_demo 30"
    by (simp add: screen_plane_def frame_demo_state) (simp add: frame_demo_def kms_frame_init_def kms_demo_frame_def)
  from updateScreen_commits[OF f'(1) frame_demo_ids, unfolded p frame_demo_state(15) if_bool_eq_conj] f' show ?thesis by blast
qed

lemma active_config_present:
  assumes "map_of (mConfigs (k_conf k)) (mActiveConfig (k_conf k)) = Some c"
  shows "active_config k = (c, k)"
  using index_op_present[OF assms] by (simp add: active_config_def)

lemma with_mem_same [simp]: "with_mem (k_mem k) k = k"
  by (simp add: with_mem_def k_mem_def)

text \<open>The overlay of the frame is taken.\<close>

lemma frame_demo_overlay: "\<exists>s. performOverlay io_demo frame_demo = Some (1, frame_demo\<lparr>mPset := Some s\<rparr>)"
proof -
  have conf: "map_of (mConfigs (f_conf frame_demo)) (mActiveConfig (f_conf frame_demo)) = Some config_720"
    by (simp add: frame_demo_def kms_frame_init_def kms_demo_frame_def)
  have v: "veritySourceSize layer_overlay mem_overlay"
    by (simp add: veritySourceSize_def layer_overlay_def r_width_def r_height_def Let_def)
  have hd: "hdcp_overlay io_demo m (frame_demo\<lparr>mPset := s\<rparr>) = frame_demo\<lparr>mPset := s\<rparr>" for m s
    by (simp add: hdcp_overlay_def frame_demo_state)
  have fb: "overlay_fb io_demo 1 2 mem_overlay f = (mem_overlay, f)" for f
    by (simp add: overlay_fb_def mem_overlay_def)
  have fr: "overlay_frame (f_kms frame_demo) config_720 (displayFrame layer_overlay) = Some (15, 30, 1890, 1020)"
    by (simp add: overlay_frame_def scale32_def fits32_def frame_demo_state config_720_def layer_overlay_def mode_1080_def
        r_width_def r_height_def signed_divide_int_def)
  have md: "getMetaData env (Some 2) (f_mem frame_demo) = Some (None, f_mem frame_demo)" for env
    using frame_demo_state(7)
    by (simp add: getMetaData_def with_handle_def f_buffer_def) (simp add: mem_overlay_def mem_1080p_def Memory_new_def Memory_isValid_def)
  have tb: "table_overlay io_demo p 2 s (frame_demo\<lparr>mPset := t\<rparr>) = Some (s, frame_demo\<lparr>mPset := t\<rparr>)" for p s t
    using md by (simp add: table_overlay_def f_mem_def on_kms_def)
  have hr: "hdr_overlay io_demo 0 layer_overlay s (frame_demo\<lparr>mPset := t\<rparr>) = (s, frame_demo\<lparr>mPset := t\<rparr>)" for s t
    by (simp add: hdr_overlay_def frame_demo_state)
  have ov: "overlay_layer frame_demo = Some (OverlayRef 0, layer_overlay)" "handle layer_overlay = Some 2"
    by (simp_all add: overlay_layer_def frame_demo_state) (simp add: layer_overlay_def)
  have "io_atomic_alloc io_demo" by (simp add: io_demo_def)
  then show ?thesis
    using ov v hd fb fr tb hr active_config_present[OF conf]
    by (simp add: performOverlay_def show_overlay_def Let_def frame_demo_state) (simp add: mem_overlay_def, rule exI, rule refl)
qed

theorem overlay_and_screen_committed_witness:
  "\<exists>f' g' s fl rets fb. performOverlay io_demo frame_demo = Some (1, f') \<and> updateScreen io_demo f' = Some (0, g') \<and>
     commits f' g' = map (Commit s fl) rets \<and> plane_shows s (plane_demo 31) 40 8 (0, 0, 640, 360) (15, 30, 1890, 1020) \<and>
     fb \<noteq> 0 \<and> frame_set io_demo f' (plane_demo 30) config_720 fb fl s"
proof -
  obtain s where o: "performOverlay io_demo frame_demo = Some (1, frame_demo\<lparr>mPset := Some s\<rparr>)"
    using frame_demo_overlay by blast
  let ?f = "frame_demo\<lparr>mPset := Some s\<rparr>"
  obtain g' where u: "updateScreen io_demo ?f = Some (0, g')" "commits ?f g' \<noteq> []"
    using updateScreen_progress[of ?f 1 mem_screen io_demo] frame_demo_target frame_demo_state client_no_clear frame_demo_ids
    by (auto simp: io_demo_def)
  have inside: "frame_inside (displayFrame layer_overlay) config_720 mode_1080"
    by (simp add: frame_inside_def layer_overlay_def config_720_def mode_1080_def)
  have p: "mKmsPlanes (f_kms frame_demo) ! 1 = plane_demo 31" "mCrtcID (f_kms frame_demo) = 40"
    by (simp_all add: frame_demo_def kms_frame_init_def kms_demo_frame_def)
  have io: "\<not> io_downscale io_demo" "\<not> io_downscale_dcss io_demo" by (simp_all add: io_demo_def)
  have same: "same_ids (f_kms ?f) (f_kms ?f)" by (simp add: same_ids_def)
  have r: "sourceCrop layer_overlay = \<lparr>r_left = 0, r_top = 0, r_right = 640, r_bottom = 360\<rparr>" by (simp add: layer_overlay_def)
  have n: "1 < mKmsPlaneNum (f_kms frame_demo)" by (simp add: frame_demo_state)
  have fi: "frame_inside (displayFrame (mLayers (f_disp frame_demo) ! i)) (screen_config (f_kms frame_demo)) (mMode (f_conf frame_demo)) \<and>
      r_left (sourceCrop (mLayers (f_disp frame_demo) ! i)) = 0 \<and> r_top (sourceCrop (mLayers (f_disp frame_demo) ! i)) = 0"
    if "mOverlay (f_disp frame_demo) = Some i" for i
    using that inside by (simp add: frame_demo_state r)
  have p0: "mKmsPlanes (f_kms frame_demo) ! 0 = plane_demo 30"
    by (simp add: frame_demo_def kms_frame_init_def kms_demo_frame_def)
  have b: "f_buffer ?f 2 = Some mem_overlay" "h_fbId mem_overlay = 8" "handle layer_overlay = Some 2"
    by (simp_all add: frame_demo_state) (simp_all add: mem_overlay_def layer_overlay_def)
  have dst: "scaled_frame mode_1080 config_720 (displayFrame layer_overlay) = (15, 30, 1890, 1020)"
    by (simp add: scaled_frame_def layer_overlay_def config_720_def mode_1080_def r_width_def r_height_def)
  obtain s' fl rets fb where "commits ?f g' = map (Commit s' fl) rets" "fb \<noteq> 0"
    "plane_shows s' (plane_demo 31) 40 8 (0, 0, 640, 360) (15, 30, 1890, 1020)"
    "frame_set io_demo ?f (plane_demo 30) config_720 fb fl s'"
    using overlay_and_screen_committed[OF o u refl same frame_demo_state(3,12) frame_demo_ids n io fi] p p0 b dst
    by (auto simp: Let_def frame_demo_state r r_width_def r_height_def)
  then show ?thesis using o u(1) by blast
qed

end
