(* ===== verification/Sorted_Map.thy ===== *)
theory Sorted_Map
  imports HAL_Prelude
begin

text \<open>
  \<open>std::map\<close> as the list of its entries in the order of their keys, and the contract of a map with one
  value for a key, which the property store of the vehicle and the tables of the thermal service rely
  on.
\<close>

section \<open>Sorted maps\<close>

text \<open>\<open>insert\<close> of \<open>std::map\<close>, which keeps the entry of a key it has, and the lower bound of a key.\<close>

fun map_insert :: "'k::linorder \<Rightarrow> 'v \<Rightarrow> ('k \<times> 'v) list \<Rightarrow> ('k \<times> 'v) list" where
  "map_insert k v [] = [(k, v)]"
| "map_insert k v ((k', v') # m) =
     (if k < k' then (k, v) # (k', v') # m
      else if k = k' then (k', v') # m else (k', v') # map_insert k v m)"

fun map_replace :: "'k \<Rightarrow> 'v \<Rightarrow> ('k \<times> 'v) list \<Rightarrow> ('k \<times> 'v) list" where
  "map_replace k v [] = []"
| "map_replace k v ((k', v') # m) = (if k = k' then (k, v) # m else (k', v') # map_replace k v m)"

fun map_erase :: "'k \<Rightarrow> ('k \<times> 'v) list \<Rightarrow> ('k \<times> 'v) list" where
  "map_erase k [] = []"
| "map_erase k ((k', v') # m) = (if k = k' then m else (k', v') # map_erase k m)"

definition from_bound :: "'k::linorder \<Rightarrow> ('k \<times> 'v) list \<Rightarrow> ('k \<times> 'v) list" where
  "from_bound k m = dropWhile (\<lambda>(k', _). k' < k) m"

definition before_bound :: "'k::linorder \<Rightarrow> ('k \<times> 'v) list \<Rightarrow> ('k \<times> 'v) list" where
  "before_bound k m = takeWhile (\<lambda>(k', _). k' < k) m"

section \<open>The contract of the map\<close>

text \<open>
  What a client relies on: insertion of a new key, replacement of the value of a present one and
  removal act on the abstract map as updates of one key.
\<close>

locale keyed_map =
  fixes inv :: "'m \<Rightarrow> bool"
    and lookup :: "'m \<Rightarrow> 'k \<Rightarrow> 'v option"
    and ins :: "'k \<Rightarrow> 'v \<Rightarrow> 'm \<Rightarrow> 'm"
    and rep :: "'k \<Rightarrow> 'v \<Rightarrow> 'm \<Rightarrow> 'm"
    and del :: "'k \<Rightarrow> 'm \<Rightarrow> 'm"
  assumes lookup_ins: "inv m \<Longrightarrow> lookup m k = None \<Longrightarrow> lookup (ins k v m) = (lookup m)(k \<mapsto> v)"
    and inv_ins: "inv m \<Longrightarrow> inv (ins k v m)"
    and lookup_rep: "inv m \<Longrightarrow> lookup m k \<noteq> None \<Longrightarrow> lookup (rep k v m) = (lookup m)(k \<mapsto> v)"
    and inv_rep: "inv m \<Longrightarrow> inv (rep k v m)"
    and lookup_del: "inv m \<Longrightarrow> lookup (del k m) = (lookup m)(k := None)"
    and inv_del: "inv m \<Longrightarrow> inv (del k m)"
begin

text \<open>Writing merges the new value into the one that is there.\<close>

definition put :: "('v \<Rightarrow> 'v) \<Rightarrow> 'v \<Rightarrow> 'k \<Rightarrow> 'm \<Rightarrow> 'm" where
  "put merge v k m = (case lookup m k of None \<Rightarrow> ins k v m | Some old \<Rightarrow> rep k (merge old) m)"

lemma lookup_put:
  "inv m \<Longrightarrow> lookup (put merge v k m) = (lookup m)(k \<mapsto> (case lookup m k of None \<Rightarrow> v | Some old \<Rightarrow> merge old))"
  by (auto simp: put_def lookup_ins lookup_rep split: option.split)

lemma inv_put: "inv m \<Longrightarrow> inv (put merge v k m)"
  by (auto simp: put_def inv_ins inv_rep split: option.split)

lemma del_put: "inv m \<Longrightarrow> lookup m k = None \<Longrightarrow> lookup (del k (put merge v k m)) = lookup m"
  by (auto simp: lookup_del inv_put lookup_put fun_eq_iff)

end

definition sorted_map :: "('k::linorder \<times> 'v) list \<Rightarrow> bool" where
  "sorted_map m \<longleftrightarrow> sorted_wrt (<) (map fst m)"

lemma sorted_map_simps [simp]:
  "sorted_map []" "sorted_map ((k, v) # m) \<longleftrightarrow> (\<forall>x\<in>set m. k < fst x) \<and> sorted_map m"
  by (auto simp: sorted_map_def)

lemma map_insert_keys: "set (map fst (map_insert k v m)) = insert k (set (map fst m))"
  by (induction k v m rule: map_insert.induct) auto

lemma sorted_map_insert: "sorted_map m \<Longrightarrow> sorted_map (map_insert k v m)"
proof (induction k v m rule: map_insert.induct)
  case (2 k v k' v' m)
  have "fst x \<in> insert k (set (map fst m))" if "x \<in> set (map_insert k v m)" for x
    using that map_insert_keys[of k v m] by force
  then show ?case using 2 by fastforce
qed simp

lemma map_of_lower: "\<forall>x\<in>set m. k < fst x \<Longrightarrow> map_of m (k::'k::linorder) = None"
  by (force simp: map_of_eq_None_iff)

lemma map_of_insert:
  "sorted_map m \<Longrightarrow> map_of m k = None \<Longrightarrow> map_of (map_insert k v m) = (map_of m)(k \<mapsto> v)"
  by (induction k v m rule: map_insert.induct) (auto simp: fun_eq_iff split: if_splits)

lemma map_replace_keys: "map fst (map_replace k v m) = map fst m"
  by (induction k v m rule: map_replace.induct) auto

lemma set_map_insert: "x \<in> set (map_insert k v m) \<Longrightarrow> x \<in> set m \<or> x = (k, v)"
  by (induction k v m rule: map_insert.induct) (auto split: if_splits)

lemma set_map_replace: "x \<in> set (map_replace k v m) \<Longrightarrow> x \<in> set m \<or> x = (k, v)"
  by (induction k v m rule: map_replace.induct) (auto split: if_splits)

lemma map_of_replace: "map_of m k \<noteq> None \<Longrightarrow> map_of (map_replace k v m) = (map_of m)(k \<mapsto> v)"
  by (induction k v m rule: map_replace.induct) (auto simp: fun_eq_iff split: if_splits)

lemma set_map_erase: "set (map_erase k m) \<subseteq> set m"
  by (induction k m rule: map_erase.induct) auto

lemma sorted_map_erase: "sorted_map m \<Longrightarrow> sorted_map (map_erase k m)"
  using set_map_erase by (induction k m rule: map_erase.induct) (fastforce+)

lemma map_of_erase: "sorted_map m \<Longrightarrow> map_of (map_erase k m) = (map_of m)(k := None)"
  by (induction k m rule: map_erase.induct) (auto simp: fun_eq_iff map_of_lower)

interpretation pmap: keyed_map sorted_map map_of map_insert map_replace map_erase
proof unfold_locales
  show "sorted_map m \<Longrightarrow> sorted_map (map_replace k v m)" for k v and m :: "('a \<times> 'b) list"
    by (simp add: sorted_map_def map_replace_keys)
qed (simp_all add: map_of_insert map_of_replace map_of_erase sorted_map_insert sorted_map_erase)

lemma sorted_map_filter: "sorted_map m \<Longrightarrow> sorted_map (filter P m)"
  by (induction m) auto

lemma map_of_filter_key: "map_of (filter (\<lambda>x. P (fst x)) m) k = (if P k then map_of m k else None)"
  by (induction m) auto

text \<open>\<open>m[k] = v\<close>.\<close>

definition map_assign :: "'k::linorder \<Rightarrow> 'v \<Rightarrow> ('k \<times> 'v) list \<Rightarrow> ('k \<times> 'v) list" where
  "map_assign k v m = pmap.put (\<lambda>_. v) v k m"

lemma map_of_assign: "sorted_map m \<Longrightarrow> map_of (map_assign k v m) = (map_of m)(k \<mapsto> v)"
  by (simp add: map_assign_def pmap.lookup_put split: option.split)

lemma sorted_map_assign: "sorted_map m \<Longrightarrow> sorted_map (map_assign k v m)"
  unfolding map_assign_def by (rule pmap.inv_put)

lemma set_map_assign: "x \<in> set (map_assign k v m) \<Longrightarrow> x \<in> set m \<or> x = (k, v)"
  by (auto simp: map_assign_def pmap.put_def dest: set_map_insert set_map_replace split: option.splits)

lemma sorted_map_distinct: "sorted_map m \<Longrightarrow> distinct (map fst m)"
  by (simp add: sorted_map_def strict_sorted_iff)

end
