(* ===== verification/Subscriptions.thy ===== *)
theory Subscriptions
  imports Sorted_Map "HOL-Library.AList"
begin

text \<open>
  \<open>SubscriptionManager\<close> of the vehicle HAL (\<open>vehicle/common/src/SubscriptionManager.cpp\<close>).  The
  \<open>std::map\<close>s are association lists with distinct keys; a \<open>HalClient\<close> lives at an address, and a
  \<open>HalClientVector\<close> is the increasing list of the addresses in it.  \<open>fresh\<close> is the allocator,
  \<open>link\<close> tells whether \<open>linkToDeath\<close> succeeds for a callback, and \<open>car\<close> is the flag
  \<open>EVENTS_FROM_CAR\<close> of the Android interface.  A method runs under \<open>mLock\<close>, so it is one step, except
  for \<open>onCallbackDead\<close>, which takes the lock once to read and again for each property.
\<close>

section \<open>Options and clients\<close>

record sub_opts =
  so_prop :: int
  sampleRate :: real
  so_flags :: i32

definition mergeSubscribeOptions :: "sub_opts \<Rightarrow> sub_opts \<Rightarrow> sub_opts option" where
  "mergeSubscribeOptions old new =
     (let rate = max (sampleRate old) (sampleRate new);
          fl = so_flags old OR so_flags new
      in if rate > sampleRate old \<or> fl \<noteq> so_flags old
         then Some (old\<lparr>sampleRate := rate, so_flags := fl\<rparr>) else None)"

record hal_client =
  mCallback :: nat
  mSubscriptions :: "(int \<times> sub_opts) list"

definition client_addOrUpdate :: "sub_opts \<Rightarrow> hal_client \<Rightarrow> hal_client" where
  "client_addOrUpdate opts c =
     (case map_of (mSubscriptions c) (so_prop opts) of
        None \<Rightarrow> c\<lparr>mSubscriptions := AList.update (so_prop opts) opts (mSubscriptions c)\<rparr>
      | Some old \<Rightarrow>
          (case mergeSubscribeOptions old opts of
             None \<Rightarrow> c
           | Some u \<Rightarrow> c\<lparr>mSubscriptions := AList.update (so_prop opts) u (mSubscriptions c)\<rparr>))"

definition isSubscribed :: "hal_client \<Rightarrow> int \<Rightarrow> i32 \<Rightarrow> bool" where
  "isSubscribed c p fl =
     (case map_of (mSubscriptions c) p of None \<Rightarrow> False | Some opts \<Rightarrow> has_flag (so_flags opts) fl)"

definition getSubscribedProperties :: "hal_client \<Rightarrow> int list" where
  "getSubscribedProperties c = sort (map fst (mSubscriptions c))"

section \<open>The manager\<close>

record sub_mgr =
  mClients :: "(u64 \<times> nat) list"
  mPropToClients :: "(int \<times> nat list) list"
  mHalEventSubscribeOptions :: "(int \<times> sub_opts) list"
  objs :: "nat \<Rightarrow> hal_client"
  unsub_calls :: "int list"

definition SubscriptionManager_init :: sub_mgr where
  "SubscriptionManager_init = \<lparr>mClients = [], mPropToClients = [], mHalEventSubscribeOptions = [],
     objs = (\<lambda>a. \<lparr>mCallback = 0, mSubscriptions = []\<rparr>), unsub_calls = []\<rparr>"

definition getClientsForProperty :: "int \<Rightarrow> sub_mgr \<Rightarrow> nat list option" where
  "getClientsForProperty p s = map_of (mPropToClients s) p"

definition vector_add :: "nat \<Rightarrow> nat list \<Rightarrow> nat list" where
  "vector_add a v = (if a \<in> set v then v else insort a v)"

definition addClientToPropMap :: "int \<Rightarrow> nat \<Rightarrow> sub_mgr \<Rightarrow> sub_mgr" where
  "addClientToPropMap p a s =
     (let v = (case map_of (mPropToClients s) p of None \<Rightarrow> [] | Some v \<Rightarrow> v)
      in s\<lparr>mPropToClients := AList.update p (vector_add a v) (mPropToClients s)\<rparr>)"

definition getOrCreateHalClient ::
    "(sub_mgr \<Rightarrow> nat) \<Rightarrow> (nat \<Rightarrow> bool) \<Rightarrow> u64 \<Rightarrow> nat \<Rightarrow> sub_mgr \<Rightarrow> nat option \<times> sub_mgr" where
  "getOrCreateHalClient fresh link cid callback s =
     (case map_of (mClients s) cid of
        Some a \<Rightarrow> (Some a, s)
      | None \<Rightarrow>
          if \<not> link callback then (None, s)
          else (let a = fresh s
                in (Some a, s\<lparr>mClients := AList.update cid a (mClients s),
                              objs := (objs s)(a := \<lparr>mCallback = callback, mSubscriptions = []\<rparr>)\<rparr>)))"

definition updateHalEventSubscription :: "sub_opts \<Rightarrow> sub_mgr \<Rightarrow> sub_opts option \<times> sub_mgr" where
  "updateHalEventSubscription opts s =
     (let m = mHalEventSubscribeOptions s
      in case map_of m (so_prop opts) of
           None \<Rightarrow> (Some opts, s\<lparr>mHalEventSubscribeOptions := AList.update (so_prop opts) opts m\<rparr>)
         | Some old \<Rightarrow>
             (case mergeSubscribeOptions old opts of
                None \<Rightarrow> (None, s)
              | Some u \<Rightarrow> (Some u, s\<lparr>mHalEventSubscribeOptions := AList.update (so_prop opts) u m\<rparr>)))"

text \<open>One round of the loop of \<open>addOrUpdateSubscription\<close>, and the method: status and updated options.\<close>

definition add_option :: "i32 \<Rightarrow> nat \<Rightarrow> sub_opts \<Rightarrow> sub_opts list \<times> sub_mgr \<Rightarrow> sub_opts list \<times> sub_mgr" where
  "add_option car a opts us =
     (let s1 = (snd us)\<lparr>objs := (objs (snd us))(a := client_addOrUpdate opts (objs (snd us) a))\<rparr>;
          s2 = addClientToPropMap (so_prop opts) a s1
      in if has_flag (so_flags opts) car
         then (case updateHalEventSubscription opts s2 of
                 (None, s3) \<Rightarrow> (fst us, s3)
               | (Some u, s3) \<Rightarrow> (fst us @ [u], s3))
         else (fst us, s2))"

datatype status = OK | INTERNAL_ERROR

definition addOrUpdateSubscription ::
    "i32 \<Rightarrow> (sub_mgr \<Rightarrow> nat) \<Rightarrow> (nat \<Rightarrow> bool) \<Rightarrow> u64 \<Rightarrow> nat \<Rightarrow> sub_opts list \<Rightarrow> sub_mgr \<Rightarrow>
     status \<times> sub_opts list \<times> sub_mgr" where
  "addOrUpdateSubscription car fresh link cid callback optionList s =
     (case getOrCreateHalClient fresh link cid callback s of
        (None, s1) \<Rightarrow> (INTERNAL_ERROR, [], s1)
      | (Some a, s1) \<Rightarrow> (OK, fold (add_option car a) optionList ([], s1)))"

definition getSubscribedClients :: "int \<Rightarrow> i32 \<Rightarrow> sub_mgr \<Rightarrow> nat list" where
  "getSubscribedClients p fl s =
     (case getClientsForProperty p s of
        None \<Rightarrow> []
      | Some v \<Rightarrow> filter (\<lambda>a. isSubscribed (objs s a) p fl) v)"

text \<open>
  \<open>distributeValuesToClients\<close>; a value is a property and a payload.  \<open>clientValuesMap[client].push_back(v)\<close>
  makes an empty list for a client that is not in the map; the map is traversed in the order of the
  addresses.
\<close>

definition push_value :: "'v \<Rightarrow> nat \<Rightarrow> (nat \<times> 'v list) list \<Rightarrow> (nat \<times> 'v list) list" where
  "push_value v a m =
     (let m1 = (if map_of m a = None then map_insert a [] m else m)
      in case map_of m1 a of None \<Rightarrow> m1 | Some vs \<Rightarrow> map_replace a (vs @ [v]) m1)"

definition distributeValuesToClients ::
    "(int \<times> 'v) list \<Rightarrow> i32 \<Rightarrow> sub_mgr \<Rightarrow> (nat \<times> (int \<times> 'v) list) list" where
  "distributeValuesToClients values fl s =
     fold (\<lambda>v m. fold (push_value v) (getSubscribedClients (fst v) fl s) m) values []"

text \<open>\<open>unsubscribe\<close>: the part that needs the client, and what is left of the property's vector.\<close>

definition drop_client :: "u64 \<Rightarrow> int \<Rightarrow> sub_mgr \<Rightarrow> nat list option \<times> sub_mgr" where
  "drop_client cid p s =
     (let pc = getClientsForProperty p s
      in case map_of (mClients s) cid of
           None \<Rightarrow> (pc, s)
         | Some a \<Rightarrow>
             (let pc' = map_option (remove1 a) pc;
                  s1 = (case pc' of
                          None \<Rightarrow> s
                        | Some v \<Rightarrow>
                            s\<lparr>mPropToClients := (if v = [] then AList.delete p (mPropToClients s)
                                                else AList.update p v (mPropToClients s))\<rparr>);
                  other = list_ex (\<lambda>pv. a \<in> set (snd pv)) (mPropToClients s1)
              in (pc', if other then s1 else s1\<lparr>mClients := AList.delete cid (mClients s1)\<rparr>)))"

definition unsubscribe :: "u64 \<Rightarrow> int \<Rightarrow> sub_mgr \<Rightarrow> sub_mgr" where
  "unsubscribe cid p s =
     (case drop_client cid p s of
        (pc, s1) \<Rightarrow>
          if pc = None \<or> pc = Some []
          then s1\<lparr>mHalEventSubscribeOptions := AList.delete p (mHalEventSubscribeOptions s1),
                  unsub_calls := unsub_calls s1 @ [p]\<rparr>
          else s1)"

text \<open>
  \<open>onCallbackDead\<close> reads the properties of the client, releases the lock, and unsubscribes them one by
  one, each under the lock again.  \<open>other i\<close> is what other threads do with the manager before the
  \<open>i\<close>-th of them.
\<close>

fun dead_loop :: "(nat \<Rightarrow> sub_mgr \<Rightarrow> sub_mgr) \<Rightarrow> u64 \<Rightarrow> nat \<Rightarrow> int list \<Rightarrow> sub_mgr \<Rightarrow> sub_mgr" where
  "dead_loop other cid i [] s = s"
| "dead_loop other cid i (p # ps) s = dead_loop other cid (Suc i) ps (unsubscribe cid p (other i s))"

definition onCallbackDead :: "(nat \<Rightarrow> sub_mgr \<Rightarrow> sub_mgr) \<Rightarrow> u64 \<Rightarrow> sub_mgr \<Rightarrow> sub_mgr" where
  "onCallbackDead other cid s =
     (case map_of (mClients s) cid of
        None \<Rightarrow> s
      | Some a \<Rightarrow> dead_loop other cid 0 (getSubscribedProperties (objs s a)) s)"

text \<open>No other thread comes in between.\<close>

definition nobody :: "nat \<Rightarrow> sub_mgr \<Rightarrow> sub_mgr" where
  "nobody i s = s"

section \<open>Invariant\<close>

definition sub_inv :: "sub_mgr \<Rightarrow> bool" where
  "sub_inv s \<longleftrightarrow>
     distinct (map fst (mPropToClients s)) \<and>
     (\<forall>c c' a. map_of (mClients s) c = Some a \<longrightarrow> map_of (mClients s) c' = Some a \<longrightarrow> c = c') \<and>
     (\<forall>p v. map_of (mPropToClients s) p = Some v \<longrightarrow>
        v \<noteq> [] \<and> sorted v \<and> distinct v \<and>
        (\<forall>a\<in>set v. (\<exists>c. map_of (mClients s) c = Some a) \<and> map_of (mSubscriptions (objs s a)) p \<noteq> None))"

text \<open>Who is subscribed to what.\<close>

definition in_vector :: "sub_mgr \<Rightarrow> nat \<Rightarrow> int \<Rightarrow> bool" where
  "in_vector s a p \<longleftrightarrow> (\<exists>v. map_of (mPropToClients s) p = Some v \<and> a \<in> set v)"

definition subs :: "sub_mgr \<Rightarrow> (u64 \<times> int) set" where
  "subs s = {(c, p). \<exists>a. map_of (mClients s) c = Some a \<and> in_vector s a p}"

lemma init_inv: "sub_inv SubscriptionManager_init" "subs SubscriptionManager_init = {}"
  by (simp_all add: sub_inv_def subs_def in_vector_def SubscriptionManager_init_def)

lemma sub_inv_inj:
  "sub_inv s \<Longrightarrow> map_of (mClients s) c = Some a \<Longrightarrow> map_of (mClients s) c' = Some a \<Longrightarrow> c = c'"
  unfolding sub_inv_def by blast

lemma sub_inv_vec:
  assumes "sub_inv s" "map_of (mPropToClients s) p = Some v"
  shows "v \<noteq> []" "sorted v" "distinct v" "a \<in> set v \<Longrightarrow> \<exists>c. map_of (mClients s) c = Some a"
    "a \<in> set v \<Longrightarrow> map_of (mSubscriptions (objs s a)) p \<noteq> None"
  using assms unfolding sub_inv_def by blast+

lemma vector_nonempty:
  assumes "sub_inv s" shows "(\<exists>c. (c, p) \<in> subs s) \<longleftrightarrow> map_of (mPropToClients s) p \<noteq> None"
proof (cases "map_of (mPropToClients s) p")
  case (Some v)
  obtain a where "a \<in> set v" using sub_inv_vec(1)[OF assms Some] by (cases v) auto
  with sub_inv_vec(4)[OF assms Some] obtain c where "map_of (mClients s) c = Some a" by blast
  with Some \<open>a \<in> set v\<close> show ?thesis by (auto simp: subs_def in_vector_def)
qed (simp add: subs_def in_vector_def)

lemma map_of_update [simp]: "map_of (AList.update k v m) = (map_of m)(k \<mapsto> v)"
  by (rule update_conv')

lemma map_of_delete [simp]: "map_of (AList.delete k m) = (map_of m)(k := None)"
  by (rule delete_conv')

lemma set_vector_add [simp]: "set (vector_add a v) = insert a (set v)"
  by (auto simp: vector_add_def set_insort_key)

lemma vector_add_ok [simp]: "sorted v \<Longrightarrow> sorted (vector_add a v)" "distinct v \<Longrightarrow> distinct (vector_add a v)"
    "vector_add a v \<noteq> []"
  by (auto simp: vector_add_def sorted_insort distinct_insort)

lemma client_has_sub:
  "map_of (mSubscriptions (client_addOrUpdate opts c)) (so_prop opts) \<noteq> None"
  "map_of (mSubscriptions c) p \<noteq> None \<Longrightarrow> map_of (mSubscriptions (client_addOrUpdate opts c)) p \<noteq> None"
  by (auto simp: client_addOrUpdate_def split: option.split)

section \<open>Adding subscriptions\<close>

lemma updateHal_state:
  assumes "updateHalEventSubscription opts s = (r, s')"
  shows "mClients s' = mClients s" "mPropToClients s' = mPropToClients s" "objs s' = objs s"
    "unsub_calls s' = unsub_calls s"
  using assms by (auto simp: updateHalEventSubscription_def Let_def split: option.splits)

lemma add_option_state:
  "mClients (snd (add_option car a opts us)) = mClients (snd us)"
  "mPropToClients (snd (add_option car a opts us)) = mPropToClients (addClientToPropMap (so_prop opts) a (snd us))"
  "objs (snd (add_option car a opts us)) = (objs (snd us))(a := client_addOrUpdate opts (objs (snd us) a))"
  by (auto simp: add_option_def Let_def addClientToPropMap_def dest: updateHal_state split: prod.split option.split)

lemma add_option_ok:
  assumes "sub_inv (snd us)" "map_of (mClients (snd us)) c = Some a"
  shows "sub_inv (snd (add_option car a opts us))"
    and "subs (snd (add_option car a opts us)) = insert (c, so_prop opts) (subs (snd us))"
proof -
  let ?s = "snd us" and ?s' = "snd (add_option car a opts us)"
  note st = add_option_state[of car a opts us]
  have pm: "map_of (mPropToClients ?s') = (map_of (mPropToClients ?s))
      (so_prop opts \<mapsto> vector_add a (case map_of (mPropToClients ?s) (so_prop opts) of None \<Rightarrow> [] | Some v \<Rightarrow> v))"
    by (simp add: st addClientToPropMap_def Let_def)
  have inj: "\<And>c'. map_of (mClients ?s) c' = Some a \<Longrightarrow> c' = c" using sub_inv_inj[OF assms(1)] assms(2) by blast
  show "sub_inv ?s'"
    unfolding sub_inv_def
  proof (intro conjI allI impI)
    show "distinct (map fst (mPropToClients ?s'))"
      using assms(1) by (simp add: st addClientToPropMap_def Let_def distinct_update sub_inv_def)
  next
    fix c c' a' assume "map_of (mClients ?s') c = Some a'" "map_of (mClients ?s') c' = Some a'"
    then show "c = c'" using assms(1) by (auto simp: st sub_inv_def)
  next
    fix p v assume v: "map_of (mPropToClients ?s') p = Some v"
    have old: "\<And>v. map_of (mPropToClients ?s) p = Some v \<Longrightarrow> v \<noteq> [] \<and> sorted v \<and> distinct v \<and>
        (\<forall>a\<in>set v. (\<exists>c. map_of (mClients ?s) c = Some a) \<and> map_of (mSubscriptions (objs ?s a)) p \<noteq> None)"
      using assms(1) by (auto simp: sub_inv_def)
    show "v \<noteq> []" "sorted v" "distinct v"
      using v old by (auto simp: pm split: if_split_asm option.splits)
    show "\<forall>a'\<in>set v. (\<exists>c. map_of (mClients ?s') c = Some a') \<and> map_of (mSubscriptions (objs ?s' a')) p \<noteq> None"
      using v old assms(2) client_has_sub
      by (auto simp: pm st(1,3) split: if_split_asm option.splits)
  qed
  have iv: "in_vector ?s' b q \<longleftrightarrow> in_vector ?s b q \<or> b = a \<and> q = so_prop opts" for b q
    by (cases "map_of (mPropToClients ?s) (so_prop opts)") (auto simp: in_vector_def pm)
  show "subs ?s' = insert (c, so_prop opts) (subs ?s)"
    unfolding subs_def st(1) iv using assms(2) inj by blast
qed

lemma add_options_ok:
  assumes "sub_inv (snd us)" "map_of (mClients (snd us)) c = Some a"
  shows "sub_inv (snd (fold (add_option car a) os us)) \<and>
    subs (snd (fold (add_option car a) os us)) = {c} \<times> so_prop ` set os \<union> subs (snd us)"
  using assms
proof (induction os arbitrary: us)
  case (Cons opts os)
  let ?us = "add_option car a opts us"
  have "sub_inv (snd ?us)" "map_of (mClients (snd ?us)) c = Some a"
    using add_option_ok(1)[OF Cons.prems] Cons.prems(2) by (simp_all add: add_option_state)
  from Cons.IH[OF this] show ?case using add_option_ok(2)[OF Cons.prems, of car opts] by auto
qed simp

text \<open>What the allocator promises: the address of a new object is not in use.\<close>

definition fresh_ok :: "(sub_mgr \<Rightarrow> nat) \<Rightarrow> bool" where
  "fresh_ok fresh \<longleftrightarrow> (\<forall>s c. map_of (mClients s) c \<noteq> Some (fresh s))"

lemma getOrCreate_ok:
  assumes "sub_inv s" "fresh_ok fresh" "getOrCreateHalClient fresh link cid callback s = (r, s')"
  shows "sub_inv s' \<and> subs s' = subs s \<and> (\<forall>a. r = Some a \<longrightarrow> map_of (mClients s') cid = Some a)"
proof -
  have "s' = s \<and> (\<forall>a. r = Some a \<longrightarrow> map_of (mClients s) cid = Some a) \<or>
    r = Some (fresh s) \<and> map_of (mClients s) cid = None \<and>
    s' = s\<lparr>mClients := AList.update cid (fresh s) (mClients s),
           objs := (objs s)(fresh s := \<lparr>mCallback = callback, mSubscriptions = []\<rparr>)\<rparr>"
    using assms(3) by (auto simp: getOrCreateHalClient_def Let_def split: option.splits if_splits)
  then show ?thesis
  proof
    assume new: "r = Some (fresh s) \<and> map_of (mClients s) cid = None \<and>
      s' = s\<lparr>mClients := AList.update cid (fresh s) (mClients s),
           objs := (objs s)(fresh s := \<lparr>mCallback = callback, mSubscriptions = []\<rparr>)\<rparr>"
    have f: "\<And>c. map_of (mClients s) c \<noteq> Some (fresh s)" using assms(2) by (auto simp: fresh_ok_def)
    have nv: "fresh s \<notin> set v" if "map_of (mPropToClients s) p = Some v" for p v
      using assms(1) f that by (fastforce simp: sub_inv_def)
    have "sub_inv s'"
      using assms(1) f nv new unfolding sub_inv_def by (auto split: if_split_asm) (metis option.sel option.simps(3))+
    moreover have "subs s' = subs s" using new f nv by (auto simp: subs_def in_vector_def split: if_split_asm)
    ultimately show ?thesis using new by simp
  qed (use assms(1) in auto)
qed

lemma addOrUpdate_ok:
  assumes "sub_inv s" "fresh_ok fresh" "addOrUpdateSubscription car fresh link cid callback opts s = (r, out, s')"
  shows "sub_inv s'" and "subs s' = (if r = OK then {cid} \<times> so_prop ` set opts else {}) \<union> subs s"
proof -
  obtain ca s1 where g: "getOrCreateHalClient fresh link cid callback s = (ca, s1)" by fastforce
  note c = getOrCreate_ok[OF assms(1,2) g]
  show "sub_inv s'" "subs s' = (if r = OK then {cid} \<times> so_prop ` set opts else {}) \<union> subs s"
    using assms(3) c add_options_ok[of "([], s1)" cid _ car opts]
    by (auto simp: addOrUpdateSubscription_def g split: option.split_asm)
qed

section \<open>Removing subscriptions\<close>

lemma remove1_vec: "distinct v \<Longrightarrow> set (remove1 a v) = set v - {a}"
  by simp

lemma drop_client_ok:
  assumes "sub_inv s" "drop_client cid p s = (pc, s')"
  shows "sub_inv s' \<and> subs s' = subs s - {(cid, p)} \<and> objs s' = objs s \<and>
    ((pc = None \<or> pc = Some []) \<longleftrightarrow> (\<forall>c. (c, p) \<notin> subs s'))"
proof (cases "map_of (mClients s) cid")
  case None
  have "map_of (mPropToClients s) p \<noteq> Some []" using sub_inv_vec(1)[OF assms(1)] by blast
  moreover have "(cid, p) \<notin> subs s" using None by (simp add: subs_def)
  ultimately show ?thesis
    using None assms vector_nonempty[OF assms(1), of p] by (auto simp: drop_client_def Let_def getClientsForProperty_def)
next
  case (Some a)
  define v where "v = map_of (mPropToClients s) p"
  define m where "m = (case v of None \<Rightarrow> mPropToClients s
     | Some v \<Rightarrow> if remove1 a v = [] then AList.delete p (mPropToClients s) else AList.update p (remove1 a v) (mPropToClients s))"
  define other where "other = list_ex (\<lambda>pv. a \<in> set (snd pv)) m"
  have "drop_client cid p s = (map_option (remove1 a) v,
      s\<lparr>mPropToClients := m, mClients := if other then mClients s else AList.delete cid (mClients s)\<rparr>)"
    unfolding drop_client_def Let_def getClientsForProperty_def Some option.case v_def[symmetric]
    by (cases v) (simp_all add: m_def other_def)
  then have s': "s' = s\<lparr>mPropToClients := m, mClients := if other then mClients s else AList.delete cid (mClients s)\<rparr>"
      and pc: "pc = map_option (remove1 a) v"
    using assms(2) by auto
  have inv1: "distinct (map fst (mPropToClients s))" using assms(1) unfolding sub_inv_def by blast
  have inv2: "\<And>c c' a. map_of (mClients s) c = Some a \<Longrightarrow> map_of (mClients s) c' = Some a \<Longrightarrow> c = c'"
    by (rule sub_inv_inj[OF assms(1)])
  have inv3: "v \<noteq> [] \<and> sorted v \<and> distinct v \<and>
        (\<forall>a\<in>set v. (\<exists>c. map_of (mClients s) c = Some a) \<and> map_of (mSubscriptions (objs s a)) p \<noteq> None)"
    if "map_of (mPropToClients s) p = Some v" for p v
    using assms(1) that unfolding sub_inv_def by blast
  note inv = inv1 inv2 inv3
  have dm: "distinct (map fst m)"
    using inv(1) by (auto simp: m_def distinct_update distinct_delete split: option.split)
  have mm: "map_of m q = (if q = p then (case v of None \<Rightarrow> None | Some w \<Rightarrow> if remove1 a w = [] then None else Some (remove1 a w))
                           else map_of (mPropToClients s) q)" for q
    by (auto simp: m_def v_def split: option.split)
  have ot: "other \<longleftrightarrow> (\<exists>q w. map_of m q = Some w \<and> a \<in> set w)"
    using dm by (force simp: other_def list_ex_iff dest: map_of_SomeD intro: map_of_is_SomeI)
  have vec: "w \<noteq> [] \<and> sorted w \<and> distinct w \<and>
      (\<forall>b\<in>set w. (\<exists>c. map_of (mClients s) c = Some b) \<and> map_of (mSubscriptions (objs s b)) q \<noteq> None \<and> (q = p \<longrightarrow> b \<noteq> a))"
    if "map_of m q = Some w" for q w
    using that inv(3)[of q] inv(3)[of p] by (auto simp: mm v_def sorted_remove1 split: if_split_asm option.split_asm dest: notin_set_remove1)
  have si: "sub_inv s'"
    unfolding sub_inv_def
  proof (intro conjI allI impI)
    show "distinct (map fst (mPropToClients s'))" using dm by (simp add: s')
    fix c c' b assume "map_of (mClients s') c = Some b" "map_of (mClients s') c' = Some b"
    then show "c = c'" using inv(2) by (auto simp: s' split: if_split_asm)
  next
    fix q w assume w: "map_of (mPropToClients s') q = Some w"
    then have q: "map_of m q = Some w" by (simp add: s')
    from vec[OF this] show "w \<noteq> []" "sorted w" "distinct w" by auto
    show "\<forall>b\<in>set w. (\<exists>c. map_of (mClients s') c = Some b) \<and> map_of (mSubscriptions (objs s' b)) q \<noteq> None"
    proof
      have o: "objs s' = objs s" by (simp add: s')
      fix b assume b: "b \<in> set w"
      then obtain c where c: "map_of (mClients s) c = Some b" using vec[OF q] by blast
      have "c \<noteq> cid \<or> other" using c Some b q ot by auto
      then have "map_of (mClients s') c = Some b" using c by (auto simp: s')
      then show "(\<exists>c. map_of (mClients s') c = Some b) \<and> map_of (mSubscriptions (objs s' b)) q \<noteq> None"
        using vec[OF q] b o by auto
    qed
  qed
  have sb: "subs s' = subs s - {(cid, p)}"
  proof -
    have iv: "in_vector s' b q \<longleftrightarrow> in_vector s b q \<and> \<not> (b = a \<and> q = p)" for b q
    proof (cases "q = p \<and> v \<noteq> None")
      case True
      then obtain w where w: "v = Some w" "q = p" by blast
      then have "map_of (mPropToClients s) p = Some w" by (simp add: v_def)
      then have r: "set (remove1 a w) = set w - {a}" using inv3 by (intro set_remove1_eq) blast
      then have e: "remove1 a w = [] \<longleftrightarrow> set w - {a} = {}" by (metis set_empty)
      have "in_vector s b q \<longleftrightarrow> b \<in> set w" using w by (simp add: in_vector_def v_def)
      moreover have "in_vector s' b q \<longleftrightarrow> b \<in> set (remove1 a w)" using w e r by (auto simp: in_vector_def s' mm)
      ultimately show ?thesis using r w by auto
    qed (auto simp: in_vector_def s' mm v_def)
    have mc: "map_of (mClients s') c = (if c = cid \<and> \<not> other then None else map_of (mClients s) c)" for c
      by (simp add: s')
    have o: "in_vector s' a q \<Longrightarrow> other" for q using ot by (auto simp: in_vector_def s')
    have "(c, q) \<in> subs s' \<longleftrightarrow> (c, q) \<in> subs s - {(cid, p)}" for c q
    proof (cases "c = cid")
      case True
      then have "(c, q) \<in> subs s' \<longleftrightarrow> in_vector s' a q" using Some o by (auto simp: subs_def mc)
      also have "\<dots> \<longleftrightarrow> (c, q) \<in> subs s - {(cid, p)}" using Some True by (auto simp: iv subs_def)
      finally show ?thesis .
    next
      case False
      then have "map_of (mClients s) c \<noteq> Some a" using inv2 Some by blast
      then show ?thesis using False by (auto simp: subs_def mc iv)
    qed
    then show ?thesis by (simp only: set_eq_iff split_paired_All simp_thms)
  qed
  have "(pc = None \<or> pc = Some []) \<longleftrightarrow> map_of (mPropToClients s') p = None"
    by (auto simp: pc s' mm split: option.split)
  moreover have "(\<exists>c. (c, p) \<in> subs s') \<longleftrightarrow> map_of (mPropToClients s') p \<noteq> None" by (rule vector_nonempty[OF si])
  moreover have "objs s' = objs s" by (simp add: s')
  ultimately show ?thesis using si sb by blast
qed

lemma unsubscribe_ok:
  assumes "sub_inv s"
  shows "sub_inv (unsubscribe cid p s)" "subs (unsubscribe cid p s) = subs s - {(cid, p)}"
    "unsub_calls (unsubscribe cid p s) = unsub_calls s @ (if \<forall>c. (c, p) \<notin> subs s - {(cid, p)} then [p] else [])"
    "objs (unsubscribe cid p s) = objs s"
proof -
  obtain pc s1 where d: "drop_client cid p s = (pc, s1)" by fastforce
  have u: "unsub_calls s1 = unsub_calls s"
    using d by (auto simp: drop_client_def Let_def split: option.splits if_splits)
  note ok = drop_client_ok[OF assms d]
  have same: "sub_inv (s1\<lparr>mHalEventSubscribeOptions := x, unsub_calls := y\<rparr>) = sub_inv s1"
    "subs (s1\<lparr>mHalEventSubscribeOptions := x, unsub_calls := y\<rparr>) = subs s1" for x y
    by (simp_all add: sub_inv_def subs_def in_vector_def)
  show "sub_inv (unsubscribe cid p s)" "subs (unsubscribe cid p s) = subs s - {(cid, p)}"
    "objs (unsubscribe cid p s) = objs s"
    using ok by (simp_all add: unsubscribe_def d same)
  show "unsub_calls (unsubscribe cid p s) = unsub_calls s @ (if \<forall>c. (c, p) \<notin> subs s - {(cid, p)} then [p] else [])"
    using ok u by (auto simp: unsubscribe_def d)
qed

lemma fold_unsubscribe_ok:
  "sub_inv s \<Longrightarrow> sub_inv (fold (unsubscribe cid) ps s) \<and>
     subs (fold (unsubscribe cid) ps s) = subs s - {cid} \<times> set ps"
proof (induction ps arbitrary: s)
  case (Cons p ps)
  from Cons.IH[OF unsubscribe_ok(1)[OF Cons.prems, of cid p]] show ?case
    using unsubscribe_ok(2)[OF Cons.prems, of cid p] by auto
qed simp

lemma dead_loop_nobody: "dead_loop nobody cid i ps s = fold (unsubscribe cid) ps s"
  by (induction ps arbitrary: i s) (simp_all add: nobody_def)

lemma subscribed_props:
  assumes "sub_inv s" "(cid, p) \<in> subs s" "map_of (mClients s) cid = Some a"
  shows "p \<in> set (getSubscribedProperties (objs s a))"
proof -
  obtain v where "map_of (mPropToClients s) p = Some v" "a \<in> set v"
    using assms(2,3) by (auto simp: subs_def in_vector_def)
  from sub_inv_vec(5)[OF assms(1) this] show ?thesis
    by (auto simp: getSubscribedProperties_def intro: image_eqI[rotated, OF map_of_SomeD])
qed

lemma onCallbackDead_ok:
  assumes "sub_inv s"
  shows "subs (onCallbackDead nobody cid s) = {(c, p) \<in> subs s. c \<noteq> cid}"
proof (cases "map_of (mClients s) cid")
  case None
  then show ?thesis by (auto simp: onCallbackDead_def subs_def)
next
  case (Some a)
  then show ?thesis
    using fold_unsubscribe_ok[OF assms, of cid "getSubscribedProperties (objs s a)"]
      subscribed_props[OF assms _ Some] by (auto simp: onCallbackDead_def dead_loop_nobody)
qed

text \<open>
  With other threads in between, none of which subscribes the dead client to anything, no pair of it
  is left.
\<close>

lemma dead_loop_ok:
  assumes "\<And>i t. P t \<Longrightarrow> P (other i t)" "\<And>p t. P t \<Longrightarrow> P (unsubscribe cid p t)" "\<And>t. P t \<Longrightarrow> sub_inv t"
    and "\<And>i t q. P t \<Longrightarrow> (cid, q) \<in> subs (other i t) \<Longrightarrow> (cid, q) \<in> subs t"
    and "P s" "\<And>q. (cid, q) \<in> subs s \<Longrightarrow> q \<in> set ps"
  shows "P (dead_loop other cid i ps s) \<and> (\<forall>q. (cid, q) \<notin> subs (dead_loop other cid i ps s))"
  using assms(5,6)
proof (induction ps arbitrary: i s)
  case (Cons p ps)
  let ?t = "other i s"
  have t: "P ?t" "sub_inv ?t" using assms(1,3) Cons.prems(1) by blast+
  have "q \<in> set ps" if "(cid, q) \<in> subs (unsubscribe cid p ?t)" for q
    using that unsubscribe_ok(2)[OF t(2)] assms(4)[OF Cons.prems(1)] Cons.prems(2) by force
  then show ?case using Cons.IH[OF assms(2)[OF t(1), of p]] by simp
qed auto

lemma onCallbackDead_others:
  assumes "\<And>i t. P t \<Longrightarrow> P (other i t)" "\<And>p t. P t \<Longrightarrow> P (unsubscribe cid p t)" "\<And>t. P t \<Longrightarrow> sub_inv t"
    and "\<And>i t q. P t \<Longrightarrow> (cid, q) \<in> subs (other i t) \<Longrightarrow> (cid, q) \<in> subs t" and "P s"
  shows "P (onCallbackDead other cid s) \<and> (\<forall>q. (cid, q) \<notin> subs (onCallbackDead other cid s))"
proof (cases "map_of (mClients s) cid")
  case None
  then show ?thesis using assms(5) by (simp add: onCallbackDead_def subs_def)
next
  case (Some a)
  have "q \<in> set (getSubscribedProperties (objs s a))" if "(cid, q) \<in> subs s" for q
    by (rule subscribed_props[OF assms(3)[OF assms(5)] that Some])
  then show ?thesis using dead_loop_ok[of P other cid s, OF assms(1-5)] Some by (simp add: onCallbackDead_def)
qed

section \<open>Distribution of values\<close>

lemma getSubscribedClients_iff:
  "a \<in> set (getSubscribedClients p fl s) \<longleftrightarrow> in_vector s a p \<and> isSubscribed (objs s a) p fl"
  by (cases "map_of (mPropToClients s) p") (auto simp: getSubscribedClients_def getClientsForProperty_def in_vector_def)

lemma sorted_map_replace: "sorted_map (map_replace k x m) = sorted_map m"
  by (simp add: sorted_map_def map_replace_keys)

lemma push_value_sorted: "sorted_map m \<Longrightarrow> sorted_map (push_value v a m)"
  using sorted_map_insert[of m a "[]"]
  by (auto simp: push_value_def Let_def sorted_map_replace split: option.split)

lemma push_value_lookup:
  assumes "sorted_map m"
  shows "map_of (push_value v a m) = (map_of m)(a \<mapsto> (case map_of m a of None \<Rightarrow> [v] | Some vs \<Rightarrow> vs @ [v]))"
proof (cases "map_of m a")
  case None
  then have "map_of (map_insert a [] m) = (map_of m)(a \<mapsto> [])" by (rule map_of_insert[OF assms])
  then show ?thesis using None map_of_replace[of "map_insert a [] m" a] by (simp add: push_value_def Let_def)
next
  case (Some vs)
  then show ?thesis using map_of_replace[of m a] by (simp add: push_value_def Let_def)
qed

text \<open>One value goes to clients that are listed once each.\<close>

lemma push_clients:
  assumes "sorted_map m" "distinct cs"
  shows "sorted_map (fold (push_value v) cs m)"
    "map_of (fold (push_value v) cs m) a =
       (if a \<in> set cs then Some ((case map_of m a of None \<Rightarrow> [] | Some vs \<Rightarrow> vs) @ [v]) else map_of m a)"
proof -
  have "sorted_map (fold (push_value v) cs m) \<and> map_of (fold (push_value v) cs m) a =
       (if a \<in> set cs then Some ((case map_of m a of None \<Rightarrow> [] | Some vs \<Rightarrow> vs) @ [v]) else map_of m a)"
    using assms
  proof (induction cs arbitrary: m)
    case (Cons c cs)
    from Cons.IH[OF push_value_sorted[OF Cons.prems(1)]] Cons.prems show ?case
      by (auto simp: push_value_lookup split: option.split)
  qed simp
  then show "sorted_map (fold (push_value v) cs m)" "map_of (fold (push_value v) cs m) a =
       (if a \<in> set cs then Some ((case map_of m a of None \<Rightarrow> [] | Some vs \<Rightarrow> vs) @ [v]) else map_of m a)"
    by blast+
qed

lemma push_values:
  assumes "sorted_map m" "\<And>v. distinct (cs v)"
  shows "sorted_map (fold (\<lambda>v m. fold (push_value v) (cs v) m) values m) \<and>
    map_of (fold (\<lambda>v m. fold (push_value v) (cs v) m) values m) a =
      (let own = filter (\<lambda>v. a \<in> set (cs v)) values
       in case map_of m a of None \<Rightarrow> if own = [] then None else Some own | Some vs \<Rightarrow> Some (vs @ own))"
  using assms(1)
proof (induction "values" arbitrary: m)
  case (Cons v "values")
  note p = push_clients[OF Cons.prems assms(2)]
  from Cons.IH[OF p(1)] show ?case by (auto simp: p(2) Let_def split: option.split)
qed (simp add: Let_def split: option.split)

lemma clients_distinct: "sub_inv s \<Longrightarrow> distinct (getSubscribedClients p fl s)"
  by (auto simp: getSubscribedClients_def getClientsForProperty_def dest: sub_inv_vec(3) split: option.split)

lemma distribute_spec:
  assumes "sub_inv s"
  shows "sorted_map (distributeValuesToClients values fl s)"
    "map_of (distributeValuesToClients values fl s) a =
      (let own = filter (\<lambda>v. in_vector s a (fst v) \<and> isSubscribed (objs s a) (fst v) fl) values
       in if own = [] then None else Some own)"
  using push_values[of "[]" "\<lambda>v. getSubscribedClients (fst v) fl s" "values" a] clients_distinct[OF assms]
  by (simp_all add: distributeValuesToClients_def getSubscribedClients_iff)

section \<open>Reachable states\<close>

text \<open>
  The calls of the HAL manager and of the death notification, in any order.  The notification only
  calls \<open>unsubscribe\<close>, so its steps are among these.
\<close>

inductive sub_reach :: "i32 \<Rightarrow> (sub_mgr \<Rightarrow> nat) \<Rightarrow> (nat \<Rightarrow> bool) \<Rightarrow> sub_mgr \<Rightarrow> bool" for car fresh link where
  init: "sub_reach car fresh link SubscriptionManager_init"
| subscribe: "sub_reach car fresh link s \<Longrightarrow>
    sub_reach car fresh link (snd (snd (addOrUpdateSubscription car fresh link cid callback opts s)))"
| unsubscribe: "sub_reach car fresh link s \<Longrightarrow> sub_reach car fresh link (unsubscribe cid p s)"

lemma reach_inv:
  assumes "sub_reach car fresh link s" "fresh_ok fresh" shows "sub_inv s"
  using assms(1)
proof induction
  case (subscribe s cid callback opts)
  obtain r out s' where "addOrUpdateSubscription car fresh link cid callback opts s = (r, out, s')" by (metis prod_cases3)
  with addOrUpdate_ok(1)[OF subscribe.IH assms(2) this] show ?case by simp
qed (use init_inv unsubscribe_ok(1) in blast)+

text \<open>
  C4: the manager implements the set of (client, property) pairs that the calls describe: a
  successful subscription adds the client's properties, \<open>unsubscribe\<close> removes one pair, and the death
  of a client removes all of its pairs; nobody else's subscription ever changes.  When other threads
  work on the manager between the steps of the death notification, and do not subscribe the dead
  client to anything, none of its pairs is left all the same.
\<close>

theorem subscriptions_refine_set:
  assumes "sub_reach car fresh link s" "fresh_ok fresh"
  shows "(\<forall>cid callback opts r out s'.
      addOrUpdateSubscription car fresh link cid callback opts s = (r, out, s') \<longrightarrow>
      subs s' = (if r = OK then {cid} \<times> so_prop ` set opts else {}) \<union> subs s) \<and>
    subs (unsubscribe cid p s) = subs s - {(cid, p)} \<and>
    subs (onCallbackDead nobody cid s) = {(c, p) \<in> subs s. c \<noteq> cid} \<and>
    (\<forall>other. (\<forall>i t. sub_reach car fresh link t \<longrightarrow> sub_reach car fresh link (other i t) \<and>
        (\<forall>q. (cid, q) \<in> subs (other i t) \<longrightarrow> (cid, q) \<in> subs t)) \<longrightarrow>
      (\<forall>q. (cid, q) \<notin> subs (onCallbackDead other cid s)))"
proof (intro conjI allI impI)
  show "subs s' = (if r = OK then {cid} \<times> so_prop ` set opts else {}) \<union> subs s"
    if "addOrUpdateSubscription car fresh link cid callback opts s = (r, out, s')" for cid callback opts r out s'
    by (rule addOrUpdate_ok(2)[OF reach_inv[OF assms] assms(2) that])
  show "subs (unsubscribe cid p s) = subs s - {(cid, p)}"
    "subs (onCallbackDead nobody cid s) = {(c, p) \<in> subs s. c \<noteq> cid}"
    using reach_inv[OF assms] unsubscribe_ok(2) onCallbackDead_ok by blast+
  show "(cid, q) \<notin> subs (onCallbackDead other cid s)"
    if "\<forall>i t. sub_reach car fresh link t \<longrightarrow> sub_reach car fresh link (other i t) \<and>
        (\<forall>q. (cid, q) \<in> subs (other i t) \<longrightarrow> (cid, q) \<in> subs t)" for other q
    using onCallbackDead_others[of "sub_reach car fresh link" other cid s] that assms reach_inv sub_reach.unsubscribe
    by blast
qed

text \<open>
  C30: every client gets exactly the values of the properties it is subscribed to with the requested
  flag, each once and in the order in which they were produced, and a client with nothing to receive
  is not called.
\<close>

theorem distribute_exact:
  assumes "sub_reach car fresh link s" "fresh_ok fresh"
  shows "distinct (map fst (distributeValuesToClients values fl s)) \<and>
   (\<forall>a vs. (a, vs) \<in> set (distributeValuesToClients values fl s) \<longleftrightarrow>
      vs = filter (\<lambda>v. in_vector s a (fst v) \<and> isSubscribed (objs s a) (fst v) fl) values \<and> vs \<noteq> [])"
proof -
  note d = distribute_spec[OF reach_inv[OF assms], of "values" fl]
  have k: "distinct (map fst (distributeValuesToClients values fl s))" by (rule sorted_map_distinct[OF d(1)])
  have "(a, vs) \<in> set (distributeValuesToClients values fl s) \<longleftrightarrow>
      map_of (distributeValuesToClients values fl s) a = Some vs" for a vs
    using k by (simp add: map_of_eq_Some_iff)
  then show ?thesis using k d(2) by (auto simp: Let_def)
qed

text \<open>
  The callback for a property that nobody uses any more is called exactly when an \<open>unsubscribe\<close>
  leaves the property without clients.
\<close>

theorem unsubscribed_callback_exact:
  assumes "sub_reach car fresh link s" "fresh_ok fresh"
  shows "unsub_calls (unsubscribe cid p s) =
    unsub_calls s @ (if \<exists>c. (c, p) \<in> subs (unsubscribe cid p s) then [] else [p])"
  using unsubscribe_ok(2,3)[OF reach_inv[OF assms], of cid p] by auto

section \<open>Witnesses\<close>

definition fresh_max :: "sub_mgr \<Rightarrow> nat" where
  "fresh_max s = Suc (foldr (\<lambda>ca m. max (snd ca) m) (mClients s) 0)"

lemma fresh_max_ok: "fresh_ok fresh_max"
proof -
  have "(c, a) \<in> set m \<Longrightarrow> a \<le> foldr (\<lambda>ca m. max (snd ca) m) m 0" for c :: u64 and a :: nat and m
    by (induction m) (auto simp: le_max_iff_disj)
  then show ?thesis unfolding fresh_ok_def fresh_max_def by (metis map_of_SomeD not_less_eq_eq order_refl)
qed

definition opt :: "int \<Rightarrow> i32 \<Rightarrow> sub_opts" where
  "opt p fl = \<lparr>so_prop = p, sampleRate = 1, so_flags = fl\<rparr>"

abbreviation sub_demo where "sub_demo cid os s \<equiv> snd (snd (addOrUpdateSubscription 1 fresh_max (\<lambda>_. True) cid 9 os s))"

text \<open>Client 7 is subscribed to the properties 1 and 2, and then no longer to 1.\<close>

definition mgr2 :: sub_mgr where "mgr2 = sub_demo 7 [opt 1 1, opt 2 1] SubscriptionManager_init"
definition mgr_less :: sub_mgr where "mgr_less = unsubscribe 7 1 mgr2"

lemma mgr_reach: "sub_reach 1 fresh_max (\<lambda>_. True) mgr2" "sub_reach 1 fresh_max (\<lambda>_. True) mgr_less"
  unfolding mgr2_def mgr_less_def by (intro sub_reach.intros)+

lemmas sub_ops = addOrUpdateSubscription_def getOrCreateHalClient_def add_option_def addClientToPropMap_def
  updateHalEventSubscription_def client_addOrUpdate_def mergeSubscribeOptions_def vector_add_def Let_def

lemma mgr2_eval:
  "mgr2 = \<lparr>mClients = [(7, 1)], mPropToClients = [(1, [1]), (2, [1])],
     mHalEventSubscribeOptions = [(1, opt 1 1), (2, opt 2 1)],
     objs = (objs SubscriptionManager_init)(1 := \<lparr>mCallback = 9, mSubscriptions = [(1, opt 1 1), (2, opt 2 1)]\<rparr>),
     unsub_calls = []\<rparr>"
  by (simp add: mgr2_def SubscriptionManager_init_def sub_ops fresh_max_def opt_def has_flag_def)

lemma mgr_less_eval:
  "mgr_less = mgr2\<lparr>mPropToClients := [(2, [1])], mHalEventSubscribeOptions := [(2, opt 2 1)], unsub_calls := [1]\<rparr>"
  by (simp add: mgr_less_def mgr2_eval unsubscribe_def drop_client_def getClientsForProperty_def Let_def AList.delete_eq)

text \<open>
  \<open>unsubscribe\<close> does not forget the options of the client: when the client subscribes again, with
  other flags, the old flags come back.  Here client 7 drops a property and subscribes to it again
  for the events of Android only; it counts as subscribed to the events of the car, which the HAL no
  longer asks for.
\<close>

theorem resubscribe_keeps_old_flags:
  "\<exists>s. sub_reach 1 fresh_max (\<lambda>_. True) s \<and> (7, 1) \<notin> subs s \<and>
     (let s' = snd (snd (addOrUpdateSubscription 1 fresh_max (\<lambda>_. True) 7 9 [opt 1 2] s))
      in getSubscribedClients 1 1 s' = [1] \<and> map_of (mHalEventSubscribeOptions s') 1 = None)"
proof -
  have "(7, 1) \<notin> subs mgr_less" by (simp add: mgr_less_eval subs_def in_vector_def mgr2_eval)
  moreover have "let s' = snd (snd (addOrUpdateSubscription 1 fresh_max (\<lambda>_. True) 7 9 [opt 1 2] mgr_less))
      in getSubscribedClients 1 1 s' = [1] \<and> map_of (mHalEventSubscribeOptions s') 1 = None"
    by (simp add: mgr_less_eval mgr2_eval sub_ops fresh_max_def opt_def has_flag_def getSubscribedClients_def
        getClientsForProperty_def isSubscribed_def)
  ultimately show ?thesis using mgr_reach(2) by blast
qed

theorem subscriptions_refine_set_witness:
  "subs (onCallbackDead nobody 7 mgr2) = {(c, p) \<in> subs mgr2. c \<noteq> 7} \<and> subs (unsubscribe 7 1 mgr2) = subs mgr2 - {(7, 1)}"
  using subscriptions_refine_set[OF mgr_reach(1) fresh_max_ok] by blast

theorem distribute_exact_witness:
  "(1, [(1, ''a''), (2, ''b''), (1, ''c'')]) \<in> set (distributeValuesToClients [(1, ''a''), (2, ''b''), (3, ''x''), (1, ''c'')] 1 mgr2)"
proof -
  have e: "in_vector mgr2 (Suc 0) p \<longleftrightarrow> p = 1 \<or> p = 2" "isSubscribed (objs mgr2 (Suc 0)) p 1 \<longleftrightarrow> p = 1 \<or> p = 2" for p
    by (auto simp: mgr2_eval in_vector_def isSubscribed_def opt_def has_flag_def)
  show ?thesis
    using distribute_exact[OF mgr_reach(1) fresh_max_ok, of "[(1, ''a''), (2, ''b''), (3, ''x''), (1, ''c'')]" 1]
    by (simp add: e)
qed

theorem unsubscribed_callback_exact_witness:
  "unsub_calls (unsubscribe 7 1 mgr2) = [1]"
proof -
  have "\<not> (\<exists>c. (c, 1) \<in> subs (unsubscribe 7 1 mgr2))"
    by (simp add: mgr_less_def[symmetric] mgr_less_eval subs_def in_vector_def)
  then show ?thesis
    using unsubscribed_callback_exact[OF mgr_reach(1) fresh_max_ok, of 7 1] by (simp add: mgr2_eval)
qed

end
