(* ===== verification/Vms_Messages.thy ===== *)
theory Vms_Messages
  imports HAL_Prelude
begin

text \<open>
  The messages of the vehicle map service, \<open>vehicle/common/src/VmsUtils.cpp\<close>: their construction
  and their parsers.  The numbers of the message types and of the fields are constants of the
  Vehicle HAL interface, the parameter \<open>vms_ids\<close>.  A loop over the fields of a message keeps its
  index as a natural number; an index that leaves \<open>int\<close> is undefined behaviour.
\<close>

section \<open>Data\<close>

record vms_ids =
  VEHICLE_MAP_SERVICE :: int
  AREA_GLOBAL :: int
  SUBSCRIBE :: int
  SUBSCRIBE_TO_PUBLISHER :: int
  UNSUBSCRIBE :: int
  UNSUBSCRIBE_TO_PUBLISHER :: int
  OFFERING :: int
  AVAILABILITY_REQUEST :: int
  SUBSCRIPTIONS_REQUEST :: int
  AVAILABILITY_RESPONSE :: int
  AVAILABILITY_CHANGE :: int
  SUBSCRIPTIONS_RESPONSE :: int
  SUBSCRIPTIONS_CHANGE :: int
  DATA :: int
  PUBLISHER_ID_REQUEST :: int
  PUBLISHER_ID_RESPONSE :: int
  START_SESSION :: int
  MESSAGE_TYPE :: nat
  PUBLISHER_ID :: nat
  SUBS_SEQUENCE_NUMBER :: nat
  SUBS_NUMBER_OF_LAYERS :: nat
  SUBS_NUMBER_OF_ASSOCIATED_LAYERS :: nat
  SUBSCRIPTIONS_START :: nat
  AVAIL_SEQUENCE_NUMBER :: nat
  AVAIL_NUMBER_OF_ASSOCIATED_LAYERS :: nat
  AVAIL_LAYERS_START :: nat

datatype vms_layer = VmsLayer (layer_type: int) (layer_subtype: int) (layer_version: int)

record vms_layer_publisher =
  lp_layer :: vms_layer
  lp_publisher_id :: int

record vms_associated_layer =
  al_layer :: vms_layer
  al_publisher_ids :: "int list"

record vms_offering =
  of_layer :: vms_layer
  of_dependencies :: "vms_layer list"

record vms_offers =
  vo_publisher_id :: int
  vo_offerings :: "vms_offering list"

record vms_value =
  vm_prop :: int
  vm_areaId :: int
  int32Values :: "int list"
  vm_bytes :: "u8 list"

text \<open>A \<open>size_t\<close> that is stored in an \<open>int\<close>.\<close>

definition int_of_size :: "nat \<Rightarrow> int" where
  "int_of_size n = signed_take_bit 31 (int n)"

definition kLayerSize :: nat where "kLayerSize = 3"

section \<open>Construction\<close>

definition createBaseVmsMessage :: "vms_ids \<Rightarrow> nat \<Rightarrow> vms_value" where
  "createBaseVmsMessage c n =
     \<lparr>vm_prop = VEHICLE_MAP_SERVICE c, vm_areaId = AREA_GLOBAL c, int32Values = replicate n 0, vm_bytes = []\<rparr>"

definition layer_ints :: "vms_layer \<Rightarrow> int list" where
  "layer_ints l = [layer_type l, layer_subtype l, layer_version l]"

definition createSubscribeMessage :: "vms_ids \<Rightarrow> vms_layer \<Rightarrow> vms_value" where
  "createSubscribeMessage c l = (createBaseVmsMessage c 4)\<lparr>int32Values := SUBSCRIBE c # layer_ints l\<rparr>"

definition createSubscribeToPublisherMessage :: "vms_ids \<Rightarrow> vms_layer_publisher \<Rightarrow> vms_value" where
  "createSubscribeToPublisherMessage c p =
     (createBaseVmsMessage c 5)
       \<lparr>int32Values := SUBSCRIBE_TO_PUBLISHER c # layer_ints (lp_layer p) @ [lp_publisher_id p]\<rparr>"

definition createUnsubscribeMessage :: "vms_ids \<Rightarrow> vms_layer \<Rightarrow> vms_value" where
  "createUnsubscribeMessage c l = (createBaseVmsMessage c 4)\<lparr>int32Values := UNSUBSCRIBE c # layer_ints l\<rparr>"

definition createUnsubscribeToPublisherMessage :: "vms_ids \<Rightarrow> vms_layer_publisher \<Rightarrow> vms_value" where
  "createUnsubscribeToPublisherMessage c p =
     (createBaseVmsMessage c 5)
       \<lparr>int32Values := UNSUBSCRIBE_TO_PUBLISHER c # layer_ints (lp_layer p) @ [lp_publisher_id p]\<rparr>"

definition offering_size :: "vms_offers \<Rightarrow> nat" where
  "offering_size offers =
     foldl (\<lambda>n offer. n + (kLayerSize + 1 + length (of_dependencies offer) * kLayerSize)) 3 (vo_offerings offers)"

definition offering_ints :: "vms_offering \<Rightarrow> int list" where
  "offering_ints offer =
     layer_ints (of_layer offer) @ [int_of_size (length (of_dependencies offer))] @
     concat (map layer_ints (of_dependencies offer))"

definition createOfferingMessage :: "vms_ids \<Rightarrow> vms_offers \<Rightarrow> vms_value" where
  "createOfferingMessage c offers =
     (createBaseVmsMessage c (offering_size offers))
       \<lparr>int32Values := foldl (\<lambda>xs offer. xs @ offering_ints offer)
            [OFFERING c, vo_publisher_id offers, int_of_size (length (vo_offerings offers))] (vo_offerings offers)\<rparr>"

definition createAvailabilityRequest :: "vms_ids \<Rightarrow> vms_value" where
  "createAvailabilityRequest c = (createBaseVmsMessage c 1)\<lparr>int32Values := [AVAILABILITY_REQUEST c]\<rparr>"

definition createSubscriptionsRequest :: "vms_ids \<Rightarrow> vms_value" where
  "createSubscriptionsRequest c = (createBaseVmsMessage c 1)\<lparr>int32Values := [SUBSCRIPTIONS_REQUEST c]\<rparr>"

definition createDataMessageWithLayerPublisherInfo :: "vms_ids \<Rightarrow> vms_layer_publisher \<Rightarrow> u8 list \<Rightarrow> vms_value" where
  "createDataMessageWithLayerPublisherInfo c p packet =
     (createBaseVmsMessage c 5)
       \<lparr>int32Values := DATA c # layer_ints (lp_layer p) @ [lp_publisher_id p], vm_bytes := packet\<rparr>"

definition createPublisherIdRequest :: "vms_ids \<Rightarrow> u8 list \<Rightarrow> vms_value" where
  "createPublisherIdRequest c description =
     (createBaseVmsMessage c 1)\<lparr>int32Values := [PUBLISHER_ID_REQUEST c], vm_bytes := description\<rparr>"

definition createStartSessionMessage :: "vms_ids \<Rightarrow> int \<Rightarrow> int \<Rightarrow> vms_value" where
  "createStartSessionMessage c service client =
     (createBaseVmsMessage c 3)\<lparr>int32Values := [START_SESSION c, service, client]\<rparr>"

section \<open>Parsers\<close>

definition isValidVmsProperty :: "vms_ids \<Rightarrow> vms_value \<Rightarrow> bool" where
  "isValidVmsProperty c v \<longleftrightarrow> vm_prop v = VEHICLE_MAP_SERVICE c"

definition isValidVmsMessageType :: "vms_ids \<Rightarrow> vms_value \<Rightarrow> bool" where
  "isValidVmsMessageType c v \<longleftrightarrow>
     int32Values v \<noteq> [] \<and> int32Values v ! MESSAGE_TYPE c \<ge> SUBSCRIBE c \<and>
     int32Values v ! MESSAGE_TYPE c \<le> START_SESSION c"

definition isValidVmsMessage :: "vms_ids \<Rightarrow> vms_value \<Rightarrow> bool" where
  "isValidVmsMessage c v \<longleftrightarrow> isValidVmsProperty c v \<and> isValidVmsMessageType c v"

definition parseMessageType :: "vms_ids \<Rightarrow> vms_value \<Rightarrow> int" where
  "parseMessageType c v = int32Values v ! MESSAGE_TYPE c"

definition parseData :: "vms_ids \<Rightarrow> vms_value \<Rightarrow> u8 list" where
  "parseData c v =
     (if isValidVmsMessage c v \<and> parseMessageType c v = DATA c \<and> vm_bytes v \<noteq> [] then vm_bytes v else [])"

definition parsePublisherIdResponse :: "vms_ids \<Rightarrow> vms_value \<Rightarrow> int" where
  "parsePublisherIdResponse c v =
     (if isValidVmsMessage c v \<and> parseMessageType c v = PUBLISHER_ID_RESPONSE c \<and>
         length (int32Values v) > PUBLISHER_ID c
      then int32Values v ! PUBLISHER_ID c else -1)"

definition subscriptions_message :: "vms_ids \<Rightarrow> vms_value \<Rightarrow> bool" where
  "subscriptions_message c v \<longleftrightarrow> isValidVmsMessage c v \<and>
     (parseMessageType c v = SUBSCRIPTIONS_CHANGE c \<or> parseMessageType c v = SUBSCRIPTIONS_RESPONSE c)"

definition availability_message :: "vms_ids \<Rightarrow> vms_value \<Rightarrow> bool" where
  "availability_message c v \<longleftrightarrow> isValidVmsMessage c v \<and>
     (parseMessageType c v = AVAILABILITY_CHANGE c \<or> parseMessageType c v = AVAILABILITY_RESPONSE c)"

definition isSequenceNumberNewer :: "vms_ids \<Rightarrow> vms_value \<Rightarrow> int \<Rightarrow> bool" where
  "isSequenceNumberNewer c v seen \<longleftrightarrow>
     subscriptions_message c v \<and> length (int32Values v) > SUBS_SEQUENCE_NUMBER c \<and>
     int32Values v ! SUBS_SEQUENCE_NUMBER c > seen"

definition getSequenceNumberForSubscriptionsState :: "vms_ids \<Rightarrow> vms_value \<Rightarrow> int" where
  "getSequenceNumberForSubscriptionsState c v =
     (if subscriptions_message c v \<and> length (int32Values v) > SUBS_SEQUENCE_NUMBER c
      then int32Values v ! SUBS_SEQUENCE_NUMBER c else -1)"

definition hasServiceNewlyStarted :: "vms_ids \<Rightarrow> vms_value \<Rightarrow> bool" where
  "hasServiceNewlyStarted c v \<longleftrightarrow>
     isValidVmsMessage c v \<and> parseMessageType c v = AVAILABILITY_CHANGE c \<and>
     length (int32Values v) > AVAIL_SEQUENCE_NUMBER c \<and> int32Values v ! AVAIL_SEQUENCE_NUMBER c = 0"

datatype session_status = kNewServerSession | kAckToCurrentSession | kInvalidMessage

text \<open>The status and the new service id.\<close>

definition parseStartSessionMessage :: "vms_ids \<Rightarrow> vms_value \<Rightarrow> int \<Rightarrow> int \<Rightarrow> session_status \<times> int" where
  "parseStartSessionMessage c v current_service_id current_client_id =
     (if isValidVmsMessage c v \<and> parseMessageType c v = START_SESSION c \<and> length (int32Values v) = 3
      then (if int32Values v ! 2 \<noteq> current_client_id then kNewServerSession else kAckToCurrentSession,
            int32Values v ! 1)
      else (kInvalidMessage, current_service_id))"

definition isAvailabilitySequenceNumberNewer :: "vms_ids \<Rightarrow> vms_value \<Rightarrow> int \<Rightarrow> bool" where
  "isAvailabilitySequenceNumberNewer c v seen \<longleftrightarrow>
     availability_message c v \<and> length (int32Values v) > AVAIL_SEQUENCE_NUMBER c \<and>
     int32Values v ! AVAIL_SEQUENCE_NUMBER c > seen"

definition getSequenceNumberForAvailabilityState :: "vms_ids \<Rightarrow> vms_value \<Rightarrow> int" where
  "getSequenceNumberForAvailabilityState c v =
     (if availability_message c v \<and> length (int32Values v) > AVAIL_SEQUENCE_NUMBER c
      then int32Values v ! AVAIL_SEQUENCE_NUMBER c else -1)"

section \<open>Layers of a message\<close>

text \<open>
  A loop either runs into undefined behaviour, makes the function return the empty vector, or goes
  on with what it collected and \<open>current_index\<close>.
\<close>

datatype 'a loop = Undefined | Return_Empty | Continue 'a nat

definition layer_at_index :: "int list \<Rightarrow> nat \<Rightarrow> vms_layer" where
  "layer_at_index xs i = VmsLayer (xs ! i) (xs ! (i + 1)) (xs ! (i + 2))"

fun subscribed_loop :: "int list \<Rightarrow> vms_layer set \<Rightarrow> nat \<Rightarrow> nat \<Rightarrow> vms_layer list \<Rightarrow> vms_layer list loop" where
  "subscribed_loop xs offered 0 i acc = Continue acc i"
| "subscribed_loop xs offered (Suc n) i acc =
     (if length xs < i + kLayerSize then Return_Empty
      else (let l = layer_at_index xs i
            in subscribed_loop xs offered n (i + kLayerSize) (if l \<in> offered then acc @ [l] else acc)))"

text \<open>The loop over the publisher ids of a layer, from \<open>current_index\<close> on.\<close>

fun publisher_loop :: "int list \<Rightarrow> int \<Rightarrow> vms_layer \<Rightarrow> nat \<Rightarrow> nat \<Rightarrow> vms_layer list \<Rightarrow> vms_layer list loop" where
  "publisher_loop xs pid l 0 i acc = Continue acc i"
| "publisher_loop xs pid l (Suc n) i acc =
     (let acc' = (if length xs > i \<and> xs ! i = pid then acc @ [l] else acc)
      in if i + 1 \<ge> 2 ^ 31 then Undefined else publisher_loop xs pid l n (i + 1) acc')"

fun associated_loop ::
    "int list \<Rightarrow> vms_layer set \<Rightarrow> int \<Rightarrow> nat \<Rightarrow> nat \<Rightarrow> vms_layer list \<Rightarrow> vms_layer list loop" where
  "associated_loop xs offered pid 0 i acc = Continue acc i"
| "associated_loop xs offered pid (Suc n) i acc =
     (if i + kLayerSize \<ge> 2 ^ 31 then Undefined
      else if length xs < i + kLayerSize then Return_Empty
      else (let l = layer_at_index xs i; i1 = i + kLayerSize
            in if l \<in> offered \<and> length xs > i1 then
                 (case publisher_loop xs pid l (nat (xs ! i1)) (i1 + 1) acc of
                    Undefined \<Rightarrow> Undefined
                  | Return_Empty \<Rightarrow> Return_Empty
                  | Continue acc' i2 \<Rightarrow> associated_loop xs offered pid n i2 acc')
               else associated_loop xs offered pid n i1 acc))"

definition getSubscribedLayers :: "vms_ids \<Rightarrow> vms_value \<Rightarrow> vms_offers \<Rightarrow> vms_layer list option" where
  "getSubscribedLayers c v offers =
     (let xs = int32Values v; offered = of_layer ` set (vo_offerings offers)
      in if subscriptions_message c v \<and> length xs > SUBS_NUMBER_OF_LAYERS c then
           (case subscribed_loop xs offered (nat (xs ! SUBS_NUMBER_OF_LAYERS c)) (SUBSCRIPTIONS_START c) [] of
              Undefined \<Rightarrow> None
            | Return_Empty \<Rightarrow> Some []
            | Continue acc i \<Rightarrow>
                if length xs > SUBS_NUMBER_OF_ASSOCIATED_LAYERS c then
                  (case associated_loop xs offered (vo_publisher_id offers)
                          (nat (xs ! SUBS_NUMBER_OF_ASSOCIATED_LAYERS c)) i acc of
                     Undefined \<Rightarrow> None | Return_Empty \<Rightarrow> Some [] | Continue acc' _ \<Rightarrow> Some acc')
                else Some acc)
         else Some [])"

text \<open>
  The loop of \<open>getAvailableLayers\<close>.  Its index never passes the end of the message, so it stays within
  \<open>int\<close> as long as the length of the message does.
\<close>

fun available_loop ::
    "int list \<Rightarrow> nat \<Rightarrow> nat \<Rightarrow> vms_associated_layer list \<Rightarrow> vms_associated_layer list loop" where
  "available_loop xs 0 i acc = Continue acc i"
| "available_loop xs (Suc n) i acc =
     (if length xs < i + kLayerSize then Return_Empty
      else (let l = layer_at_index xs i; i1 = i + kLayerSize
            in if length xs > i1 then
                 (let ids = take (nat (xs ! i1)) (drop (i1 + 1) xs)
                  in available_loop xs n (i1 + 1 + length ids) (acc @ [\<lparr>al_layer = l, al_publisher_ids = ids\<rparr>]))
               else available_loop xs n i1 (acc @ [\<lparr>al_layer = l, al_publisher_ids = []\<rparr>])))"

definition getAvailableLayers :: "vms_ids \<Rightarrow> vms_value \<Rightarrow> vms_associated_layer list" where
  "getAvailableLayers c v =
     (let xs = int32Values v
      in if availability_message c v \<and> length xs > AVAIL_NUMBER_OF_ASSOCIATED_LAYERS c then
           (case available_loop xs (nat (xs ! AVAIL_NUMBER_OF_ASSOCIATED_LAYERS c)) (AVAIL_LAYERS_START c) [] of
              Continue acc _ \<Rightarrow> acc | _ \<Rightarrow> [])
         else [])"

section \<open>The format of the interface\<close>

text \<open>What the Vehicle HAL documents of the constants.\<close>

definition vms_ok :: "vms_ids \<Rightarrow> bool" where
  "vms_ok c \<longleftrightarrow>
     sorted_wrt (<) [SUBSCRIBE c, SUBSCRIBE_TO_PUBLISHER c, UNSUBSCRIBE c, UNSUBSCRIBE_TO_PUBLISHER c, OFFERING c,
       AVAILABILITY_REQUEST c, SUBSCRIPTIONS_REQUEST c, AVAILABILITY_RESPONSE c, AVAILABILITY_CHANGE c,
       SUBSCRIPTIONS_RESPONSE c, SUBSCRIPTIONS_CHANGE c, DATA c, PUBLISHER_ID_REQUEST c,
       PUBLISHER_ID_RESPONSE c, START_SESSION c] \<and>
     MESSAGE_TYPE c = 0 \<and> PUBLISHER_ID c = 1 \<and> SUBS_SEQUENCE_NUMBER c = 1 \<and> SUBS_NUMBER_OF_LAYERS c = 2 \<and>
     SUBS_NUMBER_OF_ASSOCIATED_LAYERS c = 3 \<and> SUBSCRIPTIONS_START c = 4 \<and>
     AVAIL_SEQUENCE_NUMBER c = 1 \<and> AVAIL_NUMBER_OF_ASSOCIATED_LAYERS c = 2 \<and> AVAIL_LAYERS_START c = 3"

definition assoc_ints :: "vms_associated_layer \<Rightarrow> int list" where
  "assoc_ints a = layer_ints (al_layer a) @ int (length (al_publisher_ids a)) # al_publisher_ids a"

definition availability_state :: "vms_ids \<Rightarrow> int \<Rightarrow> int \<Rightarrow> vms_associated_layer list \<Rightarrow> vms_value" where
  "availability_state c t s als =
     (createBaseVmsMessage c 0)\<lparr>int32Values := [t, s, int (length als)] @ concat (map assoc_ints als)\<rparr>"

definition subscriptions_state ::
    "vms_ids \<Rightarrow> int \<Rightarrow> int \<Rightarrow> vms_layer list \<Rightarrow> vms_associated_layer list \<Rightarrow> vms_value" where
  "subscriptions_state c t s ls als =
     (createBaseVmsMessage c 0)\<lparr>int32Values :=
        [t, s, int (length ls), int (length als)] @ concat (map layer_ints ls) @ concat (map assoc_ints als)\<rparr>"

lemma layer_ints_len [simp]: "length (layer_ints l) = 3"
  by (simp add: layer_ints_def)

lemma assoc_ints_len [simp]: "length (assoc_ints a) = 4 + length (al_publisher_ids a)"
  by (simp add: assoc_ints_def)

lemma assoc_eta [simp]: "\<lparr>al_layer = al_layer a, al_publisher_ids = al_publisher_ids a\<rparr> = a"
  by simp

lemma layer_at_ints: "layer_at_index (pre @ layer_ints l @ rest) (length pre) = l"
  by (simp add: layer_at_index_def layer_ints_def nth_append)

lemma valid_type:
  assumes "vms_ok c" "int32Values v = t # xs" "vm_prop v = VEHICLE_MAP_SERVICE c"
  shows "parseMessageType c v = t" "isValidVmsMessage c v \<longleftrightarrow> SUBSCRIBE c \<le> t \<and> t \<le> START_SESSION c"
  using assms by (simp_all add: vms_ok_def parseMessageType_def isValidVmsMessage_def isValidVmsProperty_def isValidVmsMessageType_def)

lemma base_prop [simp]: "vm_prop (createBaseVmsMessage c n) = VEHICLE_MAP_SERVICE c"
  by (simp add: createBaseVmsMessage_def)

lemma offering_length: "length (int32Values (createOfferingMessage c offers)) = offering_size offers"
proof -
  have d: "length (concat (map layer_ints ds)) = length ds * 3" for ds by (induction ds) auto
  have "length (foldl (\<lambda>xs offer. xs @ offering_ints offer) acc os) =
      foldl (\<lambda>n offer. n + (kLayerSize + 1 + length (of_dependencies offer) * kLayerSize)) (length acc) os" for acc os
    by (induction os arbitrary: acc) (simp_all add: offering_ints_def d kLayerSize_def add.commute)
  then show ?thesis by (simp add: createOfferingMessage_def offering_size_def numeral_3_eq_3)
qed

text \<open>
  C26: every message that is created is valid, in property, area and type, and has the type it was
  created with; a data message gives its packet back, and a session message gives back the service
  and tells whether it is for this client.  The packet of a data message and the description of a
  publisher are not empty: for empty ones the documentation asks for no message at all.
\<close>

theorem vms_messages_roundtrip:
  assumes "vms_ok c" "packet \<noteq> []" "description \<noteq> []"
  shows "(\<forall>(m, t)\<in>set [(createSubscribeMessage c l, SUBSCRIBE c),
      (createSubscribeToPublisherMessage c p, SUBSCRIBE_TO_PUBLISHER c),
      (createUnsubscribeMessage c l, UNSUBSCRIBE c),
      (createUnsubscribeToPublisherMessage c p, UNSUBSCRIBE_TO_PUBLISHER c),
      (createOfferingMessage c offers, OFFERING c), (createAvailabilityRequest c, AVAILABILITY_REQUEST c),
      (createSubscriptionsRequest c, SUBSCRIPTIONS_REQUEST c),
      (createDataMessageWithLayerPublisherInfo c p packet, DATA c),
      (createPublisherIdRequest c description, PUBLISHER_ID_REQUEST c),
      (createStartSessionMessage c service client, START_SESSION c)].
      isValidVmsMessage c m \<and> vm_areaId m = AREA_GLOBAL c \<and> parseMessageType c m = t) \<and>
    parseData c (createDataMessageWithLayerPublisherInfo c p packet) = packet \<and>
    parseStartSessionMessage c (createStartSessionMessage c service client) old current =
      (if client = current then kAckToCurrentSession else kNewServerSession, service)"
proof -
  obtain xs where f: "int32Values (createOfferingMessage c offers) = OFFERING c # xs"
  proof -
    have "foldl (\<lambda>xs offer. xs @ offering_ints offer) (a # acc) os = a # foldl (\<lambda>xs offer. xs @ offering_ints offer) acc os" for a acc os
      by (induction os arbitrary: acc) simp_all
    then show thesis using that by (simp add: createOfferingMessage_def)
  qed
  have o: "SUBSCRIBE c \<le> t \<and> t \<le> START_SESSION c" if "t \<in> {SUBSCRIBE c, SUBSCRIBE_TO_PUBLISHER c, UNSUBSCRIBE c,
      UNSUBSCRIBE_TO_PUBLISHER c, OFFERING c, AVAILABILITY_REQUEST c, SUBSCRIPTIONS_REQUEST c, DATA c,
      PUBLISHER_ID_REQUEST c, START_SESSION c}" for t
    using that assms(1) by (auto simp: vms_ok_def)
  note v = valid_type[OF assms(1)]
  have a: "vm_areaId (createBaseVmsMessage c n) = AREA_GLOBAL c" for n by (simp add: createBaseVmsMessage_def)
  show ?thesis
    using v[OF f] o
    by (simp add: v a createSubscribeMessage_def createSubscribeToPublisherMessage_def createUnsubscribeMessage_def
        createUnsubscribeToPublisherMessage_def createAvailabilityRequest_def createSubscriptionsRequest_def
        createDataMessageWithLayerPublisherInfo_def createPublisherIdRequest_def createStartSessionMessage_def
        createOfferingMessage_def parseData_def parseStartSessionMessage_def)
qed

section \<open>Availability\<close>

lemma available_loop_encoded:
  "available_loop (pre @ concat (map assoc_ints als)) (length als) (length pre) acc =
     Continue (acc @ als) (length (pre @ concat (map assoc_ints als)))"
proof (induction als arbitrary: pre acc)
  case (Cons a als)
  let ?ids = "al_publisher_ids a" and ?rest = "concat (map assoc_ints als)"
  let ?xs = "pre @ assoc_ints a @ ?rest"
  have i: "?xs ! (length pre + 3) = int (length ?ids)" "length ?xs = length pre + 4 + length ?ids + length ?rest"
    by (simp_all add: assoc_ints_def layer_ints_def nth_append)
  have l: "layer_at_index ?xs (length pre) = al_layer a"
    using layer_at_ints[of pre "al_layer a"] by (simp add: assoc_ints_def)
  have t: "take (length ?ids) (drop (4 + length pre) ?xs) = ?ids"
    by (simp add: assoc_ints_def layer_ints_def)
  have "available_loop ?xs (length als) (4 + length pre + length ?ids) (acc @ [a]) =
      Continue ((acc @ [a]) @ als) (length ?xs)"
    using Cons.IH[of "pre @ assoc_ints a" "acc @ [a]"] by (simp add: ac_simps)
  then show ?case using i l t by (simp add: kLayerSize_def Let_def)
qed simp

text \<open>
  C29: \<open>getAvailableLayers\<close> reads back the layers and their publishers from a message in the format of
  the interface, whatever they are, and the sequence number is read back too.  (The numbers of the
  message and its length are within \<open>int\<close>, as the interface has it; the index is a natural number
  here.)
\<close>

theorem available_layers_roundtrip:
  assumes "vms_ok c" "t \<in> {AVAILABILITY_CHANGE c, AVAILABILITY_RESPONSE c}"
  shows "getAvailableLayers c (availability_state c t s als) = als \<and>
    getSequenceNumberForAvailabilityState c (availability_state c t s als) = s"
proof -
  let ?v = "availability_state c t s als"
  have i: "int32Values ?v = [t, s, int (length als)] @ concat (map assoc_ints als)" "vm_prop ?v = VEHICLE_MAP_SERVICE c"
    by (simp_all add: availability_state_def)
  have "availability_message c ?v"
    using valid_type[OF assms(1), of ?v t] i assms by (auto simp: availability_message_def vms_ok_def)
  moreover have "AVAIL_NUMBER_OF_ASSOCIATED_LAYERS c = 2" "AVAIL_LAYERS_START c = 3" "AVAIL_SEQUENCE_NUMBER c = 1"
    using assms(1) by (simp_all add: vms_ok_def)
  ultimately show ?thesis
    using available_loop_encoded[of "[t, s, int (length als)]" als "[]"]
    by (simp add: getAvailableLayers_def getSequenceNumberForAvailabilityState_def i Let_def numeral_3_eq_3 numeral_2_eq_2)
qed

section \<open>Subscriptions\<close>

lemma publisher_loop_spec:
  assumes "i + n < 2 ^ 31"
  shows "publisher_loop xs pid l n i acc =
    Continue (acc @ replicate (count_list (take n (drop i xs)) pid) l) (i + n)"
  using assms
proof (induction n arbitrary: i acc)
  case (Suc n)
  have "take (Suc n) (drop i xs) = (if i < length xs then xs ! i # take n (drop (Suc i) xs) else [])"
    by (simp add: Cons_nth_drop_Suc[symmetric])
  moreover have "drop (Suc i) xs = []" if "\<not> i < length xs" using that by simp
  ultimately show ?case using Suc by (auto simp: Let_def replicate_app_Cons_same)
qed simp

lemma subscribed_loop_encoded:
  "subscribed_loop (pre @ concat (map layer_ints ls) @ rest) offered (length ls) (length pre) acc =
     Continue (acc @ filter (\<lambda>l. l \<in> offered) ls) (length (pre @ concat (map layer_ints ls)))"
proof (induction ls arbitrary: pre acc)
  case (Cons l ls)
  have l: "layer_at_index (pre @ layer_ints l @ concat (map layer_ints ls) @ rest) (length pre) = l"
    by (rule layer_at_ints)
  show ?case
    using Cons.IH[of "pre @ layer_ints l"] l by (simp add: kLayerSize_def Let_def add.assoc)
qed simp

lemma associated_loop_encoded:
  assumes "\<forall>a\<in>set als. al_layer a \<in> offered" "length (pre @ concat (map assoc_ints als)) < 2 ^ 31"
  shows "associated_loop (pre @ concat (map assoc_ints als)) offered pid (length als) (length pre) acc =
     Continue (acc @ concat (map (\<lambda>a. replicate (count_list (al_publisher_ids a) pid) (al_layer a)) als))
       (length (pre @ concat (map assoc_ints als)))"
  using assms
proof (induction als arbitrary: pre acc)
  case (Cons a als)
  let ?ids = "al_publisher_ids a" and ?rest = "concat (map assoc_ints als)"
  let ?xs = "pre @ assoc_ints a @ ?rest"
  have i: "?xs ! (length pre + 3) = int (length ?ids)" "length ?xs = length pre + 4 + length ?ids + length ?rest"
    by (simp_all add: assoc_ints_def layer_ints_def nth_append)
  have l: "layer_at_index ?xs (length pre) = al_layer a"
    using layer_at_ints[of pre "al_layer a"] by (simp add: assoc_ints_def)
  have t: "take (length ?ids) (drop (4 + length pre) ?xs) = ?ids"
    by (simp add: assoc_ints_def layer_ints_def)
  let ?new = "replicate (count_list ?ids pid) (al_layer a)"
  have b: "4 + length pre + length ?ids < 2 ^ 31" using Cons.prems(2) by simp
  have p: "publisher_loop ?xs pid (al_layer a) (length ?ids) (4 + length pre) acc =
      Continue (acc @ ?new) (4 + length pre + length ?ids)"
    using publisher_loop_spec[OF b, of ?xs pid "al_layer a" acc] t by simp
  have "associated_loop ?xs offered pid (length als) (4 + length pre + length ?ids) (acc @ ?new) =
      Continue ((acc @ ?new) @ concat (map (\<lambda>a. replicate (count_list (al_publisher_ids a) pid) (al_layer a)) als)) (length ?xs)"
    using Cons.IH[of "pre @ assoc_ints a" "acc @ ?new"] Cons.prems by (simp add: ac_simps)
  then show ?case using i l p b Cons.prems(1) by (simp add: kLayerSize_def Let_def)
qed simp

text \<open>
  C28: \<open>getSubscribedLayers\<close> gives the subscribed layers that the publisher offers, and each offered
  associated layer once for every mention of the publisher, provided that every associated layer
  of the message is offered.
\<close>

theorem subscribed_layers_exact:
  assumes "vms_ok c" "t \<in> {SUBSCRIPTIONS_CHANGE c, SUBSCRIPTIONS_RESPONSE c}"
    and "\<forall>a\<in>set als. al_layer a \<in> of_layer ` set (vo_offerings offers)"
    and "length (int32Values (subscriptions_state c t s ls als)) < 2 ^ 31"
  shows "getSubscribedLayers c (subscriptions_state c t s ls als) offers =
    Some (filter (\<lambda>l. l \<in> of_layer ` set (vo_offerings offers)) ls @
      concat (map (\<lambda>a. replicate (count_list (al_publisher_ids a) (vo_publisher_id offers)) (al_layer a)) als))"
proof -
  let ?v = "subscriptions_state c t s ls als" and ?off = "of_layer ` set (vo_offerings offers)"
  let ?pre = "[t, s, int (length ls), int (length als)]"
  have i: "int32Values ?v = ?pre @ concat (map layer_ints ls) @ concat (map assoc_ints als)"
    "vm_prop ?v = VEHICLE_MAP_SERVICE c"
    by (simp_all add: subscriptions_state_def)
  have m: "subscriptions_message c ?v"
    using valid_type[OF assms(1), of ?v t] i assms(1,2) by (auto simp: subscriptions_message_def vms_ok_def)
  have k: "SUBS_NUMBER_OF_LAYERS c = 2" "SUBS_NUMBER_OF_ASSOCIATED_LAYERS c = 3" "SUBSCRIPTIONS_START c = 4"
    using assms(1) by (simp_all add: vms_ok_def)
  have s: "subscribed_loop (int32Values ?v) ?off (length ls) 4 [] =
      Continue (filter (\<lambda>l. l \<in> ?off) ls) (length (?pre @ concat (map layer_ints ls)))"
    using subscribed_loop_encoded[of ?pre ls "concat (map assoc_ints als)" ?off "[]"] unfolding i(1)
    by (simp add: numeral_eq_Suc)
  have "length ((?pre @ concat (map layer_ints ls)) @ concat (map assoc_ints als)) < 2 ^ 31"
    using assms(4) unfolding i(1) by simp
  note a = associated_loop_encoded[OF assms(3) this, of "vo_publisher_id offers" "filter (\<lambda>l. l \<in> ?off) ls"]
  have n: "int32Values ?v ! 2 = int (length ls)" "int32Values ?v ! 3 = int (length als)" "length (int32Values ?v) > 3"
    unfolding i(1) by (simp_all add: numeral_3_eq_3 numeral_2_eq_2)
  show ?thesis
    unfolding getSubscribedLayers_def Let_def k using m n s a unfolding i(1) by simp
qed

section \<open>Witnesses\<close>

definition vms_demo :: vms_ids where
  "vms_demo = \<lparr>VEHICLE_MAP_SERVICE = 299895808, AREA_GLOBAL = 16777216, SUBSCRIBE = 1, SUBSCRIBE_TO_PUBLISHER = 2,
     UNSUBSCRIBE = 3, UNSUBSCRIBE_TO_PUBLISHER = 4, OFFERING = 5, AVAILABILITY_REQUEST = 6, SUBSCRIPTIONS_REQUEST = 7,
     AVAILABILITY_RESPONSE = 8, AVAILABILITY_CHANGE = 9, SUBSCRIPTIONS_RESPONSE = 10, SUBSCRIPTIONS_CHANGE = 11,
     DATA = 12, PUBLISHER_ID_REQUEST = 13, PUBLISHER_ID_RESPONSE = 14, START_SESSION = 17, MESSAGE_TYPE = 0,
     PUBLISHER_ID = 1, SUBS_SEQUENCE_NUMBER = 1, SUBS_NUMBER_OF_LAYERS = 2, SUBS_NUMBER_OF_ASSOCIATED_LAYERS = 3,
     SUBSCRIPTIONS_START = 4, AVAIL_SEQUENCE_NUMBER = 1, AVAIL_NUMBER_OF_ASSOCIATED_LAYERS = 2, AVAIL_LAYERS_START = 3\<rparr>"

lemma vms_demo_ok: "vms_ok vms_demo"
  by (simp add: vms_ok_def vms_demo_def)

definition assoc_demo :: "vms_associated_layer list" where
  "assoc_demo = [\<lparr>al_layer = VmsLayer 9 9 9, al_publisher_ids = [1]\<rparr>, \<lparr>al_layer = VmsLayer 1 0 1, al_publisher_ids = [7]\<rparr>]"

definition offers_demo :: vms_offers where
  "offers_demo = \<lparr>vo_publisher_id = 7, vo_offerings = [\<lparr>of_layer = VmsLayer 1 0 1, of_dependencies = []\<rparr>]\<rparr>"

lemma associated_loop_numeral:
  "associated_loop xs offered pid (numeral n) i acc = associated_loop xs offered pid (Suc (pred_numeral n)) i acc"
  by (simp only: numeral_eq_Suc)

text \<open>
  An associated layer that the publisher does not offer: its list of publishers is not skipped,
  the next layer is read at the wrong place, and a subscription to an offered layer is lost.
\<close>

lemma subscribed_layers_desync:
  "getSubscribedLayers vms_demo (subscriptions_state vms_demo 11 0 [] assoc_demo) offers_demo = Some [] \<and>
   getSubscribedLayers vms_demo (subscriptions_state vms_demo 11 0 [] (tl assoc_demo)) offers_demo = Some [VmsLayer 1 0 1]"
  by (simp add: getSubscribedLayers_def subscriptions_message_def isValidVmsMessage_def isValidVmsProperty_def
      isValidVmsMessageType_def parseMessageType_def subscriptions_state_def assoc_ints_def layer_ints_def
      layer_at_index_def kLayerSize_def assoc_demo_def offers_demo_def vms_demo_def Let_def associated_loop_numeral
      createBaseVmsMessage_def)

theorem vms_messages_roundtrip_witness:
  "parseData vms_demo (createDataMessageWithLayerPublisherInfo vms_demo
     \<lparr>lp_layer = VmsLayer 1 2 3, lp_publisher_id = 4\<rparr> [1, 2, 3]) = [1, 2, 3]"
  using vms_messages_roundtrip[OF vms_demo_ok, of "[1, 2, 3]" "[1]"] by blast

theorem available_layers_roundtrip_witness:
  "getAvailableLayers vms_demo (availability_state vms_demo 9 5 assoc_demo) = assoc_demo"
  using available_layers_roundtrip[OF vms_demo_ok, of 9 5 assoc_demo] by (simp add: vms_demo_def)

theorem subscribed_layers_exact_witness:
  "getSubscribedLayers vms_demo (subscriptions_state vms_demo 11 0 [VmsLayer 2 2 2, VmsLayer 1 0 1] (tl assoc_demo)) offers_demo =
     Some [VmsLayer 1 0 1, VmsLayer 1 0 1]"
proof -
  have "\<forall>a\<in>set (tl assoc_demo). al_layer a \<in> of_layer ` set (vo_offerings offers_demo)"
    by (simp add: assoc_demo_def offers_demo_def)
  moreover have "length (int32Values (subscriptions_state vms_demo 11 0 [VmsLayer 2 2 2, VmsLayer 1 0 1] (tl assoc_demo))) < 2 ^ 31"
    by (simp add: subscriptions_state_def assoc_demo_def)
  ultimately show ?thesis
    using subscribed_layers_exact[OF vms_demo_ok, of 11 "tl assoc_demo" offers_demo 0 "[VmsLayer 2 2 2, VmsLayer 1 0 1]"]
    by (simp add: vms_demo_def assoc_demo_def offers_demo_def)
qed

end
