(* ===== verification/Prop_Store.thy ===== *)
theory Prop_Store
  imports Sorted_Map
begin

text \<open>
  \<open>VehiclePropertyStore\<close> (\<open>vehicle/common/src/VehiclePropertyStore.cpp\<close>): the values of the vehicle
  properties, in a map sorted by property, area and token.  \<open>std::map\<close> is a list of entries in the
  order of their keys, the \<open>unordered_map\<close> of the configurations a list in the order of insertion.
  The area of a property, \<open>isGlobalProp\<close>, comes from the constants of the interface and is a
  parameter, as is the token function of a configuration.
\<close>

section \<open>Keys\<close>

datatype record_id = RecordId (rid_prop: int) (rid_area: int) (rid_token: int)

text \<open>\<open>RecordId::operator<\<close>.\<close>

fun rid_less :: "record_id \<Rightarrow> record_id \<Rightarrow> bool" where
  "rid_less (RecordId p a t) (RecordId p' a' t') \<longleftrightarrow>
     p < p' \<or> (p = p' \<and> a < a') \<or> (p = p' \<and> a = a' \<and> t < t')"

instantiation record_id :: linorder
begin

definition less_record_id :: "record_id \<Rightarrow> record_id \<Rightarrow> bool" where
  "less_record_id x y = rid_less x y"

definition less_eq_record_id :: "record_id \<Rightarrow> record_id \<Rightarrow> bool" where
  "less_eq_record_id x y \<longleftrightarrow> x = y \<or> rid_less x y"

instance
proof
  fix x y z :: record_id
  show "(x < y) = (x \<le> y \<and> \<not> y \<le> x)"
    by (cases x; cases y) (auto simp: less_record_id_def less_eq_record_id_def)
  show "x \<le> x" by (simp add: less_eq_record_id_def)
  show "x \<le> y \<Longrightarrow> y \<le> z \<Longrightarrow> x \<le> z"
    by (cases x; cases y; cases z) (auto simp: less_eq_record_id_def)
  show "x \<le> y \<Longrightarrow> y \<le> x \<Longrightarrow> x = y"
    by (cases x; cases y) (auto simp: less_eq_record_id_def)
  show "x \<le> y \<or> y \<le> x"
    by (cases x; cases y) (auto simp: less_eq_record_id_def)
qed

end

lemma rid_less_simps [simp]:
  "RecordId p a t < RecordId p' a' t' \<longleftrightarrow> p < p' \<or> (p = p' \<and> a < a') \<or> (p = p' \<and> a = a' \<and> t < t')"
  by (simp add: less_record_id_def)

section \<open>The store\<close>

record 'v prop_value =
  pv_timestamp :: int
  pv_areaId :: int
  pv_prop :: int
  pv_status :: int
  pv_value :: 'v

record ('c, 'v) prop_store =
  ps_configs :: "(int \<times> 'c \<times> ('v prop_value \<Rightarrow> int) option) list"
  ps_values :: "(record_id \<times> 'v prop_value) list"

definition store_init :: "('c, 'v) prop_store" where
  "store_init = \<lparr>ps_configs = [], ps_values = []\<rparr>"

definition registerProperty ::
    "int \<Rightarrow> 'c \<Rightarrow> ('v prop_value \<Rightarrow> int) option \<Rightarrow> ('c, 'v) prop_store \<Rightarrow> ('c, 'v) prop_store" where
  "registerProperty prop config tokenFunc s =
     (if map_of (ps_configs s) prop = None
      then s\<lparr>ps_configs := ps_configs s @ [(prop, config, tokenFunc)]\<rparr> else s)"

definition getRecordId :: "(int \<Rightarrow> bool) \<Rightarrow> ('c, 'v) prop_store \<Rightarrow> 'v prop_value \<Rightarrow> record_id" where
  "getRecordId isGlobalProp s v =
     (case map_of (ps_configs s) (pv_prop v) of
        None \<Rightarrow> RecordId 0 0 0
      | Some (_, tokenFunction) \<Rightarrow>
          RecordId (pv_prop v) (if isGlobalProp (pv_prop v) then 0 else pv_areaId v)
            (case tokenFunction of None \<Rightarrow> 0 | Some f \<Rightarrow> f v))"

definition getValueOrNull :: "('c, 'v) prop_store \<Rightarrow> record_id \<Rightarrow> 'v prop_value option" where
  "getValueOrNull s r = map_of (ps_values s) r"

definition writeValue ::
    "(int \<Rightarrow> bool) \<Rightarrow> 'v prop_value \<Rightarrow> bool \<Rightarrow> ('c, 'v) prop_store \<Rightarrow> bool \<times> ('c, 'v) prop_store" where
  "writeValue g v updateStatus s =
     (if map_of (ps_configs s) (pv_prop v) = None then (False, s)
      else
        (let r = getRecordId g s v
         in case getValueOrNull s r of
              None \<Rightarrow> (True, s\<lparr>ps_values := map_insert r v (ps_values s)\<rparr>)
            | Some old \<Rightarrow>
                if pv_timestamp old > pv_timestamp v then (False, s)
                else
                  (let new = old\<lparr>pv_timestamp := pv_timestamp v, pv_value := pv_value v\<rparr>;
                       new' = (if updateStatus then new\<lparr>pv_status := pv_status v\<rparr> else new)
                   in (True, s\<lparr>ps_values := map_replace r new' (ps_values s)\<rparr>))))"

definition removeValue :: "(int \<Rightarrow> bool) \<Rightarrow> 'v prop_value \<Rightarrow> ('c, 'v) prop_store \<Rightarrow> ('c, 'v) prop_store" where
  "removeValue g v s = s\<lparr>ps_values := map_erase (getRecordId g s v) (ps_values s)\<rparr>"

text \<open>
  \<open>findRangeLocked\<close>: the entries before the range, the range, and the entries after it.  The id
  after the largest \<open>int\<close> overflows.
\<close>

definition findRange ::
    "int \<Rightarrow> (record_id \<times> 'v) list \<Rightarrow> ((record_id \<times> 'v) list \<times> (record_id \<times> 'v) list \<times> (record_id \<times> 'v) list) option" where
  "findRange propId m =
     (if propId + 1 \<ge> 2 ^ 31 then None
      else
        (let lo = RecordId propId (- (2 ^ 31)) 0; hi = RecordId (propId + 1) (- (2 ^ 31)) 0
         in Some (before_bound lo m, before_bound hi (from_bound lo m), from_bound hi m)))"

definition removeValuesForProperty :: "int \<Rightarrow> ('c, 'v) prop_store \<Rightarrow> ('c, 'v) prop_store option" where
  "removeValuesForProperty propId s =
     map_option (\<lambda>(a, _, b). s\<lparr>ps_values := a @ b\<rparr>) (findRange propId (ps_values s))"

definition readAllValues :: "('c, 'v) prop_store \<Rightarrow> 'v prop_value list" where
  "readAllValues s = map snd (ps_values s)"

definition readValuesForProperty :: "int \<Rightarrow> ('c, 'v) prop_store \<Rightarrow> 'v prop_value list option" where
  "readValuesForProperty propId s = map_option (\<lambda>(_, r, _). map snd r) (findRange propId (ps_values s))"

definition readValueOrNull :: "(int \<Rightarrow> bool) \<Rightarrow> 'v prop_value \<Rightarrow> ('c, 'v) prop_store \<Rightarrow> 'v prop_value option" where
  "readValueOrNull g request s = getValueOrNull s (getRecordId g s request)"

definition readValueOrNull_id ::
    "(int \<Rightarrow> bool) \<Rightarrow> int \<Rightarrow> int \<Rightarrow> int \<Rightarrow> ('c, 'v) prop_store \<Rightarrow> 'v prop_value option" where
  "readValueOrNull_id g prop area token s =
     getValueOrNull s (RecordId prop (if g prop then 0 else area) token)"

definition getAllConfigs :: "('c, 'v) prop_store \<Rightarrow> 'c list" where
  "getAllConfigs s = map (\<lambda>(_, c, _). c) (ps_configs s)"

definition getConfigOrNull :: "int \<Rightarrow> ('c, 'v) prop_store \<Rightarrow> 'c option" where
  "getConfigOrNull propId s = map_option fst (map_of (ps_configs s) propId)"

text \<open>\<open>abort\<close> ends the process, the result \<open>None\<close>.\<close>

definition getConfigOrDie :: "int \<Rightarrow> ('c, 'v) prop_store \<Rightarrow> 'c option" where
  "getConfigOrDie propId s = (case getConfigOrNull propId s of None \<Rightarrow> None | Some c \<Rightarrow> Some c)"

section \<open>Ranges\<close>

lemma bounds_filter:
  "sorted_map m \<Longrightarrow> before_bound k m = filter (\<lambda>x. fst x < k) m \<and> from_bound k m = filter (\<lambda>x. \<not> fst x < k) m"
proof (induction m)
  case (Cons x m)
  obtain k' v where x: "x = (k', v)" by fastforce
  have e: "filter (\<lambda>y. fst y < k) m = []" "filter (\<lambda>y. \<not> fst y < k) m = m" if "\<not> k' < k"
    using that Cons.prems x by (auto simp: filter_empty_conv filter_id_conv)
  show ?case using Cons x e by (auto simp: before_bound_def from_bound_def)
qed (simp add: before_bound_def from_bound_def)

lemma rid_le_prop: "x < y \<Longrightarrow> rid_prop x \<le> rid_prop y"
  by (cases x; cases y) auto

lemma filter_around:
  "sorted_map m \<Longrightarrow> filter (\<lambda>x. rid_prop (fst x) < p) m @ filter (\<lambda>x. p < rid_prop (fst x)) m =
     filter (\<lambda>x. rid_prop (fst x) \<noteq> p) m"
proof (induction m)
  case (Cons x m)
  have e: "filter (\<lambda>y. rid_prop (fst y) < p) m = []" if "\<not> rid_prop (fst x) < p"
    using that Cons.prems rid_le_prop by (cases x) (fastforce simp: filter_empty_conv)
  show ?case using Cons e by (cases x) auto
qed simp

text \<open>Keys as the store makes them: no area is the smallest number with a negative token.\<close>

definition key_ok :: "record_id \<Rightarrow> bool" where
  "key_ok r \<longleftrightarrow> - (2 ^ 31) \<le> rid_area r \<and> (rid_area r = - (2 ^ 31) \<longrightarrow> 0 \<le> rid_token r)"

lemma in_range_key:
  assumes "key_ok r"
  shows "\<not> r < RecordId p (- (2 ^ 31)) 0 \<longleftrightarrow> p \<le> rid_prop r"
  using assms by (cases r) (auto simp: key_ok_def)

lemma findRange_spec:
  assumes "sorted_map m" "\<forall>x\<in>set m. key_ok (fst x)" "p + 1 < 2 ^ 31"
  shows "\<exists>a b. findRange p m = Some (a, filter (\<lambda>x. rid_prop (fst x) = p) m, b) \<and>
    a @ b = filter (\<lambda>x. rid_prop (fst x) \<noteq> p) m"
proof -
  define lo where "lo = RecordId p (- (2 ^ 31)) 0"
  define hi where "hi = RecordId (p + 1) (- (2 ^ 31)) 0"
  have r: "fst x < lo \<longleftrightarrow> rid_prop (fst x) < p" "fst x < hi \<longleftrightarrow> rid_prop (fst x) < p + 1" if "x \<in> set m" for x
    using in_range_key[of "fst x" p] in_range_key[of "fst x" "p + 1"] assms(2) that unfolding lo_def hi_def by auto
  have r': "lo \<le> fst x \<longleftrightarrow> p \<le> rid_prop (fst x)" "hi \<le> fst x \<longleftrightarrow> p < rid_prop (fst x)" if "x \<in> set m" for x
    unfolding not_less[symmetric] r[OF that] by auto
  have f: "from_bound lo m = filter (\<lambda>x. p \<le> rid_prop (fst x)) m" "before_bound lo m = filter (\<lambda>x. rid_prop (fst x) < p) m"
    "from_bound hi m = filter (\<lambda>x. p < rid_prop (fst x)) m"
    using bounds_filter[OF assms(1)] by (simp_all add: r r' not_less cong: filter_cong)
  have "before_bound hi (from_bound lo m) = filter (\<lambda>x. p \<le> rid_prop (fst x) \<and> fst x < hi) m"
    unfolding f(1) using bounds_filter[OF sorted_map_filter[OF assms(1)]] by simp
  also have "\<dots> = filter (\<lambda>x. rid_prop (fst x) = p) m" by (rule filter_cong) (auto simp: r)
  finally show ?thesis
    using assms(3) f filter_around[OF assms(1)] unfolding findRange_def Let_def lo_def[symmetric] hi_def[symmetric]
    by simp
qed

section \<open>The store refines a map\<close>

definition store_inv :: "(int \<Rightarrow> bool) \<Rightarrow> ('c, 'v) prop_store \<Rightarrow> bool" where
  "store_inv g s \<longleftrightarrow> sorted_map (ps_values s) \<and>
     (\<forall>(r, v)\<in>set (ps_values s). map_of (ps_configs s) (rid_prop r) \<noteq> None \<and> rid_prop r = pv_prop v)"

definition merge_value :: "'v prop_value \<Rightarrow> bool \<Rightarrow> 'v prop_value \<Rightarrow> 'v prop_value" where
  "merge_value v updateStatus old =
     old\<lparr>pv_timestamp := pv_timestamp v, pv_value := pv_value v,
         pv_status := (if updateStatus then pv_status v else pv_status old)\<rparr>"

text \<open>What a write that is accepted stores.\<close>

definition written :: "(int \<Rightarrow> bool) \<Rightarrow> ('c, 'v) prop_store \<Rightarrow> 'v prop_value \<Rightarrow> bool \<Rightarrow> 'v prop_value" where
  "written g s v u = (case readValueOrNull g v s of None \<Rightarrow> v | Some old \<Rightarrow> merge_value v u old)"

lemma rid_of_prop: "map_of (ps_configs s) (pv_prop v) \<noteq> None \<Longrightarrow> rid_prop (getRecordId g s v) = pv_prop v"
  by (auto simp: getRecordId_def split: option.split)

lemma writeValue_put:
  assumes "map_of (ps_configs s) (pv_prop v) \<noteq> None"
    and "\<forall>old. readValueOrNull g v s = Some old \<longrightarrow> pv_timestamp old \<le> pv_timestamp v"
  shows "writeValue g v u s =
    (True, s\<lparr>ps_values := pmap.put (merge_value v u) v (getRecordId g s v) (ps_values s)\<rparr>)"
  using assms
  by (auto simp: writeValue_def pmap.put_def merge_value_def readValueOrNull_def getValueOrNull_def Let_def
      split: option.split)

lemma writeValue_refused:
  assumes "\<not> (map_of (ps_configs s) (pv_prop v) \<noteq> None \<and>
    (\<forall>old. readValueOrNull g v s = Some old \<longrightarrow> pv_timestamp old \<le> pv_timestamp v))"
  shows "writeValue g v u s = (False, s)"
  using assms by (auto simp: writeValue_def readValueOrNull_def getValueOrNull_def Let_def)

lemma store_write_spec:
  assumes "store_inv g s"
  shows "store_inv g (snd (writeValue g v u s)) \<and>
    (fst (writeValue g v u s) \<longleftrightarrow> map_of (ps_configs s) (pv_prop v) \<noteq> None \<and>
       (\<forall>old. readValueOrNull g v s = Some old \<longrightarrow> pv_timestamp old \<le> pv_timestamp v)) \<and>
    getValueOrNull (snd (writeValue g v u s)) =
      (if fst (writeValue g v u s) then (getValueOrNull s)(getRecordId g s v \<mapsto> written g s v u)
       else getValueOrNull s) \<and>
    getValueOrNull (removeValue g v s) = (getValueOrNull s)(getRecordId g s v := None) \<and>
    store_inv g (removeValue g v s)"
proof -
  have sorted: "sorted_map (ps_values s)" using assms by (simp add: store_inv_def)
  have get: "getValueOrNull s = map_of (ps_values s)" for s :: "('a, 'b) prop_store" by (simp add: getValueOrNull_def fun_eq_iff)
  have rem: "getValueOrNull (removeValue g v s) = (getValueOrNull s)(getRecordId g s v := None)"
    "store_inv g (removeValue g v s)"
    using pmap.lookup_del[OF sorted] pmap.inv_del[OF sorted] set_map_erase[of "getRecordId g s v" "ps_values s"] assms
    by (auto simp: removeValue_def get store_inv_def dest!: subsetD)
  show ?thesis
  proof (cases "map_of (ps_configs s) (pv_prop v) \<noteq> None \<and>
      (\<forall>old. readValueOrNull g v s = Some old \<longrightarrow> pv_timestamp old \<le> pv_timestamp v)")
    case True
    let ?r = "getRecordId g s v"
    let ?m = "pmap.put (merge_value v u) v ?r (ps_values s)"
    have w: "writeValue g v u s = (True, s\<lparr>ps_values := ?m\<rparr>)" using writeValue_put True by blast
    have l: "map_of ?m = (map_of (ps_values s))(?r \<mapsto> written g s v u)"
      using pmap.lookup_put[OF sorted] by (simp add: written_def readValueOrNull_def getValueOrNull_def)
    have "rid_prop r = pv_prop x \<and> map_of (ps_configs s) (rid_prop r) \<noteq> None" if x: "(r, x) \<in> set ?m" for r x
    proof (cases "map_of (ps_values s) ?r")
      case None
      then show ?thesis using x set_map_insert[of "(r, x)" ?r v "ps_values s"] assms rid_of_prop[of s v g] True
        by (auto simp: pmap.put_def store_inv_def)
    next
      case (Some old)
      have "rid_prop ?r = pv_prop old" using map_of_SomeD[OF Some] assms by (auto simp: store_inv_def)
      then show ?thesis using x Some set_map_replace[of "(r, x)" ?r "merge_value v u old" "ps_values s"] assms
          rid_of_prop[of s v g] True
        by (auto simp: pmap.put_def store_inv_def merge_value_def)
    qed
    then have inv: "store_inv g (s\<lparr>ps_values := ?m\<rparr>)"
      using pmap.inv_put[OF sorted] by (auto simp: store_inv_def)
    show ?thesis unfolding w using l rem True inv by (simp add: get)
  next
    case False
    then show ?thesis using writeValue_refused[OF False] rem assms by simp
  qed
qed

text \<open>
  C7: the store is a map from the identity of a value to the value.  A write is accepted exactly when
  the property is registered and no newer value is stored; then it changes the entry of that
  identity only, and otherwise nothing changes.  Removing a value removes that entry only.
\<close>

theorem store_refines_map:
  assumes "store_inv g s"
  shows "store_inv g (snd (writeValue g v u s)) \<and>
    (fst (writeValue g v u s) \<longleftrightarrow> map_of (ps_configs s) (pv_prop v) \<noteq> None \<and>
       (\<forall>old. readValueOrNull g v s = Some old \<longrightarrow> pv_timestamp old \<le> pv_timestamp v)) \<and>
    getValueOrNull (snd (writeValue g v u s)) =
      (if fst (writeValue g v u s) then (getValueOrNull s)(getRecordId g s v \<mapsto> written g s v u)
       else getValueOrNull s) \<and>
    getValueOrNull (removeValue g v s) = (getValueOrNull s)(getRecordId g s v := None) \<and>
    store_inv g (removeValue g v s)"
  by (rule store_write_spec[OF assms])

section \<open>All areas of a property\<close>

lemma map_of_filter_rid: "map_of (filter (\<lambda>x. rid_prop (fst x) \<noteq> p) m) r = (if rid_prop r = p then None else map_of m r)"
  using map_of_filter_key[of "\<lambda>r. rid_prop r \<noteq> p" m r] by simp

text \<open>
  C37: \<open>readValuesForProperty\<close> gives exactly the values of the property, in the order of their areas,
  and \<open>removeValuesForProperty\<close> removes exactly these.  This is for a property below the largest number
  of 32 bits, whose successor the code computes, and for stored keys that are not below the bound
  with which it starts its search: the least area has no negative token.
\<close>

theorem property_range_exact:
  assumes "store_inv g s" "\<forall>x\<in>set (ps_values s). key_ok (fst x)" "p + 1 < 2 ^ 31"
  shows "readValuesForProperty p s = Some (filter (\<lambda>v. pv_prop v = p) (readAllValues s)) \<and>
    (\<exists>s'. removeValuesForProperty p s = Some s' \<and> store_inv g s' \<and>
       readAllValues s' = filter (\<lambda>v. pv_prop v \<noteq> p) (readAllValues s) \<and>
       getValueOrNull s' = (\<lambda>r. if rid_prop r = p then None else getValueOrNull s r))"
proof -
  have sorted: "sorted_map (ps_values s)" using assms(1) by (simp add: store_inv_def)
  obtain a b where r: "findRange p (ps_values s) = Some (a, filter (\<lambda>x. rid_prop (fst x) = p) (ps_values s), b)"
    "a @ b = filter (\<lambda>x. rid_prop (fst x) \<noteq> p) (ps_values s)"
    using findRange_spec[OF sorted assms(2,3)] by auto
  have e: "rid_prop (fst x) = pv_prop (snd x)" if "x \<in> set (ps_values s)" for x
    using assms(1) that by (auto simp: store_inv_def)
  have m: "map snd (filter (\<lambda>x. P (rid_prop (fst x))) (ps_values s)) = filter (\<lambda>v. P (pv_prop v)) (map snd (ps_values s))" for P
    unfolding filter_map o_def by (rule arg_cong[of _ _ "map snd"], rule filter_cong) (auto simp: e)
  have i: "store_inv g (s\<lparr>ps_values := filter (\<lambda>x. rid_prop (fst x) \<noteq> p) (ps_values s)\<rparr>)"
    using assms(1) sorted_map_filter[OF sorted] by (auto simp: store_inv_def)
  show ?thesis
    using r m[of "\<lambda>q. q = p"] m[of "\<lambda>q. q \<noteq> p"] i
    by (simp add: readValuesForProperty_def removeValuesForProperty_def readAllValues_def getValueOrNull_def
        map_of_filter_rid fun_eq_iff)
qed

section \<open>Timestamps\<close>

text \<open>What clients do to the store, without removal.\<close>

inductive store_step :: "(int \<Rightarrow> bool) \<Rightarrow> ('c, 'v) prop_store \<Rightarrow> ('c, 'v) prop_store \<Rightarrow> bool" for g where
  step_register: "store_step g s (registerProperty p c f s)"
| step_write: "store_step g s (snd (writeValue g v u s))"

inductive store_steps :: "(int \<Rightarrow> bool) \<Rightarrow> ('c, 'v) prop_store \<Rightarrow> ('c, 'v) prop_store \<Rightarrow> bool" for g where
  steps_refl: "store_steps g s s"
| steps_step: "store_steps g s s' \<Longrightarrow> store_step g s' s'' \<Longrightarrow> store_steps g s s''"

lemma register_inv:
  assumes "store_inv g s"
  shows "store_inv g (registerProperty p c f s)" "ps_values (registerProperty p c f s) = ps_values s"
  using assms by (auto simp: store_inv_def registerProperty_def map_add_def split: option.split)

lemma store_step_mono:
  assumes "store_step g s s'" "store_inv g s"
  shows "store_inv g s' \<and> (\<forall>r old. getValueOrNull s r = Some old \<longrightarrow>
    (\<exists>new. getValueOrNull s' r = Some new \<and> pv_timestamp old \<le> pv_timestamp new))"
  using assms(1)
proof cases
  case (step_register p c f)
  then show ?thesis using register_inv[OF assms(2)] by (simp add: getValueOrNull_def)
next
  case (step_write v u)
  note w = store_write_spec[OF assms(2), of v u]
  have "pv_timestamp old \<le> pv_timestamp (written g s v u)"
    if "getValueOrNull s (getRecordId g s v) = Some old" "fst (writeValue g v u s)" for old
    using w that by (simp add: written_def readValueOrNull_def merge_value_def)
  then show ?thesis using w step_write by auto
qed

text \<open>
  Over any sequence of registrations and writes, the timestamp of a stored value never decreases
  and no value is lost.
\<close>

theorem timestamps_never_decrease:
  assumes "store_steps g s s'" "store_inv g s"
  shows "store_inv g s' \<and> (\<forall>r old. getValueOrNull s r = Some old \<longrightarrow>
    (\<exists>new. getValueOrNull s' r = Some new \<and> pv_timestamp old \<le> pv_timestamp new))"
  using assms
proof induction
  case (steps_step s s' s'')
  from store_step_mono[OF steps_step(2)] steps_step.IH[OF steps_step.prems] show ?case
    by (meson order_trans)
qed simp

section \<open>Witnesses\<close>

definition glob :: "int \<Rightarrow> bool" where "glob p \<longleftrightarrow> p = 7"

definition val :: "int \<Rightarrow> int \<Rightarrow> int \<Rightarrow> int \<Rightarrow> int prop_value" where
  "val p a t x = \<lparr>pv_timestamp = t, pv_areaId = a, pv_prop = p, pv_status = 0, pv_value = x\<rparr>"

definition store_demo :: "(unit, int) prop_store" where
  "store_demo = \<lparr>ps_configs = [(7, (), None), (3, (), None)],
     ps_values = [(RecordId 3 1 0, val 3 1 10 5), (RecordId 3 2 0, val 3 2 10 6), (RecordId 7 0 0, val 7 4 10 1)]\<rparr>"

lemma store_demo_inv: "store_inv glob store_demo"
  by (simp add: store_inv_def store_demo_def val_def)

theorem store_refines_map_witness:
  "getValueOrNull (snd (writeValue glob (val 7 9 20 2) True store_demo)) (RecordId 7 0 0) = Some (val 7 4 20 2) \<and>
   \<not> fst (writeValue glob (val 3 1 9 2) True store_demo)"
proof -
  have r: "getRecordId glob store_demo (val 7 9 20 2) = RecordId 7 0 0"
    and c: "map_of (ps_configs store_demo) (pv_prop (val 7 9 20 2)) \<noteq> None"
    and a: "readValueOrNull glob (val 7 9 20 2) store_demo = Some (val 7 4 10 1)"
    and b: "readValueOrNull glob (val 3 1 9 2) store_demo = Some (val 3 1 10 5)"
    by (simp_all add: readValueOrNull_def getValueOrNull_def getRecordId_def store_demo_def val_def glob_def)
  have t: "pv_timestamp (val p x y z) = y" for p x y z by (simp add: val_def)
  have w: "written glob store_demo (val 7 9 20 2) True = val 7 4 20 2"
    by (simp add: written_def a merge_value_def) (simp add: val_def)
  have acc: "fst (writeValue glob (val 7 9 20 2) True store_demo)"
    using store_refines_map[OF store_demo_inv, of "val 7 9 20 2" True] c a t by simp
  have ref: "\<not> fst (writeValue glob (val 3 1 9 2) True store_demo)"
    using store_refines_map[OF store_demo_inv, of "val 3 1 9 2" True] b t by simp
  show ?thesis
    using store_refines_map[OF store_demo_inv, of "val 7 9 20 2" True] acc ref r w by simp
qed

theorem property_range_exact_witness:
  "readValuesForProperty 3 store_demo = Some [val 3 1 10 5, val 3 2 10 6] \<and>
   (\<exists>s'. removeValuesForProperty 3 store_demo = Some s' \<and> readAllValues s' = [val 7 4 10 1])"
proof -
  have "\<forall>x\<in>set (ps_values store_demo). key_ok (fst x)" by (simp add: store_demo_def key_ok_def)
  from property_range_exact[OF store_demo_inv this, of 3] show ?thesis
    by (auto simp: readAllValues_def store_demo_def val_def)
qed

theorem timestamps_never_decrease_witness:
  "\<exists>new. getValueOrNull (snd (writeValue glob (val 7 9 20 2) True store_demo)) (RecordId 7 0 0) = Some new \<and>
     10 \<le> pv_timestamp new"
proof -
  have s: "store_steps glob store_demo (snd (writeValue glob (val 7 9 20 2) True store_demo))"
    by (rule steps_step[OF steps_refl step_write])
  have "getValueOrNull store_demo (RecordId 7 0 0) = Some (val 7 4 10 1)" by (simp add: getValueOrNull_def store_demo_def)
  with timestamps_never_decrease[OF s store_demo_inv] show ?thesis by (fastforce simp: val_def)
qed

end
