(* ===== verification/Float32.thy ===== *)
theory Float32
  imports HAL_Prelude
begin

text \<open>
  The type \<open>float\<close> of C++: the numbers of the binary32 format of IEEE 754, the two infinities and
  the value that is not a number.  A finite value is the rational number it stands for, so that the
  two zeros are one; sums, differences, products and quotients are the exact ones, rounded to the
  nearest number, to the even one of two.  The locale \<open>ordered_floats\<close> of the clients needs only that the
  comparisons behave as an order on the values that are numbers.
\<close>

section \<open>Values\<close>

datatype float32 = NaN | Infty bool | Fin rat

text \<open>\<open>Infty True\<close> is the negative one.\<close>

definition is_nan :: "float32 \<Rightarrow> bool" where "is_nan x \<longleftrightarrow> x = NaN"

fun f_lt :: "float32 \<Rightarrow> float32 \<Rightarrow> bool" where
  "f_lt (Fin x) (Fin y) \<longleftrightarrow> x < y"
| "f_lt (Fin x) (Infty n) \<longleftrightarrow> \<not> n"
| "f_lt (Infty n) (Fin y) \<longleftrightarrow> n"
| "f_lt (Infty m) (Infty n) \<longleftrightarrow> m \<and> \<not> n"
| "f_lt _ _ \<longleftrightarrow> False"

definition f_le :: "float32 \<Rightarrow> float32 \<Rightarrow> bool" where
  "f_le x y \<longleftrightarrow> \<not> is_nan x \<and> \<not> is_nan y \<and> \<not> f_lt y x"

section \<open>Rounding\<close>

text \<open>The nearest integer, the even one of two.\<close>

definition round_even :: "rat \<Rightarrow> int" where
  "round_even q =
     (let n = \<lfloor>q\<rfloor>; r = q - of_int n
      in if r < 1/2 then n else if 1/2 < r then n + 1 else if even n then n else n + 1)"

text \<open>The distance of neighbouring numbers with exponent \<open>k - 149\<close>, and the least exponent for a value.\<close>

definition ulp :: "nat \<Rightarrow> rat" where "ulp k = 2 ^ k / 2 ^ 149"

definition exponent :: "rat \<Rightarrow> nat option" where
  "exponent x = find (\<lambda>k. \<bar>x\<bar> < 2 ^ 24 * ulp k) [0..<254]"

definition f_round :: "rat \<Rightarrow> float32" where
  "f_round x =
     (case exponent x of
        None \<Rightarrow> Infty (x < 0)
      | Some k \<Rightarrow>
          (let v = of_int (round_even (x / ulp k)) * ulp k
           in if 2 ^ 128 \<le> \<bar>v\<bar> then Infty (x < 0) else Fin v))"

section \<open>Arithmetic\<close>

fun f_neg :: "float32 \<Rightarrow> float32" where
  "f_neg NaN = NaN"
| "f_neg (Infty n) = Infty (\<not> n)"
| "f_neg (Fin x) = Fin (- x)"

fun f_add :: "float32 \<Rightarrow> float32 \<Rightarrow> float32" where
  "f_add NaN _ = NaN"
| "f_add _ NaN = NaN"
| "f_add (Infty m) (Infty n) = (if m = n then Infty m else NaN)"
| "f_add (Infty m) (Fin _) = Infty m"
| "f_add (Fin _) (Infty n) = Infty n"
| "f_add (Fin x) (Fin y) = f_round (x + y)"

definition f_sub :: "float32 \<Rightarrow> float32 \<Rightarrow> float32" where "f_sub x y = f_add x (f_neg y)"

fun f_mul :: "float32 \<Rightarrow> float32 \<Rightarrow> float32" where
  "f_mul NaN _ = NaN"
| "f_mul _ NaN = NaN"
| "f_mul (Infty m) (Infty n) = Infty (m \<noteq> n)"
| "f_mul (Infty m) (Fin y) = (if y = 0 then NaN else Infty (m \<noteq> (y < 0)))"
| "f_mul (Fin x) (Infty n) = (if x = 0 then NaN else Infty (n \<noteq> (x < 0)))"
| "f_mul (Fin x) (Fin y) = f_round (x * y)"

text \<open>
  The conversion of a quotient to \<open>int\<close>: towards zero; a value that does not fit, an infinity (the
  quotient by zero among them) and NaN have no result.
\<close>

definition trunc_rat :: "rat \<Rightarrow> int" where
  "trunc_rat x = (if 0 \<le> x then \<lfloor>x\<rfloor> else - \<lfloor>- x\<rfloor>)"

fun f_to_int :: "float32 \<Rightarrow> int option" where
  "f_to_int (Fin x) = (let n = trunc_rat x in if - (2 ^ 31) \<le> n \<and> n < 2 ^ 31 then Some n else None)"
| "f_to_int _ = None"

fun f_div_int :: "float32 \<Rightarrow> float32 \<Rightarrow> int option" where
  "f_div_int (Fin x) (Fin y) = (if y = 0 then None else f_to_int (f_round (x / y)))"
| "f_div_int (Fin x) (Infty n) = Some 0"
| "f_div_int _ _ = None"

section \<open>The order of the numbers\<close>

lemma f_le_simps [simp]:
  "f_le (Fin x) (Fin y) \<longleftrightarrow> x \<le> y" "\<not> f_le NaN u" "\<not> f_le u NaN"
  "f_le (Fin x) (Infty n) \<longleftrightarrow> \<not> n" "f_le (Infty n) (Fin y) \<longleftrightarrow> n" "f_le (Infty m) (Infty n) \<longleftrightarrow> (m \<or> \<not> n)"
  by (auto simp: f_le_def is_nan_def)

lemma f_lt_nan [simp]: "\<not> f_lt NaN x" "\<not> f_lt x NaN"
  by (cases x; simp)+

lemma f_lt_le: "f_lt x y \<Longrightarrow> f_le x y"
  by (cases x; cases y) auto

lemma f_le_trans: "f_le x y \<Longrightarrow> f_le y z \<Longrightarrow> f_le x z"
  by (cases x; cases y; cases z) auto

lemma f_lt_le_trans: "f_lt x y \<Longrightarrow> f_le y z \<Longrightarrow> f_lt x z"
  by (cases x; cases y; cases z) auto

lemma f_le_lt_trans: "f_le x y \<Longrightarrow> f_lt y z \<Longrightarrow> f_lt x z"
  by (cases x; cases y; cases z) auto

lemma f_lt_irrefl [simp]: "\<not> f_lt x x"
  by (cases x) auto

lemma f_le_nan: "f_le x y \<Longrightarrow> \<not> is_nan x \<and> \<not> is_nan y"
  by (simp add: f_le_def)

lemma f_not_lt: "\<not> is_nan x \<Longrightarrow> \<not> is_nan y \<Longrightarrow> \<not> f_lt x y \<longleftrightarrow> f_le y x"
  by (simp add: f_le_def)

section \<open>Rounding keeps the order\<close>

lemma round_even_int [simp]: "round_even (of_int n) = n"
  by (simp add: round_even_def)

lemma round_even_mono:
  assumes "p \<le> q"
  shows "round_even p \<le> round_even q"
proof -
  have f: "\<lfloor>p\<rfloor> \<le> \<lfloor>q\<rfloor>" using assms by (rule floor_mono)
  show ?thesis
  proof (cases "\<lfloor>p\<rfloor> = \<lfloor>q\<rfloor>")
    case True
    then show ?thesis using assms by (auto simp: round_even_def Let_def)
  next
    case False
    then have "\<lfloor>p\<rfloor> + 1 \<le> \<lfloor>q\<rfloor>" using f by simp
    moreover have "round_even p \<le> \<lfloor>p\<rfloor> + 1" "\<lfloor>q\<rfloor> \<le> round_even q" by (simp_all add: round_even_def Let_def)
    ultimately show ?thesis by linarith
  qed
qed

lemma round_even_neg: "round_even (- q) = - round_even q"
proof (cases "q = of_int \<lfloor>q\<rfloor>")
  case True
  then show ?thesis by (metis of_int_minus round_even_int)
next
  case False
  then have "\<lceil>q\<rceil> = \<lfloor>q\<rfloor> + 1" by (metis ceiling_altdef)
  then have "\<lfloor>- q\<rfloor> = - \<lfloor>q\<rfloor> - 1" by (simp add: ceiling_def)
  then show ?thesis by (auto simp: round_even_def Let_def)
qed

lemma ulp_pos [simp]: "0 < ulp k" "ulp k \<noteq> 0"
  by (simp_all add: ulp_def)

lemma ulp_mono: "j \<le> k \<Longrightarrow> ulp j \<le> ulp k"
  by (simp add: ulp_def divide_right_mono power_increasing)

lemma ulp_Suc: "ulp (Suc k) = 2 * ulp k"
  by (simp add: ulp_def)

lemma exponent_Some:
  "exponent x = Some k \<longleftrightarrow> k < 254 \<and> \<bar>x\<bar> < 2 ^ 24 * ulp k \<and> (\<forall>j<k. 2 ^ 24 * ulp j \<le> \<bar>x\<bar>)"
  by (auto simp: exponent_def find_Some_iff not_less)

lemma exponent_unique:
  assumes "k < 254" "2 ^ 23 * ulp k \<le> \<bar>x\<bar>" "\<bar>x\<bar> < 2 ^ 24 * ulp k"
  shows "exponent x = Some k"
proof -
  have "2 ^ 24 * ulp j \<le> \<bar>x\<bar>" if "j < k" for j
    using ulp_mono[of "Suc j" k] that assms(2) by (simp add: ulp_Suc)
  then show ?thesis using assms by (simp add: exponent_Some)
qed

lemma exponent_None: "exponent x = None \<longleftrightarrow> (2::rat) ^ 128 \<le> \<bar>x\<bar>"
proof -
  have top: "(2::rat) ^ 24 * ulp 253 = 2 ^ 128" by (simp add: ulp_def)
  have "exponent x = None \<longleftrightarrow> (\<forall>k<254. (2::rat) ^ 24 * ulp k \<le> \<bar>x\<bar>)"
    by (simp add: exponent_def find_None_iff) (meson linorder_not_le)
  also have "\<dots> \<longleftrightarrow> (2::rat) ^ 24 * ulp 253 \<le> \<bar>x\<bar>"
  proof
    assume a: "(2::rat) ^ 24 * ulp 253 \<le> \<bar>x\<bar>"
    show "\<forall>k<254. (2::rat) ^ 24 * ulp k \<le> \<bar>x\<bar>"
    proof (intro allI impI)
      fix k :: nat
      assume "k < 254"
      then have "ulp k \<le> ulp 253" by (intro ulp_mono) simp
      then show "(2::rat) ^ 24 * ulp k \<le> \<bar>x\<bar>" using a by (meson mult_left_mono order_trans zero_le_numeral zero_le_power)
    qed
  qed simp
  finally show ?thesis unfolding top .
qed

lemma exponent_mono: "exponent x = Some j \<Longrightarrow> exponent y = Some k \<Longrightarrow> \<bar>x\<bar> \<le> \<bar>y\<bar> \<Longrightarrow> j \<le> k"
  by (rule ccontr) (auto simp: exponent_Some not_le)

definition scaled :: "rat \<Rightarrow> nat \<Rightarrow> rat" where
  "scaled x k = of_int (round_even (x / ulp k)) * ulp k"

lemma f_round_Some: "exponent x = Some k \<Longrightarrow>
    f_round x = (if 2 ^ 128 \<le> \<bar>scaled x k\<bar> then Infty (x < 0) else Fin (scaled x k))"
  by (simp add: f_round_def scaled_def Let_def)

lemma f_round_number: "f_round x \<noteq> NaN"
  by (simp add: f_round_def Let_def split: option.split)

lemma scaled_mono: "x \<le> y \<Longrightarrow> scaled x k \<le> scaled y k"
  by (simp add: scaled_def) (intro round_even_mono divide_right_mono, auto intro: less_imp_le)

lemma scaled_units: "scaled (of_int n * ulp k) k = of_int n * ulp k"
  by (simp add: scaled_def)

lemma f_round_exact:
  assumes "exponent x = Some k" "x = of_int n * ulp k"
  shows "f_round x = Fin x"
  using assms exponent_None[of x] by (simp add: f_round_Some scaled_units not_le)

lemma scaled_0 [simp]: "scaled 0 k = 0"
  using scaled_units[of 0 k] by simp

lemma scaled_across:
  assumes "exponent x = Some j" "exponent y = Some k" "j < k" "0 \<le> x" "0 \<le> y"
  shows "scaled x j \<le> scaled y k"
proof -
  obtain i where k: "k = Suc i" "j \<le> i" using assms(3) by (cases k) auto
  have "scaled x j \<le> scaled (of_int (2 ^ 24) * ulp j) j"
    using assms(1,4) by (intro scaled_mono) (simp add: exponent_Some)
  also have "\<dots> = 2 ^ 24 * ulp j" unfolding scaled_units by simp
  also have "\<dots> \<le> 2 ^ 24 * ulp i" using ulp_mono[OF k(2)] by simp
  also have "\<dots> = of_int (2 ^ 23) * ulp k" by (simp add: k(1) ulp_Suc)
  also have "\<dots> = scaled (of_int (2 ^ 23) * ulp k) k" by (rule scaled_units[symmetric])
  also have "\<dots> \<le> scaled y k"
    using assms(2,5) by (intro scaled_mono) (simp add: exponent_Some k(1) ulp_Suc)
  finally show ?thesis .
qed

lemma f_le_pos_inf: "a \<noteq> NaN \<Longrightarrow> f_le a (Infty False)"
  by (cases a) auto

lemma f_neg_inf: "a \<noteq> NaN \<Longrightarrow> f_le (Infty True) a"
  by (cases a) auto

lemma f_round_mono_pos:
  assumes "0 \<le> x" "x \<le> y"
  shows "f_le (f_round x) (f_round y)"
proof (cases "exponent y")
  case None
  then have "f_round y = Infty False" using assms by (simp add: f_round_def)
  then show ?thesis using f_le_pos_inf f_round_number by metis
next
  case (Some k)
  have "exponent x \<noteq> None"
  proof
    assume "exponent x = None"
    then have "2 ^ 128 \<le> y" using exponent_None[of x] assms by simp
    then show False using Some exponent_None[of y] assms by simp
  qed
  then obtain j where j: "exponent x = Some j" by auto
  have jk: "j \<le> k" using exponent_mono[OF j Some] assms by simp
  have le: "scaled x j \<le> scaled y k"
    using scaled_across[OF j Some] scaled_mono[OF assms(2), of j] jk assms by (cases "j = k") auto
  have "0 \<le> scaled x j" using scaled_mono[OF assms(1), of j] by simp
  then show ?thesis using le assms by (auto simp: f_round_Some[OF j] f_round_Some[OF Some])
qed

lemma f_round_neg: "x \<noteq> 0 \<Longrightarrow> f_round (- x) = f_neg (f_round x)"
proof -
  assume x: "x \<noteq> 0"
  have e: "exponent (- x) = exponent x" by (simp add: exponent_def)
  show ?thesis using x by (auto simp: f_round_def e round_even_neg Let_def split: option.split)
qed

lemma f_le_neg: "f_le (f_neg b) (f_neg a) \<longleftrightarrow> f_le a b"
  by (cases a; cases b) auto

lemma f_round_0: "f_round 0 = Fin 0"
proof -
  have "exponent 0 = Some 0" by (simp add: exponent_Some)
  then show ?thesis by (simp add: f_round_Some)
qed

lemma f_round_mono: "x \<le> y \<Longrightarrow> f_le (f_round x) (f_round y)"
proof -
  assume le: "x \<le> y"
  have neg: "f_le (f_round a) (f_round b)" if "a \<le> b" "b < 0" for a b
    using f_round_mono_pos[of "- b" "- a"] that f_round_neg[of a] f_round_neg[of b] f_le_neg by simp
  have zero: "f_le (f_round a) (f_round 0)" if "a < 0" for a
    using f_round_mono_pos[of 0 "- a"] that f_round_neg[of a] f_le_neg[of "Fin 0" "f_round a"]
    by (simp add: f_round_0)
  consider "0 \<le> x" | "y < 0" | "x < 0" "0 \<le> y" using le by linarith
  then show ?thesis
  proof cases
    case 3
    then show ?thesis using zero f_round_mono_pos[of 0 y] f_le_trans by blast
  qed (use le neg f_round_mono_pos in auto)
qed

text \<open>Multiplication by a positive number keeps the order.\<close>

lemma f_mul_mono: "f_le a b \<Longrightarrow> 0 < m \<Longrightarrow> f_le (f_mul a (Fin m)) (f_mul b (Fin m))"
  by (cases a; cases b) (auto intro: f_round_mono f_le_pos_inf f_round_number
      intro: f_round_number[THEN f_le_pos_inf] f_neg_inf[OF f_round_number])

end
