(* ===== verification/Number_Text.thy ===== *)
theory Number_Text
  imports Float32 "HOL-Library.Sublist"
begin

text \<open>
  The conversions between text and numbers of the C++ library that the thermal service uses:
  \<open>std::stoi\<close> and \<open>std::stof\<close> on top of \<open>strtol\<close> and \<open>strtof\<close>, \<open>std::to_string\<close> of an \<open>int\<close>, and \<open>Trim\<close> and
  \<open>Split\<close> of the Android base library.  A conversion that throws has no result.
\<close>

section \<open>Characters and digits\<close>

definition is_space :: "char \<Rightarrow> bool" where
  "is_space c \<longleftrightarrow> (of_char c :: nat) \<in> {9, 10, 11, 12, 13, 32}"

definition digit_value :: "char \<Rightarrow> nat option" where
  "digit_value c =
     (let n = of_char c
      in if 48 \<le> n \<and> n \<le> 57 then Some (n - 48)
         else if 97 \<le> n \<and> n \<le> 122 then Some (n - 87)
         else if 65 \<le> n \<and> n \<le> 90 then Some (n - 55) else None)"

definition is_digit_in :: "nat \<Rightarrow> char \<Rightarrow> bool" where
  "is_digit_in b c \<longleftrightarrow> (case digit_value c of None \<Rightarrow> False | Some d \<Rightarrow> d < b)"

definition nat_of_digits :: "nat \<Rightarrow> string \<Rightarrow> nat" where
  "nat_of_digits b ds = fold (\<lambda>c n. b * n + (case digit_value c of None \<Rightarrow> 0 | Some d \<Rightarrow> d)) ds 0"

definition to_lower :: "char \<Rightarrow> char" where
  "to_lower c = (let n = of_char c in if 65 \<le> n \<and> n \<le> (90 :: nat) then char_of (n + 32) else c)"

section \<open>Text\<close>

definition Trim :: "string \<Rightarrow> string" where
  "Trim s = rev (dropWhile is_space (rev (dropWhile is_space s)))"

text \<open>\<open>Split\<close> at one character: the pieces between its occurrences, the empty ones included.\<close>

fun Split :: "char \<Rightarrow> string \<Rightarrow> string list" where
  "Split d [] = [[]]"
| "Split d (c # cs) = (if c = d then [] # Split d cs
     else case Split d cs of [] \<Rightarrow> [[c]] | p # ps \<Rightarrow> (c # p) # ps)"

section \<open>From text to numbers\<close>

definition sign_of :: "string \<Rightarrow> bool \<times> string" where
  "sign_of s =
     (case s of [] \<Rightarrow> (False, s)
      | c # cs \<Rightarrow> if c = CHR ''-'' then (True, cs) else if c = CHR ''+'' then (False, cs) else (False, s))"

definition negate_if :: "bool \<Rightarrow> 'a::uminus \<Rightarrow> 'a" where "negate_if neg x = (if neg then - x else x)"

definition strtol10 :: "string \<Rightarrow> int option" where
  "strtol10 s =
     (case sign_of (dropWhile is_space s) of (neg, cs) \<Rightarrow>
        (let ds = takeWhile (is_digit_in 10) cs
         in if ds = [] then None else Some (negate_if neg (int (nat_of_digits 10 ds)))))"

definition stoi :: "string \<Rightarrow> int option" where
  "stoi s =
     (case strtol10 s of None \<Rightarrow> None
      | Some n \<Rightarrow> if - (2 ^ 31) \<le> n \<and> n < 2 ^ 31 then Some n else None)"

text \<open>A mantissa in base \<open>b\<close> with an exponent of the base \<open>r\<close> behind the letter \<open>e\<close>.\<close>

definition exponent_text :: "char \<Rightarrow> string \<Rightarrow> int" where
  "exponent_text e s =
     (case s of [] \<Rightarrow> 0
      | c # cs \<Rightarrow>
          if to_lower c \<noteq> e then 0
          else (case sign_of cs of (neg, ds) \<Rightarrow> negate_if neg (int (nat_of_digits 10 (takeWhile (is_digit_in 10) ds)))))"

definition float_text :: "nat \<Rightarrow> rat \<Rightarrow> char \<Rightarrow> string \<Rightarrow> rat option" where
  "float_text b r e s =
     (let ip = takeWhile (is_digit_in b) s; s1 = dropWhile (is_digit_in b) s;
          dot = (s1 \<noteq> [] \<and> hd s1 = CHR ''.'');
          fp = (if dot then takeWhile (is_digit_in b) (tl s1) else []);
          s2 = (if dot then dropWhile (is_digit_in b) (tl s1) else s1)
      in if ip = [] \<and> fp = [] then None
         else Some (of_nat (nat_of_digits b (ip @ fp)) / of_nat b ^ length fp * power_int r (exponent_text e s2)))"

definition strtof_value :: "string \<Rightarrow> rat option" where
  "strtof_value s =
     (case (if prefix ''0x'' (map to_lower s) then float_text 16 2 (CHR ''p'') (drop 2 s) else None) of
        Some x \<Rightarrow> Some x
      | None \<Rightarrow> float_text 10 10 (CHR ''e'') s)"

text \<open>
  \<open>std::stof\<close>: no number, a number too large, or one that is not zero and rounds to zero throws.
\<close>

definition stof :: "string \<Rightarrow> float32 option" where
  "stof s =
     (case sign_of (dropWhile is_space s) of (neg, cs) \<Rightarrow>
        if prefix ''nan'' (map to_lower cs) then Some NaN
        else if prefix ''inf'' (map to_lower cs) then Some (Infty neg)
        else (case strtof_value cs of None \<Rightarrow> None
              | Some x \<Rightarrow>
                  (case f_round (negate_if neg x) of
                     Fin v \<Rightarrow> if v = 0 \<and> x \<noteq> 0 then None else Some (Fin v)
                   | _ \<Rightarrow> None)))"

section \<open>From numbers to text\<close>

fun nat_text :: "nat \<Rightarrow> string" where
  "nat_text n = (if n < 10 then [char_of (48 + n)] else nat_text (n div 10) @ [char_of (48 + n mod 10)])"

declare nat_text.simps [simp del]

definition to_string :: "int \<Rightarrow> string" where
  "to_string n = (if n < 0 then CHR ''-'' # nat_text (nat (- n)) else nat_text (nat n))"

section \<open>Text and back\<close>

lemma of_char_digit: "d < 10 \<Longrightarrow> of_char (char_of (48 + d) :: char) = 48 + d" for d :: nat
  by simp

lemma digit_text: "d < 10 \<Longrightarrow> digit_value (char_of (48 + d)) = Some d" for d :: nat
  by (simp add: digit_value_def Let_def)

lemma is_digit_text [simp]: "d < 10 \<Longrightarrow> is_digit_in 10 (char_of (48 + d))" for d :: nat
  by (simp add: is_digit_in_def digit_text)

lemma nat_text_digits: "list_all (is_digit_in 10) (nat_text n) \<and> nat_text n \<noteq> []"
proof (induction n rule: nat_text.induct)
  case (1 n)
  then show ?case by (subst (1 2) nat_text.simps) simp
qed

lemma nat_of_digits_snoc: "digit_value c = Some d \<Longrightarrow> nat_of_digits b (ds @ [c]) = b * nat_of_digits b ds + d"
  by (simp add: nat_of_digits_def)

lemma nat_of_text: "nat_of_digits 10 (nat_text n) = n"
proof (induction n rule: nat_text.induct)
  case (1 n)
  have d: "digit_value (char_of (48 + n mod 10)) = Some (n mod 10)" by (rule digit_text) simp
  show ?case
  proof (cases "n < 10")
    case True
    then show ?thesis by (subst nat_text.simps) (simp add: nat_of_digits_def digit_text)
  next
    case False
    then show ?thesis using 1 by (subst nat_text.simps) (simp add: nat_of_digits_snoc[OF d])
  qed
qed

lemma nat_text_span [simp]: "takeWhile (is_digit_in 10) (nat_text n) = nat_text n"
  "dropWhile (is_digit_in 10) (nat_text n) = []" "nat_text n \<noteq> []"
  using nat_text_digits[of n] by (simp_all add: list_all_iff)

lemma digit_plain: "is_digit_in 10 c \<Longrightarrow> \<not> is_space c \<and> c \<noteq> CHR ''-'' \<and> c \<noteq> CHR ''+'' \<and> to_lower c = c \<and>
    c \<noteq> CHR ''n'' \<and> c \<noteq> CHR ''i'' \<and> c \<noteq> CHR ''x'' \<and> c \<noteq> CHR ''.''"
proof -
  assume "is_digit_in 10 c"
  then have "48 \<le> (of_char c :: nat) \<and> (of_char c :: nat) \<le> 57"
    by (auto simp: is_digit_in_def digit_value_def Let_def split: if_splits)
  then show ?thesis by (auto simp: is_space_def to_lower_def)
qed

lemma nat_text_head: "sign_of (dropWhile is_space (nat_text n)) = (False, nat_text n)"
proof -
  obtain c cs where t: "nat_text n = c # cs" "is_digit_in 10 c"
    using nat_text_digits[of n] by (cases "nat_text n") auto
  then show ?thesis using digit_plain[OF t(2)] by (simp add: sign_of_def)
qed

lemma strtol10_to_string: "strtol10 (to_string n) = Some n"
proof (cases "n < 0")
  case True
  then show ?thesis
    by (simp add: strtol10_def to_string_def is_space_def sign_of_def Let_def nat_of_text negate_if_def)
next
  case False
  then show ?thesis by (simp add: strtol10_def to_string_def nat_text_head Let_def nat_of_text negate_if_def)
qed

lemma stoi_to_string: "- (2 ^ 31) \<le> n \<Longrightarrow> n < 2 ^ 31 \<Longrightarrow> stoi (to_string n) = Some n"
  by (simp add: stoi_def strtol10_to_string)

lemma strtof_nat_text: "strtof_value (nat_text n) = Some (of_nat n)"
proof -
  obtain c cs where t: "nat_text n = c # cs" "list_all (is_digit_in 10) (c # cs)"
    using nat_text_digits[of n] by (cases "nat_text n") auto
  have x: "\<not> prefix ''0x'' (map to_lower (nat_text n))"
  proof
    assume "prefix ''0x'' (map to_lower (nat_text n))"
    then obtain d ds where "cs = d # ds" "to_lower d = CHR ''x''" by (auto simp: t(1) prefix_def)
    then show False using t(2) digit_plain[of d] by auto
  qed
  have "float_text 10 10 (CHR ''e'') (nat_text n) = Some (of_nat n)"
    by (simp add: float_text_def Let_def exponent_text_def nat_of_text)
  then show ?thesis using x by (simp add: strtof_value_def)
qed

lemma f_round_int:
  assumes "1 \<le> n" "n \<le> 2 ^ 31"
  shows "\<exists>v. f_round (of_int n) = Fin v \<and> v \<noteq> 0"
proof -
  have e: "exponent 1 = Some 126" "exponent (2 ^ 31) = Some 157"
    by (rule exponent_unique; simp add: ulp_def)+
  have "f_round 1 = Fin 1" using f_round_exact[OF e(1), of "2 ^ 23"] by (simp add: ulp_def)
  moreover have "f_round (2 ^ 31) = Fin (2 ^ 31)" using f_round_exact[OF e(2), of "2 ^ 23"] by (simp add: ulp_def)
  moreover have "f_le (f_round 1) (f_round (of_int n))" "f_le (f_round (of_int n)) (f_round (2 ^ 31))"
    using assms of_int_le_iff[of n "2 ^ 31", where 'a = rat] by (auto intro!: f_round_mono)
  ultimately show ?thesis by (cases "f_round (of_int n)") auto
qed

lemma stof_to_string:
  assumes "\<bar>n\<bar> < 2 ^ 31"
  shows "stof (to_string n) = Some (f_round (of_int n))"
proof -
  have nan: "\<not> prefix ''nan'' (map to_lower (nat_text m))" "\<not> prefix ''inf'' (map to_lower (nat_text m))" for m
  proof -
    obtain c cs where t: "nat_text m = c # cs" "is_digit_in 10 c"
      using nat_text_digits[of m] by (cases "nat_text m") auto
    then show "\<not> prefix ''nan'' (map to_lower (nat_text m))" "\<not> prefix ''inf'' (map to_lower (nat_text m))"
      using digit_plain[OF t(2)] by auto
  qed
  show ?thesis
  proof (cases "n < 0")
    case True
    then obtain v where v: "f_round (of_int (- n)) = Fin v" "v \<noteq> 0" using f_round_int[of "- n"] assms by auto
    then have "f_round (of_int n) = Fin (- v)" using f_round_neg[of "of_int (- n)"] True by simp
    then show ?thesis using True v(2) nan
      by (simp add: stof_def to_string_def is_space_def sign_of_def strtof_nat_text negate_if_def)
  next
    case False
    show ?thesis
    proof (cases "n = 0")
      case True
      then show ?thesis using nan
        by (simp add: stof_def to_string_def nat_text_head strtof_nat_text negate_if_def f_round_0)
    next
      case pos: False
      then obtain v where "f_round (of_int n) = Fin v" "v \<noteq> 0" using f_round_int[of n] assms False by auto
      then show ?thesis using False nan
        by (simp add: stof_def to_string_def nat_text_head strtof_nat_text negate_if_def)
    qed
  qed
qed

end
