(* ===== verification/Thermal_Config.thy ===== *)
theory Thermal_Config
  imports Number_Text Sorted_Map "HOL-Library.List_Lexorder" "HOL-Library.Char_ord" "HOL-Library.Monad_Syntax"
begin

text \<open>
  The configuration of the thermal service (\<open>thermal/utils/config_parser.cpp\<close>): the sensors with their
  thresholds, the cooling devices, and the processors that may be taken offline.  The JSON library
  is a parameter, whose operations have no result when they throw; the names of the types of sensors
  and cooling devices, constants of the interface, are one too.  A parser returns the empty map for a
  document it rejects.
\<close>

section \<open>The JSON library\<close>

record 'j json_api =
  js_parse :: "string \<Rightarrow> 'j option"
  js_member :: "'j \<Rightarrow> string \<Rightarrow> 'j option"
  js_elem :: "'j \<Rightarrow> nat \<Rightarrow> 'j option"
  js_count :: "'j \<Rightarrow> nat"
  js_empty :: "'j \<Rightarrow> bool"
  js_isString :: "'j \<Rightarrow> bool"
  js_isBool :: "'j \<Rightarrow> bool"
  js_asString :: "'j \<Rightarrow> string option"
  js_asFloat :: "'j \<Rightarrow> float32 option"
  js_asBool :: "'j \<Rightarrow> bool"

definition kThrottlingSeverityCount :: nat where [simp]: "kThrottlingSeverityCount = 7"

record sensor_info =
  si_type :: string
  hot_thresholds :: "float32 list"
  cold_thresholds :: "float32 list"
  hot_hysteresis :: "float32 list"
  cold_hysteresis :: "float32 list"
  multiplier :: float32
  is_monitor :: bool

text \<open>The types of the interface in their order; a type is its name.\<close>

definition getTypeFromString :: "string list \<Rightarrow> string \<Rightarrow> string option" where
  "getTypeFromString types str = find (\<lambda>t. t = str) types"

definition getFloatFromValue :: "'j json_api \<Rightarrow> 'j \<Rightarrow> float32 option" where
  "getFloatFromValue js v =
     (if js_isString js v then do { s \<leftarrow> js_asString js v; stof s } else js_asFloat js v)"

section \<open>Lists of numbers\<close>

text \<open>
  The loops over the thresholds and the hysteresis values: the inner result is missing when a value is
  rejected, which ends the loop.  \<open>bad x bound\<close> compares a threshold with the one before it.
\<close>

fun read_thresholds ::
    "(float32 \<Rightarrow> float32 \<Rightarrow> bool) \<Rightarrow> 'j json_api \<Rightarrow> 'j \<Rightarrow> float32 \<Rightarrow> nat list \<Rightarrow> float32 list option option" where
  "read_thresholds bad js v bound [] = Some (Some [])"
| "read_thresholds bad js v bound (j # ks) =
     do { e \<leftarrow> js_elem js v j;
          x \<leftarrow> getFloatFromValue js e;
          if \<not> is_nan x \<and> bad x bound then Some None
          else map_option (map_option ((#) x)) (read_thresholds bad js v (if is_nan x then bound else x) ks) }"

fun read_hysteresis :: "'j json_api \<Rightarrow> 'j \<Rightarrow> nat list \<Rightarrow> float32 list option option" where
  "read_hysteresis js v [] = Some (Some [])"
| "read_hysteresis js v (j # ks) =
     do { e \<leftarrow> js_elem js v j;
          x \<leftarrow> getFloatFromValue js e;
          if is_nan x then Some None else map_option (map_option ((#) x)) (read_hysteresis js v ks) }"

text \<open>\<open>std::numeric_limits<float>::min()\<close> is the least positive normal number.\<close>

definition float_min :: float32 where "float_min = Fin (1 / 2 ^ 126)"
definition float_max :: float32 where "float_max = Fin ((2 ^ 24 - 1) * 2 ^ 104)"

definition hot_bad :: "float32 \<Rightarrow> float32 \<Rightarrow> bool" where "hot_bad x bound \<longleftrightarrow> f_lt x bound"
definition cold_bad :: "float32 \<Rightarrow> float32 \<Rightarrow> bool" where "cold_bad x bound \<longleftrightarrow> f_lt bound x"

abbreviation levels :: "nat list" where "levels \<equiv> [0..<kThrottlingSeverityCount]"

definition parse_hysteresis :: "'j json_api \<Rightarrow> 'j \<Rightarrow> float32 list option option" where
  "parse_hysteresis js v =
     (if js_count js v \<noteq> kThrottlingSeverityCount then Some (Some (replicate kThrottlingSeverityCount (Fin 0)))
      else read_hysteresis js v levels)"

definition parse_hot :: "'j json_api \<Rightarrow> 'j \<Rightarrow> float32 list option option" where
  "parse_hot js v =
     (if js_count js v \<noteq> kThrottlingSeverityCount then Some None
      else read_thresholds hot_bad js v float_min levels)"

definition parse_cold :: "'j json_api \<Rightarrow> 'j \<Rightarrow> float32 list option option" where
  "parse_cold js v =
     (if js_count js v \<noteq> kThrottlingSeverityCount then Some (Some (replicate kThrottlingSeverityCount NaN))
      else read_thresholds cold_bad js v float_max levels)"

section \<open>Sensors\<close>

text \<open>The next part of a sensor, unless an earlier one was rejected.\<close>

definition unless_rejected :: "'a option option \<Rightarrow> ('a \<Rightarrow> 'b option option) \<Rightarrow> 'b option option" where
  "unless_rejected r f = (case r of None \<Rightarrow> None | Some None \<Rightarrow> Some None | Some (Some a) \<Rightarrow> f a)"

definition parse_sensor :: "'j json_api \<Rightarrow> string list \<Rightarrow> 'j \<Rightarrow> sensor_info option option" where
  "parse_sensor js types s =
     do { t \<leftarrow> js_member js s ''Type'';
          str \<leftarrow> js_asString js t;
          unless_rejected (Some (getTypeFromString types str)) (\<lambda>ty.
            do { hot \<leftarrow> js_member js s ''HotThreshold'';
                 unless_rejected (parse_hot js hot) (\<lambda>ht.
            do { hh \<leftarrow> js_member js s ''HotHysteresis'';
                 unless_rejected (parse_hysteresis js hh) (\<lambda>hy.
            do { cold \<leftarrow> js_member js s ''ColdThreshold'';
                 unless_rejected (parse_cold js cold) (\<lambda>ct.
            do { ch \<leftarrow> js_member js s ''ColdHysteresis'';
                 unless_rejected (parse_hysteresis js ch) (\<lambda>cy.
            do { mv \<leftarrow> js_member js s ''Multiplier'';
                 m \<leftarrow> js_asFloat js mv;
                 mo \<leftarrow> js_member js s ''Monitor'';
                 Some (Some \<lparr>si_type = ty, hot_thresholds = ht, cold_thresholds = ct, hot_hysteresis = hy,
                   cold_hysteresis = cy, multiplier = m,
                   is_monitor = (if js_empty js mo \<or> \<not> js_isBool js mo then False else js_asBool js mo)\<rparr>) }) }) }) }) }) }"

fun parse_sensors :: "'j json_api \<Rightarrow> string list \<Rightarrow> 'j \<Rightarrow> nat list \<Rightarrow> string set \<Rightarrow>
    (string \<times> sensor_info) list \<Rightarrow> (string \<times> sensor_info) list option" where
  "parse_sensors js types v [] seen m = Some m"
| "parse_sensors js types v (i # is) seen m =
     do { s \<leftarrow> js_elem js v i;
          nv \<leftarrow> js_member js s ''Name'';
          nm \<leftarrow> js_asString js nv;
          if nm = [] \<or> nm \<in> seen then Some []
          else do { r \<leftarrow> parse_sensor js types s;
                    case r of None \<Rightarrow> Some []
                    | Some info \<Rightarrow> parse_sensors js types v is (insert nm seen) (map_assign nm info m) } }"

text \<open>\<open>file\<close> is what was read of the configuration file, if it can be read.\<close>

definition ParseSensorInfo :: "'j json_api \<Rightarrow> string list \<Rightarrow> string option \<Rightarrow> (string \<times> sensor_info) list option" where
  "ParseSensorInfo js types file =
     (case file of None \<Rightarrow> Some []
      | Some doc \<Rightarrow>
          (case js_parse js doc of None \<Rightarrow> Some []
           | Some tree \<Rightarrow>
               do { v \<leftarrow> js_member js tree ''Sensors'';
                    parse_sensors js types v [0..<js_count js v] {} [] }))"

section \<open>Cooling devices and processors\<close>

fun parse_cooling :: "'j json_api \<Rightarrow> string list \<Rightarrow> 'j \<Rightarrow> nat list \<Rightarrow> string set \<Rightarrow>
    (string \<times> string) list \<Rightarrow> (string \<times> string) list option" where
  "parse_cooling js types v [] seen m = Some m"
| "parse_cooling js types v (i # is) seen m =
     do { s \<leftarrow> js_elem js v i;
          nv \<leftarrow> js_member js s ''Name'';
          nm \<leftarrow> js_asString js nv;
          if nm = [] \<or> nm \<in> seen then Some []
          else do { t \<leftarrow> js_member js s ''Type'';
                    str \<leftarrow> js_asString js t;
                    case getTypeFromString types str of None \<Rightarrow> Some []
                    | Some ty \<Rightarrow> parse_cooling js types v is (insert nm seen) (map_assign nm ty m) } }"

definition ParseCoolingDevice :: "'j json_api \<Rightarrow> string list \<Rightarrow> string option \<Rightarrow> (string \<times> string) list option" where
  "ParseCoolingDevice js types file =
     (case file of None \<Rightarrow> Some []
      | Some doc \<Rightarrow>
          (case js_parse js doc of None \<Rightarrow> Some []
           | Some tree \<Rightarrow>
               do { v \<leftarrow> js_member js tree ''CoolingDevices'';
                    parse_cooling js types v [0..<js_count js v] {} [] }))"

fun parse_cpus :: "'j json_api \<Rightarrow> 'j \<Rightarrow> nat list \<Rightarrow> string list \<Rightarrow> string list option" where
  "parse_cpus js v [] cpus = Some cpus"
| "parse_cpus js v (j # ks) cpus =
     do { e \<leftarrow> js_elem js v j;
          c \<leftarrow> js_asString js e;
          if c = [] then Some [] else parse_cpus js v ks (cpus @ [c]) }"

definition ParseHotplugCPUInfo :: "'j json_api \<Rightarrow> string option \<Rightarrow> string list option" where
  "ParseHotplugCPUInfo js file =
     (case file of None \<Rightarrow> Some []
      | Some doc \<Rightarrow>
          (case js_parse js doc of None \<Rightarrow> Some []
           | Some tree \<Rightarrow>
               do { v \<leftarrow> js_member js tree ''HotplugCPUs'';
                    if js_count js v < 1 then Some [] else parse_cpus js v [0..<js_count js v] [] }))"

section \<open>What a parsed sensor is like\<close>

definition numbers :: "float32 list \<Rightarrow> float32 list" where
  "numbers xs = filter (\<lambda>x. \<not> is_nan x) xs"

definition sensor_ok :: "string list \<Rightarrow> sensor_info \<Rightarrow> bool" where
  "sensor_ok types i \<longleftrightarrow>
     si_type i \<in> set types \<and>
     length (hot_thresholds i) = kThrottlingSeverityCount \<and> length (cold_thresholds i) = kThrottlingSeverityCount \<and>
     length (hot_hysteresis i) = kThrottlingSeverityCount \<and> length (cold_hysteresis i) = kThrottlingSeverityCount \<and>
     sorted_wrt f_le (float_min # numbers (hot_thresholds i)) \<and>
     sorted_wrt (\<lambda>x y. f_le y x) (float_max # numbers (cold_thresholds i)) \<and>
     (\<forall>x\<in>set (hot_hysteresis i) \<union> set (cold_hysteresis i). \<not> is_nan x)"

lemma read_thresholds_spec:
  assumes "\<And>x y z. le x y \<Longrightarrow> le y z \<Longrightarrow> le x z"
    and "\<And>x y. \<not> is_nan x \<Longrightarrow> \<not> is_nan y \<Longrightarrow> \<not> bad x y \<Longrightarrow> le y x"
  shows "read_thresholds bad js v bound ks = Some (Some xs) \<Longrightarrow> \<not> is_nan bound \<Longrightarrow>
    length xs = length ks \<and> sorted_wrt le (bound # numbers xs)"
proof (induction ks arbitrary: bound xs)
  case (Cons j ks)
  from Cons.prems(1) obtain e x where e: "js_elem js v j = Some e" "getFloatFromValue js e = Some x"
    by (auto split: bind_splits)
  then obtain ys where x: "is_nan x \<or> \<not> bad x bound" "xs = x # ys"
    and r: "read_thresholds bad js v (if is_nan x then bound else x) ks = Some (Some ys)"
    using Cons.prems(1) by (cases "\<not> is_nan x \<and> bad x bound") auto
  have ih: "length ys = length ks \<and> sorted_wrt le ((if is_nan x then bound else x) # numbers ys)"
    by (rule Cons.IH[OF r]) (use Cons.prems(2) in simp)
  show ?case
  proof (cases "is_nan x")
    case True
    then show ?thesis using ih by (simp add: x numbers_def)
  next
    case False
    then have "le bound x" using x(1) assms(2) Cons.prems(2) by blast
    then show ?thesis using ih False assms(1)[of bound x] by (auto simp: x numbers_def)
  qed
qed (simp add: numbers_def)

lemma read_hysteresis_spec:
  "read_hysteresis js v ks = Some (Some xs) \<Longrightarrow> length xs = length ks \<and> (\<forall>x\<in>set xs. \<not> is_nan x)"
  by (induction js v ks arbitrary: xs rule: read_hysteresis.induct) (fastforce split: if_splits bind_splits)+

lemma parse_hysteresis_spec:
  "parse_hysteresis js v = Some (Some xs) \<Longrightarrow> length xs = kThrottlingSeverityCount \<and> (\<forall>x\<in>set xs. \<not> is_nan x)"
  using read_hysteresis_spec[of js v levels xs]
  by (auto simp: parse_hysteresis_def is_nan_def split: if_splits)

lemma parse_hot_spec:
  "parse_hot js v = Some (Some xs) \<Longrightarrow>
     length xs = kThrottlingSeverityCount \<and> sorted_wrt f_le (float_min # numbers xs)"
  using read_thresholds_spec[of f_le hot_bad js v float_min levels xs] f_le_trans
  by (auto simp: parse_hot_def hot_bad_def f_not_lt float_min_def is_nan_def split: if_splits)

lemma parse_cold_spec:
  "parse_cold js v = Some (Some xs) \<Longrightarrow>
     length xs = kThrottlingSeverityCount \<and> sorted_wrt (\<lambda>x y. f_le y x) (float_max # numbers xs)"
  using read_thresholds_spec[of "\<lambda>x y. f_le y x" cold_bad js v float_max levels xs] f_le_trans
  by (auto simp: parse_cold_def cold_bad_def f_not_lt float_max_def is_nan_def numbers_def split: if_splits)

lemma unless_rejected_Some:
  "unless_rejected r f = Some (Some b) \<longleftrightarrow> (\<exists>a. r = Some (Some a) \<and> f a = Some (Some b))"
  by (auto simp: unless_rejected_def split: option.split)

lemma getTypeFromString_in: "getTypeFromString types str = Some t \<Longrightarrow> t \<in> set types \<and> t = str"
  by (auto simp: getTypeFromString_def find_Some_iff)

lemma parse_sensor_ok: "parse_sensor js types s = Some (Some info) \<Longrightarrow> sensor_ok types info"
  by (auto simp: parse_sensor_def unless_rejected_Some sensor_ok_def bind_eq_Some_conv
      dest!: getTypeFromString_in parse_hot_spec parse_cold_spec parse_hysteresis_spec)

section \<open>What a parsed file is like\<close>

definition sensor_entry :: "'j json_api \<Rightarrow> string list \<Rightarrow> 'j \<Rightarrow> nat \<Rightarrow> (string \<times> sensor_info) option option" where
  "sensor_entry js types v i =
     do { s \<leftarrow> js_elem js v i;
          nv \<leftarrow> js_member js s ''Name'';
          nm \<leftarrow> js_asString js nv;
          if nm = [] then Some None else map_option (map_option (Pair nm)) (parse_sensor js types s) }"

definition assign_all :: "('k::linorder \<times> 'v) list \<Rightarrow> ('k \<times> 'v) list \<Rightarrow> ('k \<times> 'v) list" where
  "assign_all es m = fold (\<lambda>(k, v). map_assign k v) es m"

definition listed :: "'j json_api \<Rightarrow> string list \<Rightarrow> 'j \<Rightarrow> nat list \<Rightarrow> string set \<Rightarrow> (string \<times> sensor_info) list \<Rightarrow> bool" where
  "listed js types v is seen es \<longleftrightarrow>
     list_all2 (\<lambda>i e. sensor_entry js types v i = Some (Some e)) is es \<and>
     distinct (map fst es) \<and> fst ` set es \<inter> seen = {}"

lemma assign_all_spec:
  "sorted_map m \<Longrightarrow> distinct (map fst es) \<Longrightarrow> sorted_map (assign_all es m) \<and> map_of (assign_all es m) = map_of m ++ map_of es"
proof (induction es arbitrary: m)
  case (Cons e es)
  obtain k v where e: "e = (k, v)" by (cases e)
  then have "map_of es k = None" using Cons.prems(2) by (simp add: map_of_eq_None_iff)
  then show ?case
    using Cons.IH[OF sorted_map_assign[OF Cons.prems(1)], of k v] Cons.prems
    by (auto simp: assign_all_def e map_of_assign map_add_def fun_eq_iff split: option.split)
qed (simp add: assign_all_def)

lemma sensor_entry_Some:
  "sensor_entry js types v i = Some (Some (nm, info)) \<longleftrightarrow>
     (\<exists>s nv. js_elem js v i = Some s \<and> js_member js s ''Name'' = Some nv \<and> js_asString js nv = Some nm \<and>
        nm \<noteq> [] \<and> parse_sensor js types s = Some (Some info))"
  by (auto simp: sensor_entry_def bind_eq_Some_conv split: if_splits)

lemma parse_sensors_complete:
  "listed js types v is seen es \<Longrightarrow> parse_sensors js types v is seen m = Some (assign_all es m)"
proof (induction "is" arbitrary: es seen m)
  case (Cons i "is")
  then obtain nm info es' where es: "es = (nm, info) # es'" "sensor_entry js types v i = Some (Some (nm, info))"
    "listed js types v is (insert nm seen) es'" "nm \<notin> seen"
    by (auto simp: listed_def list_all2_Cons1 Cons_eq_map_conv)
  show ?case using es(2,4) Cons.IH[OF es(3)] by (auto simp: sensor_entry_Some es(1) assign_all_def)
qed (simp add: listed_def assign_all_def)

lemma parse_sensors_sound:
  "parse_sensors js types v is seen m = Some r \<Longrightarrow> r = [] \<or> (\<exists>es. listed js types v is seen es \<and> r = assign_all es m)"
proof (induction "is" arbitrary: seen m)
  case Nil
  then show ?case by (auto simp: listed_def assign_all_def intro!: exI[of _ "[]"])
next
  case (Cons i "is")
  then obtain s nv nm where e: "js_elem js v i = Some s" "js_member js s ''Name'' = Some nv" "js_asString js nv = Some nm"
    by (auto split: bind_splits)
  show ?case
  proof (cases "nm = [] \<or> nm \<in> seen \<or> parse_sensor js types s = Some None")
    case True
    then show ?thesis using Cons.prems e by (auto split: bind_splits if_splits)
  next
    case False
    then obtain info where i: "parse_sensor js types s = Some (Some info)"
      and r: "parse_sensors js types v is (insert nm seen) (map_assign nm info m) = Some r"
      using Cons.prems e by (auto split: bind_splits option.splits)
    have x: "sensor_entry js types v i = Some (Some (nm, info))" using e i False by (simp add: sensor_entry_def)
    from Cons.IH[OF r] show ?thesis
    proof
      assume "\<exists>es. listed js types v is (insert nm seen) es \<and> r = assign_all es (map_assign nm info m)"
      then obtain es where "listed js types v is (insert nm seen) es" "r = assign_all es (map_assign nm info m)" by blast
      then have "listed js types v (i # is) seen ((nm, info) # es) \<and> r = assign_all ((nm, info) # es) m"
        using x False by (auto simp: listed_def assign_all_def)
      then show ?thesis by blast
    qed simp
  qed
qed

lemma listed_ok: "listed js types v is seen es \<Longrightarrow> (nm, info) \<in> set es \<Longrightarrow> nm \<noteq> [] \<and> sensor_ok types info"
  by (auto simp: listed_def list_all2_conv_all_nth in_set_conv_nth sensor_entry_Some dest!: parse_sensor_ok) 

lemma parse_sensors_result:
  assumes "parse_sensors js types v is {} [] = Some m"
  shows "(m = [] \<or> (\<exists>es. listed js types v is {} es \<and> map_of m = map_of es)) \<and>
    sorted_map m \<and> (\<forall>(nm, info)\<in>set m. nm \<noteq> [] \<and> sensor_ok types info)"
proof -
  from parse_sensors_sound[OF assms] consider "m = []" | es where "listed js types v is {} es" "m = assign_all es []" by blast
  then show ?thesis
  proof cases
    case 2
    then have s: "sorted_map m" "map_of m = map_of es" using assign_all_spec[of "[]" es] by (simp_all add: listed_def)
    have "(nm, info) \<in> set es" if "(nm, info) \<in> set m" for nm info
      using that s(2) sorted_map_distinct[OF s(1)] by (metis map_of_SomeD map_of_eq_Some_iff)
    then show ?thesis using 2(1) s listed_ok[OF 2(1)] by blast
  qed simp
qed

lemma ParseSensorInfo_entries:
  assumes "ParseSensorInfo js types file = Some m"
  shows "sorted_map m" "(nm, info) \<in> set m \<Longrightarrow> nm \<noteq> [] \<and> sensor_ok types info"
proof -
  have "m = [] \<or> (\<exists>v is. parse_sensors js types v is {} [] = Some m)"
    using assms by (auto simp: ParseSensorInfo_def split: option.splits bind_splits)
  then have "sorted_map m \<and> (\<forall>(nm, info)\<in>set m. nm \<noteq> [] \<and> sensor_ok types info)"
    using parse_sensors_result by fastforce
  then show "sorted_map m" "(nm, info) \<in> set m \<Longrightarrow> nm \<noteq> [] \<and> sensor_ok types info" by blast+
qed

text \<open>
  C34: a configuration file is read completely or not at all: when every entry of the list of sensors
  is valid and the names differ, the map holds exactly these entries; otherwise, and if the JSON
  library throws nothing, it is empty.  Every sensor of the map has seven thresholds of each kind, the
  hot ones positive and not falling, the cold ones not rising, and no hysteresis that is not a number.
\<close>

theorem ParseSensorInfo_exact:
  assumes "js_parse js doc = Some tree" "js_member js tree ''Sensors'' = Some v"
  shows "(\<forall>es. listed js types v [0..<js_count js v] {} es \<longrightarrow>
      (\<exists>m. ParseSensorInfo js types (Some doc) = Some m \<and> sorted_map m \<and> map_of m = map_of es)) \<and>
    (\<forall>m. ParseSensorInfo js types (Some doc) = Some m \<longrightarrow>
      (m = [] \<or> (\<exists>es. listed js types v [0..<js_count js v] {} es \<and> map_of m = map_of es)) \<and>
      (\<forall>(nm, info)\<in>set m. nm \<noteq> [] \<and> sensor_ok types info))"
proof (intro conjI allI impI)
  fix es
  assume l: "listed js types v [0..<js_count js v] {} es"
  then show "\<exists>m. ParseSensorInfo js types (Some doc) = Some m \<and> sorted_map m \<and> map_of m = map_of es"
    using parse_sensors_complete[OF l, of "[]"] assign_all_spec[of "[]" es] assms
    by (auto simp: ParseSensorInfo_def listed_def)
qed (use parse_sensors_result assms in \<open>force simp: ParseSensorInfo_def\<close>)+

section \<open>Witnesses\<close>

datatype json = JNull | JBool bool | JNumber float32 | JString string | JArray "json list" | JObject "(string \<times> json) list"

definition json_demo :: "json \<Rightarrow> json json_api" where
  "json_demo doc = \<lparr>js_parse = (\<lambda>_. Some doc),
     js_member = (\<lambda>v k. case v of JObject m \<Rightarrow> Some (case map_of m k of None \<Rightarrow> JNull | Some x \<Rightarrow> x) | JNull \<Rightarrow> Some JNull | _ \<Rightarrow> None),
     js_elem = (\<lambda>v i. case v of JArray xs \<Rightarrow> Some (if i < length xs then xs ! i else JNull) | JNull \<Rightarrow> Some JNull | _ \<Rightarrow> None),
     js_count = (\<lambda>v. case v of JArray xs \<Rightarrow> length xs | JObject m \<Rightarrow> length m | _ \<Rightarrow> 0),
     js_empty = (\<lambda>v. case v of JNull \<Rightarrow> True | JArray xs \<Rightarrow> xs = [] | JObject m \<Rightarrow> m = [] | _ \<Rightarrow> False),
     js_isString = (\<lambda>v. case v of JString _ \<Rightarrow> True | _ \<Rightarrow> False), js_isBool = (\<lambda>v. case v of JBool _ \<Rightarrow> True | _ \<Rightarrow> False),
     js_asString = (\<lambda>v. case v of JString s \<Rightarrow> Some s | JNull \<Rightarrow> Some [] | _ \<Rightarrow> None),
     js_asFloat = (\<lambda>v. case v of JNumber x \<Rightarrow> Some x | JNull \<Rightarrow> Some (Fin 0) | _ \<Rightarrow> None),
     js_asBool = (\<lambda>v. v = JBool True)\<rparr>"

definition soc_json :: json where
  "soc_json = JObject [(''Name'', JString ''soc''), (''Type'', JString ''CPU''),
     (''HotThreshold'', JArray [JString ''NAN'', JNumber (Fin 75), JNumber (Fin 80), JNumber (Fin 85), JString ''NAN'',
        JString ''NAN'', JNumber (Fin 95)]),
     (''HotHysteresis'', JArray (JNumber (Fin 0) # replicate 6 (JNumber (Fin 2)))),
     (''Multiplier'', JNumber (Fin 1)), (''Monitor'', JBool True)]"

definition soc_info :: sensor_info where
  "soc_info = \<lparr>si_type = ''CPU'', hot_thresholds = [NaN, Fin 75, Fin 80, Fin 85, NaN, NaN, Fin 95],
     cold_thresholds = replicate 7 NaN, hot_hysteresis = Fin 0 # replicate 6 (Fin 2), cold_hysteresis = replicate 7 (Fin 0),
     multiplier = Fin 1, is_monitor = True\<rparr>"

definition config_json :: json where
  "config_json = JObject [(''Sensors'', JArray [soc_json])]"

lemma stof_nan: "stof ''NAN'' = Some NaN"
proof -
  have "map to_lower ''NAN'' = ''nan''" by code_simp
  then show ?thesis by (simp add: stof_def is_space_def sign_of_def)
qed

lemma soc_entry:
  "sensor_entry (json_demo doc) [''CPU'', ''SKIN''] (JArray [soc_json]) 0 = Some (Some (''soc'', soc_info))"
proof -
  have lv: "levels = [0, 1, 2, 3, 4, 5, 6]" by (simp add: upt_rec)
  have hot: "parse_hot (json_demo doc) (JArray [JString ''NAN'', JNumber (Fin 75), JNumber (Fin 80), JNumber (Fin 85),
      JString ''NAN'', JString ''NAN'', JNumber (Fin 95)]) = Some (Some [NaN, Fin 75, Fin 80, Fin 85, NaN, NaN, Fin 95])"
    unfolding parse_hot_def lv by (simp add: json_demo_def getFloatFromValue_def stof_nan hot_bad_def float_min_def is_nan_def)
  have hy: "parse_hysteresis (json_demo doc) (JArray (JNumber (Fin 0) # replicate 6 (JNumber (Fin 2)))) =
      Some (Some (Fin 0 # replicate 6 (Fin 2)))"
    unfolding parse_hysteresis_def lv by (simp add: json_demo_def getFloatFromValue_def is_nan_def numeral_eq_Suc)
  have none: "parse_hysteresis (json_demo doc) JNull = Some (Some (replicate 7 (Fin 0)))"
    "parse_cold (json_demo doc) JNull = Some (Some (replicate 7 NaN))"
    by (simp_all add: parse_hysteresis_def parse_cold_def json_demo_def)
  have m: "js_member (json_demo doc) (JObject m) k = Some (case map_of m k of None \<Rightarrow> JNull | Some x \<Rightarrow> x)" for m k
    by (simp add: json_demo_def)
  have v: "js_asString (json_demo doc) (JString t) = Some t" "js_asFloat (json_demo doc) (JNumber x) = Some x"
    "js_elem (json_demo doc) (JArray [j]) 0 = Some j" "js_empty (json_demo doc) (JBool b) = False"
    "js_isBool (json_demo doc) (JBool b) = True" "js_asBool (json_demo doc) (JBool b) = b" for t x j b
    by (simp_all add: json_demo_def)
  show ?thesis
    by (simp add: sensor_entry_def parse_sensor_def soc_json_def m v hot hy none unless_rejected_def
        getTypeFromString_def soc_info_def)
qed

theorem ParseSensorInfo_exact_witness:
  "\<exists>m. ParseSensorInfo (json_demo config_json) [''CPU'', ''SKIN''] (Some ''...'') = Some m \<and>
     map_of m = [''soc'' \<mapsto> soc_info]"
proof -
  have p: "js_parse (json_demo config_json) ''...'' = Some config_json"
    "js_member (json_demo config_json) config_json ''Sensors'' = Some (JArray [soc_json])"
    "js_count (json_demo config_json) (JArray [soc_json]) = 1"
    by (simp_all add: json_demo_def config_json_def)
  have "listed (json_demo config_json) [''CPU'', ''SKIN''] (JArray [soc_json]) [0..<1] {} [(''soc'', soc_info)]"
    by (simp add: listed_def soc_entry)
  with ParseSensorInfo_exact[OF p(1,2), of "[''CPU'', ''SKIN'']"] p(3) show ?thesis by fastforce
qed

end
