(* ===== verification/Thermal_Severity.thy ===== *)
theory Thermal_Severity
  imports Thermal_Config
begin

text \<open>
  \<open>ThermalHelper::getSeverityFromThresholds\<close> (\<open>thermal/thermal-helper.cpp\<close>): how severe a temperature is,
  with a hysteresis that keeps the severity from changing to and fro.  The locale \<open>hysteresis\<close> states
  what the hot and the cold side have in common.
\<close>

section \<open>Severities\<close>

datatype severity = SEV_NONE | LIGHT | MODERATE | SEVERE | CRITICAL | EMERGENCY | SHUTDOWN

primrec sev_num :: "severity \<Rightarrow> nat" where
  "sev_num SEV_NONE = 0"
| "sev_num LIGHT = 1"
| "sev_num MODERATE = 2"
| "sev_num SEVERE = 3"
| "sev_num CRITICAL = 4"
| "sev_num EMERGENCY = 5"
| "sev_num SHUTDOWN = 6"

lemma sev_num_inj: "sev_num s = sev_num t \<longleftrightarrow> s = t"
  by (cases s; cases t) simp_all

instantiation severity :: linorder
begin

definition less_severity :: "severity \<Rightarrow> severity \<Rightarrow> bool" where
  "less_severity s t \<longleftrightarrow> sev_num s < sev_num t"

definition less_eq_severity :: "severity \<Rightarrow> severity \<Rightarrow> bool" where
  "less_eq_severity s t \<longleftrightarrow> sev_num s \<le> sev_num t"

instance
  by standard (auto simp: less_severity_def less_eq_severity_def sev_num_inj)

end

text \<open>\<open>static_cast<ThrottlingSeverity>(i)\<close> of the levels that the loop visits, in its order.\<close>

definition scan_order :: "severity list" where
  "scan_order = [SHUTDOWN, EMERGENCY, CRITICAL, SEVERE, MODERATE, LIGHT]"

section \<open>The loop over the thresholds\<close>

fun severity_step ::
    "float32 list \<Rightarrow> float32 list \<Rightarrow> float32 list \<Rightarrow> float32 list \<Rightarrow> float32 \<Rightarrow> severity \<Rightarrow>
     severity \<times> severity \<times> severity \<times> severity \<Rightarrow> severity \<times> severity \<times> severity \<times> severity" where
  "severity_step hot cold hoth coldh v s (rh, rhh, rc, rch) =
     (let i = sev_num s
      in (if \<not> is_nan (hot ! i) \<and> f_le (hot ! i) v \<and> rh = SEV_NONE then s else rh,
          if \<not> is_nan (hot ! i) \<and> f_lt (f_sub (hot ! i) (hoth ! i)) v \<and> rhh = SEV_NONE then s else rhh,
          if \<not> is_nan (cold ! i) \<and> f_le v (cold ! i) \<and> rc = SEV_NONE then s else rc,
          if \<not> is_nan (cold ! i) \<and> f_lt v (f_add (cold ! i) (coldh ! i)) \<and> rch = SEV_NONE then s else rch))"

definition getSeverityFromThresholds ::
    "float32 list \<Rightarrow> float32 list \<Rightarrow> float32 list \<Rightarrow> float32 list \<Rightarrow> severity \<Rightarrow> severity \<Rightarrow> float32 \<Rightarrow>
     severity \<times> severity" where
  "getSeverityFromThresholds hot cold hoth coldh prev_hot prev_cold v =
     (case fold (severity_step hot cold hoth coldh v) scan_order (SEV_NONE, SEV_NONE, SEV_NONE, SEV_NONE) of
        (rh, rhh, rc, rch) \<Rightarrow> (if rh < prev_hot then rhh else rh, if rc < prev_cold then rch else rc))"

section \<open>Hysteresis\<close>

text \<open>The highest severity with a property, and what a side makes of the severity before.\<close>

definition top_level :: "(severity \<Rightarrow> bool) \<Rightarrow> severity" where
  "top_level P = (case find P scan_order of None \<Rightarrow> SEV_NONE | Some s \<Rightarrow> s)"

definition next_level :: "(severity \<Rightarrow> bool) \<Rightarrow> (severity \<Rightarrow> bool) \<Rightarrow> severity \<Rightarrow> severity" where
  "next_level reached held prev = (if top_level reached < prev then top_level held else top_level reached)"

lemma sev_none_least [simp]: "SEV_NONE \<le> s" "\<not> s < SEV_NONE"
  by (simp_all add: less_eq_severity_def less_severity_def)

lemma top_upper: "P s \<Longrightarrow> s \<le> top_level P"
  by (cases s) (auto simp: top_level_def scan_order_def less_eq_severity_def)

lemma top_cases: "top_level P = SEV_NONE \<or> P (top_level P)"
  by (auto simp: top_level_def split: option.split dest: find_Some_iff[THEN iffD1])

lemma top_mono: "(\<And>s. P s \<Longrightarrow> Q s) \<Longrightarrow> top_level P \<le> top_level Q"
  using top_cases[of P] top_upper[of Q] by auto

text \<open>Severities that a sensor with these levels can have.\<close>

definition defined_in :: "('c \<Rightarrow> severity \<Rightarrow> bool) \<Rightarrow> 'c \<Rightarrow> severity \<Rightarrow> bool" where
  "defined_in act c s \<longleftrightarrow> s = SEV_NONE \<or> act c s"

text \<open>
  What a side guarantees for good thresholds: a level that is reached is held; a level that is held has
  all the defined levels below it reached, so that the bands of two levels do not overlap; and both grow
  with the reading.
\<close>

locale hysteresis =
  fixes good :: "'c \<Rightarrow> bool"
    and le :: "'v \<Rightarrow> 'v \<Rightarrow> bool"
    and active :: "'c \<Rightarrow> severity \<Rightarrow> bool"
    and reached :: "'c \<Rightarrow> 'v \<Rightarrow> severity \<Rightarrow> bool"
    and held :: "'c \<Rightarrow> 'v \<Rightarrow> severity \<Rightarrow> bool"
  assumes held_active: "held c v s \<Longrightarrow> active c s"
    and reached_held: "good c \<Longrightarrow> reached c v s \<Longrightarrow> held c v s"
    and separated: "good c \<Longrightarrow> held c v t \<Longrightarrow> active c s \<Longrightarrow> s < t \<Longrightarrow> reached c v s"
    and reached_mono: "le v w \<Longrightarrow> reached c v s \<Longrightarrow> reached c w s"
    and held_mono: "le v w \<Longrightarrow> held c v s \<Longrightarrow> held c w s"
begin

lemma reached_below_held: "good c \<Longrightarrow> top_level (reached c v) \<le> top_level (held c v)"
  by (rule top_mono) (rule reached_held)

lemma next_defined: "good c \<Longrightarrow> defined_in active c (next_level (reached c v) (held c v) prev)"
  using top_cases[of "reached c v"] top_cases[of "held c v"] held_active reached_held
  unfolding next_level_def defined_in_def by metis

lemma clamps:
  assumes "good c" "defined_in active c prev"
  shows "next_level (reached c v) (held c v) prev = max (top_level (reached c v)) (min prev (top_level (held c v)))"
proof (cases "top_level (reached c v) < prev")
  case True
  have "top_level (held c v) \<le> prev"
  proof (rule ccontr)
    assume "\<not> top_level (held c v) \<le> prev"
    then have l: "prev < top_level (held c v)" by simp
    then have "held c v (top_level (held c v))" using top_cases[of "held c v"] by (metis sev_none_least(2))
    moreover have "active c prev" using assms(2) True by (auto simp: defined_in_def)
    ultimately have "reached c v prev" using separated[OF assms(1)] l by blast
    then show False using top_upper[of "reached c v" prev] True by simp
  qed
  then show ?thesis using True reached_below_held[OF assms(1), of v] by (simp add: next_level_def)
next
  case False
  then have "prev \<le> top_level (reached c v)" "prev \<le> top_level (held c v)"
    using reached_below_held[OF assms(1), of v] by auto
  then show ?thesis using False by (simp add: next_level_def)
qed

lemma next_mono:
  assumes "good c" "defined_in active c prev" "le v w"
  shows "next_level (reached c v) (held c v) prev \<le> next_level (reached c w) (held c w) prev"
  unfolding clamps[OF assms(1,2)]
  by (intro max.mono min.mono top_mono order_refl) (use assms(3) reached_mono held_mono in blast)+

lemma next_settled:
  assumes "good c" "defined_in active c prev" "s = next_level (reached c v) (held c v) prev"
  shows "next_level (reached c v) (held c v) s = s"
proof -
  have "defined_in active c s" using next_defined[OF assms(1)] assms(3) by simp
  then show ?thesis
    using clamps[OF assms(1,2), of v] clamps[OF assms(1), of s v] reached_below_held[OF assms(1), of v] assms(3)
    by (auto simp: max_def min_def split: if_splits)
qed

end

section \<open>The hot and the cold side\<close>

type_synonym band = "float32 list \<times> float32 list"

definition level_active :: "band \<Rightarrow> severity \<Rightarrow> bool" where
  "level_active c s \<longleftrightarrow> s \<noteq> SEV_NONE \<and> \<not> is_nan (fst c ! sev_num s)"

definition hot_reached :: "band \<Rightarrow> float32 \<Rightarrow> severity \<Rightarrow> bool" where
  "hot_reached c v s \<longleftrightarrow> level_active c s \<and> f_le (fst c ! sev_num s) v"

definition hot_limit :: "band \<Rightarrow> severity \<Rightarrow> float32" where
  "hot_limit c s = f_sub (fst c ! sev_num s) (snd c ! sev_num s)"

definition hot_held :: "band \<Rightarrow> float32 \<Rightarrow> severity \<Rightarrow> bool" where
  "hot_held c v s \<longleftrightarrow> level_active c s \<and> f_lt (hot_limit c s) v"

text \<open>The hysteresis has an effect, and the band of a level starts at or above the level below.\<close>

definition hot_good :: "band \<Rightarrow> bool" where
  "hot_good c \<longleftrightarrow>
     (\<forall>s\<in>set scan_order. level_active c s \<longrightarrow> f_lt (hot_limit c s) (fst c ! sev_num s) \<and>
        (\<forall>t\<in>set scan_order. s < t \<and> level_active c t \<longrightarrow> f_le (fst c ! sev_num s) (hot_limit c t)))"

definition cold_reached :: "band \<Rightarrow> float32 \<Rightarrow> severity \<Rightarrow> bool" where
  "cold_reached c v s \<longleftrightarrow> level_active c s \<and> f_le v (fst c ! sev_num s)"

definition cold_limit :: "band \<Rightarrow> severity \<Rightarrow> float32" where
  "cold_limit c s = f_add (fst c ! sev_num s) (snd c ! sev_num s)"

definition cold_held :: "band \<Rightarrow> float32 \<Rightarrow> severity \<Rightarrow> bool" where
  "cold_held c v s \<longleftrightarrow> level_active c s \<and> f_lt v (cold_limit c s)"

definition cold_good :: "band \<Rightarrow> bool" where
  "cold_good c \<longleftrightarrow>
     (\<forall>s\<in>set scan_order. level_active c s \<longrightarrow> f_lt (fst c ! sev_num s) (cold_limit c s) \<and>
        (\<forall>t\<in>set scan_order. s < t \<and> level_active c t \<longrightarrow> f_le (cold_limit c t) (fst c ! sev_num s)))"

lemma scan_order_all: "s \<noteq> SEV_NONE \<Longrightarrow> s \<in> set scan_order"
  by (cases s) (simp_all add: scan_order_def)

lemma active_scanned: "level_active c s \<Longrightarrow> s \<in> set scan_order"
  by (simp add: level_active_def scan_order_all)

lemma hot_good_limits:
  assumes "hot_good c" "level_active c s"
  shows "f_lt (hot_limit c s) (fst c ! sev_num s)"
    and "level_active c t \<Longrightarrow> s < t \<Longrightarrow> f_le (fst c ! sev_num s) (hot_limit c t)"
  using assms active_scanned unfolding hot_good_def by blast+

lemma cold_good_limits:
  assumes "cold_good c" "level_active c s"
  shows "f_lt (fst c ! sev_num s) (cold_limit c s)"
    and "level_active c t \<Longrightarrow> s < t \<Longrightarrow> f_le (cold_limit c t) (fst c ! sev_num s)"
  using assms active_scanned unfolding cold_good_def by blast+

interpretation hot: hysteresis hot_good f_le level_active hot_reached hot_held
proof unfold_locales
  show "hot_good c \<Longrightarrow> hot_reached c v s \<Longrightarrow> hot_held c v s" for c v s
    by (auto simp: hot_reached_def hot_held_def dest: hot_good_limits(1) intro: f_lt_le_trans)
  show "hot_good c \<Longrightarrow> hot_held c v t \<Longrightarrow> level_active c s \<Longrightarrow> s < t \<Longrightarrow> hot_reached c v s" for c v s t
    by (auto simp: hot_reached_def hot_held_def dest: hot_good_limits(2) intro: f_lt_le f_le_lt_trans)
qed (auto simp: hot_reached_def hot_held_def intro: f_le_trans f_lt_le_trans)

interpretation cold: hysteresis cold_good "\<lambda>v w. f_le w v" level_active cold_reached cold_held
proof unfold_locales
  show "cold_good c \<Longrightarrow> cold_reached c v s \<Longrightarrow> cold_held c v s" for c v s
    by (auto simp: cold_reached_def cold_held_def dest: cold_good_limits(1) intro: f_le_lt_trans)
  show "cold_good c \<Longrightarrow> cold_held c v t \<Longrightarrow> level_active c s \<Longrightarrow> s < t \<Longrightarrow> cold_reached c v s" for c v s t
    by (auto simp: cold_reached_def cold_held_def dest: cold_good_limits(2) intro: f_lt_le f_lt_le_trans)
qed (auto simp: cold_reached_def cold_held_def intro: f_le_trans f_le_lt_trans)

section \<open>What the loop computes\<close>

definition keep_first :: "(severity \<Rightarrow> bool) \<Rightarrow> severity \<Rightarrow> severity \<Rightarrow> severity" where
  "keep_first P s r = (if P s \<and> r = SEV_NONE then s else r)"

lemma keep_first_fold:
  "SEV_NONE \<notin> set ss \<Longrightarrow> fold (keep_first P) ss r =
     (if r = SEV_NONE then case find P ss of None \<Rightarrow> SEV_NONE | Some s \<Rightarrow> s else r)"
  by (induction ss arbitrary: r) (auto simp: keep_first_def)

lemma keep_first_top: "fold (keep_first P) scan_order SEV_NONE = top_level P"
  by (subst keep_first_fold) (simp_all add: top_level_def scan_order_def)

lemma severity_step_eq:
  "SEV_NONE \<noteq> s \<Longrightarrow> severity_step hot cold hoth coldh v s (rh, rhh, rc, rch) =
     (keep_first (hot_reached (hot, hoth) v) s rh, keep_first (hot_held (hot, hoth) v) s rhh,
      keep_first (cold_reached (cold, coldh) v) s rc, keep_first (cold_held (cold, coldh) v) s rch)"
  by (simp add: keep_first_def hot_reached_def hot_held_def cold_reached_def cold_held_def level_active_def
      hot_limit_def cold_limit_def Let_def eq_commute[of SEV_NONE] split del: if_split)

lemma severity_fold:
  "SEV_NONE \<notin> set ss \<Longrightarrow> fold (severity_step hot cold hoth coldh v) ss (rh, rhh, rc, rch) =
     (fold (keep_first (hot_reached (hot, hoth) v)) ss rh, fold (keep_first (hot_held (hot, hoth) v)) ss rhh,
      fold (keep_first (cold_reached (cold, coldh) v)) ss rc, fold (keep_first (cold_held (cold, coldh) v)) ss rch)"
  by (induction ss arbitrary: rh rhh rc rch) (simp_all add: severity_step_eq del: severity_step.simps)

lemma getSeverity_eq:
  "getSeverityFromThresholds hot cold hoth coldh ph pc v =
     (next_level (hot_reached (hot, hoth) v) (hot_held (hot, hoth) v) ph,
      next_level (cold_reached (cold, coldh) v) (cold_held (cold, coldh) v) pc)"
proof -
  have "SEV_NONE \<notin> set scan_order" by (simp add: scan_order_def)
  then show ?thesis
    by (simp add: getSeverityFromThresholds_def severity_fold keep_first_top next_level_def)
qed

section \<open>Properties\<close>

text \<open>
  C14: the hysteresis clamps: let the hysteresis of every level in use have an effect (be positive, and
  not vanish in the rounding), let the bands of two levels not overlap, and let the severity before be
  none or that of a level in use.  Then the severity of a reading is the one before, moved up to the
  highest threshold that the reading has reached or down to the highest one whose band it has not left,
  so that a reading between the two changes nothing; the same on the cold side.  The same reading again
  changes nothing either.
\<close>

theorem severity_clamps:
  assumes "hot_good (hot, hoth)" "cold_good (cold, coldh)"
    and "defined_in level_active (hot, hoth) ph" "defined_in level_active (cold, coldh) pc"
    and "getSeverityFromThresholds hot cold hoth coldh ph pc v = (h, c)"
  shows "h = max (top_level (hot_reached (hot, hoth) v)) (min ph (top_level (hot_held (hot, hoth) v))) \<and>
    c = max (top_level (cold_reached (cold, coldh) v)) (min pc (top_level (cold_held (cold, coldh) v))) \<and>
    getSeverityFromThresholds hot cold hoth coldh h c v = (h, c)"
proof -
  have h: "h = next_level (hot_reached (hot, hoth) v) (hot_held (hot, hoth) v) ph"
    and c: "c = next_level (cold_reached (cold, coldh) v) (cold_held (cold, coldh) v) pc"
    using assms(5) by (simp_all add: getSeverity_eq)
  show ?thesis
    using hot.clamps[OF assms(1,3), of v] cold.clamps[OF assms(2,4), of v]
      hot.next_settled[OF assms(1,3) h] cold.next_settled[OF assms(2,4) c] h c
    by (simp add: getSeverity_eq)
qed

text \<open>Small whole temperatures are numbers of the format.\<close>

lemma f_round_7bit:
  assumes "64 \<le> n" "n < 128"
  shows "f_round (of_int n) = Fin (of_int n)"
proof -
  have "(64 :: rat) \<le> of_int n" "of_int n < (128 :: rat)" using assms by simp_all
  then have "exponent (of_int n) = Some 132" by (intro exponent_unique) (simp_all add: ulp_def)
  then show ?thesis by (rule f_round_exact[where n = "n * 2 ^ 17"]) (simp add: ulp_def)
qed

text \<open>
  Without a hysteresis, which is the default, the clamping fails at a threshold: a reading that falls
  exactly to the threshold of a level is given a severity below that level.
\<close>

lemma severity_below_threshold:
  fixes cold coldh :: "float32 list"
  defines "hot \<equiv> [NaN, Fin 75, Fin 80, Fin 85, NaN, NaN, Fin 95]"
  shows "fst (getSeverityFromThresholds hot cold (replicate 7 (Fin 0)) coldh SEVERE pc (Fin 80)) = LIGHT"
    and "hot_reached (hot, replicate 7 (Fin 0)) (Fin 80) MODERATE"
proof -
  have r: "f_round 75 = Fin 75" "f_round 80 = Fin 80" "f_round 85 = Fin 85" "f_round 95 = Fin 95"
    using f_round_7bit[of 75] f_round_7bit[of 80] f_round_7bit[of 85] f_round_7bit[of 95] by simp_all
  show "hot_reached (hot, replicate 7 (Fin 0)) (Fin 80) MODERATE"
    by (simp add: hot_reached_def level_active_def is_nan_def hot_def)
  show "fst (getSeverityFromThresholds hot cold (replicate 7 (Fin 0)) coldh SEVERE pc (Fin 80)) = LIGHT"
    by (simp add: getSeverity_eq next_level_def top_level_def scan_order_def hot_reached_def hot_held_def
        level_active_def is_nan_def hot_limit_def f_sub_def r hot_def less_severity_def)
qed

section \<open>Witnesses\<close>

abbreviation soc_hot :: "float32 list" where "soc_hot \<equiv> [NaN, Fin 75, Fin 80, Fin 85, NaN, NaN, Fin 95]"
abbreviation soc_hyst :: "float32 list" where "soc_hyst \<equiv> Fin 0 # replicate 6 (Fin 2)"

lemma soc_limits: "f_round 73 = Fin 73" "f_round 78 = Fin 78" "f_round 83 = Fin 83" "f_round 93 = Fin 93"
  using f_round_7bit[of 73] f_round_7bit[of 78] f_round_7bit[of 83] f_round_7bit[of 93] by simp_all

lemma soc_active: "level_active (soc_hot, h) s \<longleftrightarrow> s \<in> {LIGHT, MODERATE, SEVERE, SHUTDOWN}"
  by (cases s) (simp_all add: level_active_def is_nan_def)

lemma soc_limit: "hot_limit (soc_hot, soc_hyst) LIGHT = Fin 73" "hot_limit (soc_hot, soc_hyst) MODERATE = Fin 78"
  "hot_limit (soc_hot, soc_hyst) SEVERE = Fin 83" "hot_limit (soc_hot, soc_hyst) SHUTDOWN = Fin 93"
  by (simp_all add: hot_limit_def f_sub_def soc_limits)

lemma soc_good: "hot_good (soc_hot, soc_hyst)"
proof -
  have "level_active (soc_hot, soc_hyst) s \<Longrightarrow> f_lt (hot_limit (soc_hot, soc_hyst) s) (soc_hot ! sev_num s)" for s
    unfolding soc_active using soc_limit by auto
  moreover have "level_active (soc_hot, soc_hyst) s \<Longrightarrow> level_active (soc_hot, soc_hyst) t \<Longrightarrow> s < t \<Longrightarrow>
      f_le (soc_hot ! sev_num s) (hot_limit (soc_hot, soc_hyst) t)" for s t
    unfolding soc_active using soc_limit by (auto simp: less_severity_def)
  ultimately show ?thesis by (simp add: hot_good_def)
qed

lemma no_cold_active: "\<not> level_active (replicate 7 NaN, h) s"
  by (cases s) (simp_all add: level_active_def is_nan_def)

lemma no_cold_good: "cold_good (replicate 7 NaN, h)"
  by (simp add: cold_good_def no_cold_active)

lemma soc_tops: "top_level (hot_reached (soc_hot, soc_hyst) (Fin 84)) = MODERATE"
  "top_level (hot_held (soc_hot, soc_hyst) (Fin 84)) = SEVERE"
  by (simp_all add: top_level_def scan_order_def hot_reached_def hot_held_def soc_active soc_limit del: replicate.simps)

lemma no_cold_tops: "top_level (cold_held (replicate 7 NaN, h) v) = SEV_NONE"
  "top_level (cold_reached (replicate 7 NaN, h) v) = SEV_NONE"
  by (simp_all add: top_level_def scan_order_def cold_held_def cold_reached_def no_cold_active)

lemma soc_defined: "defined_in level_active (soc_hot, soc_hyst) SEVERE" "defined_in level_active (replicate 7 NaN, h) SEV_NONE"
  by (simp_all add: defined_in_def soc_active)

theorem severity_clamps_witness:
  "getSeverityFromThresholds soc_hot (replicate 7 NaN) soc_hyst (replicate 7 (Fin 0)) SEVERE SEV_NONE (Fin 84) =
     (SEVERE, SEV_NONE)"
proof -
  let ?r = "getSeverityFromThresholds soc_hot (replicate 7 NaN) soc_hyst (replicate 7 (Fin 0)) SEVERE SEV_NONE (Fin 84)"
  obtain a b where r: "?r = (a, b)" by (cases ?r)
  from severity_clamps[OF soc_good no_cold_good soc_defined r] show ?thesis
    unfolding soc_tops no_cold_tops by (simp add: r max_def min_def less_eq_severity_def)
qed

end
