(* ===== verification/Thermal_Helper.thy ===== *)
theory Thermal_Helper
  imports Thermal_Severity
begin

text \<open>
  \<open>ThermalHelper\<close> (\<open>thermal/thermal-helper.cpp\<close>) and \<open>ThermalFiles\<close> (\<open>thermal/utils/thermal_files.cpp\<close>):
  the tables of sensors and cooling devices, what is read of the files of the kernel, and the status of
  the sensors that the watcher keeps up to date.  \<open>rd\<close> is what the files hold when an operation runs; an
  exception that nobody catches, and a read past the end of a vector, have no result.  Sysfs writes are
  logged as pairs of path and text.
\<close>

section \<open>Files\<close>

type_synonym thermal_files = "(string \<times> string) list"
type_synonym file_read = "string \<Rightarrow> string option"

definition getThermalFilePath :: "string \<Rightarrow> thermal_files \<Rightarrow> string" where
  "getThermalFilePath n fs = (case map_of fs n of None \<Rightarrow> [] | Some p \<Rightarrow> p)"

definition addThermalFile :: "string \<Rightarrow> string \<Rightarrow> thermal_files \<Rightarrow> bool \<times> thermal_files" where
  "addThermalFile n path fs = (if map_of fs n = None then (True, fs @ [(n, path)]) else (False, fs))"

definition readThermalFile :: "file_read \<Rightarrow> string \<Rightarrow> thermal_files \<Rightarrow> string option" where
  "readThermalFile rd n fs =
     (let path = getThermalFilePath n fs
      in if path = [] then None else map_option Trim (rd path))"

section \<open>The helper\<close>

record sensor_status =
  st_severity :: severity
  prev_hot_severity :: severity
  prev_cold_severity :: severity

record temperature =
  t_type :: string
  t_name :: string
  t_value :: float32
  throttlingStatus :: severity

record temperature_threshold =
  tt_type :: string
  tt_name :: string
  hotThrottlingThresholds :: "float32 list"
  coldThrottlingThresholds :: "float32 list"

record cooling_device =
  cd_type :: string
  cd_name :: string
  cd_value :: int

record thermal_helper =
  thermal_sensors :: thermal_files
  cooling_devices :: thermal_files
  is_initialized :: bool
  cooling_device_info_map :: "(string \<times> string) list"
  sensor_info_map :: "(string \<times> sensor_info) list"
  sensor_status_map :: "(string \<times> sensor_status) list"

section \<open>Reading\<close>

definition readCoolingDevice :: "file_read \<Rightarrow> string \<Rightarrow> thermal_helper \<Rightarrow> cooling_device option option" where
  "readCoolingDevice rd n h =
     (case readThermalFile rd n (cooling_devices h) of None \<Rightarrow> Some None
      | Some tx \<Rightarrow>
          do { ty \<leftarrow> map_of (cooling_device_info_map h) n;
               v \<leftarrow> stoi tx;
               Some (Some \<lparr>cd_type = ty, cd_name = n, cd_value = v\<rparr>) })"

definition sensor_severity :: "sensor_info \<Rightarrow> sensor_status \<Rightarrow> float32 \<Rightarrow> severity \<times> severity" where
  "sensor_severity i s v =
     getSeverityFromThresholds (hot_thresholds i) (cold_thresholds i) (hot_hysteresis i) (cold_hysteresis i)
       (prev_hot_severity s) (prev_cold_severity s) v"

definition readTemperature ::
    "file_read \<Rightarrow> string \<Rightarrow> thermal_helper \<Rightarrow> (temperature \<times> severity \<times> severity) option option" where
  "readTemperature rd n h =
     (case readThermalFile rd n (thermal_sensors h) of None \<Rightarrow> Some None
      | Some tx \<Rightarrow>
          if tx = [] then Some None
          else
            do { i \<leftarrow> map_of (sensor_info_map h) n;
                 x \<leftarrow> stof tx;
                 let v = f_mul x (multiplier i);
                 status \<leftarrow> (if is_monitor i
                            then do { s \<leftarrow> map_of (sensor_status_map h) n; Some (sensor_severity i s v) }
                            else Some (SEV_NONE, SEV_NONE));
                 Some (Some (\<lparr>t_type = si_type i, t_name = n, t_value = v,
                        throttlingStatus = (if fst status > snd status then fst status else snd status)\<rparr>, status)) })"

definition readTemperatureThreshold :: "string \<Rightarrow> thermal_helper \<Rightarrow> temperature_threshold option" where
  "readTemperatureThreshold n h =
     (case map_of (sensor_info_map h) n of None \<Rightarrow> None
      | Some i \<Rightarrow> Some \<lparr>tt_type = si_type i, tt_name = n, hotThrottlingThresholds = hot_thresholds i,
                         coldThrottlingThresholds = cold_thresholds i\<rparr>)"

section \<open>Lists of readings\<close>

fun fill_temps :: "file_read \<Rightarrow> bool \<Rightarrow> bool \<Rightarrow> string \<Rightarrow> thermal_helper \<Rightarrow> (string \<times> sensor_info) list \<Rightarrow>
    temperature list option" where
  "fill_temps rd filterType filterCallback ty h [] = Some []"
| "fill_temps rd filterType filterCallback ty h ((n, i) # es) =
     (if filterType \<and> si_type i \<noteq> ty \<or> filterCallback then fill_temps rd filterType filterCallback ty h es
      else do { r \<leftarrow> readTemperature rd n h;
                ts \<leftarrow> fill_temps rd filterType filterCallback ty h es;
                Some (case r of None \<Rightarrow> ts | Some (t, _) \<Rightarrow> t # ts) })"

definition fillCurrentTemperatures ::
    "file_read \<Rightarrow> bool \<Rightarrow> bool \<Rightarrow> string \<Rightarrow> thermal_helper \<Rightarrow> (bool \<times> temperature list) option" where
  "fillCurrentTemperatures rd filterType filterCallback ty h =
     do { ts \<leftarrow> fill_temps rd filterType filterCallback ty h (sensor_info_map h); Some (ts \<noteq> [], ts) }"

text \<open>The next two leave the result of the caller as it is when a reading fails.\<close>

fun fill_thresholds :: "bool \<Rightarrow> string \<Rightarrow> thermal_helper \<Rightarrow> (string \<times> sensor_info) list \<Rightarrow>
    temperature_threshold list option" where
  "fill_thresholds filterType ty h [] = Some []"
| "fill_thresholds filterType ty h ((n, i) # es) =
     (if filterType \<and> si_type i \<noteq> ty then fill_thresholds filterType ty h es
      else do { t \<leftarrow> readTemperatureThreshold n h; ts \<leftarrow> fill_thresholds filterType ty h es; Some (t # ts) })"

definition fillTemperatureThresholds ::
    "bool \<Rightarrow> string \<Rightarrow> thermal_helper \<Rightarrow> temperature_threshold list \<Rightarrow> bool \<times> temperature_threshold list" where
  "fillTemperatureThresholds filterType ty h old =
     (case fill_thresholds filterType ty h (sensor_info_map h) of
        None \<Rightarrow> (False, old) | Some ts \<Rightarrow> (ts \<noteq> [], ts))"

fun fill_cooling :: "file_read \<Rightarrow> bool \<Rightarrow> string \<Rightarrow> thermal_helper \<Rightarrow> (string \<times> string) list \<Rightarrow>
    cooling_device list option option" where
  "fill_cooling rd filterType ty h [] = Some (Some [])"
| "fill_cooling rd filterType ty h ((n, t) # es) =
     (if filterType \<and> t \<noteq> ty then fill_cooling rd filterType ty h es
      else unless_rejected (readCoolingDevice rd n h) (\<lambda>d.
             unless_rejected (fill_cooling rd filterType ty h es) (\<lambda>ds. Some (Some (d # ds)))))"

definition fillCurrentCoolingDevices ::
    "file_read \<Rightarrow> bool \<Rightarrow> string \<Rightarrow> thermal_helper \<Rightarrow> cooling_device list \<Rightarrow> (bool \<times> cooling_device list) option" where
  "fillCurrentCoolingDevices rd filterType ty h old =
     do { r \<leftarrow> fill_cooling rd filterType ty h (cooling_device_info_map h);
          Some (case r of None \<Rightarrow> (False, old) | Some ds \<Rightarrow> (ds \<noteq> [], ds)) }"

section \<open>The watcher's callback\<close>

definition in_scope :: "string set \<Rightarrow> string \<Rightarrow> bool" where
  "in_scope uevents n \<longleftrightarrow> uevents = {} \<or> n \<in> uevents"

definition set_status :: "string \<Rightarrow> temperature \<Rightarrow> severity \<times> severity \<Rightarrow> thermal_helper \<Rightarrow> thermal_helper" where
  "set_status n t st h =
     h\<lparr>sensor_status_map := map_replace n \<lparr>st_severity = throttlingStatus t, prev_hot_severity = fst st,
         prev_cold_severity = snd st\<rparr> (sensor_status_map h)\<rparr>"

definition watch_sensor ::
    "file_read \<Rightarrow> string set \<Rightarrow> string \<Rightarrow> bool \<times> temperature list \<times> thermal_helper \<Rightarrow>
     (bool \<times> temperature list \<times> thermal_helper) option" where
  "watch_sensor rd uevents n w =
     (case w of (triggered, temps, h) \<Rightarrow>
        do { status \<leftarrow> map_of (sensor_status_map h) n;
             info \<leftarrow> map_of (sensor_info_map h) n;
             if \<not> is_monitor info then Some w
             else if \<not> in_scope uevents n then Some (triggered \<or> st_severity status \<noteq> SEV_NONE, temps, h)
             else do { r \<leftarrow> readTemperature rd n h;
                       case r of None \<Rightarrow> Some w
                       | Some (t, st) \<Rightarrow>
                           (case readTemperatureThreshold n h of None \<Rightarrow> Some w
                            | Some _ \<Rightarrow> Some (True, temps @ [t], set_status n t st h)) } })"

fun watch_sensors ::
    "file_read \<Rightarrow> string set \<Rightarrow> string list \<Rightarrow> bool \<times> temperature list \<times> thermal_helper \<Rightarrow>
     (bool \<times> temperature list \<times> thermal_helper) option" where
  "watch_sensors rd uevents [] w = Some w"
| "watch_sensors rd uevents (n # ns) w = do { w' \<leftarrow> watch_sensor rd uevents n w; watch_sensors rd uevents ns w' }"

text \<open>The second result is what the listener is called with, when it is not empty.\<close>

definition thermalWatcherCallbackFunc ::
    "file_read \<Rightarrow> string set \<Rightarrow> thermal_helper \<Rightarrow> (bool \<times> temperature list \<times> thermal_helper) option" where
  "thermalWatcherCallbackFunc rd uevents h =
     watch_sensors rd uevents (map fst (sensor_status_map h)) (False, [], h)"

section \<open>What a round of the watcher does\<close>

definition monitored :: "thermal_helper \<Rightarrow> string \<Rightarrow> bool" where
  "monitored h n \<longleftrightarrow> (case map_of (sensor_info_map h) n of None \<Rightarrow> False | Some i \<Rightarrow> is_monitor i)"

definition fresh :: "file_read \<Rightarrow> string set \<Rightarrow> thermal_helper \<Rightarrow> string \<Rightarrow> (temperature \<times> severity \<times> severity) option" where
  "fresh rd uevents h n =
     (if monitored h n \<and> in_scope uevents n
      then (case readTemperature rd n h of None \<Rightarrow> None | Some r \<Rightarrow> r) else None)"

definition status_of :: "temperature \<times> severity \<times> severity \<Rightarrow> sensor_status" where
  "status_of r = \<lparr>st_severity = throttlingStatus (fst r), prev_hot_severity = fst (snd r), prev_cold_severity = snd (snd r)\<rparr>"

definition still_hot :: "string set \<Rightarrow> thermal_helper \<Rightarrow> string \<Rightarrow> bool" where
  "still_hot uevents h n \<longleftrightarrow> monitored h n \<and> \<not> in_scope uevents n \<and>
     (case map_of (sensor_status_map h) n of None \<Rightarrow> False | Some s \<Rightarrow> st_severity s \<noteq> SEV_NONE)"

definition same_sensors :: "thermal_helper \<Rightarrow> thermal_helper \<Rightarrow> bool" where
  "same_sensors h h' \<longleftrightarrow>
     thermal_sensors h' = thermal_sensors h \<and> cooling_devices h' = cooling_devices h \<and>
     is_initialized h' = is_initialized h \<and> cooling_device_info_map h' = cooling_device_info_map h \<and>
     sensor_info_map h' = sensor_info_map h \<and> map fst (sensor_status_map h') = map fst (sensor_status_map h)"

lemma same_sensors_refl [simp]: "same_sensors h h"
  by (simp add: same_sensors_def)

lemma same_sensors_trans: "same_sensors h h' \<Longrightarrow> same_sensors h' h'' \<Longrightarrow> same_sensors h h''"
  by (simp add: same_sensors_def)

lemma set_status_same: "same_sensors h (set_status n t st h)"
  by (simp add: same_sensors_def set_status_def map_replace_keys)

lemma readTemperature_cong:
  "same_sensors h h' \<Longrightarrow> map_of (sensor_status_map h') n = map_of (sensor_status_map h) n \<Longrightarrow>
     readTemperature rd n h' = readTemperature rd n h"
  by (cases "readThermalFile rd n (thermal_sensors h)") (simp_all add: readTemperature_def same_sensors_def Let_def cong: if_cong)

lemma fresh_cong:
  "same_sensors h h' \<Longrightarrow> map_of (sensor_status_map h') n = map_of (sensor_status_map h) n \<Longrightarrow>
     fresh rd uevents h' n = fresh rd uevents h n \<and> still_hot uevents h' n = still_hot uevents h n"
  using readTemperature_cong[of h h' n rd] by (simp add: fresh_def still_hot_def monitored_def same_sensors_def)

lemma watch_sensor_spec:
  assumes "watch_sensor rd uevents n (b, ts, h) = Some (b', ts', h')"
  shows "same_sensors h h'"
    and "ts' = ts @ (case fresh rd uevents h n of None \<Rightarrow> [] | Some (t, _) \<Rightarrow> [t])"
    and "map_of (sensor_status_map h') = (case fresh rd uevents h n of None \<Rightarrow> map_of (sensor_status_map h)
        | Some r \<Rightarrow> (map_of (sensor_status_map h))(n \<mapsto> status_of r))"
    and "b' = (b \<or> fresh rd uevents h n \<noteq> None \<or> still_hot uevents h n)"
proof -
  obtain s i where s: "map_of (sensor_status_map h) n = Some s" "map_of (sensor_info_map h) n = Some i"
    using assms by (auto simp: watch_sensor_def split: bind_splits)
  consider "\<not> is_monitor i" | "is_monitor i" "\<not> in_scope uevents n"
    | "is_monitor i" "in_scope uevents n" "readTemperature rd n h = Some None"
    | t st where "is_monitor i" "in_scope uevents n" "readTemperature rd n h = Some (Some (t, st))"
    using assms s by (auto simp: watch_sensor_def split: bind_splits option.splits if_splits)
  then have "same_sensors h h' \<and> ts' = ts @ (case fresh rd uevents h n of None \<Rightarrow> [] | Some (t, _) \<Rightarrow> [t]) \<and>
      map_of (sensor_status_map h') = (case fresh rd uevents h n of None \<Rightarrow> map_of (sensor_status_map h)
        | Some r \<Rightarrow> (map_of (sensor_status_map h))(n \<mapsto> status_of r)) \<and>
      b' = (b \<or> fresh rd uevents h n \<noteq> None \<or> still_hot uevents h n)"
  proof cases
    case 4
    have "readTemperatureThreshold n h \<noteq> None" using s by (simp add: readTemperatureThreshold_def)
    then have "b' \<and> ts' = ts @ [t] \<and> h' = set_status n t st h" using assms s 4 by (auto simp: watch_sensor_def)
    then show ?thesis using 4 s set_status_same[of h n t st]
      by (auto simp: fresh_def monitored_def status_of_def set_status_def map_of_replace)
  qed (use assms s in \<open>simp_all add: watch_sensor_def fresh_def monitored_def still_hot_def\<close>)
  then show "same_sensors h h'"
    and "ts' = ts @ (case fresh rd uevents h n of None \<Rightarrow> [] | Some (t, _) \<Rightarrow> [t])"
    and "map_of (sensor_status_map h') = (case fresh rd uevents h n of None \<Rightarrow> map_of (sensor_status_map h)
        | Some r \<Rightarrow> (map_of (sensor_status_map h))(n \<mapsto> status_of r))"
    and "b' = (b \<or> fresh rd uevents h n \<noteq> None \<or> still_hot uevents h n)" by blast+
qed

lemma watch_sensors_spec:
  "watch_sensors rd uevents ns (b, ts, h) = Some (b', ts', h') \<Longrightarrow> distinct ns \<Longrightarrow>
     same_sensors h h' \<and>
     ts' = ts @ map fst (List.map_filter (fresh rd uevents h) ns) \<and>
     (\<forall>n. map_of (sensor_status_map h') n = (case if n \<in> set ns then fresh rd uevents h n else None of
        None \<Rightarrow> map_of (sensor_status_map h) n | Some r \<Rightarrow> Some (status_of r))) \<and>
     b' = (b \<or> (\<exists>n\<in>set ns. fresh rd uevents h n \<noteq> None \<or> still_hot uevents h n))"
proof (induction ns arbitrary: b ts h)
  case (Cons n ns)
  then obtain b1 ts1 h1 where w: "watch_sensor rd uevents n (b, ts, h) = Some (b1, ts1, h1)"
    and ws: "watch_sensors rd uevents ns (b1, ts1, h1) = Some (b', ts', h')"
    by (auto split: bind_splits)
  note s = watch_sensor_spec[OF w]
  have keep: "fresh rd uevents h1 m = fresh rd uevents h m" "still_hot uevents h1 m = still_hot uevents h m"
    if "m \<noteq> n" for m
    using fresh_cong[OF s(1), of m] s(3) that by (auto split: option.splits)
  have d: "distinct ns" "n \<notin> set ns" using Cons.prems(2) by simp_all
  then have mf: "List.map_filter (fresh rd uevents h1) ns = List.map_filter (fresh rd uevents h) ns"
    using keep by (induction ns) (auto simp: map_filter_simps split: option.splits)
  note ih = Cons.IH[OF ws d(1)]
  have ex: "(\<exists>m\<in>set ns. fresh rd uevents h1 m \<noteq> None \<or> still_hot uevents h1 m) \<longleftrightarrow>
      (\<exists>m\<in>set ns. fresh rd uevents h m \<noteq> None \<or> still_hot uevents h m)"
    using keep d(2) by metis
  have st: "map_of (sensor_status_map h') m = (case if m \<in> set (n # ns) then fresh rd uevents h m else None of
      None \<Rightarrow> map_of (sensor_status_map h) m | Some r \<Rightarrow> Some (status_of r))" for m
    using ih s(3) keep(1)[of m] d(2) by (cases "m = n") (auto split: option.splits)
  show ?case
    using same_sensors_trans[OF s(1)] ih s(2,4) st ex mf by (auto simp: map_filter_simps split: option.splits)
qed (simp add: map_filter_simps)

section \<open>Readings and severities\<close>

definition sensor_value :: "file_read \<Rightarrow> string \<Rightarrow> sensor_info \<Rightarrow> thermal_helper \<Rightarrow> float32 option" where
  "sensor_value rd n i h =
     do { tx \<leftarrow> readThermalFile rd n (thermal_sensors h); x \<leftarrow> stof tx; Some (f_mul x (multiplier i)) }"

lemma readTemperature_Some:
  assumes "readTemperature rd n h = Some (Some (t, st))" "map_of (sensor_info_map h) n = Some i" "is_monitor i"
  obtains s where "map_of (sensor_status_map h) n = Some s" "st = sensor_severity i s (t_value t)"
    "sensor_value rd n i h = Some (t_value t)" "throttlingStatus t = max (fst st) (snd st)" "t_name t = n"
proof -
  obtain tx where tx: "readThermalFile rd n (thermal_sensors h) = Some tx"
    using assms(1) by (cases "readThermalFile rd n (thermal_sensors h)") (simp_all add: readTemperature_def)
  then obtain x s where "stof tx = Some x" "map_of (sensor_status_map h) n = Some s"
    using assms by (auto simp: readTemperature_def Let_def split: if_splits bind_splits)
  moreover then have "st = sensor_severity i s (f_mul x (multiplier i))"
    "t = \<lparr>t_type = si_type i, t_name = n, t_value = f_mul x (multiplier i),
       throttlingStatus = (if fst st > snd st then fst st else snd st)\<rparr>"
    using assms tx by (auto simp: readTemperature_def Let_def split: if_splits)
  ultimately show thesis using tx by (intro that[of s]) (auto simp: sensor_value_def max_def)
qed

lemma fresh_known: "fresh rd uevents h n = Some r \<Longrightarrow> n \<in> set (map fst (sensor_status_map h))"
proof -
  assume f: "fresh rd uevents h n = Some r"
  then obtain i where i: "map_of (sensor_info_map h) n = Some i" "is_monitor i" "readTemperature rd n h = Some (Some r)"
    by (auto simp: fresh_def monitored_def split: if_splits option.splits)
  obtain t st where "r = (t, st)" by (cases r)
  then obtain s where "map_of (sensor_status_map h) n = Some s"
    using readTemperature_Some[of rd n h t st i] i by blast
  then show ?thesis using domI[of "map_of (sensor_status_map h)" n s] by (simp add: dom_map_of_conv_image_fst)
qed

lemma watcher_spec:
  assumes "thermalWatcherCallbackFunc rd uevents h = Some (triggered, temps, h')" "distinct (map fst (sensor_status_map h))"
  shows "same_sensors h h' \<and>
    temps = map fst (List.map_filter (fresh rd uevents h) (map fst (sensor_status_map h))) \<and>
    (\<forall>n. map_of (sensor_status_map h') n = (case fresh rd uevents h n of
        None \<Rightarrow> map_of (sensor_status_map h) n | Some r \<Rightarrow> Some (status_of r))) \<and>
    (triggered \<longleftrightarrow> temps \<noteq> [] \<or> (\<exists>n\<in>set (map fst (sensor_status_map h)). still_hot uevents h n))"
proof -
  let ?ns = "map fst (sensor_status_map h)"
  note s = watch_sensors_spec[OF assms(1)[unfolded thermalWatcherCallbackFunc_def] assms(2)]
  have k: "(if n \<in> set ?ns then fresh rd uevents h n else None) = fresh rd uevents h n" for n
    using fresh_known[of rd uevents h n] by (cases "fresh rd uevents h n") auto
  have "temps \<noteq> [] \<longleftrightarrow> (\<exists>n\<in>set ?ns. fresh rd uevents h n \<noteq> None)"
    using s by (auto simp: map_filter_def filter_empty_conv)
  then show ?thesis using s unfolding k by auto
qed

section \<open>Properties\<close>

text \<open>
  A round of the watcher, after a message of the kernel about some sensors or without one, reports
  exactly the monitored sensors it concerns that can be read, in the order of their names, and only
  their status changes: to the severities of that reading.  It asks to be called again soon exactly
  when it has read a sensor or one that it left out is still throttled.
\<close>

theorem watcher_exact:
  assumes "thermalWatcherCallbackFunc rd uevents h = Some (triggered, temps, h')" "distinct (map fst (sensor_status_map h))"
  shows "temps = map fst (List.map_filter (fresh rd uevents h) (map fst (sensor_status_map h))) \<and>
    (\<forall>n. map_of (sensor_status_map h') n = (case fresh rd uevents h n of
        None \<Rightarrow> map_of (sensor_status_map h) n | Some r \<Rightarrow> Some (status_of r))) \<and>
    (triggered \<longleftrightarrow> temps \<noteq> [] \<or> (\<exists>n\<in>set (map fst (sensor_status_map h)). still_hot uevents h n))"
  using watcher_spec[OF assms] by blast

fun watch_rounds :: "(file_read \<times> string set) list \<Rightarrow> thermal_helper \<Rightarrow> thermal_helper option" where
  "watch_rounds [] h = Some h"
| "watch_rounds ((rd, uevents) # rs) h =
     do { (_, _, h') \<leftarrow> thermalWatcherCallbackFunc rd uevents h; watch_rounds rs h' }"

lemma watch_round_keeps:
  assumes "thermalWatcherCallbackFunc rd uevents h = Some (b, ts, h')" "distinct (map fst (sensor_status_map h))"
    and "map_of (sensor_info_map h) n = Some i" "hot_good (hot_thresholds i, hot_hysteresis i)"
    and "map_of (sensor_status_map h) n = Some s" "defined_in level_active (hot_thresholds i, hot_hysteresis i) (prev_hot_severity s)"
    and "\<And>v. sensor_value rd n i h = Some v \<Longrightarrow>
        top_level (hot_reached (hot_thresholds i, hot_hysteresis i) v) \<le> prev_hot_severity s \<and>
        prev_hot_severity s \<le> top_level (hot_held (hot_thresholds i, hot_hysteresis i) v)"
  shows "\<exists>s'. map_of (sensor_status_map h') n = Some s' \<and> prev_hot_severity s' = prev_hot_severity s"
proof (cases "fresh rd uevents h n")
  case None
  then show ?thesis using watcher_spec[OF assms(1,2)] assms(5) by simp
next
  case (Some r)
  obtain t st where r: "r = (t, st)" by (cases r)
  have rt: "readTemperature rd n h = Some (Some (t, st))" "is_monitor i"
    using Some assms(3) r by (auto simp: fresh_def monitored_def split: if_splits option.splits)
  obtain s2 where s2: "map_of (sensor_status_map h) n = Some s2" "st = sensor_severity i s2 (t_value t)"
    "sensor_value rd n i h = Some (t_value t)"
    using readTemperature_Some[OF rt(1) assms(3) rt(2)] by metis
  then have "fst st = prev_hot_severity s"
    using hot.clamps[OF assms(4,6), of "t_value t"] assms(7)[OF s2(3)] assms(5)
    by (simp add: sensor_severity_def getSeverity_eq)
  then show ?thesis using watcher_spec[OF assms(1,2)] Some r by (simp add: status_of_def)
qed

text \<open>
  The severity of a sensor does not flap: over every sequence of rounds of the watcher, with any
  messages and any files, the severity stays as it is while no reading of the sensor reaches a higher
  threshold or leaves the band of the present one.
\<close>

theorem severity_does_not_flap:
  assumes "watch_rounds rounds h = Some h'" "distinct (map fst (sensor_status_map h))"
    and "map_of (sensor_info_map h) n = Some i" "hot_good (hot_thresholds i, hot_hysteresis i)"
    and "map_of (sensor_status_map h) n = Some s" "defined_in level_active (hot_thresholds i, hot_hysteresis i) (prev_hot_severity s)"
    and "\<And>rd uevents v. (rd, uevents) \<in> set rounds \<Longrightarrow> sensor_value rd n i h = Some v \<Longrightarrow>
        top_level (hot_reached (hot_thresholds i, hot_hysteresis i) v) \<le> prev_hot_severity s \<and>
        prev_hot_severity s \<le> top_level (hot_held (hot_thresholds i, hot_hysteresis i) v)"
  shows "\<exists>s'. map_of (sensor_status_map h') n = Some s' \<and> prev_hot_severity s' = prev_hot_severity s"
  using assms
proof (induction rounds arbitrary: h s)
  case (Cons r rs)
  obtain rd uevents where r: "r = (rd, uevents)" by (cases r)
  then obtain b ts h1 where w: "thermalWatcherCallbackFunc rd uevents h = Some (b, ts, h1)" and ws: "watch_rounds rs h1 = Some h'"
    using Cons.prems(1) by (auto split: bind_splits)
  have same: "same_sensors h h1" using watcher_spec[OF w Cons.prems(2)] by blast
  obtain s1 where s1: "map_of (sensor_status_map h1) n = Some s1" "prev_hot_severity s1 = prev_hot_severity s"
    using watch_round_keeps[OF w Cons.prems(2-6)] Cons.prems(7)[of rd uevents] r by auto
  have v: "sensor_value rd' n i h1 = sensor_value rd' n i h" for rd'
    using same by (simp add: sensor_value_def same_sensors_def)
  have "\<exists>s'. map_of (sensor_status_map h') n = Some s' \<and> prev_hot_severity s' = prev_hot_severity s1"
    by (rule Cons.IH[OF ws _ _ Cons.prems(4) s1(1)])
      (use same Cons.prems(2,3,6,7) s1(2) v in \<open>auto simp: same_sensors_def\<close>)
  then show ?case using s1(2) by simp
qed simp

text \<open>
  A hotter sensor is not reported as less severe: of two readings of a monitored sensor in the same
  state, the one whose file holds the larger number gives a hot severity that is not lower and a cold
  severity that is not higher, through the conversion of the text, the rounding of the product with
  the multiplier and the thresholds.
\<close>

theorem hotter_not_less_severe:
  assumes "readThermalFile rd n (thermal_sensors h) = Some (to_string a)"
    and "readThermalFile rd' n (thermal_sensors h) = Some (to_string b)"
    and "\<bar>a\<bar> < 2 ^ 31" "\<bar>b\<bar> < 2 ^ 31" "a \<le> b"
    and "map_of (sensor_info_map h) n = Some i" "is_monitor i" "multiplier i = Fin m" "0 < m"
    and "hot_good (hot_thresholds i, hot_hysteresis i)" "cold_good (cold_thresholds i, cold_hysteresis i)"
    and "map_of (sensor_status_map h) n = Some s"
    and "defined_in level_active (hot_thresholds i, hot_hysteresis i) (prev_hot_severity s)"
    and "defined_in level_active (cold_thresholds i, cold_hysteresis i) (prev_cold_severity s)"
    and "readTemperature rd n h = Some (Some (t, hs, cs))" "readTemperature rd' n h = Some (Some (t', hs', cs'))"
  shows "hs \<le> hs' \<and> cs' \<le> cs"
proof -
  have v: "t_value t = f_mul (f_round (of_int a)) (Fin m)" "(hs, cs) = sensor_severity i s (t_value t)"
    by (rule readTemperature_Some[OF assms(15,6,7)],
        use assms(1,8,12) stof_to_string[OF assms(3)] in \<open>simp add: sensor_value_def\<close>)+
  have v': "t_value t' = f_mul (f_round (of_int b)) (Fin m)" "(hs', cs') = sensor_severity i s (t_value t')"
    by (rule readTemperature_Some[OF assms(16,6,7)],
        use assms(2,8,12) stof_to_string[OF assms(4)] in \<open>simp add: sensor_value_def\<close>)+
  have le: "f_le (t_value t) (t_value t')"
    unfolding v(1) v'(1) using assms(5,9) by (intro f_mul_mono f_round_mono) simp_all
  show ?thesis
    using hot.next_mono[OF assms(10,13) le] cold.next_mono[OF assms(11,14), of "t_value t" "t_value t'"] le v(2) v'(2)
    by (simp add: sensor_severity_def getSeverity_eq)
qed

section \<open>Witnesses\<close>

definition helper_demo :: thermal_helper where
  "helper_demo = \<lparr>thermal_sensors = [(''soc'', ''/t'')], cooling_devices = [], is_initialized = True,
     cooling_device_info_map = [], sensor_info_map = [(''soc'', soc_info)],
     sensor_status_map = [(''soc'', \<lparr>st_severity = SEVERE, prev_hot_severity = SEVERE, prev_cold_severity = SEV_NONE\<rparr>)]\<rparr>"

abbreviation at_84 :: file_read where "at_84 \<equiv> \<lambda>_. Some ''84''"

lemma text_84: "to_string 84 = ''84''" "Trim ''84'' = ''84''"
  by code_simp+

lemma value_84: "sensor_value at_84 ''soc'' soc_info helper_demo = Some (Fin 84)"
  "readThermalFile at_84 ''soc'' (thermal_sensors helper_demo) = Some (to_string 84)" "stof ''84'' = Some (Fin 84)"
  using stof_to_string[of 84] f_round_7bit[of 84]
  by (simp_all add: sensor_value_def readThermalFile_def getThermalFilePath_def helper_demo_def text_84 soc_info_def)

lemma soc_bands: "(hot_thresholds soc_info, hot_hysteresis soc_info) = (soc_hot, soc_hyst)"
  "(cold_thresholds soc_info, cold_hysteresis soc_info) = (replicate 7 NaN, replicate 7 (Fin 0))"
  by (simp_all add: soc_info_def)

lemma severity_84: "sensor_severity soc_info \<lparr>st_severity = SEVERE, prev_hot_severity = SEVERE, prev_cold_severity = SEV_NONE\<rparr>
    (Fin 84) = (SEVERE, SEV_NONE)"
  unfolding sensor_severity_def getSeverity_eq soc_bands next_level_def soc_tops no_cold_tops
  by (simp add: less_severity_def)

lemma demo_state: "map_of (sensor_info_map helper_demo) ''soc'' = Some soc_info" "is_monitor soc_info"
  "map_of (sensor_status_map helper_demo) ''soc'' =
     Some \<lparr>st_severity = SEVERE, prev_hot_severity = SEVERE, prev_cold_severity = SEV_NONE\<rparr>"
  "distinct (map fst (sensor_status_map helper_demo))" "map fst (sensor_status_map helper_demo) = [''soc'']"
  "multiplier soc_info = Fin 1"
  by (simp_all add: helper_demo_def soc_info_def)

lemma read_84: "readTemperature at_84 ''soc'' helper_demo =
    Some (Some (\<lparr>t_type = ''CPU'', t_name = ''soc'', t_value = Fin 84, throttlingStatus = SEVERE\<rparr>, SEVERE, SEV_NONE))"
proof -
  have "f_mul (Fin 84) (multiplier soc_info) = Fin 84" using f_round_7bit[of 84] by (simp add: soc_info_def)
  moreover have "si_type soc_info = ''CPU''" by (simp add: soc_info_def)
  ultimately show ?thesis
    by (simp add: readTemperature_def value_84 text_84 demo_state severity_84 Let_def less_severity_def)
qed

lemma fresh_84: "fresh at_84 {} helper_demo ''soc'' =
    Some (\<lparr>t_type = ''CPU'', t_name = ''soc'', t_value = Fin 84, throttlingStatus = SEVERE\<rparr>, SEVERE, SEV_NONE)"
  by (simp add: fresh_def monitored_def demo_state in_scope_def read_84)

lemma callback_84: "thermalWatcherCallbackFunc at_84 {} helper_demo \<noteq> None"
  by (simp add: thermalWatcherCallbackFunc_def demo_state(5) watch_sensor_def demo_state(1-3) in_scope_def read_84
      readTemperatureThreshold_def)

theorem watcher_exact_witness:
  "\<exists>ts h'. thermalWatcherCallbackFunc at_84 {} helper_demo = Some (True, ts, h') \<and> map t_value ts = [Fin 84]"
proof -
  obtain b ts h' where c: "thermalWatcherCallbackFunc at_84 {} helper_demo = Some (b, ts, h')"
    using callback_84 by auto
  from watcher_exact[OF c demo_state(4)] show ?thesis
    using c by (auto simp: demo_state(5) map_filter_simps fresh_84)
qed

theorem severity_does_not_flap_witness:
  "\<exists>h' s'. watch_rounds [(at_84, {})] helper_demo = Some h' \<and> map_of (sensor_status_map h') ''soc'' = Some s' \<and>
     prev_hot_severity s' = SEVERE"
proof -
  obtain h' where h': "watch_rounds [(at_84, {})] helper_demo = Some h'" using callback_84 by auto
  have "top_level (hot_reached (hot_thresholds soc_info, hot_hysteresis soc_info) v) \<le> SEVERE \<and>
      SEVERE \<le> top_level (hot_held (hot_thresholds soc_info, hot_hysteresis soc_info) v)"
    if "(rd, u) \<in> set [(at_84, {})]" "sensor_value rd ''soc'' soc_info helper_demo = Some v"
    for rd v and u :: "string set"
    using that value_84(1) unfolding soc_bands by (auto simp: soc_tops less_eq_severity_def)
  with severity_does_not_flap[OF h' demo_state(4,1) _ demo_state(3)] soc_good soc_defined(1) show ?thesis
    using h' unfolding soc_bands by simp
qed

abbreviation at_96 :: file_read where "at_96 \<equiv> \<lambda>_. Some ''96''"

lemma text_96: "to_string 96 = ''96''" "Trim ''96'' = ''96''"
  by code_simp+

lemma read_96: "readTemperature at_96 ''soc'' helper_demo =
    Some (Some (\<lparr>t_type = ''CPU'', t_name = ''soc'', t_value = Fin 96, throttlingStatus = SHUTDOWN\<rparr>, SHUTDOWN, SEV_NONE))"
  and file_96: "readThermalFile at_96 ''soc'' (thermal_sensors helper_demo) = Some (to_string 96)"
proof -
  have f: "readThermalFile at_96 ''soc'' (thermal_sensors helper_demo) = Some ''96''" "stof ''96'' = Some (Fin 96)"
    using stof_to_string[of 96] f_round_7bit[of 96]
    by (simp_all add: readThermalFile_def getThermalFilePath_def helper_demo_def text_96)
  have m: "f_mul (Fin 96) (multiplier soc_info) = Fin 96" "si_type soc_info = ''CPU''"
    using f_round_7bit[of 96] by (simp_all add: soc_info_def)
  have "top_level (hot_reached (soc_hot, soc_hyst) (Fin 96)) = SHUTDOWN"
    by (simp add: top_level_def scan_order_def hot_reached_def soc_active)
  then have s: "sensor_severity soc_info \<lparr>st_severity = SEVERE, prev_hot_severity = SEVERE, prev_cold_severity = SEV_NONE\<rparr>
      (Fin 96) = (SHUTDOWN, SEV_NONE)"
    unfolding sensor_severity_def getSeverity_eq soc_bands next_level_def no_cold_tops by (simp add: less_severity_def)
  show "readTemperature at_96 ''soc'' helper_demo =
    Some (Some (\<lparr>t_type = ''CPU'', t_name = ''soc'', t_value = Fin 96, throttlingStatus = SHUTDOWN\<rparr>, SHUTDOWN, SEV_NONE))"
    by (simp add: readTemperature_def f m demo_state(1-3) s Let_def less_severity_def)
  show "readThermalFile at_96 ''soc'' (thermal_sensors helper_demo) = Some (to_string 96)" by (simp add: f text_96)
qed

theorem hotter_not_less_severe_witness: "SEVERE \<le> SHUTDOWN \<and> SEV_NONE \<le> SEV_NONE"
  by (rule hotter_not_less_severe[OF value_84(2) file_96 _ _ _ demo_state(1,2,6) _ soc_good[folded soc_bands]
        no_cold_good[of "replicate 7 (Fin 0)", folded soc_bands] demo_state(3) _ _ read_84 read_96])
    (simp_all add: soc_bands soc_defined)

end
