(* ===== verification/Thermal_Watch.thy ===== *)
theory Thermal_Watch
  imports Thermal_Helper C_Strings
begin

text \<open>
  The start of the thermal service and its watcher thread: the constructor of \<open>ThermalHelper\<close>
  (\<open>thermal/thermal-helper.cpp\<close>), which looks for the files of the sensors and sets the trip points of
  the kernel, and \<open>ThermalWatcher\<close> (\<open>thermal/utils/thermal_watcher.cpp\<close>), which waits for messages of
  the kernel.  Directories, sockets and the poll are arguments.
\<close>

section \<open>The files of the sensors\<close>

definition kThermalSensorsRoot :: string where "kThermalSensorsRoot = ''/sys/devices/virtual/thermal''"
definition kSensorPrefix :: string where "kSensorPrefix = ''thermal_zone''"
definition kCoolingDevicePrefix :: string where "kCoolingDevicePrefix = ''cooling_device''"
definition kUserSpaceSuffix :: string where "kUserSpaceSuffix = ''step_wise''"

text \<open>\<open>StringPrintf("%s/%s", a, b)\<close>.\<close>

definition in_dir :: "string \<Rightarrow> string \<Rightarrow> string" where "in_dir a b = a @ ''/'' @ b"

text \<open>\<open>dir\<close> is what \<open>readdir\<close> gives: names, and whether the entry is a directory.\<close>

fun path_entries :: "file_read \<Rightarrow> string \<Rightarrow> (string \<times> bool) list \<Rightarrow> (string \<times> string) list \<Rightarrow> (string \<times> string) list" where
  "path_entries rd pre [] m = m"
| "path_entries rd pre ((d, isdir) # es) m =
     (if \<not> isdir \<or> \<not> prefix pre d then path_entries rd pre es m
      else case rd (in_dir (in_dir kThermalSensorsRoot d) ''type'') of
             None \<Rightarrow> path_entries rd pre es m
           | Some nm \<Rightarrow> path_entries rd pre es (map_insert (Trim nm) (in_dir kThermalSensorsRoot d) m))"

definition parseThermalPathMap :: "file_read \<Rightarrow> (string \<times> bool) list option \<Rightarrow> string \<Rightarrow> (string \<times> string) list" where
  "parseThermalPathMap rd dir pre = (case dir of None \<Rightarrow> [] | Some es \<Rightarrow> path_entries rd pre es [])"

fun add_files :: "string \<Rightarrow> (string \<times> string) list \<Rightarrow> string list \<Rightarrow> thermal_files \<Rightarrow> thermal_files" where
  "add_files sfx path_map [] fs = fs"
| "add_files sfx path_map (n # ns) fs =
     (case map_of path_map n of None \<Rightarrow> add_files sfx path_map ns fs
      | Some p \<Rightarrow> add_files sfx path_map ns (snd (addThermalFile n (in_dir p sfx) fs)))"

definition initializeSensorMap :: "(string \<times> string) list \<Rightarrow> thermal_helper \<Rightarrow> bool \<times> thermal_helper" where
  "initializeSensorMap path_map h =
     (let fs = add_files ''temp'' path_map (map fst (sensor_info_map h)) (thermal_sensors h)
      in (length (sensor_info_map h) = length fs, h\<lparr>thermal_sensors := fs\<rparr>))"

definition initializeCoolingDevices :: "(string \<times> string) list \<Rightarrow> thermal_helper \<Rightarrow> bool \<times> thermal_helper" where
  "initializeCoolingDevices path_map h =
     (let fs = add_files ''cur_state'' path_map (map fst (cooling_device_info_map h)) (cooling_devices h)
      in (length (cooling_device_info_map h) = length fs, h\<lparr>cooling_devices := fs\<rparr>))"

section \<open>Trip points\<close>

type_synonym sysfs_writes = "(string \<times> string) list"

text \<open>The first level with a threshold and a hysteresis; a quotient that does not fit into an \<open>int\<close> is undefined.\<close>

fun trip_writes :: "string \<Rightarrow> sensor_info \<Rightarrow> nat list \<Rightarrow> (bool \<times> sysfs_writes) option" where
  "trip_writes tz info [] = Some (True, [])"
| "trip_writes tz info (i # is) =
     (if \<not> is_nan (hot_thresholds info ! i) \<and> \<not> is_nan (hot_hysteresis info ! i)
      then do { t \<leftarrow> f_div_int (hot_thresholds info ! i) (multiplier info);
                hy \<leftarrow> f_div_int (hot_hysteresis info ! i) (multiplier info);
                Some (True, [(in_dir tz ''trip_point_0_temp'', to_string t), (in_dir tz ''trip_point_0_hyst'', to_string hy)]) }
      else if i = kThrottlingSeverityCount - 1 then Some (False, [])
      else trip_writes tz info is)"

fun initializeTrip :: "file_read \<Rightarrow> (string \<times> string) list \<Rightarrow> (string \<times> sensor_info) list \<Rightarrow> (bool \<times> sysfs_writes) option" where
  "initializeTrip rd path_map [] = Some (True, [])"
| "initializeTrip rd path_map ((n, info) # es) =
     (if \<not> is_monitor info then initializeTrip rd path_map es
      else do { tz \<leftarrow> map_of path_map n;
                case rd (in_dir tz ''policy'') of None \<Rightarrow> Some (False, [])
                | Some p \<Rightarrow>
                    if Trim p \<noteq> kUserSpaceSuffix then Some (False, [])
                    else do { (b, ws) \<leftarrow> trip_writes tz info levels;
                              if \<not> b then Some (False, ws)
                              else do { (b', ws') \<leftarrow> initializeTrip rd path_map es; Some (b', ws @ ws') } } })"

section \<open>The watcher\<close>

record thermal_watcher =
  uevent_fd :: int
  monitored_sensors :: "string set"
  thermal_triggered :: bool
  is_polling :: bool

definition watcher_init :: thermal_watcher where
  "watcher_init = \<lparr>uevent_fd = -1, monitored_sensors = {}, thermal_triggered = False, is_polling = True\<rparr>"

text \<open>\<open>sock\<close> is what \<open>uevent_open_socket\<close> returns, \<open>nonblock\<close> whether \<open>fcntl\<close> succeeds.\<close>

definition registerFilesToWatch :: "string set \<Rightarrow> bool \<Rightarrow> int \<Rightarrow> bool \<Rightarrow> thermal_watcher \<Rightarrow> thermal_watcher" where
  "registerFilesToWatch sensors uevent_monitor sock nonblock w =
     (let w1 = w\<lparr>monitored_sensors := monitored_sensors w \<union> sensors\<rparr>
      in if \<not> uevent_monitor then w1\<lparr>is_polling := True\<rparr>
         else let w2 = w1\<lparr>uevent_fd := sock\<rparr>
              in if sock < 0 \<or> \<not> nonblock then w2\<lparr>is_polling := True\<rparr>
                 else w2\<lparr>is_polling := False, thermal_triggered := True\<rparr>)"

section \<open>The constructor\<close>

record 'j thermal_env =
  te_json :: "'j json_api"
  te_sensor_types :: "string list"
  te_cooling_types :: "string list"
  te_config :: "string option"
  te_read :: file_read
  te_dir :: "(string \<times> bool) list option"
  te_socket :: int
  te_nonblock :: bool
  te_run :: bool

definition helper_start :: "(string \<times> string) list \<Rightarrow> (string \<times> sensor_info) list \<Rightarrow> thermal_helper" where
  "helper_start coolers sensors =
     \<lparr>thermal_sensors = [], cooling_devices = [], is_initialized = False, cooling_device_info_map = coolers,
      sensor_info_map = sensors,
      sensor_status_map = map (\<lambda>(n, _). (n, \<lparr>st_severity = SEV_NONE, prev_hot_severity = SEV_NONE,
        prev_cold_severity = SEV_NONE\<rparr>)) sensors\<rparr>"

text \<open>Sensors that are not monitored give the empty name.\<close>

definition monitored_names :: "(string \<times> sensor_info) list \<Rightarrow> string set" where
  "monitored_names sensors = (\<lambda>(n, i). if is_monitor i then n else []) ` set sensors"

definition ThermalHelper_init ::
    "'j thermal_env \<Rightarrow> (thermal_helper \<times> thermal_watcher \<times> sysfs_writes) option" where
  "ThermalHelper_init e =
     do { coolers \<leftarrow> ParseCoolingDevice (te_json e) (te_cooling_types e) (te_config e);
          sensors \<leftarrow> ParseSensorInfo (te_json e) (te_sensor_types e) (te_config e);
          let h = helper_start coolers sensors;
          let tz_map = parseThermalPathMap (te_read e) (te_dir e) kSensorPrefix;
          let cdev_map = parseThermalPathMap (te_read e) (te_dir e) kCoolingDevicePrefix;
          let (b1, h1) = initializeSensorMap tz_map h;
          let (b2, h2) = (if b1 then initializeCoolingDevices cdev_map h1 else (False, h1));
          if \<not> b2 then Some (h2, watcher_init, [])
          else do { (trip, ws) \<leftarrow> initializeTrip (te_read e) tz_map sensors;
                    Some (h2\<lparr>is_initialized := te_run e\<rparr>,
                      registerFilesToWatch (monitored_names sensors) trip (te_socket e) (te_nonblock e) watcher_init, ws) } }"

section \<open>Messages of the kernel\<close>

text \<open>\<open>std::string::find\<close>.\<close>

fun find_str :: "string \<Rightarrow> string \<Rightarrow> nat option" where
  "find_str sub [] = (if sub = [] then Some 0 else None)"
| "find_str sub (c # cs) = (if prefix sub (c # cs) then Some 0 else map_option Suc (find_str sub cs))"

text \<open>
  The strings of one message from \<open>cp\<close> on; \<open>ev\<close> is \<open>thermal_event\<close>.  Reading past the end of the buffer
  has no result.
\<close>

function uevent_strings :: "string set \<Rightarrow> char list \<Rightarrow> bool \<Rightarrow> string set \<Rightarrow> (bool \<times> string set) option" where
  "uevent_strings mon [] ev S = None"
| "uevent_strings mon (c # cs) ev S =
     (if c = NUL then Some (ev, S)
      else case c_strlen (c # cs) of None \<Rightarrow> None
        | Some n \<Rightarrow>
            (let u = take n (c # cs); rest = drop (Suc n) (c # cs)
             in if \<not> ev
                then if find_str ''SUBSYSTEM='' u = Some 0
                     then if find_str ''SUBSYSTEM=thermal'' u \<noteq> None then uevent_strings mon rest True S
                          else Some (False, S)
                     else uevent_strings mon rest ev S
                else (case find_str ''NAME='' u of
                        Some p \<Rightarrow> (let nm = drop (p + 5) u in Some (ev, if nm \<in> mon then insert nm S else S))
                      | None \<Rightarrow> uevent_strings mon rest ev S)))"
  by pat_completeness auto
termination by (relation "measure (\<lambda>(mon, cs, ev, S). length cs)") auto

definition kUeventMsgLen :: nat where "kUeventMsgLen = 2048"

text \<open>
  \<open>msgs\<close> are the messages that can be received without waiting; \<open>buf\<close> is the array on the stack, with
  what an earlier message left in it.
\<close>

fun parseUevent :: "string set \<Rightarrow> char list \<Rightarrow> char list list \<Rightarrow> bool \<Rightarrow> string set \<Rightarrow> string set option" where
  "parseUevent mon buf [] ev S = Some S"
| "parseUevent mon buf (msg # msgs) ev S =
     (let n = length msg; buf1 = msg @ drop n buf
      in if n = 0 then Some S
         else if n \<ge> kUeventMsgLen then parseUevent mon buf1 msgs ev S
         else let buf2 = (buf1[n := NUL])[Suc n := NUL]
              in do { (ev', S') \<leftarrow> uevent_strings mon buf2 ev S; parseUevent mon buf2 msgs ev' S' })"

section \<open>The thread\<close>

definition poll_timeout :: "thermal_watcher \<Rightarrow> int" where
  "poll_timeout w = (if thermal_triggered w \<or> is_polling w then 2000 else 300000)"

text \<open>
  One round: \<open>poll\<close> is the descriptor that became readable, if one did before the timeout.  The third
  result is what the listener is called with.
\<close>

definition run_callback :: "file_read \<Rightarrow> string set \<Rightarrow> thermal_watcher \<Rightarrow> thermal_helper \<Rightarrow>
    (thermal_watcher \<times> thermal_helper \<times> temperature list) option" where
  "run_callback rd sensors w h =
     do { (b, ts, h') \<leftarrow> thermalWatcherCallbackFunc rd sensors h; Some (w\<lparr>thermal_triggered := b\<rparr>, h', ts) }"

definition threadLoop :: "file_read \<Rightarrow> int option \<Rightarrow> char list \<Rightarrow> char list list \<Rightarrow> thermal_watcher \<Rightarrow> thermal_helper \<Rightarrow>
    (thermal_watcher \<times> thermal_helper \<times> temperature list) option" where
  "threadLoop rd poll buf msgs w h =
     (case poll of
        None \<Rightarrow> run_callback rd {} w h
      | Some fd \<Rightarrow>
          if fd \<noteq> uevent_fd w then Some (w, h, [])
          else do { S \<leftarrow> parseUevent (monitored_sensors w) buf msgs False {};
                    if S = {} then Some (w, h, []) else run_callback rd S w h })"

section \<open>The strings of a message\<close>

lemma uevent_unfold:
  assumes "s \<noteq> []" "NUL \<notin> set s"
  shows "uevent_strings mon (s @ NUL # r) ev S =
     (if \<not> ev
      then if find_str ''SUBSYSTEM='' s = Some 0
           then if find_str ''SUBSYSTEM=thermal'' s \<noteq> None then uevent_strings mon r True S else Some (False, S)
           else uevent_strings mon r ev S
      else (case find_str ''NAME='' s of
              Some p \<Rightarrow> (let nm = drop (p + 5) s in Some (ev, if nm \<in> mon then insert nm S else S))
            | None \<Rightarrow> uevent_strings mon r ev S))"
proof -
  obtain c t where s: "s = c # t" "c \<noteq> NUL" using assms by (cases s) auto
  have l: "c_strlen (c # (t @ NUL # r)) = Some (length s)" "take (length s) (c # (t @ NUL # r)) = s"
    "drop (Suc (length s)) (c # (t @ NUL # r)) = r"
    using c_strlen_skip[OF assms(2), of r] by (simp_all add: s(1))
  show ?thesis
    by (subst s(1)) (simp add: l s(2) Let_def del: c_strlen.simps take.simps drop.simps take_Suc_Cons drop_Suc_Cons)
qed

lemma uevent_strings_total: "\<exists>ev' S'. uevent_strings mon (xs @ NUL # NUL # cs) ev S = Some (ev', S')"
proof (induction xs arbitrary: ev S rule: length_induct)
  case (1 xs)
  let ?s = "takeWhile (\<lambda>c. c \<noteq> NUL) xs"
  obtain r where b: "xs @ NUL # NUL # cs = ?s @ NUL # r" and s: "NUL \<notin> set ?s"
    and r: "r = NUL # cs \<or> (\<exists>us. length us < length xs \<and> r = us @ NUL # NUL # cs)"
    by (rule buffer_step)
  have rest: "\<exists>ev' S'. uevent_strings mon r ev S = Some (ev', S')" for ev S
    using r
  proof
    assume "\<exists>us. length us < length xs \<and> r = us @ NUL # NUL # cs"
    then show ?thesis using 1 by blast
  qed simp
  show ?case
  proof (cases "?s = []")
    case True
    then show ?thesis unfolding b by simp
  next
    case False
    show ?thesis unfolding b uevent_unfold[OF False s] using rest by (auto split: option.split simp: Let_def)
  qed
qed

lemma uevent_strings_sensors: "uevent_strings mon cs ev S = Some (ev', S') \<Longrightarrow> S' \<subseteq> S \<union> mon"
proof (induction mon cs ev S arbitrary: ev' S' rule: uevent_strings.induct)
  case (2 mon c cs ev S)
  then show ?case by (fastforce simp: Let_def split: if_splits option.splits)
qed simp

text \<open>The sensor that a message is about.\<close>

definition uevent_name :: "string list \<Rightarrow> string option" where
  "uevent_name fs =
     (case dropWhile (\<lambda>u. find_str ''SUBSYSTEM='' u \<noteq> Some 0) fs of [] \<Rightarrow> None
      | u # us \<Rightarrow>
          if find_str ''SUBSYSTEM=thermal'' u = None then None
          else map_option (\<lambda>v. drop (the (find_str ''NAME='' v) + 5) v) (find (\<lambda>v. find_str ''NAME='' v \<noteq> None) us))"

definition add_name :: "string set \<Rightarrow> string option \<Rightarrow> string set \<Rightarrow> string set" where
  "add_name mon nm S = (case nm of None \<Rightarrow> S | Some n \<Rightarrow> if n \<in> mon then insert n S else S)"

lemma c_string_message:
  assumes "\<forall>u\<in>set (u # fs). c_string u"
  shows "message (u # fs) @ cs = u @ NUL # (message fs @ cs)" "u \<noteq> []" "NUL \<notin> set u"
  using assms by (simp_all add: message_def c_string_def)

lemma uevent_thermal:
  "\<forall>u\<in>set fs. c_string u \<Longrightarrow> uevent_strings mon (message fs @ NUL # cs) True S =
     Some (True, add_name mon (map_option (\<lambda>v. drop (the (find_str ''NAME='' v) + 5) v)
       (find (\<lambda>v. find_str ''NAME='' v \<noteq> None) fs)) S)"
proof (induction fs)
  case (Cons u fs)
  note m = c_string_message(1)[OF Cons.prems, of "NUL # cs"] c_string_message(2,3)[OF Cons.prems]
  show ?case
    unfolding m(1) uevent_unfold[OF m(2,3)] using Cons by (auto simp: add_name_def Let_def split: option.split)
qed (simp add: message_def add_name_def)

lemma uevent_message:
  "\<forall>u\<in>set fs. c_string u \<Longrightarrow> \<exists>ev. uevent_strings mon (message fs @ NUL # cs) False S = Some (ev, add_name mon (uevent_name fs) S)"
proof (induction fs)
  case (Cons u fs)
  note m = c_string_message(1)[OF Cons.prems, of "NUL # cs"] c_string_message(2,3)[OF Cons.prems]
  show ?case
    unfolding m(1) uevent_unfold[OF m(2,3)] using Cons uevent_thermal[of fs mon cs S]
    by (auto simp: add_name_def uevent_name_def split: option.split)
qed (auto simp: message_def add_name_def uevent_name_def)

lemma message_buffer:
  assumes "length msg < kUeventMsgLen" "length buf = kUeventMsgLen + 2"
  shows "\<exists>cs. ((msg @ drop (length msg) buf)[length msg := NUL])[Suc (length msg) := NUL] = msg @ NUL # NUL # cs \<and>
    length (msg @ NUL # NUL # cs) = kUeventMsgLen + 2"
proof -
  have "Suc (length msg) < length (msg @ drop (length msg) buf)" using assms by simp
  from update_two[OF this, of NUL NUL] show ?thesis using assms by (auto simp: kUeventMsgLen_def)
qed

lemma parseUevent_message:
  assumes "msg \<noteq> []" "length msg < kUeventMsgLen" "length buf = kUeventMsgLen + 2"
  obtains cs where "length (msg @ NUL # NUL # cs) = kUeventMsgLen + 2"
    and "parseUevent mon buf (msg # msgs) ev S =
      do { (ev', S') \<leftarrow> uevent_strings mon (msg @ NUL # NUL # cs) ev S;
           parseUevent mon (msg @ NUL # NUL # cs) msgs ev' S' }"
  using message_buffer[OF assms(2,3)] assms(1,2) by (auto simp: Let_def)

lemma parseUevent_total:
  "length buf = kUeventMsgLen + 2 \<Longrightarrow> \<forall>msg\<in>set msgs. length msg \<le> kUeventMsgLen \<Longrightarrow>
     \<exists>S'. parseUevent mon buf msgs ev S = Some S' \<and> S' \<subseteq> S \<union> mon"
proof (induction mon buf msgs ev S rule: parseUevent.induct)
  case (2 mon buf msg msgs ev S)
  let ?buf1 = "msg @ drop (length msg) buf"
  have len: "length ?buf1 = kUeventMsgLen + 2" using "2.prems" by auto
  consider "msg = []" | "length msg \<ge> kUeventMsgLen" "msg \<noteq> []" | "msg \<noteq> []" "length msg < kUeventMsgLen" by linarith
  then show ?case
  proof cases
    case 2
    then show ?thesis using "2.IH"(1)[OF refl refl _ _ len] "2.prems" by (simp add: Let_def)
  next
    case 3
    let ?buf2 = "(?buf1[length msg := NUL])[Suc (length msg) := NUL]"
    obtain cs where b: "?buf2 = msg @ NUL # NUL # cs" using message_buffer[OF 3(2) "2.prems"(1)] by blast
    obtain ev' S' where u: "uevent_strings mon ?buf2 ev S = Some (ev', S')" unfolding b using uevent_strings_total by blast
    have "\<exists>S''. parseUevent mon ?buf2 msgs ev' S' = Some S'' \<and> S'' \<subseteq> S' \<union> mon"
      by (rule "2.IH"(2)[OF refl refl _ _ refl u refl]) (use 3 len "2.prems" in \<open>auto simp: kUeventMsgLen_def\<close>)
    then show ?thesis using 3 u uevent_strings_sensors[OF u] by (auto simp: Let_def)
  qed simp
qed simp

section \<open>An initialized service\<close>

definition helper_wf :: "string list \<Rightarrow> thermal_helper \<Rightarrow> bool" where
  "helper_wf types h \<longleftrightarrow>
     sorted_map (sensor_info_map h) \<and> map fst (sensor_status_map h) = map fst (sensor_info_map h) \<and>
     (\<forall>(n, i)\<in>set (sensor_info_map h). n \<noteq> [] \<and> sensor_ok types i \<and> getThermalFilePath n (thermal_sensors h) \<noteq> [])"

inductive thermal_reach :: "'j thermal_env \<Rightarrow> thermal_helper \<Rightarrow> bool" for e where
  start: "ThermalHelper_init e = Some (h, w, ws) \<Longrightarrow> is_initialized h \<Longrightarrow> thermal_reach e h"
| round: "thermal_reach e h \<Longrightarrow> thermalWatcherCallbackFunc rd uevents h = Some (b, ts, h') \<Longrightarrow> thermal_reach e h'"

lemma add_files_spec:
  "distinct (map fst fs) \<Longrightarrow> \<forall>(k, p)\<in>set fs. p \<noteq> [] \<Longrightarrow>
     distinct (map fst (add_files sfx path_map ns fs)) \<and> (\<forall>(k, p)\<in>set (add_files sfx path_map ns fs). p \<noteq> []) \<and>
     fst ` set (add_files sfx path_map ns fs) \<subseteq> fst ` set fs \<union> set ns"
proof (induction sfx path_map ns fs rule: add_files.induct)
  case (2 sfx path_map n ns fs)
  show ?case
  proof (cases "map_of path_map n")
    case None
    then show ?thesis using "2.IH"(1) "2.prems" by auto
  next
    case (Some p)
    let ?fs = "snd (addThermalFile n (in_dir p sfx) fs)"
    have f: "distinct (map fst ?fs)" "\<forall>(k, p)\<in>set ?fs. p \<noteq> []" "fst ` set ?fs \<subseteq> insert n (fst ` set fs)"
      using "2.prems" by (auto simp: addThermalFile_def in_dir_def map_of_eq_None_iff)
    have "add_files sfx path_map (n # ns) fs = add_files sfx path_map ns ?fs" by (simp add: Some)
    moreover note ih = "2.IH"(2)[OF Some f(1,2)]
    moreover have "fst ` set (add_files sfx path_map ns ?fs) \<subseteq> fst ` set fs \<union> set (n # ns)"
      using conjunct2[OF conjunct2[OF ih]] f(3) by (simp only: list.set) blast
    ultimately show ?thesis by presburger
  qed
qed auto

lemma all_files_found:
  assumes "fs = add_files sfx path_map (map fst m) []" "length m = length fs" "sorted_map m" "(n, i) \<in> set m"
  shows "getThermalFilePath n fs \<noteq> []"
proof -
  have d: "distinct (map fst fs)" "\<forall>(k, p)\<in>set fs. p \<noteq> []" "fst ` set fs \<subseteq> fst ` set m"
    using add_files_spec[of "[]" sfx path_map "map fst m"] assms(1) by auto
  have "card (fst ` set fs) = length fs" "card (fst ` set m) = length m"
    using d(1) sorted_map_distinct[OF assms(3)] distinct_card[of "map fst fs"] distinct_card[of "map fst m"] by simp_all
  then have "fst ` set fs = fst ` set m" using d(3) assms(2) by (simp add: card_subset_eq)
  then obtain p where "map_of fs n = Some p" using assms(4) by (metis fst_conv imageI map_of_eq_None_iff not_None_eq)
  then show ?thesis using d(2) map_of_SomeD by (fastforce simp: getThermalFilePath_def)
qed

lemma init_wf:
  assumes "ThermalHelper_init e = Some (h, w, ws)" "is_initialized h"
  shows "helper_wf (te_sensor_types e) h"
proof -
  obtain coolers sensors where p: "ParseCoolingDevice (te_json e) (te_cooling_types e) (te_config e) = Some coolers"
    "ParseSensorInfo (te_json e) (te_sensor_types e) (te_config e) = Some sensors"
    using assms(1) by (auto simp: ThermalHelper_init_def split: bind_splits)
  let ?tz = "parseThermalPathMap (te_read e) (te_dir e) kSensorPrefix"
  let ?fs = "add_files ''temp'' ?tz (map fst sensors) []"
  have h: "length sensors = length ?fs \<and> thermal_sensors h = ?fs \<and> sensor_info_map h = sensors \<and>
      sensor_status_map h = sensor_status_map (helper_start coolers sensors)"
    using assms p by (auto simp: ThermalHelper_init_def Let_def initializeSensorMap_def initializeCoolingDevices_def
        helper_start_def split: if_splits bind_splits prod.splits)
  have "map fst (sensor_status_map (helper_start coolers sensors)) = map fst sensors"
    by (simp add: helper_start_def comp_def case_prod_beta)
  then show ?thesis
    using h ParseSensorInfo_entries[OF p(2)] all_files_found[of ?fs "''temp''" ?tz sensors] by (auto simp: helper_wf_def)
qed

lemma reach_wf: "thermal_reach e h \<Longrightarrow> helper_wf (te_sensor_types e) h"
proof (induction rule: thermal_reach.induct)
  case (round h rd uevents b ts h')
  have "distinct (map fst (sensor_status_map h))" using round.IH sorted_map_distinct by (auto simp: helper_wf_def)
  from watcher_spec[OF round.hyps(2) this] show ?case using round.IH by (simp add: helper_wf_def same_sensors_def)
qed (rule init_wf)

lemma map_filter_member: "x \<in> set xs \<Longrightarrow> f x = Some y \<Longrightarrow> y \<in> set (List.map_filter f xs)"
  by (induction xs) (auto simp: map_filter_simps split: option.split)

lemma watch_sensors_total:
  assumes "\<And>n b ts h'. n \<in> set ns \<Longrightarrow> same_sensors h h' \<Longrightarrow> watch_sensor rd uevents n (b, ts, h') \<noteq> None"
  shows "watch_sensors rd uevents ns (b, ts, h) \<noteq> None"
  using assms
proof (induction ns arbitrary: b ts h)
  case (Cons n ns)
  obtain b1 ts1 h1 where w: "watch_sensor rd uevents n (b, ts, h) = Some (b1, ts1, h1)"
    using Cons.prems[of n h b ts] by (cases "watch_sensor rd uevents n (b, ts, h)") auto
  have "watch_sensors rd uevents ns (b1, ts1, h1) \<noteq> None"
    by (rule Cons.IH) (use Cons.prems same_sensors_trans[OF watch_sensor_spec(1)[OF w]] in auto)
  then show ?case using w by simp
qed simp

definition texts_convert :: "file_read \<Rightarrow> thermal_helper \<Rightarrow> bool" where
  "texts_convert rd h \<longleftrightarrow> (\<forall>n\<in>set (map fst (sensor_info_map h)).
     case readThermalFile rd n (thermal_sensors h) of None \<Rightarrow> True | Some tx \<Rightarrow> tx = [] \<or> stof tx \<noteq> None)"

lemma readTemperature_total:
  assumes "texts_convert rd h" "n \<in> set (map fst (sensor_info_map h))"
    and "map fst (sensor_status_map h) = map fst (sensor_info_map h)"
  shows "readTemperature rd n h \<noteq> None"
proof -
  obtain i s where info: "map_of (sensor_info_map h) n = Some i" "map_of (sensor_status_map h) n = Some s"
    using assms(2,3) by (metis map_of_eq_None_iff list.set_map option.exhaust)
  show ?thesis
  proof (cases "readThermalFile rd n (thermal_sensors h)")
    case (Some tx)
    then have "tx = [] \<or> stof tx \<noteq> None" using assms(1,2) by (auto simp: texts_convert_def split: option.splits)
    then show ?thesis using Some info by (auto simp: readTemperature_def Let_def)
  qed (simp add: readTemperature_def)
qed

section \<open>Properties\<close>

text \<open>
  Reading the messages of the kernel never leaves the buffer, whatever the messages and the old
  contents of the buffer are, and finds only monitored sensors; one well-formed message names the
  sensor of the first \<open>NAME=\<close> field after its field \<open>SUBSYSTEM=thermal\<close>, and none when its first
  \<open>SUBSYSTEM=\<close> field is another one.
\<close>

theorem thermal_uevent_exact:
  assumes "length buf = kUeventMsgLen + 2" "\<forall>msg\<in>set msgs. length msg \<le> kUeventMsgLen"
  shows "(\<exists>S. parseUevent mon buf msgs False {} = Some S \<and> S \<subseteq> mon) \<and>
    (\<forall>fs. msgs = [message fs] \<and> fs \<noteq> [] \<and> (\<forall>u\<in>set fs. c_string u) \<and> length (message fs) < kUeventMsgLen \<longrightarrow>
       parseUevent mon buf msgs False {} = Some (add_name mon (uevent_name fs) {}))"
proof (intro conjI allI impI)
  show "\<exists>S. parseUevent mon buf msgs False {} = Some S \<and> S \<subseteq> mon"
    using parseUevent_total[OF assms, of mon False "{}"] by auto
  fix fs
  assume f: "msgs = [message fs] \<and> fs \<noteq> [] \<and> (\<forall>u\<in>set fs. c_string u) \<and> length (message fs) < kUeventMsgLen"
  then have ne: "message fs \<noteq> []" by (cases fs) (auto simp: message_def)
  obtain cs where b: "((message fs @ drop (length (message fs)) buf)[length (message fs) := NUL])[Suc (length (message fs)) := NUL] =
      message fs @ NUL # NUL # cs"
    using message_buffer[of "message fs" buf] f assms(1) by blast
  show "parseUevent mon buf msgs False {} = Some (add_name mon (uevent_name fs) {})"
    using f ne uevent_message[of fs mon "NUL # cs" "{}"] by (auto simp: Let_def b)
qed

text \<open>
  The flag \<open>thermal_event\<close> outlives its message: in one batch, a message of another subsystem after a
  thermal one without a name reports the sensor that it names.
\<close>

lemma uevent_leaks:
  assumes "length buf = kUeventMsgLen + 2"
  shows "parseUevent {''soc''} buf
     [message [''SUBSYSTEM=thermal''], message [''SUBSYSTEM=power_supply'', ''NAME=soc'']] False {} = Some {''soc''}"
proof -
  have c: "\<forall>u\<in>set [''SUBSYSTEM=power_supply'', ''NAME=soc'']. c_string u"
    by (simp_all add: c_string_def)
  let ?m1 = "message [''SUBSYSTEM=thermal'']" and ?m2 = "message [''SUBSYSTEM=power_supply'', ''NAME=soc'']"
  have m: "?m1 \<noteq> []" "length ?m1 < kUeventMsgLen" "?m2 \<noteq> []" "length ?m2 < kUeventMsgLen"
    by (simp_all add: message_def kUeventMsgLen_def)
  obtain cs1 where b1: "length (?m1 @ NUL # NUL # cs1) = kUeventMsgLen + 2"
    and p1: "parseUevent {''soc''} buf [?m1, ?m2] False {} =
      do { (ev', S') \<leftarrow> uevent_strings {''soc''} (?m1 @ NUL # NUL # cs1) False {};
           parseUevent {''soc''} (?m1 @ NUL # NUL # cs1) [?m2] ev' S' }"
    by (rule parseUevent_message[OF m(1,2) assms])
  obtain cs2 where p2: "parseUevent {''soc''} (?m1 @ NUL # NUL # cs1) [?m2] True {} =
      do { (ev', S') \<leftarrow> uevent_strings {''soc''} (?m2 @ NUL # NUL # cs2) True {};
           parseUevent {''soc''} (?m2 @ NUL # NUL # cs2) [] ev' S' }"
    by (rule parseUevent_message[OF m(3,4) b1])
  have "?m1 @ NUL # NUL # cs1 = ''SUBSYSTEM=thermal'' @ NUL # (NUL # NUL # cs1)" by (simp add: message_def)
  then have s1: "uevent_strings {''soc''} (?m1 @ NUL # NUL # cs1) False {} = Some (True, {})"
    by (simp only:) (subst uevent_unfold; simp)
  have s2: "uevent_strings {''soc''} (?m2 @ NUL # NUL # cs2) True {} = Some (True, {''soc''})"
    using uevent_thermal[OF c, of "{''soc''}" "NUL # cs2" "{}"] by (simp add: add_name_def)
  show ?thesis by (simp only: p1 s1 p2 s2 bind.bind_lunit prod.case parseUevent.simps(1))
qed

text \<open>
  An initialized service keeps watching: after any rounds, every sensor of the configuration has
  its file and its status, and a round can fail only because the text of a sensor is no number; it
  reports every monitored sensor it concerns whose file can be read and is not empty.
\<close>

theorem watching_never_fails:
  assumes "thermal_reach e h" "texts_convert rd h"
  shows "\<exists>b ts h'. thermalWatcherCallbackFunc rd uevents h = Some (b, ts, h') \<and>
    (\<forall>n i. map_of (sensor_info_map h) n = Some i \<and> is_monitor i \<and> in_scope uevents n \<and>
       readThermalFile rd n (thermal_sensors h) \<notin> {None, Some []} \<longrightarrow> n \<in> t_name ` set ts)"
proof -
  have wf: "helper_wf (te_sensor_types e) h" by (rule reach_wf[OF assms(1)])
  let ?ns = "map fst (sensor_status_map h)"
  have keys: "map fst (sensor_status_map h) = map fst (sensor_info_map h)" and d: "distinct ?ns"
    using wf sorted_map_distinct by (auto simp: helper_wf_def)
  have one: "watch_sensor rd uevents n (b, ts, h') \<noteq> None" if "n \<in> set ?ns" "same_sensors h h'" for n b ts h'
  proof -
    have "texts_convert rd h'" "n \<in> set (map fst (sensor_info_map h'))"
      "map fst (sensor_status_map h') = map fst (sensor_info_map h')"
      using that keys assms(2) by (simp_all add: same_sensors_def texts_convert_def)
    note t = readTemperature_total[OF this] this(2,3)
    then obtain i s where "map_of (sensor_info_map h') n = Some i" "map_of (sensor_status_map h') n = Some s"
      by (metis map_of_eq_None_iff list.set_map option.exhaust)
    then show ?thesis using t(1) by (auto simp: watch_sensor_def split: option.split)
  qed
  have "thermalWatcherCallbackFunc rd uevents h \<noteq> None"
    unfolding thermalWatcherCallbackFunc_def by (rule watch_sensors_total) (rule one; assumption)+
  then obtain b ts h' where c: "thermalWatcherCallbackFunc rd uevents h = Some (b, ts, h')" by auto
  have "n \<in> t_name ` set ts" if i: "map_of (sensor_info_map h) n = Some i" "is_monitor i" "in_scope uevents n"
      "readThermalFile rd n (thermal_sensors h) \<notin> {None, Some []}" for n i
  proof -
    have n: "n \<in> set (map fst (sensor_info_map h))" using i(1) by (metis map_of_eq_None_iff list.set_map option.distinct(1))
    obtain t st where r: "readTemperature rd n h = Some (Some (t, st))"
      using readTemperature_total[OF assms(2) n keys] i(4)
      by (auto simp: readTemperature_def Let_def split: option.splits if_splits bind_splits)
    then have f: "fresh rd uevents h n = Some (t, st)" using i by (simp add: fresh_def monitored_def)
    have "n \<in> set ?ns" using n keys by simp
    then have "(t, st) \<in> set (List.map_filter (fresh rd uevents h) ?ns)"
      by (rule map_filter_member) (rule f)
    moreover have "ts = map fst (List.map_filter (fresh rd uevents h) ?ns)" using watcher_spec[OF c d] by blast
    ultimately have "t \<in> set ts" by force
    moreover have "t_name t = n" using readTemperature_Some[OF r i(1,2)] by blast
    ultimately show ?thesis by force
  qed
  then show ?thesis using c by blast
qed

text \<open>A round that reads a sensor asks for the short timeout, whatever the severity is.\<close>

lemma polling_stays_short:
  assumes "threadLoop rd None buf msgs w h = Some (w', h', ts)" "ts \<noteq> []" "distinct (map fst (sensor_status_map h))"
  shows "poll_timeout w' = 2000"
proof -
  obtain b where c: "thermalWatcherCallbackFunc rd {} h = Some (b, ts, h')" and w': "w' = w\<lparr>thermal_triggered := b\<rparr>"
    using assms(1) by (auto simp: threadLoop_def run_callback_def split: bind_splits)
  have b using watcher_spec[OF c assms(3)] assms(2) by blast
  then show ?thesis by (simp add: w' poll_timeout_def)
qed

end
