(* ===== verification/Spec2Isabelle.thy ===== *)
theory Spec2Isabelle
  imports Manager_Spec Layer_Slots Kms_Present Subscriptions Vms_Messages Prop_Store Thermal_Watch
begin

text \<open>
  Verification of three parts of the hardware abstraction layer of the i.MX boards,
  \<open>android_hardware_imx\<close>: the display, the vehicle data, and the thermal service.

  \<^bold>\<open>The display\<close> (\<open>src/display/display\<close>, \<open>src/libedid\<close>) sits between the Android composer and the
  hardware.  \<open>DisplayManager\<close> finds the cards of the kernel and keeps a \<open>KmsDisplay\<close> for each connector,
  beside virtual displays.  A \<open>Display\<close> holds 64 layers and a table of modes: \<open>verifyLayers\<close> decides
  which layers the 2D engine composes, \<open>composeLayers\<close> has the \<open>Composer\<close> draw them into a buffer of the
  \<open>MemoryManager\<close>, and \<open>KmsDisplay\<close> puts the buffer, and one more layer as an overlay, on planes of the
  CRTC with an atomic commit.  Its \<open>VSyncThread\<close> tells the listener when a frame is shown, its
  \<open>ConfigThread\<close> changes the mode at a given time.  A camera process can register a layer of its own,
  whose frames arrive through a \<open>BufferSlot\<close>.

  \<^item> \<open>HAL_Prelude\<close>: machine words, flags, alignment, loops over indices.  \<open>Sorted_Map\<close> and \<open>C_Strings\<close>:
    \<open>std::map\<close> as a sorted list, under the locale \<open>keyed_map\<close>, and strings of C in a buffer.
  \<^item> \<open>Buffer_Slot\<close> (\<open>Display.cpp\<close>): the queue of free slots and the queue of frames are instances of the
    locale \<open>frame_queue\<close>; \<open>slot_step\<close> is one step of a producer or of the composition thread, at the
    granularity of the mutex.  Every slot has one owner, the shown one is never written, frames come
    in order.
  \<^item> \<open>Memory_Desc\<close>, \<open>Memory_Manager\<close> (\<open>MemoryDesc.cpp\<close>, \<open>Memory.cpp\<close>, \<open>IonManager.cpp\<close>,
    \<open>MemoryManager.cpp\<close>): the size of a buffer of each format in the arithmetic of \<open>int\<close> and \<open>size_t\<close>,
    exact up to 8192 by 8192; handles as a heap with a log of system calls, where an operation on a
    dangling handle has no result.  Every descriptor is closed exactly once, and the planes that a lock
    gives lie in the buffer.
  \<^item> \<open>Layers\<close>, \<open>Compose2D\<close> (\<open>Layer.cpp\<close>, \<open>Composer.cpp\<close>): the state logs what is asked of the engine.  The
    lemmas say what is drawn, and which capabilities are on at each blit.
  \<^item> \<open>Display_Config\<close>, \<open>Kms_Mode\<close> (\<open>Display.cpp\<close>, \<open>KmsDisplay.cpp\<close>): the table of modes, the choice of a
    mode and the text that asks for one.
  \<^item> \<open>Display_Layers\<close>, \<open>Display_Verify\<close>, \<open>Display_Compose\<close>, \<open>Layer_Slots\<close> (\<open>Display.cpp\<close>): the layers of a
    display, \<open>verifyLayers\<close> with the invariant of its second loop, \<open>composeLayers\<close> with its locks, and the
    layers as an instance of the locale \<open>id_pool\<close> of \<open>Id_Pool\<close>.
  \<^item> \<open>Edid_Parser\<close> (\<open>libedid/Edid.cpp\<close>): the parser of the EDID blob: bounds, and a round trip with an
    encoder.
  \<^item> \<open>Kms_Device\<close>, \<open>Kms_Open\<close>, \<open>Kms_Frame\<close>, \<open>Kms_Present\<close> (\<open>KmsDisplay.cpp\<close>): the discovery of connector,
    CRTC and planes; the invariant of the configurations over \<open>kms_step\<close>; \<open>performOverlay\<close> and
    \<open>updateScreen\<close>; and what the property set of a commit says.  A commit is tried 32 times, as in the
    code.
  \<^item> \<open>Kms_Vsync\<close> (\<open>KmsDisplay.cpp\<close>): the two threads.  A round of \<open>VSyncThread\<close> takes the calls that other
    threads make while it sleeps; \<open>ConfigThread\<close> is a program counter (\<open>cfg_pc\<close>) with a step from one
    access of the shared members to the next.  A request whose times have come is finished in
    eight steps: the wait, the read of the configuration, its time, the mode, the active configuration,
    the end of the request, the refresh, and the way back to the wait.
  \<^item> \<open>Hotplug_Events\<close>, \<open>Display_Manager\<close>, \<open>Manager_Spec\<close> (\<open>DisplayManager.cpp\<close>, \<open>VirtualDisplay.cpp\<close>): messages
    of the kernel in a buffer of 4096 bytes; the manager with 10 physical and 16 virtual displays, its
    reachable states \<open>dm_reach\<close>, and what a hotplug reports.  Virtual displays are a second instance of
    \<open>id_pool\<close>.

  \<^bold>\<open>The vehicle data\<close> (\<open>src/vehicle/common\<close>): \<open>Prop_Store\<close> is the store of property values, a second
  user of \<open>Sorted_Map\<close>, which refines a partial map; \<open>Subscriptions\<close> is \<open>SubscriptionManager\<close> with its
  clients, which refines a set of pairs, and the distribution of values to clients; \<open>Vms_Messages\<close> has
  the messages of the map service, their construction and their parsers.

  \<^bold>\<open>The thermal service\<close> (\<open>src/thermal\<close>): \<open>Float32\<close> and \<open>Number_Text\<close> are binary32 arithmetic with
  rounding and the conversions of the C++ library; \<open>Thermal_Config\<close> is \<open>config_parser.cpp\<close>,
  \<open>Thermal_Severity\<close> the severity of a temperature, whose hot and cold side are the two instances of
  the locale \<open>hysteresis\<close>, \<open>Thermal_Helper\<close> the readings and the rounds of the watcher, and
  \<open>Thermal_Watch\<close> the start of the service, its watcher thread and the messages of the kernel, in a
  buffer of 2048 bytes.  The lemmas of \<open>Thermal_Watch\<close> say that a message never leads out of the buffer
  and that an initialized service goes on watching.

  \<^bold>\<open>Correspondence.\<close>  A class is a record with the members of the source, a method is a definition of
  the same name, a raise or an early return is a branch.  Undefined behaviour (a dangling pointer, a
  read out of bounds, a conversion that does not fit) and an uncaught exception are the result
  \<open>None\<close>.  Locks are the boundaries of steps where interleavings matter (\<open>slot_step\<close>, \<open>create_step\<close>,
  \<open>config_step\<close>, \<open>onCallbackDead\<close>, the sleep in \<open>vsync_loop\<close>); elsewhere a method that holds its lock
  is one step.

  \<^bold>\<open>Parameters.\<close>  What is not in the repository is an argument: the libraries \<open>libg2d\<close> and
  \<open>libgpuhelper\<close>, the GPU allocator, the kernel with \<open>libdrm\<close>, JSON, \<open>Rect\<close>, \<open>Region\<close> and
  \<open>SortedVector\<close> of Android, the numbers of the vehicle interface.  The build options (\<open>build_cfg\<close>) are an
  argument too, so that a theorem holds for every board.

  \<^bold>\<open>Not modelled\<close>: what only moves data between the kernel and an Android interface (the adaptors of
  gralloc and hwcomposer, the second composer service, audio, cameras, sensors, USB, the binder classes of
  the services), the legacy framebuffer display, numerical code of the surround view, and logging.
\<close>

section \<open>From verification to the screen\<close>



end
